(* ===== verification/Prelude.thy ===== *)
theory Prelude
  imports Main
begin

text \<open>
  Shared vocabulary of the development.

  \<^item> Results: every Go function that returns \<open>(T, error)\<close> is a value of the sum type
    \<open>'e + 'a\<close>, the error on the left. \<open>rbind\<close> is the \<open>if err != nil { return err }\<close> that
    follows each such call.
  \<^item> Tables: a Postgres table is the list of its rows in insertion order. The operations are
    the ones the SQL of \<^verbatim>\<open>internal/*/queries\<close> needs: lookup by key, conditional update,
    conditional delete, insert with a primary-key check.
  \<^item> Two interfaces as locales: \<open>keyed_rows\<close> (what a client may assume of a table with a primary
    key) and \<open>step_machine\<close> (an operation that keeps an invariant, so that runs keep it).
\<close>

named_theorems result_simps "how results of sequenced calls are inverted"
named_theorems table_simps "how lookups see updates, deletes and inserts of a table"

subsection \<open>Results\<close>

fun rbind :: "'e + 'a \<Rightarrow> ('a \<Rightarrow> 'e + 'b) \<Rightarrow> 'e + 'b" where
  "rbind (Inl e) f = Inl e"
| "rbind (Inr x) f = f x"

lemma rbind_Inr_iff [result_simps]: "rbind m f = Inr y \<longleftrightarrow> (\<exists>x. m = Inr x \<and> f x = Inr y)"
  by (cases m) auto

lemma rbind_Inl_iff [result_simps]:
  "rbind m f = Inl e \<longleftrightarrow> m = Inl e \<or> (\<exists>x. m = Inr x \<and> f x = Inl e)"
  by (cases m) auto

fun of_option :: "'e \<Rightarrow> 'a option \<Rightarrow> 'e + 'a" where
  "of_option e None = Inl e"
| "of_option e (Some x) = Inr x"

lemma of_option_Inr_iff [result_simps]: "of_option e m = Inr x \<longleftrightarrow> m = Some x"
  by (cases m) auto

lemma of_option_Inl_iff [result_simps]: "of_option e m = Inl e' \<longleftrightarrow> m = None \<and> e' = e"
  by (cases m) auto

definition check :: "bool \<Rightarrow> 'e \<Rightarrow> 'e + unit" where
  "check ok e = (if ok then Inr () else Inl e)"

lemma check_Inr_iff [result_simps]: "check ok e = Inr u \<longleftrightarrow> ok"
  by (simp add: check_def)

lemma check_Inl_iff [result_simps]: "check ok e = Inl e' \<longleftrightarrow> \<not> ok \<and> e' = e"
  by (auto simp: check_def)

subsection \<open>Tables\<close>

definition tget :: "('r \<Rightarrow> 'k) \<Rightarrow> 'k \<Rightarrow> 'r list \<Rightarrow> 'r option" where
  "tget key k t = find (\<lambda>r. key r = k) t"

definition tupd :: "('r \<Rightarrow> bool) \<Rightarrow> ('r \<Rightarrow> 'r) \<Rightarrow> 'r list \<Rightarrow> 'r list" where
  "tupd p f t = map (\<lambda>r. if p r then f r else r) t"

definition tdel :: "('r \<Rightarrow> bool) \<Rightarrow> 'r list \<Rightarrow> 'r list" where
  "tdel p t = filter (\<lambda>r. \<not> p r) t"

definition tins :: "('r \<Rightarrow> 'k) \<Rightarrow> 'r \<Rightarrow> 'r list \<Rightarrow> 'r list option" where
  "tins key r t = (if tget key (key r) t = None then Some (t @ [r]) else None)"

definition tuniq :: "('r \<Rightarrow> 'k) \<Rightarrow> 'r list \<Rightarrow> bool" where
  "tuniq key t = distinct (map key t)"

lemma tget_Some_in: "tget key k t = Some r \<Longrightarrow> r \<in> set t \<and> key r = k"
  by (auto simp: tget_def find_Some_iff)

lemma tget_None_iff: "tget key k t = None \<longleftrightarrow> (\<forall>r \<in> set t. key r \<noteq> k)"
  by (auto simp: tget_def find_None_iff)

lemma tget_Nil [simp]: "tget key k [] = None"
  by (simp add: tget_def)

lemma tget_Cons: "tget key k (r # t) = (if key r = k then Some r else tget key k t)"
  by (simp add: tget_def)

lemma tget_append: "tget key k (t @ u) = (case tget key k t of None \<Rightarrow> tget key k u | Some r \<Rightarrow> Some r)"
  by (induction t) (auto simp: tget_Cons)

lemma tget_in_uniq: "tuniq key t \<Longrightarrow> r \<in> set t \<Longrightarrow> tget key (key r) t = Some r"
  by (induction t) (auto simp: tuniq_def tget_Cons rev_image_eqI)

lemma tuniq_inj: "tuniq key t \<Longrightarrow> r \<in> set t \<Longrightarrow> r' \<in> set t \<Longrightarrow> key r = key r' \<Longrightarrow> r = r'"
  using tget_in_uniq by (metis option.inject)

lemma tget_tupd [table_simps]:
  "(\<And>r. key (f r) = key r) \<Longrightarrow>
   tget key k (tupd p f t) = map_option (\<lambda>r. if p r then f r else r) (tget key k t)"
  by (induction t) (auto simp: tupd_def tget_Cons)

lemma tget_tdel_other:
  "(\<And>r. p r \<Longrightarrow> key r \<noteq> k) \<Longrightarrow> tget key k (tdel p t) = tget key k t"
  by (induction t) (auto simp: tdel_def tget_Cons)

lemma tget_tdel_None: "tget key k t = None \<Longrightarrow> tget key k (tdel p t) = None"
  by (auto simp: tget_None_iff tdel_def)

lemma tget_tdel_key [table_simps]: "tget key k (tdel (\<lambda>r. key r = k) t) = None"
  by (auto simp: tget_None_iff tdel_def)

lemma tget_tins [table_simps]:
  "tins key r t = Some t' \<Longrightarrow> tget key k t' = (if k = key r then Some r else tget key k t)"
  by (auto simp: tins_def tget_append tget_Cons split: if_splits option.splits)

lemma set_tupd: "set (tupd p f t) = (\<lambda>r. if p r then f r else r) ` set t"
  by (auto simp: tupd_def)

lemma in_tupdE:
  assumes "r' \<in> set (tupd p f t)"
  obtains r where "r \<in> set t" and "r' = (if p r then f r else r)"
  using assms by (auto simp: tupd_def)

lemma set_tdel [simp]: "set (tdel p t) = {r \<in> set t. \<not> p r}"
  by (auto simp: tdel_def)

lemma set_tins: "tins key r t = Some t' \<Longrightarrow> set t' = insert r (set t)"
  by (auto simp: tins_def split: if_splits)

lemma tuniq_Nil [simp]: "tuniq key []"
  by (simp add: tuniq_def)

lemma map_key_tupd: "(\<And>r. key (f r) = key r) \<Longrightarrow> map key (tupd p f t) = map key t"
  by (auto simp: tupd_def)

lemma tuniq_tupd [simp]: "(\<And>r. key (f r) = key r) \<Longrightarrow> tuniq key (tupd p f t) = tuniq key t"
  by (simp add: tuniq_def map_key_tupd)

lemma tuniq_tdel: "tuniq key t \<Longrightarrow> tuniq key (tdel p t)"
  by (simp add: tuniq_def tdel_def distinct_map_filter)

lemma tuniq_tins: "tins key r t = Some t' \<Longrightarrow> tuniq key t \<Longrightarrow> tuniq key t'"
  by (auto simp: tins_def tuniq_def tget_None_iff image_iff split: if_splits) metis

lemma tins_eq: "tins key r t = Some t' \<Longrightarrow> t' = t @ [r] \<and> (\<forall>x \<in> set t. key x \<noteq> key r)"
  by (auto simp: tins_def tget_None_iff split: if_splits)

lemma filter_tupd:
  "(\<And>r. q (if p r then f r else r) = q r) \<Longrightarrow> filter q (tupd p f t) = tupd p f (filter q t)"
  by (induction t) (auto simp: tupd_def)

lemma length_tupd [simp]: "length (tupd p f t) = length t"
  by (simp add: tupd_def)

lemma filter_tdel: "filter q (tdel p t) = tdel p (filter q t)"
  by (induction t) (auto simp: tdel_def)

lemma length_filter_tdel_le: "length (filter q (tdel p t)) \<le> length (filter q t)"
  by (induction t) (auto simp: tdel_def)

text \<open>
  The number of rows that satisfy a predicate, the \<^verbatim>\<open>SELECT count(*)\<close> of the queries.
\<close>

definition tcount :: "('r \<Rightarrow> bool) \<Rightarrow> 'r list \<Rightarrow> nat" where
  "tcount p t = length (filter p t)"

lemma tcount_Nil [simp]: "tcount p [] = 0"
  by (simp add: tcount_def)

lemma tcount_append [simp]: "tcount p (t @ u) = tcount p t + tcount p u"
  by (simp add: tcount_def)

lemma tcount_Cons [simp]: "tcount p (r # t) = (if p r then 1 else 0) + tcount p t"
  by (simp add: tcount_def)

lemma tcount_tdel_le: "tcount p (tdel q t) \<le> tcount p t"
  by (simp add: tcount_def length_filter_tdel_le)

lemma tcount_0_iff: "tcount p t = 0 \<longleftrightarrow> (\<forall>r \<in> set t. \<not> p r)"
  by (auto simp: tcount_def filter_empty_conv)

lemma tcount_cong: "(\<And>r. r \<in> set t \<Longrightarrow> p r = q r) \<Longrightarrow> tcount p t = tcount q t"
  by (simp add: tcount_def cong: filter_cong)

lemma tcount_tupd:
  "(\<And>r. r \<in> set t \<Longrightarrow> q (if p r then f r else r) = q r) \<Longrightarrow> tcount q (tupd p f t) = tcount q t"
  by (induction t) (auto simp: tupd_def)

lemma tcount_mono: "(\<And>r. r \<in> set t \<Longrightarrow> p r \<Longrightarrow> q r) \<Longrightarrow> tcount p t \<le> tcount q t"
  by (induction t) auto

subsection \<open>What a client may assume of a table with a primary key\<close>

locale keyed_rows =
  fixes key :: "'r \<Rightarrow> 'k"
    and look :: "'k \<Rightarrow> 't \<Rightarrow> 'r option"
    and add :: "'r \<Rightarrow> 't \<Rightarrow> 't option"
    and drop_key :: "'k \<Rightarrow> 't \<Rightarrow> 't"
    and ok :: "'t \<Rightarrow> bool"
  assumes look_add: "add r t = Some t' \<Longrightarrow> look k t' = (if k = key r then Some r else look k t)"
    and add_fresh: "look (key r) t = None \<longleftrightarrow> add r t \<noteq> None"
    and look_drop: "look k (drop_key k' t) = (if k = k' then None else look k t)"
    and ok_add: "ok t \<Longrightarrow> add r t = Some t' \<Longrightarrow> ok t'"
    and ok_drop: "ok t \<Longrightarrow> ok (drop_key k t)"
begin

lemma add_twice_fails: "add r t = Some t' \<Longrightarrow> key r' = key r \<Longrightarrow> add r' t' = None"
  using look_add [of r t t' "key r"] add_fresh [of r' t'] by (cases "add r' t'") auto

lemma add_after_drop: "\<exists>t'. add r (drop_key (key r) t) = Some t'"
  using add_fresh [of r "drop_key (key r) t"] by (auto simp: look_drop)

lemma drop_after_add:
  "add r t = Some t' \<Longrightarrow> look k (drop_key (key r) t') = (if k = key r then None else look k t)"
  by (simp add: look_drop look_add)

end

interpretation rows: keyed_rows key "tget key" "tins key" "\<lambda>k. tdel (\<lambda>r. key r = k)" "tuniq key"
  for key :: "'r \<Rightarrow> 'k"
proof unfold_locales
  show "tget key k (tdel (\<lambda>r. key r = k') t) = (if k = k' then None else tget key k t)" for k k' t
    by (cases "k = k'") (auto simp: tget_tdel_key intro: tget_tdel_other)
  show "tget key (key r) t = None \<longleftrightarrow> tins key r t \<noteq> None" for r t
    by (simp add: tins_def)
qed (simp_all add: tget_tins tuniq_tdel tuniq_tins)

subsection \<open>Operations that keep an invariant\<close>

locale step_machine =
  fixes step :: "'op \<Rightarrow> 's \<Rightarrow> 's"
    and inv :: "'s \<Rightarrow> bool"
  assumes step_inv: "inv s \<Longrightarrow> inv (step x s)"
begin

lemma run_inv: "inv s \<Longrightarrow> inv (fold step xs s)"
  by (induction xs arbitrary: s) (auto intro: step_inv)

lemma run_prefix_inv: "inv s \<Longrightarrow> xs = ys @ zs \<Longrightarrow> inv (fold step ys s)"
  by (simp add: run_inv)

end

text \<open>
  A failed call changes nothing: every mutating method opens a transaction and rolls it back on
  every error path, so a client that ignores the error continues from the state before the call.
\<close>

fun commit :: "'s \<Rightarrow> 'e + ('a \<times> 's) \<Rightarrow> 's" where
  "commit s (Inl e) = s"
| "commit s (Inr (x, s')) = s'"

lemma commit_inv:
  "P s \<Longrightarrow> (\<And>x s'. m = Inr (x, s') \<Longrightarrow> P s') \<Longrightarrow> P (commit s m)"
  by (cases m) auto

subsection \<open>Transactions as state-passing functions\<close>

text \<open>
  A method body is a function from the database to an error or a result and the database after it.
  \<open>tx m k\<close> runs \<open>m\<close> and, when it succeeds, \<open>k\<close> on its result: Go's call followed by
  \<^verbatim>\<open>if err != nil { return err }\<close>. \<open>keeps P m\<close> says that every successful run of \<open>m\<close> keeps \<open>P\<close>.
\<close>

type_synonym ('s, 'e, 'a) tx = "'s \<Rightarrow> 'e + ('a \<times> 's)"

definition tx :: "('s, 'e, 'a) tx \<Rightarrow> ('a \<Rightarrow> ('s, 'e, 'b) tx) \<Rightarrow> ('s, 'e, 'b) tx" where
  "tx m k s = (case m s of Inl e \<Rightarrow> Inl e | Inr (x, s') \<Rightarrow> k x s')"

definition ret :: "'a \<Rightarrow> ('s, 'e, 'a) tx" where
  "ret x s = Inr (x, s)"

definition raise :: "'e \<Rightarrow> ('s, 'e, 'a) tx" where
  "raise e s = Inl e"

definition ensure :: "bool \<Rightarrow> 'e \<Rightarrow> ('s, 'e, unit) tx" where
  "ensure b e s = (if b then Inr ((), s) else Inl e)"

definition reads :: "('s \<Rightarrow> 'a) \<Rightarrow> ('s, 'e, 'a) tx" where
  "reads f s = Inr (f s, s)"

definition writes :: "('s \<Rightarrow> 's) \<Rightarrow> ('s, 'e, unit) tx" where
  "writes f s = Inr ((), f s)"

definition lookup_or :: "'e \<Rightarrow> ('s \<Rightarrow> 'a option) \<Rightarrow> ('s, 'e, 'a) tx" where
  "lookup_or e f s = (case f s of None \<Rightarrow> Inl e | Some x \<Rightarrow> Inr (x, s))"

definition of_result :: "'e + 'a \<Rightarrow> ('s, 'e, 'a) tx" where
  "of_result r s = (case r of Inl e \<Rightarrow> Inl e | Inr x \<Rightarrow> Inr (x, s))"

fun for_each :: "('a \<Rightarrow> ('s, 'e, unit) tx) \<Rightarrow> 'a list \<Rightarrow> ('s, 'e, unit) tx" where
  "for_each f [] = ret ()"
| "for_each f (x # xs) = tx (f x) (\<lambda>_. for_each f xs)"

lemma tx_Inr_iff [result_simps]:
  "tx m k s = Inr (y, s'') \<longleftrightarrow> (\<exists>x s'. m s = Inr (x, s') \<and> k x s' = Inr (y, s''))"
  by (auto simp: tx_def split: sum.splits)

lemma tx_InrE:
  assumes "tx m k s = Inr (y, s'')"
  obtains x s' where "m s = Inr (x, s')" and "k x s' = Inr (y, s'')"
  using assms by (auto simp: tx_Inr_iff)

lemma tx_Inl_iff [result_simps]:
  "tx m k s = Inl e \<longleftrightarrow> m s = Inl e \<or> (\<exists>x s'. m s = Inr (x, s') \<and> k x s' = Inl e)"
  by (auto simp: tx_def split: sum.splits)

lemma ret_Inr_iff [result_simps]: "ret x s = Inr (y, s') \<longleftrightarrow> y = x \<and> s' = s"
  by (auto simp: ret_def)

lemma ret_Inl_iff [result_simps]: "ret x s \<noteq> Inl e"
  by (simp add: ret_def)

lemma raise_Inr_iff [result_simps]: "raise e s \<noteq> Inr r"
  by (simp add: raise_def)

lemma raise_Inl_iff [result_simps]: "raise e s = Inl e' \<longleftrightarrow> e' = e"
  by (auto simp: raise_def)

lemma ensure_Inr_iff [result_simps]: "ensure b e s = Inr (u, s') \<longleftrightarrow> b \<and> s' = s"
  by (auto simp: ensure_def)

lemma ensure_Inl_iff [result_simps]: "ensure b e s = Inl e' \<longleftrightarrow> \<not> b \<and> e' = e"
  by (auto simp: ensure_def)

lemma reads_Inr_iff [result_simps]: "reads f s = Inr (x, s') \<longleftrightarrow> x = f s \<and> s' = s"
  by (auto simp: reads_def)

lemma reads_Inl_iff [result_simps]: "reads f s \<noteq> Inl e"
  by (simp add: reads_def)

lemma writes_Inr_iff [result_simps]: "writes f s = Inr (u, s') \<longleftrightarrow> s' = f s"
  by (auto simp: writes_def)

lemma writes_Inl_iff [result_simps]: "writes f s \<noteq> Inl e"
  by (simp add: writes_def)

lemma lookup_or_Inr_iff [result_simps]: "lookup_or e f s = Inr (x, s') \<longleftrightarrow> f s = Some x \<and> s' = s"
  by (auto simp: lookup_or_def split: option.splits)

lemma lookup_or_Inl_iff [result_simps]: "lookup_or e f s = Inl e' \<longleftrightarrow> f s = None \<and> e' = e"
  by (auto simp: lookup_or_def split: option.splits)

lemma of_result_Inr_iff [result_simps]: "of_result r s = Inr (x, s') \<longleftrightarrow> r = Inr x \<and> s' = s"
  by (auto simp: of_result_def split: sum.splits)

lemma of_result_Inl_iff [result_simps]: "of_result r s = Inl e \<longleftrightarrow> r = Inl e"
  by (auto simp: of_result_def split: sum.splits)

definition keeps :: "('s \<Rightarrow> bool) \<Rightarrow> ('s, 'e, 'a) tx \<Rightarrow> bool" where
  "keeps P m \<longleftrightarrow> (\<forall>s x s'. P s \<longrightarrow> m s = Inr (x, s') \<longrightarrow> P s')"

named_theorems keeps_intros "rules that build a proof that a transaction keeps a predicate"

lemma keepsI: "(\<And>s x s'. P s \<Longrightarrow> m s = Inr (x, s') \<Longrightarrow> P s') \<Longrightarrow> keeps P m"
  by (auto simp: keeps_def)

lemma keepsD: "keeps P m \<Longrightarrow> P s \<Longrightarrow> m s = Inr (x, s') \<Longrightarrow> P s'"
  by (auto simp: keeps_def)

lemma keeps_tx [keeps_intros]: "keeps P m \<Longrightarrow> (\<And>x. keeps P (k x)) \<Longrightarrow> keeps P (tx m k)"
  unfolding keeps_def tx_Inr_iff by blast

lemma keeps_ret [keeps_intros]: "keeps P (ret x)"
  and keeps_raise [keeps_intros]: "keeps P (raise e)"
  and keeps_ensure [keeps_intros]: "keeps P (ensure b e)"
  and keeps_reads [keeps_intros]: "keeps P (reads f)"
  and keeps_lookup_or [keeps_intros]: "keeps P (lookup_or e g)"
  and keeps_of_result [keeps_intros]: "keeps P (of_result r)"
  by (auto simp: keeps_def result_simps)

lemma keeps_writes: "(\<And>s. P s \<Longrightarrow> P (f s)) \<Longrightarrow> keeps P (writes f)"
  by (auto simp: keeps_def result_simps)

lemma keeps_for_each [keeps_intros]: "(\<And>x. x \<in> set xs \<Longrightarrow> keeps P (f x)) \<Longrightarrow> keeps P (for_each f xs)"
  by (induction xs) (simp_all add: keeps_ret keeps_tx)

lemma keeps_if [keeps_intros]: "keeps P m \<Longrightarrow> keeps P m' \<Longrightarrow> keeps P (if b then m else m')"
  by simp

lemma keeps_option [keeps_intros]:
  "keeps P m \<Longrightarrow> (\<And>x. keeps P (k x)) \<Longrightarrow> keeps P (case z of None \<Rightarrow> m | Some x \<Rightarrow> k x)"
  by (cases z) auto

lemma keeps_prod [keeps_intros]: "(\<And>x y. keeps P (k x y)) \<Longrightarrow> keeps P (case z of (x, y) \<Rightarrow> k x y)"
  by (cases z) auto

lemma keeps_let [keeps_intros]: "keeps P (k x) \<Longrightarrow> keeps P (let y = x in k y)"
  by simp

lemma keeps_sum [keeps_intros]:
  "(\<And>x. keeps P (k x)) \<Longrightarrow> (\<And>y. keeps P (l y)) \<Longrightarrow> keeps P (case z of Inl x \<Rightarrow> k x | Inr y \<Rightarrow> l y)"
  by (cases z) auto

subsection \<open>Running a transaction\<close>

named_theorems exec_simps "equations that run a transaction on a concrete state"

lemma tx_exec [exec_simps]:
  "tx (ret x) k s = k x s" "tx (raise e) l s = Inl e" "tx (reads f) m s = m (f s) s"
  "tx (writes g) n s = n () (g s)" "tx (ensure b e) n s = (if b then n () s else Inl e)"
  "tx (lookup_or e h) p s = (case h s of None \<Rightarrow> Inl e | Some y \<Rightarrow> p y s)"
  "tx (of_result r) q s = (case r of Inl e \<Rightarrow> Inl e | Inr y \<Rightarrow> q y s)"
  by (simp_all add: tx_def ret_def raise_def reads_def writes_def ensure_def lookup_or_def of_result_def
      split: option.split sum.split)

lemma tx_assoc [exec_simps]: "tx (tx m l) k s = tx m (\<lambda>x. tx (l x) k) s"
  by (simp add: tx_def split: sum.split)

lemma last_exec [exec_simps]:
  "ret x s = Inr (x, s)" "raise e s = Inl e" "reads f s = Inr (f s, s)" "writes g s = Inr ((), g s)"
  "ensure b e s = (if b then Inr ((), s) else Inl e)"
  by (simp_all add: ret_def raise_def reads_def writes_def ensure_def)

lemma tx_apply: "m s = Inr (x, s') \<Longrightarrow> tx m k s = k x s'"
  by (simp add: tx_def)

end
