(* ===== verification/GoText.thy ===== *)
theory GoText
  imports Prelude
begin

text \<open>
  The parts of Go's \<^verbatim>\<open>strings\<close> and \<^verbatim>\<open>strconv\<close> packages the program calls. A Go string is a list
  of bytes (\<open>string\<close>, one \<open>char\<close> per byte), so \<open>length\<close> is Go's \<open>len\<close>.

  \<^item> \<open>TrimSpace\<close> strips the UTF-8 encodings of Unicode white space from both ends.
  \<^item> \<open>ParseInt\<close> is \<open>strconv.ParseInt(s, 10, 64)\<close>: optional sign, decimal digits, 64-bit range;
    every error is \<open>None\<close> (no caller tells syntax from range errors). \<open>FormatInt\<close> is its inverse.
  \<^item> \<open>rune_len\<close> and \<open>runes\<close> decode UTF-8 as \<^verbatim>\<open>range\<close> over a string does, an invalid byte becoming
    U+FFFD; \<open>valid_utf8\<close> is what Postgres accepts.
  \<^item> \<open>Cut\<close>, \<open>last_cut\<close> and \<open>Join\<close> split and join on a separator.
\<close>

subsection \<open>White space\<close>

definition white_space :: "string list" where
  "white_space =
    map (\<lambda>n. [char_of n]) [9, 10, 11, 12, 13, 32 :: nat] @
    [map char_of [0xC2, 0x85 :: nat], map char_of [0xC2, 0xA0 :: nat],
     map char_of [0xE1, 0x9A, 0x80 :: nat]] @
    map (\<lambda>n. map char_of [0xE2, 0x80, n]) [0x80, 0x81, 0x82, 0x83, 0x84, 0x85, 0x86, 0x87, 0x88,
      0x89, 0x8A, 0xA8, 0xA9, 0xAF :: nat] @
    [map char_of [0xE2, 0x81, 0x9F :: nat], map char_of [0xE3, 0x80, 0x80 :: nat]]"

fun strip_any :: "string list \<Rightarrow> string \<Rightarrow> string option" where
  "strip_any [] s = None"
| "strip_any (w # ws) s =
     (if w \<noteq> [] \<and> take (length w) s = w then Some (drop (length w) s) else strip_any ws s)"

lemma strip_any_shorter: "strip_any ws s = Some t \<Longrightarrow> length t < length s"
proof (induction ws)
  case (Cons w ws)
  show ?case
  proof (cases "w \<noteq> [] \<and> take (length w) s = w")
    case True
    then have "s \<noteq> []" by auto
    with True Cons.prems show ?thesis by auto
  next
    case False
    with Cons show ?thesis by auto
  qed
qed simp

function trim_left :: "string list \<Rightarrow> string \<Rightarrow> string" where
  "trim_left ws s = (case strip_any ws s of None \<Rightarrow> s | Some t \<Rightarrow> trim_left ws t)"
  by pat_completeness auto
termination
  by (relation "measure (\<lambda>(ws, s). length s)") (auto dest: strip_any_shorter)

declare trim_left.simps [simp del]

definition TrimSpace :: "string \<Rightarrow> string" where
  "TrimSpace s =
     rev (trim_left (map rev white_space) (rev (trim_left white_space s)))"

lemma strip_any_mono: "strip_any ws s \<noteq> None \<Longrightarrow> strip_any ws (s @ u) \<noteq> None"
proof (induction ws)
  case (Cons w ws)
  then show ?case
    by (auto split: if_splits)
qed simp

lemma trim_left_done: "strip_any ws (trim_left ws s) = None"
  by (induction ws s rule: trim_left.induct)
    (subst trim_left.simps, auto split: option.splits)

lemma trim_left_id: "strip_any ws s = None \<Longrightarrow> trim_left ws s = s"
  by (subst trim_left.simps) simp

lemma strip_any_suffix: "strip_any ws s = Some t \<Longrightarrow> \<exists>p. s = p @ t"
proof (induction ws)
  case (Cons w ws)
  show ?case
  proof (cases "w \<noteq> [] \<and> take (length w) s = w")
    case True
    with Cons.prems have "s = take (length w) s @ t"
      by (metis append_take_drop_id option.inject strip_any.simps(2))
    then show ?thesis ..
  next
    case False
    with Cons show ?thesis by (auto split: if_splits)
  qed
qed simp

lemma trim_left_suffix: "\<exists>p. s = p @ trim_left ws s"
proof (induction ws s rule: trim_left.induct)
  case (1 ws s)
  show ?case
  proof (cases "strip_any ws s")
    case None
    then show ?thesis by (simp add: trim_left_id)
  next
    case (Some t)
    from strip_any_suffix [OF Some] obtain p where p: "s = p @ t" ..
    from "1.IH" [OF Some] obtain q where q: "t = q @ trim_left ws t" ..
    have "trim_left ws s = trim_left ws t"
      using Some by (subst trim_left.simps) simp
    with p q show ?thesis by (metis append.assoc)
  qed
qed

lemma TrimSpace_idem: "TrimSpace (TrimSpace s) = TrimSpace s"
proof -
  let ?l = "trim_left white_space s"
  let ?r = "trim_left (map rev white_space) (rev ?l)"
  from trim_left_suffix [of "rev ?l" "map rev white_space"]
  obtain p where "rev ?l = p @ ?r" by blast
  then have "?l = rev ?r @ rev p" by (metis rev_append rev_rev_ident)
  then have "strip_any white_space (rev ?r @ rev p) = None"
    using trim_left_done [of white_space s] by metis
  then have "strip_any white_space (rev ?r) = None"
    using strip_any_mono by metis
  then have "trim_left white_space (rev ?r) = rev ?r" by (rule trim_left_id)
  moreover have "trim_left (map rev white_space) ?r = ?r"
    by (rule trim_left_id) (rule trim_left_done)
  ultimately show ?thesis by (simp add: TrimSpace_def)
qed

lemma length_TrimSpace_le: "length (TrimSpace s) \<le> length s"
proof -
  have "length (trim_left ws t) \<le> length t" for ws t
    using trim_left_suffix [of t ws] by (metis length_append le_add2)
  from this [of "map rev white_space" "rev (trim_left white_space s)"] this [of white_space s]
  show ?thesis by (simp add: TrimSpace_def)
qed

definition ascii_lower_char :: "char \<Rightarrow> char" where
  "ascii_lower_char c =
     (let n = of_char c :: nat in if 65 \<le> n \<and> n \<le> 90 then char_of (n + 32) else c)"

definition ascii_lower :: "string \<Rightarrow> string" where
  "ascii_lower s = map ascii_lower_char s"

subsection \<open>Integers in decimal\<close>

definition digit_val :: "char \<Rightarrow> nat option" where
  "digit_val c = (let n = of_char c :: nat in if 48 \<le> n \<and> n \<le> 57 then Some (n - 48) else None)"

fun parse_digits :: "nat \<Rightarrow> string \<Rightarrow> nat option" where
  "parse_digits acc [] = Some acc"
| "parse_digits acc (c # cs) =
     (case digit_val c of None \<Rightarrow> None | Some d \<Rightarrow> parse_digits (10 * acc + d) cs)"

definition parse_nat :: "string \<Rightarrow> nat option" where
  "parse_nat s = (if s = [] then None else parse_digits 0 s)"

definition in_int64 :: "int \<Rightarrow> bool" where
  "in_int64 n \<longleftrightarrow> - (2 ^ 63) \<le> n \<and> n < 2 ^ 63"

definition ParseInt :: "string \<Rightarrow> int option" where
  "ParseInt s =
     (let (neg, ds) = (case s of [] \<Rightarrow> (False, [])
                       | c # cs \<Rightarrow> if c = CHR ''-'' then (True, cs)
                                   else if c = CHR ''+'' then (False, cs) else (False, s))
      in case parse_nat ds of
           None \<Rightarrow> None
         | Some n \<Rightarrow> (let v = (if neg then - int n else int n) in if in_int64 v then Some v else None))"

definition digit_char :: "nat \<Rightarrow> char" where
  "digit_char d = char_of (48 + d)"

fun format_nat :: "nat \<Rightarrow> string" where
  "format_nat n = (if n < 10 then [digit_char n] else format_nat (n div 10) @ [digit_char (n mod 10)])"

declare format_nat.simps [simp del]

definition FormatInt :: "int \<Rightarrow> string" where
  "FormatInt n = (if n < 0 then CHR ''-'' # format_nat (nat (- n)) else format_nat (nat n))"

lemma of_char_digit_char: "d < 10 \<Longrightarrow> of_char (digit_char d) = (48 + d :: nat)"
  by (simp add: digit_char_def)

lemma digit_val_digit_char: "d < 10 \<Longrightarrow> digit_val (digit_char d) = Some d"
  by (simp add: digit_val_def of_char_digit_char)

lemma parse_digits_append:
  "parse_digits acc (s @ t) = (case parse_digits acc s of None \<Rightarrow> None | Some a \<Rightarrow> parse_digits a t)"
  by (induction s arbitrary: acc) (auto split: option.splits)

lemma format_nat_nonempty: "format_nat n \<noteq> []"
  by (subst format_nat.simps) simp

lemma parse_digits_format_nat: "parse_digits 0 (format_nat n) = Some n"
proof (induction n rule: format_nat.induct)
  case (1 n)
  show ?case
  proof (cases "n < 10")
    case True
    then show ?thesis by (subst format_nat.simps) (simp add: digit_val_digit_char)
  next
    case False
    with "1.IH" show ?thesis
      by (subst format_nat.simps) (simp add: parse_digits_append digit_val_digit_char)
  qed
qed

lemma parse_nat_format_nat: "parse_nat (format_nat n) = Some n"
  by (simp add: parse_nat_def format_nat_nonempty parse_digits_format_nat)

lemma format_nat_digits: "c \<in> set (format_nat n) \<Longrightarrow> \<exists>d < 10. c = digit_char d"
proof (induction n rule: format_nat.induct)
  case (1 n)
  show ?case
  proof (cases "n < 10")
    case True
    with "1.prems" have "c = digit_char n" by (subst (asm) format_nat.simps) simp
    with True show ?thesis by blast
  next
    case False
    from "1.prems" False consider "c \<in> set (format_nat (n div 10))" | "c = digit_char (n mod 10)"
      by (subst (asm) format_nat.simps) auto
    then show ?thesis
    proof cases
      case 1
      with "1.IH" [OF False] show ?thesis by blast
    next
      case 2
      have "n mod 10 < 10" by simp
      with 2 show ?thesis by blast
    qed
  qed
qed

lemma digit_char_not_sign: "d < 10 \<Longrightarrow> digit_char d \<noteq> CHR ''-'' \<and> digit_char d \<noteq> CHR ''+''"
  using of_char_digit_char [of d] by (auto dest!: arg_cong [of _ _ "of_char :: char \<Rightarrow> nat"])

lemma ParseInt_FormatInt:
  assumes "in_int64 n"
  shows "ParseInt (FormatInt n) = Some n"
proof (cases "n < 0")
  case True
  with assms show ?thesis
    by (simp add: ParseInt_def FormatInt_def parse_nat_format_nat)
next
  case False
  obtain c cs where s: "format_nat (nat n) = c # cs"
    using format_nat_nonempty by (meson neq_Nil_conv)
  then have "c \<noteq> CHR ''-'' \<and> c \<noteq> CHR ''+''"
    using format_nat_digits [of c "nat n"] digit_char_not_sign by auto
  with assms False s show ?thesis
    using parse_nat_format_nat [of "nat n"] by (simp add: ParseInt_def FormatInt_def)
qed

lemma ParseInt_range: "ParseInt s = Some n \<Longrightarrow> in_int64 n"
  by (auto simp: ParseInt_def Let_def split: list.splits option.splits if_splits)

lemma FormatInt_inj: "in_int64 m \<Longrightarrow> in_int64 n \<Longrightarrow> FormatInt m = FormatInt n \<longleftrightarrow> m = n"
  by (metis ParseInt_FormatInt option.inject)

lemma FormatInt_nonempty: "FormatInt n \<noteq> []"
  by (simp add: FormatInt_def format_nat_nonempty)

lemma digit_char_range: "d < 10 \<Longrightarrow> 48 \<le> (of_char (digit_char d) :: nat) \<and> (of_char (digit_char d) :: nat) \<le> 57"
  by (simp add: of_char_digit_char)

lemma FormatInt_chars: "c \<in> set (FormatInt n) \<Longrightarrow> c = CHR ''-'' \<or> (\<exists>d < 10. c = digit_char d)"
  by (auto simp: FormatInt_def split: if_splits dest: format_nat_digits)

lemma FormatInt_no_colon: "CHR '':'' \<notin> set (FormatInt n)"
proof
  assume "CHR '':'' \<in> set (FormatInt n)"
  from FormatInt_chars [OF this] obtain d where d: "d < 10" "CHR '':'' = digit_char d" by auto
  then have "(of_char CHR '':'' :: nat) = of_char (digit_char d)" by simp
  with digit_char_range [OF d(1)] show False by simp
qed

subsection \<open>Splitting and joining\<close>

fun Cut :: "char \<Rightarrow> string \<Rightarrow> (string \<times> string) option" where
  "Cut sep [] = None"
| "Cut sep (c # cs) =
     (if c = sep then Some ([], cs)
      else (case Cut sep cs of None \<Rightarrow> None | Some (a, b) \<Rightarrow> Some (c # a, b)))"

lemma Cut_append: "sep \<notin> set a \<Longrightarrow> Cut sep (a @ sep # b) = Some (a, b)"
  by (induction a) auto

lemma Cut_Some: "Cut sep s = Some (a, b) \<Longrightarrow> s = a @ sep # b \<and> sep \<notin> set a"
  by (induction s arbitrary: a b) (auto split: if_splits option.splits)

definition last_cut :: "char \<Rightarrow> string \<Rightarrow> (string \<times> string) option" where
  "last_cut sep s = map_option (\<lambda>(a, b). (rev b, rev a)) (Cut sep (rev s))"

lemma last_cut_append: "sep \<notin> set b \<Longrightarrow> last_cut sep (a @ sep # b) = Some (a, b)"
  using Cut_append [of sep "rev b" "rev a"] by (simp add: last_cut_def)

fun Join :: "string \<Rightarrow> string list \<Rightarrow> string" where
  "Join sep [] = []"
| "Join sep [x] = x"
| "Join sep (x # y # zs) = x @ sep @ Join sep (y # zs)"

subsection \<open>UTF-8\<close>

definition byte :: "char \<Rightarrow> nat" where
  "byte c = of_char c"

definition is_cont :: "char \<Rightarrow> bool" where
  "is_cont c \<longleftrightarrow> 128 \<le> byte c \<and> byte c < 192"

fun rune_len :: "string \<Rightarrow> nat option" where
  "rune_len [] = None"
| "rune_len (a # s) =
     (if byte a < 128 then Some 1
      else if 0xC2 \<le> byte a \<and> byte a \<le> 0xDF then
        (case s of b # _ \<Rightarrow> if is_cont b then Some 2 else None | _ \<Rightarrow> None)
      else if 0xE0 \<le> byte a \<and> byte a \<le> 0xEF then
        (case s of b # c # _ \<Rightarrow>
           if is_cont b \<and> is_cont c \<and> (byte a = 0xE0 \<longrightarrow> 0xA0 \<le> byte b) \<and> (byte a = 0xED \<longrightarrow> byte b \<le> 0x9F)
           then Some 3 else None | _ \<Rightarrow> None)
      else if 0xF0 \<le> byte a \<and> byte a \<le> 0xF4 then
        (case s of b # c # d # _ \<Rightarrow>
           if is_cont b \<and> is_cont c \<and> is_cont d \<and> (byte a = 0xF0 \<longrightarrow> 0x90 \<le> byte b) \<and>
              (byte a = 0xF4 \<longrightarrow> byte b \<le> 0x8F)
           then Some 4 else None | _ \<Rightarrow> None)
      else None)"

lemma rune_len_bounds: "rune_len s = Some n \<Longrightarrow> 0 < n \<and> n \<le> length s \<and> n \<le> 4"
  by (cases s) (auto split: list.splits if_splits)

lemma rune_len_append: "rune_len s = Some n \<Longrightarrow> rune_len (s @ t) = Some n"
  by (cases s) (auto split: list.splits if_splits)

lemma rune_len_take: "rune_len s = Some n \<Longrightarrow> rune_len (take n s @ t) = Some n"
  by (cases s) (auto split: list.splits if_splits)

lemma rune_len_cont:
  assumes "rune_len s = Some n" and "0 < k" and "k < n"
  shows "is_cont (s ! k)"
proof -
  have "k < 4" using rune_len_bounds [OF assms(1)] assms(3) by simp
  with assms(2) consider "k = 1" | "k = 2" | "k = 3" by linarith
  then show ?thesis
    using assms(1,3) by cases (cases s; force split: list.splits if_splits)+
qed

function valid_utf8 :: "string \<Rightarrow> bool" where
  "valid_utf8 s \<longleftrightarrow> s = [] \<or> (case rune_len s of None \<Rightarrow> False | Some n \<Rightarrow> valid_utf8 (drop n s))"
  by pat_completeness auto
termination
  by (relation "measure length") (use rune_len_bounds in force)+

declare valid_utf8.simps [simp del]

definition replacement :: string where
  "replacement = map char_of [0xEF, 0xBF, 0xBD :: nat]"

function runes :: "string \<Rightarrow> string list" where
  "runes s = (if s = [] then []
              else case rune_len s of None \<Rightarrow> replacement # runes (tl s)
                                    | Some n \<Rightarrow> take n s # runes (drop n s))"
  by pat_completeness auto
termination
  by (relation "measure length") (use rune_len_bounds in \<open>force simp: neq_Nil_conv\<close>)+

declare runes.simps [simp del]

lemma valid_utf8_Nil [simp]: "valid_utf8 []"
  by (simp add: valid_utf8.simps)

lemma runes_Nil [simp]: "runes [] = []"
  by (simp add: runes.simps)

lemma concat_runes: "valid_utf8 s \<Longrightarrow> concat (runes s) = s"
proof (induction s rule: runes.induct)
  case (1 s)
  show ?case
  proof (cases "s = []")
    case False
    with "1.prems" obtain n where n: "rune_len s = Some n" "valid_utf8 (drop n s)"
      by (subst (asm) valid_utf8.simps) (auto split: option.splits)
    with "1.IH"(2) [OF False n(1)] False show ?thesis by (subst runes.simps) simp
  qed simp
qed

lemma runes_length: "r \<in> set (runes s) \<Longrightarrow> 0 < length r \<and> length r \<le> 4"
proof (induction s rule: runes.induct)
  case (1 s)
  then show ?case
    by (subst (asm) (2) runes.simps)
      (auto simp: replacement_def split: option.splits if_splits dest: rune_len_bounds)
qed

lemma valid_utf8_cut:
  assumes "valid_utf8 s" and "k \<le> length s" and "k < length s \<longrightarrow> \<not> is_cont (s ! k)"
  shows "valid_utf8 (take k s)"
  using assms
proof (induction s arbitrary: k rule: valid_utf8.induct)
  case (1 s)
  show ?case
  proof (cases "k = 0 \<or> s = []")
    case False
    with "1.prems"(1) obtain n where n: "rune_len s = Some n" "valid_utf8 (drop n s)"
      by (subst (asm) valid_utf8.simps) (auto split: option.splits)
    have "\<not> k < n"
    proof
      assume "k < n"
      with rune_len_cont [OF n(1)] rune_len_bounds [OF n(1)] False "1.prems"(3) show False by auto
    qed
    then have split: "take k s = take n s @ take (k - n) (drop n s)"
      by (metis append_take_drop_id le_add_diff_inverse not_less take_add)
    have "valid_utf8 (take (k - n) (drop n s))"
      using "1.IH" [OF n(1), of "k - n"] "1.prems"(2,3) False n(2) \<open>\<not> k < n\<close>
        rune_len_bounds [OF n(1)] by (auto simp: nth_append)
    moreover have "length (take n s) = n" using rune_len_bounds [OF n(1)] by simp
    ultimately show ?thesis
      unfolding split
      by (subst valid_utf8.simps) (simp add: rune_len_take [OF n(1)])
  qed auto
qed

end
