(* ===== verification/Civil.thy ===== *)
theory Civil
  imports GoText
begin

text \<open>
  Instants and calendar dates, as the program uses Go's \<^verbatim>\<open>time\<close> package.

  An instant is an \<open>int\<close>, the nanoseconds since 1970-01-01T00:00:00Z; a \<^verbatim>\<open>time.Duration\<close> is an
  \<open>int\<close> of nanoseconds. A calendar date is a day number (days since 1970-01-01, proleptic
  Gregorian); \<open>civil_from_days\<close> and \<open>days_from_civil\<close> convert to year, month and day. On top of
  these stand the layouts of \<^verbatim>\<open>internal/polls/timeutil.go\<close>, \<^verbatim>\<open>internal/bookings/timeutil.go\<close> and
  \<^verbatim>\<open>internal/ics/ics.go\<close>: \<open>formatISO\<close>, \<open>formatDateOnly\<close>, \<open>parseISODateTime\<close>, \<open>parseDateOnly\<close>,
  \<open>FormatUTCBasic\<close>, \<open>FormatDateBasic\<close>, \<open>NextDayBasic\<close>.

  \<open>parseISODateTime\<close> accepts the shape \<^verbatim>\<open>isoDateTimeRegexp\<close> admits (UTC, any number of fractional
  digits): its callers have matched that expression before they use the result.
\<close>

type_synonym instant = int
type_synonym duration = int

definition Second :: duration where "Second = 1000000000"
definition Minute :: duration where "Minute = 60 * Second"
definition Hour :: duration where "Hour = 60 * Minute"
definition day_ns :: duration where "day_ns = 24 * Hour"

lemmas duration_defs = Second_def Minute_def Hour_def day_ns_def

subsection \<open>Years and months\<close>

definition is_leap :: "int \<Rightarrow> bool" where
  "is_leap y \<longleftrightarrow> y mod 4 = 0 \<and> (y mod 100 \<noteq> 0 \<or> y mod 400 = 0)"

definition days_before_year :: "int \<Rightarrow> int" where
  "days_before_year y = 365 * y + (y + 3) div 4 - (y + 99) div 100 + (y + 399) div 400"

definition month_lengths :: "int \<Rightarrow> int list" where
  "month_lengths y = [31, if is_leap y then 29 else 28, 31, 30, 31, 30, 31, 31, 30, 31, 30, 31]"

definition epoch_days :: int where "epoch_days = 719528"

definition valid_date :: "int \<times> int \<times> int \<Rightarrow> bool" where
  "valid_date = (\<lambda>(y, m, d). 1 \<le> m \<and> m \<le> 12 \<and> 1 \<le> d \<and> d \<le> month_lengths y ! nat (m - 1))"

definition days_from_civil :: "int \<times> int \<times> int \<Rightarrow> int" where
  "days_from_civil = (\<lambda>(y, m, d).
     days_before_year y + sum_list (take (nat (m - 1)) (month_lengths y)) + (d - 1) - epoch_days)"

fun find_month :: "int \<Rightarrow> int list \<Rightarrow> int \<Rightarrow> int \<times> int" where
  "find_month m [] r = (m, r + 1)"
| "find_month m (l # ls) r = (if r < l then (m, r + 1) else find_month (m + 1) ls (r - l))"

definition year_of_days :: "int \<Rightarrow> int" where
  "year_of_days z =
     (let y = (z * 400) div 146097
      in if days_before_year (y + 1) \<le> z then y + 1
         else if z < days_before_year y then y - 1 else y)"

definition civil_from_days :: "int \<Rightarrow> int \<times> int \<times> int" where
  "civil_from_days n =
     (let z = n + epoch_days; y = year_of_days z;
          (m, d) = find_month 1 (month_lengths y) (z - days_before_year y)
      in (y, m, d))"

lemma div_bounds:
  assumes "0 < (k::int)"
  shows "k * (a div k) \<le> a" and "a < k * (a div k) + k"
proof -
  have "a = k * (a div k) + a mod k" by simp
  moreover have "0 \<le> a mod k" "a mod k < k" using assms by simp_all
  ultimately show "k * (a div k) \<le> a" "a < k * (a div k) + k" by linarith+
qed

lemma year_bounds_arith:
  assumes "4 * a \<le> y + 3" "y + 3 < 4 * a + 4" "100 * b \<le> y + 99" "y + 99 < 100 * b + 100"
    "400 * c \<le> y + 399" "y + 399 < 400 * c + (400::int)"
  shows "146097 * y - 396 \<le> 400 * (365 * y + a - b + c)"
    and "400 * (365 * y + a - b + c) \<le> 146097 * y + 699"
  using assms by (simp_all add: algebra_simps)

lemma days_before_year_bounds:
  shows days_before_year_lower: "146097 * y - 396 \<le> 400 * days_before_year y"
    and days_before_year_upper: "400 * days_before_year y \<le> 146097 * y + 699"
  unfolding days_before_year_def
  by (rule year_bounds_arith; rule div_bounds; simp)+

lemma step_div:
  assumes k: "0 < (k::int)"
  shows "(y + k) div k = (y + (k - 1)) div k + (if y mod k = 0 then 1 else 0)"
proof -
  have r: "0 \<le> y mod k" "y mod k < k" using k by simp_all
  have y: "y + (k - 1) = k * (y div k) + (y mod k + (k - 1))" by simp
  have 1: "(y + k) div k = y div k + 1" using k by (simp add: div_add_self2)
  have "(k * q + u) div k = q + u div k" for q u using k by simp
  then have 2: "(y + (k - 1)) div k = y div k + (y mod k + (k - 1)) div k"
    by (subst y)
  show ?thesis
  proof (cases "y mod k = 0")
    case True
    with k have "(y mod k + (k - 1)) div k = 0" by simp
    with 1 2 True show ?thesis by simp
  next
    case False
    with r have "0 \<le> y mod k - 1" "y mod k - 1 < k" by auto
    then have "(y mod k - 1 + k) div k = 1"
      using k by (subst div_add_self2) (auto simp: div_pos_pos_trivial)
    then have "(y mod k + (k - 1)) div k = 1" by (simp add: algebra_simps)
    with 1 2 False show ?thesis by simp
  qed
qed

lemma step_div_pred:
  assumes "0 < (k::int)" and "j = k - 1"
  shows "(y + k) div k = (y + j) div k + (if y mod k = 0 then 1 else 0)"
  unfolding assms(2) by (rule step_div [OF assms(1)])

lemma mod_400_100: "(y::int) mod 400 = 0 \<Longrightarrow> y mod 100 = 0"
  using mod_mod_cancel [of 100 400 y] by simp

lemma mod_100_4: "(y::int) mod 100 = 0 \<Longrightarrow> y mod 4 = 0"
  using mod_mod_cancel [of 4 100 y] by simp

lemma leap_cases:
  assumes "p400 \<Longrightarrow> p100" and "p100 \<Longrightarrow> p4"
  shows "(if p4 then 1 else 0) - (if p100 then 1 else 0) + (if p400 then 1 else 0) =
    (if p4 \<and> (\<not> p100 \<or> p400) then 1 else (0::int))"
  using assms by (cases p4; cases p100; cases p400) simp_all

lemma days_before_year_Suc:
  "days_before_year (y + 1) = days_before_year y + (if is_leap y then 366 else 365)"
proof -
  define i4 i100 i400 :: int where i: "i4 = (if y mod 4 = 0 then 1 else 0)"
    "i100 = (if y mod 100 = 0 then 1 else 0)" "i400 = (if y mod 400 = 0 then 1 else 0)"
  have s: "(y + 4) div 4 = (y + 3) div 4 + i4" "(y + 100) div 100 = (y + 99) div 100 + i100"
    "(y + 400) div 400 = (y + 399) div 400 + i400"
    unfolding i by (rule step_div_pred; simp)+
  have a: "y + 1 + 3 = y + 4" "y + 1 + 99 = y + 100" "y + 1 + 399 = y + 400" by simp_all
  have "i4 - i100 + i400 = (if is_leap y then 1 else 0)"
    unfolding i is_leap_def by (rule leap_cases) (erule mod_400_100, erule mod_100_4)
  then show ?thesis unfolding days_before_year_def a s by (cases "is_leap y") auto
qed

lemma sum_month_lengths: "sum_list (month_lengths y) = (if is_leap y then 366 else 365)"
  by (simp add: month_lengths_def)

lemma year_estimate:
  assumes "146097 * y \<le> z * 400" and "z * 400 < 146097 * y + 146097"
  shows "days_before_year (y - 1) \<le> z" and "z < days_before_year (y + 2)"
proof -
  show "days_before_year (y - 1) \<le> z"
    using assms(1) days_before_year_upper [of "y - 1"] by (simp add: algebra_simps)
  show "z < days_before_year (y + 2)"
    using assms(2) days_before_year_lower [of "y + 2"] by (simp add: algebra_simps)
qed

lemma year_of_days_bounds:
  "days_before_year (year_of_days z) \<le> z \<and> z < days_before_year (year_of_days z + 1)"
proof -
  obtain y where y: "y = (z * 400) div 146097" by simp
  then have "146097 * y \<le> z * 400" "z * 400 < 146097 * y + 146097"
    using div_bounds [of 146097 "z * 400"] by simp_all
  from year_estimate [OF this] show ?thesis
    by (simp add: year_of_days_def y [symmetric] Let_def add.commute)
qed

lemma days_before_year_mono: "y \<le> y' \<Longrightarrow> days_before_year y \<le> days_before_year y'"
proof (induction y' rule: int_ge_induct)
  case (step i)
  then show ?case using days_before_year_Suc [of i] by (auto split: if_splits)
qed simp

lemma year_of_days_unique:
  "days_before_year y \<le> z \<Longrightarrow> z < days_before_year (y + 1) \<Longrightarrow> year_of_days z = y"
  using year_of_days_bounds [of z] days_before_year_mono [of "y + 1" "year_of_days z"]
    days_before_year_mono [of "year_of_days z + 1" y]
  by linarith

lemma find_month_inverse:
  assumes "k < length ls" and "0 \<le> r" and "r < ls ! k" and "\<forall>l \<in> set ls. 0 < l"
  shows "find_month m ls (sum_list (take k ls) + r) = (m + int k, r + 1)"
  using assms
proof (induction ls arbitrary: k m)
  case (Cons l ls)
  show ?case
  proof (cases k)
    case 0
    with Cons.prems show ?thesis by simp
  next
    case (Suc j)
    with Cons.prems have "0 \<le> sum_list (take j ls)"
      by (intro sum_list_nonneg) (auto dest!: in_set_takeD less_imp_le)
    with Cons.prems Cons.IH [of j "m + 1"] Suc show ?thesis by simp
  qed
qed simp

lemma find_month_range:
  assumes "0 \<le> r" and "r < sum_list ls" and "find_month m ls r = (m', d)"
  shows "\<exists>k < length ls. m' = m + int k \<and> 1 \<le> d \<and> d \<le> ls ! k \<and> r = sum_list (take k ls) + (d - 1)"
  using assms
proof (induction ls arbitrary: m r)
  case (Cons l ls)
  show ?case
  proof (cases "r < l")
    case True
    with Cons.prems show ?thesis by (intro exI [of _ 0]) auto
  next
    case False
    with Cons.prems Cons.IH [of "r - l" "m + 1"] obtain k where
      "k < length ls \<and> m' = m + 1 + int k \<and> 1 \<le> d \<and> d \<le> ls ! k \<and> r - l = sum_list (take k ls) + (d - 1)"
      by auto
    then show ?thesis by (intro exI [of _ "Suc k"]) auto
  qed
qed simp

lemma length_month_lengths [simp]: "length (month_lengths y) = 12"
  by (simp add: month_lengths_def)

lemma month_lengths_pos: "l \<in> set (month_lengths y) \<Longrightarrow> 0 < l \<and> l \<le> 31"
  by (auto simp: month_lengths_def split: if_splits)

lemma civil_from_days_valid:
  "valid_date (civil_from_days n) \<and> days_from_civil (civil_from_days n) = n"
proof -
  let ?z = "n + epoch_days" let ?y = "year_of_days ?z"
  obtain m d where md: "find_month 1 (month_lengths ?y) (?z - days_before_year ?y) = (m, d)"
    by fastforce
  have "0 \<le> ?z - days_before_year ?y" "?z - days_before_year ?y < sum_list (month_lengths ?y)"
    using year_of_days_bounds [of ?z] by (auto simp: sum_month_lengths days_before_year_Suc)
  from find_month_range [OF this md] obtain k where
    "k < 12" "m = 1 + int k" "1 \<le> d" "d \<le> month_lengths ?y ! k"
    "?z - days_before_year ?y = sum_list (take k (month_lengths ?y)) + (d - 1)"
    by auto
  moreover from this(2) have "nat (m - 1) = k" by simp
  ultimately have "valid_date (?y, m, d)" "days_from_civil (?y, m, d) = n"
    by (simp_all add: valid_date_def days_from_civil_def)
  moreover have "civil_from_days n = (?y, m, d)" by (simp add: civil_from_days_def Let_def md)
  ultimately show ?thesis by simp
qed

lemma take_sum_le: "\<forall>l \<in> set ls. 0 < (l::int) \<Longrightarrow> k < length ls \<Longrightarrow> sum_list (take k ls) + ls ! k \<le> sum_list ls"
proof -
  assume pos: "\<forall>l \<in> set ls. 0 < l" and k: "k < length ls"
  have "ls = take k ls @ ls ! k # drop (Suc k) ls" using k by (simp add: id_take_nth_drop)
  then have "sum_list ls = sum_list (take k ls) + (ls ! k + sum_list (drop (Suc k) ls))"
    by (metis sum_list.Cons sum_list_append)
  moreover have "0 \<le> sum_list (drop (Suc k) ls)"
    using pos by (intro sum_list_nonneg) (auto dest!: in_set_dropD)
  ultimately show ?thesis by simp
qed

lemma civil_from_days_from_civil:
  assumes "valid_date (y, m, d)"
  shows "civil_from_days (days_from_civil (y, m, d)) = (y, m, d)"
proof -
  let ?k = "nat (m - 1)" let ?s = "sum_list (take ?k (month_lengths y))"
  let ?z = "days_before_year y + ?s + (d - 1)"
  have v: "?k < 12" "1 \<le> d" "d \<le> month_lengths y ! ?k" "m = 1 + int ?k"
    using assms by (auto simp: valid_date_def)
  have pos: "\<forall>l \<in> set (month_lengths y). 0 < l" using month_lengths_pos by blast
  then have "0 \<le> ?s" by (intro sum_list_nonneg) (auto dest!: in_set_takeD)
  moreover have "?s + month_lengths y ! ?k \<le> sum_list (month_lengths y)"
    using take_sum_le [OF pos] v by simp
  ultimately have "year_of_days ?z = y"
    using v by (intro year_of_days_unique) (auto simp: days_before_year_Suc sum_month_lengths)
  moreover have "find_month 1 (month_lengths y) (?s + (d - 1)) = (m, d)"
    using find_month_inverse [of ?k "month_lengths y" "d - 1" 1] v pos by simp
  ultimately show ?thesis
    by (simp add: civil_from_days_def days_from_civil_def Let_def add.assoc)
qed

definition weekday :: "int \<Rightarrow> int" where
  "weekday n = (n + 4) mod 7"

text \<open>Day numbers follow the calendar: dates compare as year, month, day.\<close>

definition date_less :: "int \<times> int \<times> int \<Rightarrow> int \<times> int \<times> int \<Rightarrow> bool" where
  "date_less = (\<lambda>(y, m, d) (y', m', d').
     y < y' \<or> y = y' \<and> (m < m' \<or> m = m' \<and> d < d'))"

lemma day_of_year_bounds:
  assumes "valid_date (y, m, d)"
  shows "days_before_year y \<le> days_from_civil (y, m, d) + epoch_days \<and>
    days_from_civil (y, m, d) + epoch_days < days_before_year (y + 1)"
  using civil_from_days_from_civil [OF assms]
    year_of_days_bounds [of "days_from_civil (y, m, d) + epoch_days"]
  by (auto simp: civil_from_days_def Let_def split: prod.splits)

lemma days_less_year:
  assumes "valid_date (y, m, d)" and "valid_date (y', m', d')" and "y < y'"
  shows "days_from_civil (y, m, d) < days_from_civil (y', m', d')"
  using day_of_year_bounds [OF assms(1)] day_of_year_bounds [OF assms(2)]
    days_before_year_mono [of "y + 1" y'] assms(3) by linarith

lemma take_sum_mono:
  assumes "\<forall>l \<in> set ls. 0 < (l::int)" and "j < k" and "k \<le> length ls"
  shows "sum_list (take j ls) + ls ! j \<le> sum_list (take k ls)"
proof -
  have "\<forall>l \<in> set (take k ls). 0 < l" "j < length (take k ls)"
    using assms by (auto dest: in_set_takeD)
  from take_sum_le [OF this] assms(2) show ?thesis by (simp add: min_def)
qed

lemma days_less_month:
  assumes "valid_date (y, m, d)" and "valid_date (y, m', d')" and "m < m'"
  shows "days_from_civil (y, m, d) < days_from_civil (y, m', d')"
proof -
  have "\<forall>l \<in> set (month_lengths y). 0 < l" using month_lengths_pos by blast
  moreover have "nat (m - 1) < nat (m' - 1)" "nat (m' - 1) \<le> length (month_lengths y)"
    using assms by (auto simp: valid_date_def)
  ultimately have "sum_list (take (nat (m - 1)) (month_lengths y)) + month_lengths y ! nat (m - 1)
      \<le> sum_list (take (nat (m' - 1)) (month_lengths y))"
    by (rule take_sum_mono)
  with assms(1,2) show ?thesis by (auto simp: valid_date_def days_from_civil_def)
qed

lemma date_less_days:
  assumes "valid_date a" and "valid_date b" and "date_less a b"
  shows "days_from_civil a < days_from_civil b"
proof -
  obtain y m d y' m' d' where ab: "a = (y, m, d)" "b = (y', m', d')" by (metis prod_cases3)
  from assms(3) consider "y < y'" | "y = y'" "m < m'" | "y = y'" "m = m'" "d < d'"
    by (auto simp: ab date_less_def)
  then show ?thesis
  proof cases
    case 1
    with assms(1,2) show ?thesis unfolding ab by (intro days_less_year)
  next
    case 2
    with assms(1,2) show ?thesis unfolding ab by (simp add: days_less_month)
  next
    case 3
    then show ?thesis unfolding ab by (simp add: days_from_civil_def)
  qed
qed

lemma civil_date_less: "date_less (civil_from_days n) (civil_from_days n') \<longleftrightarrow> n < n'"
proof -
  have le: "date_less (civil_from_days i) (civil_from_days j) \<Longrightarrow> i < j" for i j
    using date_less_days [of "civil_from_days i" "civil_from_days j"] civil_from_days_valid by simp
  have "n < n' \<Longrightarrow> \<not> date_less (civil_from_days n) (civil_from_days n')
    \<Longrightarrow> civil_from_days n = civil_from_days n' \<or> date_less (civil_from_days n') (civil_from_days n)"
    by (auto simp: date_less_def split: prod.splits)
  moreover have "civil_from_days n = civil_from_days n' \<Longrightarrow> n = n'"
    using civil_from_days_valid by metis
  ultimately show ?thesis using le [of n n'] le [of n' n] by fastforce
qed

subsection \<open>Bytewise comparison of Go strings\<close>

fun str_less :: "string \<Rightarrow> string \<Rightarrow> bool" where
  "str_less _ [] = False"
| "str_less [] (_ # _) = True"
| "str_less (a # as) (b # bs) =
     (of_char a < (of_char b :: nat) \<or> a = b \<and> str_less as bs)"

lemma str_less_same_prefix: "str_less (p @ a) (p @ b) = str_less a b"
  by (induction p) auto

lemma str_less_append_len:
  "length a = length b \<Longrightarrow> str_less (a @ x) (b @ y) \<longleftrightarrow> str_less a b \<or> a = b \<and> str_less x y"
  by (induction a b rule: list_induct2) auto

subsection \<open>Zero-padded decimals\<close>

primrec digits :: "nat \<Rightarrow> nat \<Rightarrow> string" where
  "digits 0 n = []"
| "digits (Suc w) n = digits w (n div 10) @ [digit_char (n mod 10)]"

definition appendInt :: "int \<Rightarrow> nat \<Rightarrow> string" where
  "appendInt x w =
     (let n = nat (abs x); ds = (if n < 10 ^ w then digits w n else format_nat n)
      in if x < 0 then CHR ''-'' # ds else ds)"

lemma length_digits [simp]: "length (digits w n) = w"
  by (induction w arbitrary: n) auto

lemma parse_digits_digits: "n < 10 ^ w \<Longrightarrow> parse_digits acc (digits w n) = Some (acc * 10 ^ w + n)"
proof (induction w arbitrary: n)
  case (Suc w)
  from Suc.prems have "n div 10 < 10 ^ w" by (simp add: less_mult_imp_div_less mult.commute)
  with Suc.IH show ?case
    by (simp add: parse_digits_append digit_val_digit_char algebra_simps)
qed simp

lemma digit_char_inj: "d < 10 \<Longrightarrow> e < 10 \<Longrightarrow> digit_char d = digit_char e \<longleftrightarrow> d = e"
  by (metis digit_val_digit_char option.inject)

lemma decimal_less:
  "(r::nat) < 10 \<Longrightarrow> s < 10 \<Longrightarrow> 10 * p + r < 10 * q + s \<longleftrightarrow> p < q \<or> p = q \<and> r < s"
  by linarith

lemma decimal_eq:
  "(r::nat) < 10 \<Longrightarrow> s < 10 \<Longrightarrow> 10 * p + r = 10 * q + s \<longleftrightarrow> p = q \<and> r = s"
  by (metis add.commute add_left_cancel decimal_less linorder_neqE_nat mult_cancel1 not_less_iff_gr_or_eq)

lemma str_less_digits:
  "m < 10 ^ w \<Longrightarrow> n < 10 ^ w \<Longrightarrow>
   (str_less (digits w m) (digits w n) \<longleftrightarrow> m < n) \<and> (digits w m = digits w n \<longleftrightarrow> m = n)"
proof (induction w arbitrary: m n)
  case (Suc w)
  have "m div 10 < 10 ^ w" "n div 10 < 10 ^ w"
    using Suc.prems by (simp_all add: less_mult_imp_div_less mult.commute)
  note IH = Suc.IH [OF this]
  have d: "str_less [digit_char (m mod 10)] [digit_char (n mod 10)] \<longleftrightarrow> m mod 10 < n mod 10"
    by (simp add: of_char_digit_char)
  have "m < n \<longleftrightarrow> m div 10 < n div 10 \<or> m div 10 = n div 10 \<and> m mod 10 < n mod 10"
    using decimal_less [of "m mod 10" "n mod 10" "m div 10" "n div 10"] by simp
  moreover have "m = n \<longleftrightarrow> m div 10 = n div 10 \<and> m mod 10 = n mod 10"
    using decimal_eq [of "m mod 10" "n mod 10" "m div 10" "n div 10"] by simp
  moreover have "digit_char (m mod 10) = digit_char (n mod 10) \<longleftrightarrow> m mod 10 = n mod 10"
    by (rule digit_char_inj) simp_all
  ultimately show ?case
    unfolding digits.simps using IH d by (simp only: str_less_append_len length_digits append1_eq_conv)
qed simp

subsection \<open>Date and time layouts\<close>

definition day_of :: "instant \<Rightarrow> int" where
  "day_of t = t div day_ns"

definition formatDate :: "int \<Rightarrow> string" where
  "formatDate n = (let (y, m, d) = civil_from_days n
     in appendInt y 4 @ ''-'' @ digits 2 (nat m) @ ''-'' @ digits 2 (nat d))"

definition formatDateOnly :: "instant \<Rightarrow> string" where
  "formatDateOnly t = formatDate (day_of t)"

definition clock_of :: "instant \<Rightarrow> nat \<times> nat \<times> nat \<times> int" where
  "clock_of t = (let r = t mod day_ns
     in (nat (r div Hour), nat (r div Minute mod 60), nat (r div Second mod 60), r mod Second))"

definition formatISO :: "instant \<Rightarrow> string" where
  "formatISO t = (let (hh, mm, ss, ns) = clock_of t
     in formatDate (day_of t) @ ''T'' @ digits 2 hh @ '':'' @ digits 2 mm @ '':'' @ digits 2 ss
        @ ''.'' @ digits 3 (nat (ns div 1000000)) @ ''Z'')"

definition basicDate :: "int \<Rightarrow> string" where
  "basicDate n = (let (y, m, d) = civil_from_days n
     in appendInt y 4 @ digits 2 (nat m) @ digits 2 (nat d))"

definition FormatUTCBasic :: "instant \<Rightarrow> string" where
  "FormatUTCBasic t = (let (hh, mm, ss, ns) = clock_of t
     in basicDate (day_of t) @ ''T'' @ digits 2 hh @ digits 2 mm @ digits 2 ss @ ''Z'')"

definition FormatDateBasic :: "instant \<Rightarrow> string" where
  "FormatDateBasic t = basicDate (day_of t)"

definition NextDayBasic :: "instant \<Rightarrow> string" where
  "NextDayBasic t = basicDate (day_of t + 1)"

text \<open>
  Parsing reads fixed-width fields: \<open>field w s\<close> takes \<open>w\<close> decimal digits off the front.
\<close>

definition field :: "nat \<Rightarrow> string \<Rightarrow> (nat \<times> string) option" where
  "field w s =
     (if length s < w then None
      else map_option (\<lambda>n. (n, drop w s)) (parse_digits 0 (take w s)))"

fun lit :: "string \<Rightarrow> string \<Rightarrow> string option" where
  "lit [] s = Some s"
| "lit (_ # _) [] = None"
| "lit (c # cs) (d # ds) = (if c = d then lit cs ds else None)"

definition parse_date_prefix :: "string \<Rightarrow> (int \<times> string) option" where
  "parse_date_prefix s =
     Option.bind (field 4 s) (\<lambda>(y, s1). Option.bind (lit ''-'' s1) (\<lambda>s2.
     Option.bind (field 2 s2) (\<lambda>(m, s3). Option.bind (lit ''-'' s3) (\<lambda>s4.
     Option.bind (field 2 s4) (\<lambda>(d, s5).
       if valid_date (int y, int m, int d) then Some (days_from_civil (int y, int m, int d), s5)
       else None)))))"

definition parseDay :: "string \<Rightarrow> int option" where
  "parseDay s = (case parse_date_prefix s of Some (n, []) \<Rightarrow> Some n | _ \<Rightarrow> None)"

definition parseDateOnly :: "string \<Rightarrow> instant option" where
  "parseDateOnly s = map_option (\<lambda>n. n * day_ns) (parseDay s)"

fun parse_frac :: "nat \<Rightarrow> string \<Rightarrow> int \<times> string" where
  "parse_frac w [] = (0, [])"
| "parse_frac w (c # cs) =
     (case digit_val c of None \<Rightarrow> (0, c # cs)
      | Some d \<Rightarrow> (let (r, rest) = parse_frac (w - 1) cs
                   in ((if w = 0 then 0 else int d * 10 ^ (w - 1)) + r, rest)))"

definition parseISODateTime :: "string \<Rightarrow> instant option" where
  "parseISODateTime s =
     Option.bind (parse_date_prefix s) (\<lambda>(n, s1). Option.bind (lit ''T'' s1) (\<lambda>s2.
     Option.bind (field 2 s2) (\<lambda>(hh, s3). Option.bind (lit '':'' s3) (\<lambda>s4.
     Option.bind (field 2 s4) (\<lambda>(mm, s5). Option.bind (lit '':'' s5) (\<lambda>s6.
     Option.bind (field 2 s6) (\<lambda>(ss, s7).
       let (ns, s8) = (case s7 of c # cs \<Rightarrow>
                         (if c = CHR ''.'' then parse_frac 9 cs else (0, s7)) | [] \<Rightarrow> (0, s7))
       in if hh < 24 \<and> mm < 60 \<and> ss < 60 \<and> s8 = ''Z''
          then Some (n * day_ns + int hh * Hour + int mm * Minute + int ss * Second + ns)
          else None)))))))"

subsection \<open>Formatting and parsing agree\<close>

definition four_digit_day :: "int \<Rightarrow> bool" where
  "four_digit_day n \<longleftrightarrow> - 719528 \<le> n \<and> n \<le> 2932896"

lemma four_digit_year:
  assumes "four_digit_day n" and "civil_from_days n = (y, m, d)"
  shows "0 \<le> y" and "y \<le> 9999"
proof -
  have y: "y = year_of_days (n + epoch_days)"
    using assms(2) by (auto simp: civil_from_days_def Let_def split: prod.splits)
  have b: "days_before_year y \<le> n + epoch_days" "n + epoch_days < days_before_year (y + 1)"
    using year_of_days_bounds [of "n + epoch_days"] by (simp_all add: y)
  have n: "0 \<le> n + epoch_days" "n + epoch_days < days_before_year 10000"
    using assms(1) by (simp_all add: four_digit_day_def epoch_days_def days_before_year_def)
  have "days_before_year 0 = 0" by (simp add: days_before_year_def)
  then show "0 \<le> y" using b(2) n(1) days_before_year_mono [of "y + 1" 0] by linarith
  show "y \<le> 9999" using b(1) n(2) days_before_year_mono [of 10000 y] by linarith
qed

lemma civil_ranges:
  assumes "civil_from_days n = (y, m, d)"
  shows "1 \<le> m \<and> m \<le> 12 \<and> 1 \<le> d \<and> d \<le> 31"
proof -
  have v: "valid_date (y, m, d)" using civil_from_days_valid [of n] assms by simp
  then have "nat (m - 1) < length (month_lengths y)" by (auto simp: valid_date_def)
  then have "month_lengths y ! nat (m - 1) \<le> 31" using month_lengths_pos nth_mem by blast
  with v show ?thesis by (auto simp: valid_date_def)
qed

lemma field_digits: "n < 10 ^ w \<Longrightarrow> field w (digits w n @ s) = Some (n, s)"
  by (simp add: field_def parse_digits_digits)

lemma lit_append: "lit p (p @ s) = Some s"
  by (induction p) auto

lemma formatDate_four:
  assumes "four_digit_day n" and "civil_from_days n = (y, m, d)"
  shows "formatDate n = digits 4 (nat y) @ ''-'' @ digits 2 (nat m) @ ''-'' @ digits 2 (nat d)"
proof -
  have "0 \<le> y" "nat y < 10 ^ 4" using four_digit_year [OF assms] by simp_all
  then show ?thesis by (simp add: formatDate_def assms(2) appendInt_def Let_def del: digits.simps)
qed

lemma parse_date_prefix_formatDate:
  assumes "four_digit_day n"
  shows "parse_date_prefix (formatDate n @ s) = Some (n, s)"
proof -
  obtain y m d where c: "civil_from_days n = (y, m, d)" by (metis prod_cases3)
  have "nat y < 10 ^ 4" "nat m < 10 ^ 2" "nat d < 10 ^ 2"
    using four_digit_year [OF assms c] civil_ranges [OF c] by auto
  moreover have "valid_date (y, m, d)" "days_from_civil (y, m, d) = n"
    using civil_from_days_valid [of n] c by simp_all
  moreover have "0 \<le> y" "0 \<le> m" "0 \<le> d"
    using four_digit_year [OF assms c] civil_ranges [OF c] by auto
  ultimately show ?thesis
    by (simp add: formatDate_four [OF assms c] parse_date_prefix_def field_digits
        lit_append [of "''-''", simplified])
qed

lemma parseDay_formatDate: "four_digit_day n \<Longrightarrow> parseDay (formatDate n) = Some n"
  using parse_date_prefix_formatDate [of n "[]"] by (simp add: parseDay_def)

lemma formatDate_less:
  assumes "four_digit_day n" and "four_digit_day n'"
  shows "str_less (formatDate n) (formatDate n') \<longleftrightarrow> n < n'"
proof -
  obtain y m d where c: "civil_from_days n = (y, m, d)" by (metis prod_cases3)
  obtain y' m' d' where c': "civil_from_days n' = (y', m', d')" by (metis prod_cases3)
  have b: "nat y < 10 ^ 4" "nat m < 10 ^ 2" "nat d < 10 ^ 2" "0 \<le> y" "0 \<le> m" "0 \<le> d"
    using four_digit_year [OF assms(1) c] civil_ranges [OF c] by auto
  have b': "nat y' < 10 ^ 4" "nat m' < 10 ^ 2" "nat d' < 10 ^ 2" "0 \<le> y'" "0 \<le> m'" "0 \<le> d'"
    using four_digit_year [OF assms(2) c'] civil_ranges [OF c'] by auto
  note o = str_less_digits [OF b(1) b'(1)] str_less_digits [OF b(2) b'(2)]
    str_less_digits [OF b(3) b'(3)]
  have "str_less (formatDate n) (formatDate n') \<longleftrightarrow> date_less (y, m, d) (y', m', d')"
    unfolding formatDate_four [OF assms(1) c] formatDate_four [OF assms(2) c'] date_less_def
    using o b(4-6) b'(4-6)
    by (simp add: str_less_append_len nat_less_iff eq_nat_nat_iff del: digits.simps) auto
  with civil_date_less [of n n'] c c' show ?thesis by simp
qed

lemma formatDate_inj:
  "four_digit_day n \<Longrightarrow> four_digit_day n' \<Longrightarrow> formatDate n = formatDate n' \<longleftrightarrow> n = n'"
  by (metis parseDay_formatDate option.inject)

lemma duration_nums: "Second = 1000000000" "Minute = 60000000000" "Hour = 3600000000000"
  by (simp_all add: duration_defs)

lemma three_digits:
  assumes "(n::nat) < 1000"
  shows "n = (n div 100 mod 10) * 100 + (n div 10 mod 10) * 10 + n mod 10"
proof -
  define q p where "q = n div 10" and "p = q div 10"
  have "p < 10" using assms by (simp add: p_def q_def div_mult2_eq [symmetric])
  then have "p mod 10 = p" by simp
  moreover have "n div 100 = p" by (simp add: p_def q_def div_mult2_eq [symmetric])
  moreover have "n = 10 * q + n mod 10" "q = 10 * p + q mod 10" by (simp_all add: q_def p_def)
  ultimately show ?thesis unfolding q_def [symmetric] by simp
qed

lemma clock_ranges:
  assumes "clock_of t = (hh, mm, ss, ns)"
  shows "hh < 24" "mm < 60" "ss < 60" "0 \<le> ns" "ns < Second"
    and "t mod day_ns = int hh * Hour + int mm * Minute + int ss * Second + ns"
proof -
  define r where "r = t mod day_ns"
  have r: "0 \<le> r" "r < 86400000000000" by (simp_all add: r_def duration_defs)
  have e: "r div 3600000000000 = r div 1000000000 div 60 div 60"
    "r div 60000000000 = r div 1000000000 div 60"
    by (simp_all add: zdiv_zmult2_eq [symmetric])
  define s where "s = r div 1000000000"
  have s: "0 \<le> s" "s < 86400" using r by (simp_all add: s_def pos_imp_zdiv_nonneg_iff)
  have rs: "r = s * 1000000000 + r mod 1000000000" by (simp add: s_def)
  have c: "hh = nat (s div 60 div 60)" "mm = nat (s div 60 mod 60)" "ss = nat (s mod 60)"
    "ns = r mod 1000000000"
  proof -
    have "clock_of t = (nat (r div Hour), nat (r div Minute mod 60), nat (r div Second mod 60), r mod Second)"
      by (simp add: clock_of_def Let_def r_def)
    also have "\<dots> = (nat (s div 60 div 60), nat (s div 60 mod 60), nat (s mod 60), r mod 1000000000)"
      by (simp only: duration_nums s_def e)
    finally show "hh = nat (s div 60 div 60)" "mm = nat (s div 60 mod 60)" "ss = nat (s mod 60)"
      "ns = r mod 1000000000"
      using assms by simp_all
  qed
  show "hh < 24" using s by (simp add: c nat_less_iff)
  show "mm < 60" "ss < 60" "0 \<le> ns" "ns < Second" by (simp_all add: c nat_less_iff duration_defs)
  have "s = (s div 60 div 60) * 3600 + (s div 60 mod 60) * 60 + s mod 60" by presburger
  moreover have "int hh = s div 60 div 60" "int mm = s div 60 mod 60" "int ss = s mod 60"
    using s by (simp_all add: c pos_imp_zdiv_nonneg_iff)
  ultimately have "s = int hh * 3600 + int mm * 60 + int ss" by simp
  moreover have "r = s * 1000000000 + ns" using rs c(4) by simp
  ultimately show "t mod day_ns = int hh * Hour + int mm * Minute + int ss * Second + ns"
    unfolding r_def [symmetric] duration_nums by simp
qed

lemma parse_frac_three:
  assumes "n < 1000"
  shows "parse_frac 9 (digits 3 n @ ''Z'') = (int n * 1000000, ''Z'')"
proof -
  obtain a b c where abc: "a = n div 100 mod 10" "b = n div 10 mod 10" "c = n mod 10" by blast
  have d: "digits 3 n = [digit_char a, digit_char b, digit_char c]"
    by (simp add: abc numeral_3_eq_3 div_mult2_eq [symmetric])
  have "a < 10" "b < 10" "c < 10" by (simp_all add: abc)
  moreover have "n = a * 100 + b * 10 + c"
    unfolding abc by (rule three_digits [OF assms])
  moreover have "digit_val CHR ''Z'' = None" by (simp add: digit_val_def)
  ultimately show ?thesis unfolding d by (simp add: digit_val_digit_char)
qed

lemma parseISODateTime_formatISO:
  assumes "four_digit_day (day_of t)"
  shows "parseISODateTime (formatISO t) = Some (t - t mod 1000000)"
proof -
  obtain hh mm ss ns where c: "clock_of t = (hh, mm, ss, ns)" by (metis prod_cases4)
  note r = clock_ranges [OF c]
  define f where "f = nat (ns div 1000000)"
  have "ns div 1000000 < 1000" using r(5) by (simp add: duration_defs)
  then have f: "f < 1000" "int f = ns div 1000000"
    using r(4) by (auto simp: f_def pos_imp_zdiv_nonneg_iff)
  have iso: "formatISO t = formatDate (day_of t) @ ''T'' @ digits 2 hh @ '':'' @ digits 2 mm @ '':'' @
      digits 2 ss @ ''.'' @ digits 3 f @ ''Z''"
    by (simp add: formatISO_def c f_def Let_def)
  have w: "hh < 10 ^ 2" "mm < 10 ^ 2" "ss < 10 ^ 2" using r by simp_all
  have "parseISODateTime (formatISO t) = Some (day_of t * day_ns + int hh * Hour + int mm * Minute
      + int ss * Second + int f * 1000000)"
    unfolding iso parseISODateTime_def
    using r(1-3) w parse_frac_three [OF f(1)]
    by (simp add: parse_date_prefix_formatDate [OF assms] field_digits lit_append [of "''T''", simplified]
        lit_append [of "'':''", simplified] del: digits.simps)
  also have "\<dots> = Some (t - t mod 1000000)"
  proof -
    have "t = day_of t * day_ns + t mod day_ns" by (simp add: day_of_def)
    then have t: "t = day_of t * day_ns + (int hh * Hour + int mm * Minute + int ss * Second) + ns"
      using r(6) by simp
    have "t = (day_of t * 86400000 + int hh * 3600000 + int mm * 60000 + int ss * 1000) * 1000000 + ns"
      using t by (simp add: duration_defs)
    then have "t mod 1000000 = ns mod 1000000" by (metis mod_mult_self3)
    moreover have "ns - ns mod 1000000 = int f * 1000000" by (simp add: f(2) minus_mod_eq_div_mult)
    ultimately show ?thesis using t by simp
  qed
  finally show ?thesis .
qed

end
