(* ===== verification/Availability.thy ===== *)
theory Availability
  imports Civil
begin

text \<open>
  Time zones and the slot generator of \<^verbatim>\<open>internal/bookings/availability.go\<close>. A \<open>location\<close> is what
  \<^verbatim>\<open>time.Location.lookup\<close> answers for a Unix second: the offset in force and the span it is in force for; the
  zone database is a parameter (\<open>tzdb\<close>). Instants and durations are nanoseconds, days are counted from 1970.
\<close>

section \<open>Time zones\<close>

record zone =
  z_offset :: int
  z_start :: int
  z_end :: int

type_synonym location = "int \<Rightarrow> zone"

definition fixed_zone :: "int \<Rightarrow> location" where
  "fixed_zone off = (\<lambda>_. \<lparr> z_offset = off, z_start = - (2 ^ 63), z_end = 2 ^ 63 - 1 \<rparr>)"

definition one_change :: "int \<Rightarrow> int \<Rightarrow> int \<Rightarrow> location" where
  "one_change at before after = (\<lambda>s. if s < at
     then \<lparr> z_offset = before, z_start = - (2 ^ 63), z_end = at \<rparr>
     else \<lparr> z_offset = after, z_start = at, z_end = 2 ^ 63 - 1 \<rparr>)"

text \<open>\<open>time.Date\<close>: the wall clock, read as if it were UTC, is moved by the offset found around it.\<close>

definition date_in :: "location \<Rightarrow> int \<Rightarrow> int" where
  "date_in loc wall = (let z = loc wall in
     if z_offset z = 0 then wall
     else let utc = wall - z_offset z
          in wall - (if utc < z_start z \<or> z_end z \<le> utc then z_offset (loc utc) else z_offset z))"

definition offset_at :: "location \<Rightarrow> instant \<Rightarrow> duration" where
  "offset_at loc t = z_offset (loc (t div Second)) * Second"

definition local_day :: "location \<Rightarrow> instant \<Rightarrow> int" where
  "local_day loc t = day_of (t + offset_at loc t)"

definition localDateStr :: "instant \<Rightarrow> location \<Rightarrow> string" where
  "localDateStr t loc = formatDate (local_day loc t)"

definition dateOnlyUTC :: "string \<Rightarrow> int option" where
  "dateOnlyUTC dateStr = parseDay dateStr"

definition addDaysToDateStr :: "string \<Rightarrow> int \<Rightarrow> string" where
  "addDaysToDateStr dateStr days =
     (case dateOnlyUTC dateStr of None \<Rightarrow> dateStr | Some d \<Rightarrow> formatDate (d + days))"

text \<open>\<open>Time.Sub\<close> saturates at the range of a \<open>Duration\<close>, a little more than 106751 days.\<close>

definition daysBetween :: "string \<Rightarrow> string \<Rightarrow> int" where
  "daysBetween from to =
     (case (dateOnlyUTC from, dateOnlyUTC to) of
        (Some a, Some b) \<Rightarrow> max (- 106751) (min 106751 (b - a))
      | _ \<Rightarrow> - 1)"

definition weekdayKey :: "string \<Rightarrow> string" where
  "weekdayKey dateStr =
     (case dateOnlyUTC dateStr of None \<Rightarrow> [] | Some d \<Rightarrow> [digit_char (nat (weekday d))])"

definition overlaps :: "instant \<Rightarrow> instant \<Rightarrow> instant \<Rightarrow> instant \<Rightarrow> bool" where
  "overlaps aStart aEnd bStart bEnd \<longleftrightarrow> aStart < bEnd \<and> bStart < aEnd"

subsection \<open>Reading a clock time\<close>

text \<open>
  \<open>fmt.Sscanf(s, "%2d:%2d", ...)\<close>: each number skips blanks, may have a sign, and is at most two characters
  wide; what follows the second number is not looked at. The count of numbers read comes first.
\<close>

definition blanks :: "string list" where
  "blanks = filter (\<lambda>w. w \<noteq> [CHR 0x0A]) white_space"

fun take_digits :: "nat \<Rightarrow> string \<Rightarrow> string \<times> string" where
  "take_digits (Suc w) (c # s) =
     (if digit_val c \<noteq> None then (let (ds, r) = take_digits w s in (c # ds, r)) else ([], c # s))"
| "take_digits _ s = ([], s)"

definition scan_digits :: "nat \<Rightarrow> string \<Rightarrow> (int \<times> string) option" where
  "scan_digits w s = (let (ds, r) = take_digits w s
     in if ds = [] then None else map_option (\<lambda>n. (int n, r)) (parse_digits 0 ds))"

definition scan_int2 :: "string \<Rightarrow> (int \<times> string) option" where
  "scan_int2 s = (case trim_left blanks s of
       [] \<Rightarrow> None
     | c # r \<Rightarrow> if c = CHR ''-'' then map_option (\<lambda>(n, r'). (- n, r')) (scan_digits 1 r)
                else if c = CHR ''+'' then scan_digits 1 r
                else scan_digits 2 (c # r))"

definition scan_hhmm :: "string \<Rightarrow> nat \<times> int \<times> int" where
  "scan_hhmm s = (case scan_int2 s of
       Some (h, CHR '':'' # r) \<Rightarrow> (case scan_int2 r of None \<Rightarrow> (1, h, 0) | Some (m, _) \<Rightarrow> (2, h, m))
     | Some (h, _) \<Rightarrow> (1, h, 0)
     | None \<Rightarrow> (0, 0, 0))"

definition localToUTC :: "string \<Rightarrow> string \<Rightarrow> location \<Rightarrow> instant option" where
  "localToUTC dateStr hhmm loc =
     (case dateOnlyUTC dateStr of
        None \<Rightarrow> None
      | Some d \<Rightarrow> (case scan_hhmm hhmm of (n, hh, mm) \<Rightarrow>
          if n \<noteq> 2 then None
          else Some (date_in loc (d * 86400 + hh * 3600 + mm * 60) * Second)))"

section \<open>Slots\<close>

record Interval =
  iv_start :: instant
  iv_end :: instant

record TimeRange =
  tr_start :: string
  tr_end :: string

text \<open>A Go map from keys to ranges is the list of its entries, with distinct keys.\<close>

type_synonym ranges_map = "(string \<times> TimeRange list) list"

record PageRules =
  ru_timezone :: string
  ru_slotDurationMin :: int
  ru_bufferBeforeMin :: int
  ru_bufferAfterMin :: int
  ru_minNoticeMin :: int
  ru_maxDaysAhead :: int
  ru_availability :: ranges_map
  ru_dateOverrides :: ranges_map

text \<open>The loop over a range ends only for a positive slot duration; \<open>None\<close> stands for running on.\<close>

partial_function (option) grid :: "instant \<Rightarrow> duration \<Rightarrow> instant \<Rightarrow> instant list option" where
  "grid start dur stop =
     (if stop < start + dur then Some []
      else Option.bind (grid (start + dur) dur stop) (\<lambda>rest. Some (start # rest)))"

definition slot_free :: "PageRules \<Rightarrow> Interval list \<Rightarrow> instant \<Rightarrow> instant \<Rightarrow> bool" where
  "slot_free rules booked start end' \<longleftrightarrow>
     \<not> list_ex (\<lambda>b. overlaps (start - ru_bufferBeforeMin rules * Minute) (end' + ru_bufferAfterMin rules * Minute)
                             (iv_start b) (iv_end b)) booked"

type_synonym slot_acc = "(int \<times> int) list \<times> instant list"

definition slot_step :: "PageRules \<Rightarrow> Interval list \<Rightarrow> instant \<Rightarrow> instant \<Rightarrow> slot_acc \<Rightarrow> slot_acc" where
  "slot_step rules booked now start acc =
     (let end' = start + ru_slotDurationMin rules * Minute; k = (start div 1000000, end' div 1000000)
      in if start < now + ru_minNoticeMin rules * Minute then acc
         else if now + ru_maxDaysAhead rules * 24 * Hour < end' then acc
         else if \<not> slot_free rules booked start end' then acc
         else if k \<in> set (fst acc) then acc
         else (k # fst acc, snd acc @ [start]))"

fun ranges_loop ::
  "PageRules \<Rightarrow> Interval list \<Rightarrow> instant \<Rightarrow> location \<Rightarrow> string \<Rightarrow> TimeRange list \<Rightarrow> slot_acc \<Rightarrow> slot_acc option" where
  "ranges_loop rules booked now loc dateStr [] acc = Some acc"
| "ranges_loop rules booked now loc dateStr (r # rs) acc =
     (case (localToUTC dateStr (tr_start r) loc, localToUTC dateStr (tr_end r) loc) of
        (Some rangeStart, Some rangeEnd) \<Rightarrow>
          if rangeStart < rangeEnd
          then Option.bind (grid rangeStart (ru_slotDurationMin rules * Minute) rangeEnd) (\<lambda>starts.
                 ranges_loop rules booked now loc dateStr rs (fold (slot_step rules booked now) starts acc))
          else ranges_loop rules booked now loc dateStr rs acc
      | _ \<Rightarrow> ranges_loop rules booked now loc dateStr rs acc)"

definition ranges_on :: "PageRules \<Rightarrow> string \<Rightarrow> TimeRange list" where
  "ranges_on rules dateStr =
     (case map_of (ru_dateOverrides rules) dateStr of
        Some ranges \<Rightarrow> ranges
      | None \<Rightarrow> (case map_of (ru_availability rules) (weekdayKey dateStr) of Some ranges \<Rightarrow> ranges | None \<Rightarrow> []))"

fun days_loop ::
  "PageRules \<Rightarrow> Interval list \<Rightarrow> instant \<Rightarrow> location \<Rightarrow> string \<Rightarrow> string \<Rightarrow> int list \<Rightarrow> slot_acc \<Rightarrow> slot_acc option" where
  "days_loop rules booked now loc fromDateStr horizonDateStr [] acc = Some acc"
| "days_loop rules booked now loc fromDateStr horizonDateStr (i # is) acc =
     (let dateStr = addDaysToDateStr fromDateStr i
      in if str_less horizonDateStr dateStr then Some acc
         else Option.bind (ranges_loop rules booked now loc dateStr (ranges_on rules dateStr) acc)
                (days_loop rules booked now loc fromDateStr horizonDateStr is))"

definition Slots ::
  "(string \<Rightarrow> location option) \<Rightarrow> PageRules \<Rightarrow> Interval list \<Rightarrow> instant \<Rightarrow> instant \<Rightarrow> instant \<Rightarrow> instant list option" where
  "Slots tzdb rules booked now from to =
     (case tzdb (ru_timezone rules) of
        None \<Rightarrow> Some []
      | Some loc \<Rightarrow>
          (let fromDateStr = localDateStr from loc;
               toDateStr = localDateStr to loc;
               spanDays = daysBetween fromDateStr toDateStr;
               horizonDateStr = localDateStr (now + (ru_maxDaysAhead rules + 1) * 24 * Hour) loc
           in if spanDays < 0 then Some []
              else map_option (\<lambda>(seen, results). sort results)
                     (days_loop rules booked now loc fromDateStr horizonDateStr [0..spanDays] ([], []))))"

definition IsSlotAvailable ::
  "(string \<Rightarrow> location option) \<Rightarrow> PageRules \<Rightarrow> instant \<Rightarrow> instant \<Rightarrow> Interval list \<Rightarrow> bool option" where
  "IsSlotAvailable tzdb rules start now booked =
     map_option (list_ex (\<lambda>s. s = start)) (Slots tzdb rules booked now (start - 24 * Hour) (start + 24 * Hour))"

end
