(* ===== verification/PlainText.thy ===== *)
theory PlainText
  imports GoText
begin

text \<open>
  Running the text functions on concrete strings: a string of printable ASCII that starts and ends with
  a non-blank character is its own \<^verbatim>\<open>TrimSpace\<close>.
\<close>

definition printable :: "char \<Rightarrow> bool" where
  "printable c \<longleftrightarrow> (of_char c :: nat) \<in> {33..126}"

lemma strip_any_None:
  "(\<And>w. w \<in> set ws \<Longrightarrow> w \<noteq> [] \<Longrightarrow> hd w \<noteq> c) \<Longrightarrow> strip_any ws (c # s) = None"
proof (induction ws)
  case (Cons w ws)
  have "\<not> (w \<noteq> [] \<and> take (length w) (c # s) = w)"
    using Cons.prems [of w] by (cases w) auto
  with Cons show ?case by auto
qed simp

lemma white_space_ends: "list_all (\<lambda>w. \<not> printable (hd w) \<and> \<not> printable (last w)) white_space"
  by (simp add: white_space_def printable_def)

lemma white_space_endsD:
  assumes "w \<in> set white_space"
  shows "\<not> printable (hd w)" "\<not> printable (last w)"
  using white_space_ends assms unfolding list_all_iff by blast+

lemma TrimSpace_plain: "printable c \<Longrightarrow> printable (last (c # s)) \<Longrightarrow> TrimSpace (c # s) = c # s"
proof -
  assume c: "printable c" and l: "printable (last (c # s))"
  have "strip_any white_space (c # s) = None"
    using c white_space_endsD(1) by (intro strip_any_None) metis
  moreover have "strip_any (map rev white_space) (rev (c # s)) = None"
  proof -
    have "rev (c # s) = last (c # s) # rev (butlast (c # s))"
      by (metis append_butlast_last_id list.distinct(1) rev.simps(2) rev_rev_ident rev_append)
    moreover have "strip_any (map rev white_space) (last (c # s) # t) = None" for t
      using l by (intro strip_any_None) (auto simp: hd_rev dest!: white_space_endsD(2))
    ultimately show ?thesis by simp
  qed
  ultimately show ?thesis by (simp only: TrimSpace_def trim_left_id rev_rev_ident)
qed

end
