(* ===== verification/Ics.thy ===== *)
theory Ics
  imports Civil PlainText
begin

text \<open>
  The iCalendar core (\<^verbatim>\<open>internal/ics/ics.go\<close>): escaping of text values, folding of content lines and the calendar
  wrapper; and what a calendar program reads back: physical lines end in CRLF, a leading space continues the line
  before, and text values are unescaped (RFC 5545).
\<close>

section \<open>Writing\<close>

definition LineLimit :: nat where "LineLimit = 75"

abbreviation LF :: char where "LF \<equiv> CHR 0x0A"
abbreviation CR :: char where "CR \<equiv> CHR 0x0D"
abbreviation backslash :: char where "backslash \<equiv> CHR 0x5C"

definition escape_char :: "char \<Rightarrow> string" where
  "escape_char c =
     (if c = backslash \<or> c = CHR '';'' \<or> c = CHR '','' then [backslash, c]
      else if c = LF then [backslash, CHR ''n''] else [c])"

definition EscapeText :: "string \<Rightarrow> string" where
  "EscapeText s = concat (map escape_char s)"

definition fold_rune :: "string \<Rightarrow> string list \<times> string \<Rightarrow> string list \<times> string" where
  "fold_rune ch = (\<lambda>(chunks, current).
     let limit = (if 0 < length chunks then LineLimit - 1 else LineLimit)
     in if limit < length current + length ch then (chunks @ [current], ch) else (chunks, current @ ch))"

definition FoldLine :: "string \<Rightarrow> string" where
  "FoldLine line =
     (if length line \<le> LineLimit then line
      else (case fold fold_rune (runes line) ([], []) of (chunks, current) \<Rightarrow>
        Join [CR, LF, CHR '' ''] (if 0 < length current then chunks @ [current] else chunks)))"

definition BuildCalendar :: "string list \<Rightarrow> string" where
  "BuildCalendar veventLines =
     (let lines = [''BEGIN:VCALENDAR'', ''VERSION:2.0'', ''PRODID:-//whenweall//EN'', ''CALSCALE:GREGORIAN'',
         ''METHOD:PUBLISH''] @ veventLines @ [''END:VCALENDAR'']
      in Join [CR, LF] (map FoldLine lines) @ [CR, LF])"

section \<open>Reading\<close>

fun physical_lines :: "string \<Rightarrow> string \<Rightarrow> string list" where
  "physical_lines acc [] = (if acc = [] then [] else [rev acc])"
| "physical_lines acc (c # s) =
     (case s of
        d # r \<Rightarrow> if c = CR \<and> d = LF then rev acc # physical_lines [] r else physical_lines (c # acc) s
      | [] \<Rightarrow> physical_lines (c # acc) s)"

fun unfold_from :: "string \<Rightarrow> string list \<Rightarrow> string list" where
  "unfold_from line [] = [line]"
| "unfold_from line (l # ls) =
     (if l \<noteq> [] \<and> hd l = CHR '' '' then unfold_from (line @ tl l) ls else line # unfold_from l ls)"

fun unfold_lines :: "string list \<Rightarrow> string list" where
  "unfold_lines [] = []"
| "unfold_lines (l # ls) = unfold_from l ls"

definition content_lines :: "string \<Rightarrow> string list" where
  "content_lines s = unfold_lines (physical_lines [] s)"

fun unescape_text :: "string \<Rightarrow> string" where
  "unescape_text [] = []"
| "unescape_text (c # s) =
     (if c = backslash then (case s of [] \<Rightarrow> [c] | d # r \<Rightarrow> (if d = CHR ''n'' \<or> d = CHR ''N'' then LF else d) # unescape_text r)
      else c # unescape_text s)"

text \<open>The value of the first line of a given name.\<close>

fun text_value :: "string \<Rightarrow> string list \<Rightarrow> string option" where
  "text_value name [] = None"
| "text_value name (l # ls) =
     (if take (length name + 1) l = name @ '':'' then Some (unescape_text (drop (length name + 1) l)) else text_value name ls)"

section \<open>Escaping\<close>

lemma unescape_EscapeText [simp]: "unescape_text (EscapeText s) = s"
  by (induction s) (auto simp: EscapeText_def escape_char_def)

lemma EscapeText_one_line: "LF \<notin> set (EscapeText s)"
  by (auto simp: EscapeText_def escape_char_def split: if_splits)

lemma valid_utf8_rune: "valid_utf8 t \<Longrightarrow> rune_len s = Some n \<Longrightarrow> valid_utf8 (take n s @ t)"
  using rune_len_take [of s n t] rune_len_bounds [of s n] by (subst valid_utf8.simps) simp

lemma valid_utf8_append: "valid_utf8 s \<Longrightarrow> valid_utf8 t \<Longrightarrow> valid_utf8 (s @ t)"
proof (induction s rule: valid_utf8.induct)
  case (1 s)
  show ?case
  proof (cases "s = []")
    case False
    with 1(2) obtain n where n: "rune_len s = Some n" "valid_utf8 (drop n s)"
      by (subst (asm) valid_utf8.simps) (auto split: option.splits)
    have "valid_utf8 (take n s @ (drop n s @ t))"
      by (rule valid_utf8_rune [OF 1(1) [OF n 1(3)] n(1)])
    then show ?thesis by (simp add: append.assoc [symmetric] del: append.assoc)
  qed (use 1(3) in simp)
qed

lemma ascii_valid_utf8: "(\<And>c. c \<in> set s \<Longrightarrow> byte c < 128) \<Longrightarrow> valid_utf8 s"
proof (induction s)
  case (Cons c s)
  then have "rune_len (c # s) = Some 1" by simp
  moreover have "valid_utf8 s" using Cons by simp
  ultimately show ?case by (subst valid_utf8.simps) simp
qed simp

lemma rune_bytes:
  assumes "rune_len s = Some n"
  shows "n = 1 \<Longrightarrow> byte (hd s) < 128" and "n \<noteq> 1 \<Longrightarrow> c \<in> set (take n s) \<Longrightarrow> 128 \<le> byte c"
  using assms by (cases s; force simp: is_cont_def split: list.splits if_splits)+

lemma EscapeText_append: "EscapeText (s @ t) = EscapeText s @ EscapeText t"
  by (simp add: EscapeText_def)

lemma EscapeText_high: "(\<And>c. c \<in> set s \<Longrightarrow> 128 \<le> byte c) \<Longrightarrow> EscapeText s = s"
proof (induction s)
  case (Cons c s)
  have "128 \<le> byte c" using Cons(2) by simp
  then have "escape_char c = [c]" by (auto simp: escape_char_def byte_def)
  with Cons show ?case by (simp add: EscapeText_def)
qed (simp add: EscapeText_def)

lemma valid_EscapeText: "valid_utf8 s \<Longrightarrow> valid_utf8 (EscapeText s)"
proof (induction s rule: valid_utf8.induct)
  case (1 s)
  show ?case
  proof (cases "s = []")
    case False
    with 1(2) obtain n where n: "rune_len s = Some n" "valid_utf8 (drop n s)"
      by (subst (asm) valid_utf8.simps) (auto split: option.splits)
    have "EscapeText s = EscapeText (take n s) @ EscapeText (drop n s)"
      by (simp add: EscapeText_append [symmetric])
    moreover have "valid_utf8 (EscapeText (take n s))"
    proof (cases "n = 1")
      case True
      then have "byte (hd s) < 128" using rune_bytes(1) [OF n(1)] by simp
      moreover have "take n s = [hd s]" using True False by (cases s) simp_all
      ultimately show ?thesis
        by (intro ascii_valid_utf8) (auto simp: EscapeText_def escape_char_def byte_def split: if_splits)
    next
      case False
      then have "EscapeText (take n s) = take n s" using rune_bytes(2) [OF n(1)] by (intro EscapeText_high) blast
      then show ?thesis using valid_utf8_rune [OF valid_utf8_Nil n(1)] by simp
    qed
    ultimately show ?thesis using valid_utf8_append 1(1) [OF n] by metis
  qed (simp add: EscapeText_def)
qed

section \<open>Folding\<close>

definition pieces_ok :: "string list \<Rightarrow> bool" where
  "pieces_ok ps \<longleftrightarrow> ps \<noteq> [] \<and> length (hd ps) \<le> LineLimit \<and> list_all (\<lambda>p. length p < LineLimit) (tl ps) \<and>
     list_all valid_utf8 ps"

lemma pieces_snoc:
  "pieces_ok (ps @ [p]) \<longleftrightarrow> length p \<le> (if 0 < length ps then LineLimit - 1 else LineLimit) \<and> valid_utf8 p \<and>
     (ps = [] \<or> pieces_ok ps)"
  by (cases ps) (auto simp: pieces_ok_def LineLimit_def)

lemma fold_runes:
  assumes "fold fold_rune rs (chunks, current) = (chunks', current')"
    and "pieces_ok (chunks @ [current])" and "[] \<notin> set chunks"
    and "\<And>r. r \<in> set rs \<Longrightarrow> 0 < length r \<and> length r \<le> 4 \<and> valid_utf8 r"
  shows "pieces_ok (chunks' @ [current']) \<and> concat chunks' @ current' = concat chunks @ current @ concat rs \<and>
    [] \<notin> set chunks' \<and> (rs \<noteq> [] \<longrightarrow> current' \<noteq> [])"
  using assms
proof (induction rs arbitrary: chunks current)
  case (Cons r rs)
  let ?limit = "if 0 < length chunks then LineLimit - 1 else LineLimit"
  have r: "0 < length r" "length r \<le> 4" "valid_utf8 r" using Cons.prems(4) by simp_all
  show ?case
  proof (cases "?limit < length current + length r")
    case True
    then have "fold_rune r (chunks, current) = (chunks @ [current], r)" by (simp add: fold_rune_def Let_def)
    then have run: "fold fold_rune rs (chunks @ [current], r) = (chunks', current')" using Cons.prems(1) by simp
    have "[] \<notin> set (chunks @ [current])" using True r(2) Cons.prems(3) by (auto simp: LineLimit_def split: if_splits)
    note ne = this
    have "pieces_ok ((chunks @ [current]) @ [r])"
      using Cons.prems(2) r pieces_snoc [of "chunks @ [current]" r] by (simp add: LineLimit_def)
    from Cons.IH [OF run this ne Cons.prems(4)] r(1) run show ?thesis by (cases rs) auto
  next
    case False
    then have "fold_rune r (chunks, current) = (chunks, current @ r)" by (simp add: fold_rune_def Let_def)
    then have run: "fold fold_rune rs (chunks, current @ r) = (chunks', current')" using Cons.prems(1) by simp
    have "pieces_ok (chunks @ [current @ r])"
      using Cons.prems(2) r False by (simp add: pieces_snoc valid_utf8_append)
    from Cons.IH [OF run this Cons.prems(3,4)] r(1) run show ?thesis by (cases rs) auto
  qed
qed simp

lemma runes_valid: "valid_utf8 s \<Longrightarrow> r \<in> set (runes s) \<Longrightarrow> valid_utf8 r"
proof (induction s rule: valid_utf8.induct)
  case (1 s)
  then show ?case
  proof (cases "s = []")
    case False
    with 1(2) obtain n where n: "rune_len s = Some n" "valid_utf8 (drop n s)"
      by (subst (asm) valid_utf8.simps) (auto split: option.splits)
    have "runes s = take n s # runes (drop n s)" using False n(1) by (subst runes.simps) simp
    then show ?thesis using 1(1) [OF n] 1(3) valid_utf8_rune [OF valid_utf8_Nil n(1)] by auto
  qed simp
qed

definition crlf :: "string list \<Rightarrow> string" where
  "crlf ls = concat (map (\<lambda>l. l @ [CR, LF]) ls)"

lemma crlf_simps [simp]: "crlf [] = []" "crlf (l # ls) = l @ [CR, LF] @ crlf ls" "crlf (xs @ ys) = crlf xs @ crlf ys"
  by (simp_all add: crlf_def)

lemma Join_crlf: "xs \<noteq> [] \<Longrightarrow> Join [CR, LF] xs @ [CR, LF] = crlf xs"
  by (induction "[CR, LF]" xs rule: Join.induct) simp_all

lemma Join_fold: "Join [CR, LF, CHR '' ''] (p # ps) @ [CR, LF] = crlf (p # map (Cons (CHR '' '')) ps)"
  by (induction ps arbitrary: p) simp_all

text \<open>A folded line is a list of physical lines of at most 75 octets, none of which splits a character.\<close>

lemma FoldLine_pieces:
  assumes "valid_utf8 l"
  obtains p ps where "FoldLine l @ [CR, LF] = crlf (p # map (Cons (CHR '' '')) ps)" and "pieces_ok (p # ps)"
    and "l = p @ concat ps" and "l \<noteq> [] \<longrightarrow> p \<noteq> []"
proof (cases "length l \<le> LineLimit")
  case True
  with assms show thesis by (intro that [of l "[]"]) (simp_all add: FoldLine_def pieces_ok_def)
next
  case False
  obtain chunks current where run: "fold fold_rune (runes l) ([], []) = (chunks, current)" by force
  have rs: "\<And>r. r \<in> set (runes l) \<Longrightarrow> 0 < length r \<and> length r \<le> 4 \<and> valid_utf8 r"
    using runes_length runes_valid [OF assms] by blast
  have "runes l \<noteq> []" using concat_runes [OF assms] False by auto
  then have got: "pieces_ok (chunks @ [current])" "concat chunks @ current = l" "current \<noteq> []" "[] \<notin> set chunks"
    using fold_runes [OF run _ _ rs] concat_runes [OF assms] by (auto simp: pieces_ok_def)
  obtain p ps where p: "chunks @ [current] = p # ps" by (cases "chunks @ [current]") auto
  have "concat (chunks @ [current]) = l" using got(2) by simp
  then have l: "l = p @ concat ps" using p by simp
  show thesis
  proof (rule that)
    show "FoldLine l @ [CR, LF] = crlf (p # map (Cons (CHR '' '')) ps)"
      unfolding FoldLine_def run using False got(3) by (simp add: p Join_fold [unfolded append_Cons append_Nil])
    show "pieces_ok (p # ps)" using got(1) p by simp
    show "l = p @ concat ps" by (rule l)
    show "l \<noteq> [] \<longrightarrow> p \<noteq> []" using got(3,4) p by (cases chunks) auto
  qed
qed

section \<open>Reading back\<close>

definition content_line :: "string \<Rightarrow> bool" where
  "content_line l \<longleftrightarrow> valid_utf8 l \<and> LF \<notin> set l \<and> l \<noteq> [] \<and> hd l \<noteq> CHR '' ''"

lemma physical_line:
  "LF \<notin> set x \<Longrightarrow> physical_lines acc (x @ CR # LF # r) = (rev acc @ x) # physical_lines [] r"
proof (induction x arbitrary: acc)
  case (Cons c x)
  have "physical_lines acc ((c # x) @ CR # LF # r) = physical_lines (c # acc) (x @ CR # LF # r)"
    using Cons.prems by (cases x) auto
  with Cons show ?case by simp
qed simp

lemma physical_crlf: "(\<And>x. x \<in> set xs \<Longrightarrow> LF \<notin> set x) \<Longrightarrow> physical_lines [] (crlf xs) = xs"
  by (induction xs) (simp_all add: physical_line)

lemma unfold_continued:
  "unfold_from line (map (Cons (CHR '' '')) ps @ rest) = unfold_from (line @ concat ps) rest"
  by (induction ps arbitrary: line) simp_all

definition folded :: "string \<Rightarrow> string list \<Rightarrow> bool" where
  "folded l phys \<longleftrightarrow> FoldLine l @ [CR, LF] = crlf phys \<and> list_all (\<lambda>x. length x \<le> LineLimit \<and> valid_utf8 x \<and> LF \<notin> set x) phys \<and>
     (\<exists>p ps. phys = p # map (Cons (CHR '' '')) ps \<and> l = p @ concat ps \<and> p \<noteq> [])"

lemma folded_ex:
  assumes "content_line l"
  shows "\<exists>phys. folded l phys"
proof -
  obtain p ps where p: "FoldLine l @ [CR, LF] = crlf (p # map (Cons (CHR '' '')) ps)" "pieces_ok (p # ps)"
      "l = p @ concat ps" "l \<noteq> [] \<longrightarrow> p \<noteq> []"
    using FoldLine_pieces assms unfolding content_line_def by metis
  have "valid_utf8 (CHR '' '' # x)" if "valid_utf8 x" for x
    using valid_utf8_append [OF _ that, of "[CHR '' '']"] ascii_valid_utf8 [of "[CHR '' '']"] by (simp add: byte_def)
  with p(2) have "list_all (\<lambda>x. length x \<le> LineLimit \<and> valid_utf8 x) (p # map (Cons (CHR '' '')) ps)"
    by (auto simp: pieces_ok_def list_all_iff)
  moreover have "list_all (\<lambda>x. LF \<notin> set x) (p # map (Cons (CHR '' '')) ps)"
    using assms by (auto simp: content_line_def p(3) list_all_iff)
  moreover have "p \<noteq> []" using p(4) assms by (simp add: content_line_def)
  ultimately have "folded l (p # map (Cons (CHR '' '')) ps)"
    unfolding folded_def using p(1,3) by (auto simp: list_all_iff)
  then show ?thesis ..
qed

lemma unfold_from_folded:
  assumes "list_all2 folded ls physs" and "list_all content_line ls"
  shows "unfold_from line (concat physs) = line # ls"
  using assms
proof (induction ls physs arbitrary: line rule: list_all2_induct)
  case (Cons l ls phys physs)
  obtain p ps where phys: "phys = p # map (Cons (CHR '' '')) ps" "l = p @ concat ps" "p \<noteq> []"
    using Cons.hyps(1) by (auto simp: folded_def)
  have "hd p \<noteq> CHR '' ''" using Cons.prems phys(2,3) by (simp add: content_line_def)
  then show ?case using Cons.IH [of l] Cons.prems phys by (simp add: unfold_continued)
qed simp

lemma unfold_folded:
  assumes "list_all2 folded ls physs" and "list_all content_line ls"
  shows "unfold_lines (concat physs) = ls"
proof (cases ls)
  case (Cons l ls')
  then obtain phys physs' where physs: "physs = phys # physs'" "folded l phys" "list_all2 folded ls' physs'"
    using assms(1) by (auto simp: list_all2_Cons1)
  obtain p ps where phys: "phys = p # map (Cons (CHR '' '')) ps" "l = p @ concat ps" using physs(2) by (auto simp: folded_def)
  then show ?thesis using unfold_from_folded [OF physs(3), of l] assms(2) Cons physs(1) by (simp add: unfold_continued)
qed (use assms(1) in simp)

definition calendar_lines :: "string list \<Rightarrow> string list" where
  "calendar_lines ls = [''BEGIN:VCALENDAR'', ''VERSION:2.0'', ''PRODID:-//whenweall//EN'', ''CALSCALE:GREGORIAN'',
     ''METHOD:PUBLISH''] @ ls @ [''END:VCALENDAR'']"

lemma FoldLines_crlf:
  "list_all2 folded ls physs \<Longrightarrow> crlf (map FoldLine ls) = crlf (concat physs)"
  by (induction rule: list_all2_induct) (auto simp: folded_def)

lemma content_line_ascii:
  "s \<noteq> [] \<Longrightarrow> hd s \<noteq> CHR '' '' \<Longrightarrow> list_all (\<lambda>c. byte c < 128 \<and> c \<noteq> LF) s \<Longrightarrow> content_line s"
  by (auto simp: content_line_def list_all_iff intro: ascii_valid_utf8)

lemma list_all2_choice: "list_all (\<lambda>x. \<exists>y. P x y) xs \<Longrightarrow> \<exists>ys. list_all2 P xs ys"
  by (induction xs) (auto simp: list_all2_Cons1)

text \<open>What a calendar program reads from a calendar file is the lines that were put in.\<close>

lemma calendar_read:
  assumes "list_all content_line ls"
  shows "content_lines (BuildCalendar ls) = calendar_lines ls \<and>
    list_all (\<lambda>x. length x \<le> LineLimit \<and> valid_utf8 x) (physical_lines [] (BuildCalendar ls))"
proof -
  have ok: "list_all content_line (calendar_lines ls)"
    using assms by (simp add: calendar_lines_def content_line_ascii byte_def)
  have "list_all (\<lambda>l. \<exists>phys. folded l phys) (calendar_lines ls)" using ok folded_ex by (auto simp: list_all_iff)
  then obtain physs where physs: "list_all2 folded (calendar_lines ls) physs" using list_all2_choice by blast
  have "BuildCalendar ls = crlf (concat physs)"
    using Join_crlf [of "map FoldLine (calendar_lines ls)"] FoldLines_crlf [OF physs]
    by (simp add: BuildCalendar_def calendar_lines_def)
  moreover have "list_all (\<lambda>x. length x \<le> LineLimit \<and> valid_utf8 x \<and> LF \<notin> set x) (concat physs)"
    using physs by (induction rule: list_all2_induct) (auto simp: folded_def list_all_iff)
  moreover from this have "physical_lines [] (crlf (concat physs)) = concat physs"
    by (intro physical_crlf) (auto simp: list_all_iff)
  ultimately show ?thesis using unfold_folded [OF physs ok] by (simp add: content_lines_def list_all_iff)
qed

lemma content_line_append: "content_line l \<Longrightarrow> valid_utf8 s \<Longrightarrow> LF \<notin> set s \<Longrightarrow> content_line (l @ s)"
  by (simp add: content_line_def valid_utf8_append)

lemma content_line_text: "content_line name \<Longrightarrow> valid_utf8 s \<Longrightarrow> content_line (name @ EscapeText s)"
  by (simp add: content_line_append valid_EscapeText EscapeText_one_line)

lemma text_value_text: "text_value name ((name @ '':'' @ EscapeText s) # ls) = Some s"
  by simp

lemma text_value_skip: "take (length name + 1) l \<noteq> name @ '':'' \<Longrightarrow> text_value name (l # ls) = text_value name ls"
  by simp

definition plain :: "char \<Rightarrow> bool" where
  "plain c \<longleftrightarrow> byte c < 128 \<and> c \<noteq> LF \<and> c \<noteq> backslash"

lemma plain_digit: "d < 10 \<Longrightarrow> plain (digit_char d)"
  using of_char_digit_char [of d] by (auto simp: plain_def byte_def)

lemma plain_numbers: "list_all plain (digits w n)" "list_all plain (format_nat n)"
proof -
  show "list_all plain (digits w n)" by (induction w arbitrary: n) (simp_all add: plain_digit)
  show "list_all plain (format_nat n)" 
  proof (induction n rule: format_nat.induct)
    case (1 n)
    then show ?case by (subst format_nat.simps) (simp add: plain_digit)
  qed
qed

lemma plain_basicDate: "list_all plain (basicDate n)"
  by (simp add: basicDate_def appendInt_def plain_numbers Let_def split: prod.split) (simp add: plain_def byte_def)

lemma plain_stamps:
  "list_all plain (FormatUTCBasic t)" "list_all plain (FormatDateBasic t)" "list_all plain (NextDayBasic t)"
  by (simp_all add: FormatUTCBasic_def FormatDateBasic_def NextDayBasic_def plain_basicDate plain_numbers split: prod.split)
    (simp add: plain_def byte_def)

lemma content_line_plain: "content_line name \<Longrightarrow> list_all plain s \<Longrightarrow> content_line (name @ s)"
  by (intro content_line_append) (auto simp: list_all_iff plain_def intro: ascii_valid_utf8)

lemma unescape_plain: "list_all plain s \<Longrightarrow> unescape_text s = s"
  by (induction s) (simp_all add: plain_def)

lemma text_value_plain: "list_all plain s \<Longrightarrow> text_value name ((name @ '':'' @ s) # ls) = Some s"
  by (simp add: unescape_plain)

text \<open>Reading a calendar of one timed event.\<close>

definition event_lines ::
  "string \<Rightarrow> string \<Rightarrow> string \<Rightarrow> string \<Rightarrow> string \<Rightarrow> string \<Rightarrow> string \<Rightarrow> string \<Rightarrow> string list" where
  "event_lines uid stamp dtstart dtend title description loc url =
     [''BEGIN:VEVENT'', ''UID:'' @ EscapeText uid, ''DTSTAMP:'' @ stamp, dtstart, dtend, ''SUMMARY:'' @ EscapeText title] @
     (if description \<noteq> [] then [''DESCRIPTION:'' @ EscapeText description] else []) @
     (if loc \<noteq> [] then [''LOCATION:'' @ EscapeText loc] else []) @
     [''URL:'' @ EscapeText url, ''END:VEVENT'']"

lemma event_lines_ok:
  assumes "valid_utf8 uid" "valid_utf8 title" "valid_utf8 description" "valid_utf8 loc" "valid_utf8 url"
    and "content_line dtstart" "content_line dtend" "list_all plain stamp"
  shows "list_all content_line (event_lines uid stamp dtstart dtend title description loc url)"
proof -
  have name: "content_line ''UID:''" "content_line ''DTSTAMP:''" "content_line ''SUMMARY:''" "content_line ''DESCRIPTION:''"
    "content_line ''LOCATION:''" "content_line ''URL:''" "content_line ''BEGIN:VEVENT''" "content_line ''END:VEVENT''"
    by (simp_all add: content_line_ascii byte_def)
  show ?thesis
    using assms name content_line_text content_line_plain by (auto simp: event_lines_def simp del: append_Cons)
qed

lemma event_values:
  "text_value ''UID'' (calendar_lines (event_lines uid stamp dtstart dtend title description loc url)) = Some uid"
  "take 3 dtstart = ''DTS'' \<Longrightarrow> take 3 dtend = ''DTE'' \<Longrightarrow>
   text_value ''SUMMARY'' (calendar_lines (event_lines uid stamp dtstart dtend title description loc url)) = Some title"
  "take 3 dtstart = ''DTS'' \<Longrightarrow> take 3 dtend = ''DTE'' \<Longrightarrow>
   text_value ''DESCRIPTION'' (calendar_lines (event_lines uid stamp dtstart dtend title description loc url)) =
     (if description = [] then None else Some description)"
  "take 3 dtstart = ''DTS'' \<Longrightarrow> take 3 dtend = ''DTE'' \<Longrightarrow>
   text_value ''LOCATION'' (calendar_lines (event_lines uid stamp dtstart dtend title description loc url)) =
     (if loc = [] then None else Some loc)"
  "take 3 dtstart = ''DTS'' \<Longrightarrow> take 3 dtend = ''DTE'' \<Longrightarrow>
   text_value ''URL'' (calendar_lines (event_lines uid stamp dtstart dtend title description loc url)) = Some url"
proof -
  have skip: "take (Suc n) l \<noteq> w" if "take 3 l = v" "take 3 w \<noteq> v" "2 \<le> n" for n l v and w :: string
  proof
    assume "take (Suc n) l = w"
    then have "take 3 w = take 3 l" using that(3) by (auto simp: min_def)
    with that(1,2) show False by simp
  qed
  note defs = calendar_lines_def event_lines_def
  show "text_value ''UID'' (calendar_lines (event_lines uid stamp dtstart dtend title description loc url)) = Some uid"
    by (simp add: defs)
  assume dt: "take 3 dtstart = ''DTS''" "take 3 dtend = ''DTE''"
  show "text_value ''SUMMARY'' (calendar_lines (event_lines uid stamp dtstart dtend title description loc url)) = Some title"
    "text_value ''DESCRIPTION'' (calendar_lines (event_lines uid stamp dtstart dtend title description loc url)) =
       (if description = [] then None else Some description)"
    "text_value ''LOCATION'' (calendar_lines (event_lines uid stamp dtstart dtend title description loc url)) =
       (if loc = [] then None else Some loc)"
    "text_value ''URL'' (calendar_lines (event_lines uid stamp dtstart dtend title description loc url)) = Some url"
    using skip [OF dt(1)] skip [OF dt(2)] by (simp_all add: defs)
qed

end
