(* ===== verification/Jobs.thy ===== *)
theory Jobs
  imports Civil
begin

text \<open>
  The timers and mail queue of \<^verbatim>\<open>internal/jobs\<close>: the \<^verbatim>\<open>scheduled_jobs\<close> table with the statements
  of \<^verbatim>\<open>jobs.go\<close> (schedule, cancel, claim, complete, fail, retry), the worker of \<^verbatim>\<open>worker.go\<close>, the
  self-rescheduling chains of \<^verbatim>\<open>housekeeping.go\<close> and the health check of \<^verbatim>\<open>health.go\<close>.

  A table is its list of rows; each statement is a function of the table. What the code takes from
  outside is an argument: the clock (\<open>now\<close>), each fresh id of \<^verbatim>\<open>db.NewID\<close> (\<open>nid\<close>), the rows other
  transactions hold locked when \<^verbatim>\<open>FOR UPDATE SKIP LOCKED\<close> runs (\<open>busy\<close>). Payloads are JSON values.
  \<^verbatim>\<open>ORDER BY run_at\<close> is a stable sort. The interval arithmetic of \<open>fail\<close> keeps Postgres's range:
  an interval is a 64-bit number of microseconds and the multiplication raises an error beyond it.
\<close>

datatype json =
    JNull
  | JBool bool
  | JNum int
  | JStr string
  | JArr "json list"
  | JObj "(string \<times> json) list"

record job =
  job_id :: string
  job_kind :: string
  job_room :: "string option"
  job_run_at :: instant
  job_payload :: "json option"
  job_attempts :: nat
  job_max_attempts :: nat
  job_last_error :: "string option"
  job_locked_by :: "string option"
  job_locked_at :: "instant option"

record ScheduleInput =
  si_kind :: string
  si_room :: "string option"
  si_run_at :: instant
  si_payload :: "json option"
  si_max_attempts :: nat

definition lockTimeout :: duration where "lockTimeout = 5 * Minute"
definition maxLastErrorLen :: nat where "maxLastErrorLen = 2000"

definition max_attempts_of :: "ScheduleInput \<Rightarrow> nat" where
  "max_attempts_of i = (if si_max_attempts i = 0 then 5 else si_max_attempts i)"

definition fresh_job :: "string \<Rightarrow> ScheduleInput \<Rightarrow> job" where
  "fresh_job nid i = \<lparr> job_id = nid, job_kind = si_kind i, job_room = si_room i,
     job_run_at = si_run_at i, job_payload = si_payload i, job_attempts = 0,
     job_max_attempts = max_attempts_of i, job_last_error = None, job_locked_by = None,
     job_locked_at = None \<rparr>"

definition same_slot :: "string \<Rightarrow> string option \<Rightarrow> job \<Rightarrow> bool" where
  "same_slot kind room j \<longleftrightarrow> room \<noteq> None \<and> job_kind j = kind \<and> job_room j = room"

definition Schedule :: "string \<Rightarrow> ScheduleInput \<Rightarrow> job list \<Rightarrow> job list" where
  "Schedule nid i js =
     (if \<exists>j \<in> set js. same_slot (si_kind i) (si_room i) j
      then tupd (same_slot (si_kind i) (si_room i)) (\<lambda>_. fresh_job nid i) js
      else js @ [fresh_job nid i])"

definition ScheduleIfAbsent :: "string \<Rightarrow> ScheduleInput \<Rightarrow> job list \<Rightarrow> string + job list" where
  "ScheduleIfAbsent nid i js =
     (if si_room i = None then Inl ''jobs: ScheduleIfAbsent requires a non-nil RoomKey''
      else if \<exists>j \<in> set js. same_slot (si_kind i) (si_room i) j then Inr js
      else Inr (js @ [fresh_job nid i]))"

definition Cancel :: "string \<Rightarrow> string \<Rightarrow> job list \<Rightarrow> job list" where
  "Cancel kind room js = tdel (\<lambda>j. job_kind j = kind \<and> job_room j = Some room) js"

definition due_job :: "instant \<Rightarrow> job \<Rightarrow> bool" where
  "due_job now j \<longleftrightarrow> job_run_at j \<le> now \<and> job_attempts j < job_max_attempts j \<and>
     (job_locked_by j = None \<or> (case job_locked_at j of None \<Rightarrow> False | Some l \<Rightarrow> l < now - lockTimeout))"

definition claim_row :: "instant \<Rightarrow> string \<Rightarrow> job \<Rightarrow> job" where
  "claim_row now replica j =
     j\<lparr> job_locked_by := Some replica, job_locked_at := Some now, job_attempts := job_attempts j + 1 \<rparr>"

definition ClaimDue ::
  "string list \<Rightarrow> instant \<Rightarrow> string \<Rightarrow> nat \<Rightarrow> job list \<Rightarrow> job list \<times> job list" where
  "ClaimDue busy now replica limit js =
     (let due = take limit (sort_key job_run_at (filter (\<lambda>j. due_job now j \<and> job_id j \<notin> set busy) js));
          ids = map job_id due
      in (map (claim_row now replica) due, tupd (\<lambda>j. job_id j \<in> set ids) (claim_row now replica) js))"

definition Complete :: "string \<Rightarrow> job list \<Rightarrow> job list" where
  "Complete i js = tdel (\<lambda>j. job_id j = i) js"

definition rune_start :: "char \<Rightarrow> bool" where
  "rune_start c \<longleftrightarrow> \<not> is_cont c"

fun cut_back :: "string \<Rightarrow> nat \<Rightarrow> nat" where
  "cut_back s 0 = 0"
| "cut_back s (Suc n) = (if rune_start (s ! Suc n) then Suc n else cut_back s n)"

definition truncateLastError :: "string \<Rightarrow> string" where
  "truncateLastError s =
     (if length s \<le> maxLastErrorLen then s else take (cut_back s maxLastErrorLen) s)"

definition interval_range :: int where "interval_range = 2 ^ 63"

definition backoff :: "nat \<Rightarrow> string + duration" where
  "backoff attempts =
     (if interval_range \<le> 2 ^ attempts * (Minute div 1000) then Inl ''interval out of range''
      else Inr (min (2 ^ attempts * Minute) Hour))"

definition fail :: "instant \<Rightarrow> string \<Rightarrow> string \<Rightarrow> job list \<Rightarrow> string + (bool \<times> bool) \<times> job list" where
  "fail now i msg js =
     (case tget job_id i js of
        None \<Rightarrow> Inr ((False, False), js)
      | Some j \<Rightarrow>
          (let retry = job_attempts j < job_max_attempts j;
               upd = (\<lambda>r. tupd (\<lambda>j. job_id j = i)
                  (\<lambda>j. j\<lparr> job_locked_by := None, job_locked_at := None,
                          job_last_error := Some (truncateLastError msg), job_run_at := r \<rparr>) js)
           in if retry
              then rbind (backoff (job_attempts j)) (\<lambda>b. Inr ((True, True), upd (now + b)))
              else Inr ((False, True), upd (job_run_at j))))"

definition Fail :: "instant \<Rightarrow> string \<Rightarrow> string \<Rightarrow> job list \<Rightarrow> string + bool \<times> job list" where
  "Fail now i msg js = rbind (fail now i msg js) (\<lambda>((retry, _), js'). Inr (retry, js'))"

definition dead_job :: "job \<Rightarrow> bool" where
  "dead_job j \<longleftrightarrow> job_max_attempts j \<le> job_attempts j"

definition Dead :: "nat \<Rightarrow> job list \<Rightarrow> job list" where
  "Dead limit js = take limit (sort_key (\<lambda>j. - job_run_at j) (filter dead_job js))"

definition Retry :: "instant \<Rightarrow> string \<Rightarrow> job list \<Rightarrow> job list" where
  "Retry now i js = tupd (\<lambda>j. job_id j = i)
     (\<lambda>j. j\<lparr> job_attempts := 0, job_locked_by := None, job_locked_at := None,
             job_last_error := None, job_run_at := now \<rparr>) js"

definition PayloadExpired :: "string \<Rightarrow> bool \<Rightarrow> bool" where
  "PayloadExpired kind has \<longleftrightarrow> kind = ''mail:send'' \<and> \<not> has"

subsection \<open>The worker\<close>

text \<open>
  A handler runs against the table (the part of its transactions the worker sees) and returns an
  outcome: nil, an error, or a panic that \<open>invoke\<close> recovers. \<open>clock\<close> gives the time of each
  statement of \<open>process\<close>.
\<close>

datatype outcome = Nil_error | Error_of string | Panic string

type_synonym handler = "job \<Rightarrow> job list \<Rightarrow> outcome \<times> job list"

definition claimBatchSize :: nat where "claimBatchSize = 20"
definition jobTimeout :: duration where "jobTimeout = 2 * Minute"

definition invoke :: "(string \<Rightarrow> handler option) \<Rightarrow> job \<Rightarrow> job list \<Rightarrow> string option \<times> job list" where
  "invoke handlers j js =
     (case handlers (job_kind j) of
        None \<Rightarrow> (Some (''no handler registered for kind '' @ job_kind j), js)
      | Some h \<Rightarrow>
          (case h j js of
             (Nil_error, js') \<Rightarrow> (None, js')
           | (Error_of e, js') \<Rightarrow> (Some e, js')
           | (Panic r, js') \<Rightarrow> (Some (''handler panicked: '' @ r), js')))"

definition process :: "(string \<Rightarrow> handler option) \<Rightarrow> instant \<Rightarrow> job \<Rightarrow> job list \<Rightarrow> job list" where
  "process handlers now j js =
     (case invoke handlers j js of
        (Some e, js') \<Rightarrow> (case fail now (job_id j) e js' of Inl _ \<Rightarrow> js' | Inr (_, js'') \<Rightarrow> js'')
      | (None, js') \<Rightarrow> Complete (job_id j) js')"

definition RunOnce ::
  "(string \<Rightarrow> handler option) \<Rightarrow> (nat \<Rightarrow> instant) \<Rightarrow> string list \<Rightarrow> string \<Rightarrow> job list \<Rightarrow> nat \<times> job list"
where
  "RunOnce handlers clock busy replica js =
     (let (claimed, js') = ClaimDue busy (clock 0) replica claimBatchSize js
      in (length claimed,
          fold (\<lambda>(k, j). process handlers (clock k) j) (zip [1..<length claimed + 1] claimed) js'))"

subsection \<open>Housekeeping chains\<close>

definition housekeepingRoomKey :: string where "housekeepingRoomKey = ''global''"
definition housekeepingMaxAttempts :: nat where "housekeepingMaxAttempts = 1000000"

definition housekeepingChains :: "(string \<times> duration) list" where
  "housekeepingChains =
     [(''rooms:prune'', 10 * Minute), (''presence:sweep'', Minute), (''ratelimit:sweep'', Hour),
      (''deadletter:sweep'', Hour), (''softdelete:purge'', 6 * Hour)]"

definition housekeeping_input :: "instant \<Rightarrow> string \<Rightarrow> duration \<Rightarrow> ScheduleInput" where
  "housekeeping_input now kind interval =
     \<lparr> si_kind = kind, si_room = Some housekeepingRoomKey, si_run_at = now + interval,
       si_payload = None, si_max_attempts = housekeepingMaxAttempts \<rparr>"

definition rescheduleHousekeeping ::
  "string \<Rightarrow> instant \<Rightarrow> string \<Rightarrow> duration \<Rightarrow> job list \<Rightarrow> job list" where
  "rescheduleHousekeeping nid now kind interval js = Schedule nid (housekeeping_input now kind interval) js"

definition seedHousekeeping ::
  "string \<Rightarrow> instant \<Rightarrow> string \<Rightarrow> duration \<Rightarrow> job list \<Rightarrow> string + job list" where
  "seedHousekeeping nid now kind interval js =
     ScheduleIfAbsent nid (housekeeping_input now kind interval) js"

fun seed_all :: "(string \<times> string \<times> duration) list \<Rightarrow> instant \<Rightarrow> job list \<Rightarrow> string + job list" where
  "seed_all [] now js = Inr js"
| "seed_all ((nid, kind, interval) # cs) now js =
     rbind (seedHousekeeping nid now kind interval js) (seed_all cs now)"

definition EnsureScheduled :: "string list \<Rightarrow> instant \<Rightarrow> job list \<Rightarrow> string + job list" where
  "EnsureScheduled nids now js = seed_all (zip nids housekeepingChains) now js"

definition sweepDeadLetters :: "instant \<Rightarrow> job list \<Rightarrow> job list" where
  "sweepDeadLetters now js =
     tdel (\<lambda>j. dead_job j \<and> job_run_at j < now - 30 * day_ns)
       (tupd (\<lambda>j. job_kind j = ''mail:send'' \<and> dead_job j \<and> job_payload j \<noteq> None \<and>
                   job_run_at j < now - 24 * Hour)
          (\<lambda>j. j\<lparr> job_payload := None \<rparr>) js)"

definition deadletter_handler :: "string \<Rightarrow> instant \<Rightarrow> handler" where
  "deadletter_handler nid now j js =
     (Nil_error, rescheduleHousekeeping nid now ''deadletter:sweep'' Hour (sweepDeadLetters now js))"

subsection \<open>Health\<close>

record Health =
  DeadLetteredLast24h :: nat
  StalledHousekeeping :: "string list"

definition health_ok :: "Health \<Rightarrow> bool" where
  "health_ok h \<longleftrightarrow> DeadLetteredLast24h h = 0 \<and> StalledHousekeeping h = []"

definition CheckHealth :: "instant \<Rightarrow> job list \<Rightarrow> Health" where
  "CheckHealth now js =
     \<lparr> DeadLetteredLast24h = tcount (\<lambda>j. dead_job j \<and> now - 24 * Hour < job_run_at j) js,
       StalledHousekeeping = filter (\<lambda>kind. \<exists>j \<in> set js. job_room j = Some housekeepingRoomKey \<and>
           job_kind j = kind \<and> job_run_at j < now - 15 * Minute)
         [''deadletter:sweep'', ''presence:sweep'', ''ratelimit:sweep'', ''rooms:prune'',
          ''softdelete:purge''] \<rparr>"

subsection \<open>The table stays well formed\<close>

text \<open>
  \<open>jobs_ok\<close>: the primary key, the partial unique index on \<^verbatim>\<open>(kind, room_key)\<close>, and an attempt
  count within its budget. \<open>jobs_step\<close> is one statement against the table; \<^verbatim>\<open>db.NewID\<close> returns an
  id no row has.
\<close>

definition slot_uniq :: "job list \<Rightarrow> bool" where
  "slot_uniq js \<longleftrightarrow> (\<forall>a \<in> set js. \<forall>b \<in> set js.
     same_slot (job_kind a) (job_room a) b \<longrightarrow> a = b)"

definition jobs_ok :: "job list \<Rightarrow> bool" where
  "jobs_ok js \<longleftrightarrow> tuniq job_id js \<and> slot_uniq js \<and>
     (\<forall>j \<in> set js. job_attempts j \<le> job_max_attempts j \<and> 0 < job_max_attempts j)"

lemma jobs_okI:
  "tuniq job_id js \<Longrightarrow> slot_uniq js \<Longrightarrow>
   (\<And>j. j \<in> set js \<Longrightarrow> job_attempts j \<le> job_max_attempts j \<and> 0 < job_max_attempts j) \<Longrightarrow> jobs_ok js"
  by (simp add: jobs_ok_def)

lemma jobs_okD:
  assumes "jobs_ok js"
  shows "tuniq job_id js" and "slot_uniq js"
    and "j \<in> set js \<Longrightarrow> job_attempts j \<le> job_max_attempts j"
    and "j \<in> set js \<Longrightarrow> 0 < job_max_attempts j"
  using assms by (auto simp: jobs_ok_def)

lemma slot_uniqD:
  "slot_uniq js \<Longrightarrow> a \<in> set js \<Longrightarrow> b \<in> set js \<Longrightarrow> same_slot kind room a \<Longrightarrow> same_slot kind room b \<Longrightarrow> a = b"
  unfolding slot_uniq_def same_slot_def by metis

lemma fresh_job_simps [simp]:
  "job_id (fresh_job nid i) = nid" "job_kind (fresh_job nid i) = si_kind i"
  "job_room (fresh_job nid i) = si_room i" "job_run_at (fresh_job nid i) = si_run_at i"
  "job_payload (fresh_job nid i) = si_payload i" "job_attempts (fresh_job nid i) = 0"
  "job_max_attempts (fresh_job nid i) = max_attempts_of i"
  "job_locked_by (fresh_job nid i) = None" "job_locked_at (fresh_job nid i) = None"
  by (simp_all add: fresh_job_def)

lemma max_attempts_of_pos [simp]: "0 < max_attempts_of i"
  by (simp add: max_attempts_of_def)

lemma claim_row_simps [simp]:
  "job_id (claim_row now r j) = job_id j" "job_kind (claim_row now r j) = job_kind j"
  "job_room (claim_row now r j) = job_room j" "job_attempts (claim_row now r j) = job_attempts j + 1"
  "job_max_attempts (claim_row now r j) = job_max_attempts j"
  "job_run_at (claim_row now r j) = job_run_at j"
  "job_locked_by (claim_row now r j) = Some r" "job_locked_at (claim_row now r j) = Some now"
  by (simp_all add: claim_row_def)

lemma slot_uniq_tupd:
  assumes "slot_uniq js" and "\<And>j. job_kind (f j) = job_kind j \<and> job_room (f j) = job_room j"
  shows "slot_uniq (tupd p f js)"
proof -
  have "a = b" if "a' \<in> set js" "b' \<in> set js" "a = (if p a' then f a' else a')"
    "b = (if p b' then f b' else b')" "same_slot (job_kind a) (job_room a) b" for a b a' b'
  proof -
    from that assms(2) have "same_slot (job_kind a') (job_room a') b'"
      by (auto simp: same_slot_def split: if_splits)
    with assms(1) that have "a' = b'" by (auto simp: slot_uniq_def)
    with that show ?thesis by simp
  qed
  then show ?thesis unfolding slot_uniq_def set_tupd by blast
qed

lemma slot_uniq_subset: "slot_uniq js \<Longrightarrow> set js' \<subseteq> set js \<Longrightarrow> slot_uniq js'"
  unfolding slot_uniq_def by (meson subsetD)

lemma jobs_ok_tdel: "jobs_ok js \<Longrightarrow> jobs_ok (tdel p js)"
  by (rule jobs_okI) (auto simp: jobs_ok_def tuniq_tdel intro: slot_uniq_subset)

lemma jobs_ok_tupd:
  assumes "jobs_ok js"
    and "\<And>j. job_id (f j) = job_id j \<and> job_kind (f j) = job_kind j \<and> job_room (f j) = job_room j
           \<and> job_max_attempts (f j) = job_max_attempts j"
    and "\<And>j. j \<in> set js \<Longrightarrow> p j \<Longrightarrow> job_attempts (f j) \<le> job_max_attempts j"
  shows "jobs_ok (tupd p f js)"
proof (rule jobs_okI)
  show "tuniq job_id (tupd p f js)" using jobs_okD(1) [OF assms(1)] assms(2) by simp
  show "slot_uniq (tupd p f js)" using slot_uniq_tupd [OF jobs_okD(2) [OF assms(1)]] assms(2) by blast
next
  fix j' assume "j' \<in> set (tupd p f js)"
  then obtain j where "j \<in> set js" "j' = (if p j then f j else j)" by (rule in_tupdE)
  with assms show "job_attempts j' \<le> job_max_attempts j' \<and> 0 < job_max_attempts j'"
    by (auto simp: jobs_ok_def)
qed

lemma jobs_ok_snoc:
  assumes "jobs_ok js" and "job_id x \<notin> job_id ` set js"
    and "\<not> (\<exists>j \<in> set js. same_slot (job_kind x) (job_room x) j)"
    and "job_attempts x \<le> job_max_attempts x" and "0 < job_max_attempts x"
  shows "jobs_ok (js @ [x])"
proof (rule jobs_okI)
  show "tuniq job_id (js @ [x])" using assms(1,2) by (auto simp: jobs_ok_def tuniq_def)
  have "\<not> same_slot (job_kind j) (job_room j) x" if "j \<in> set js" for j
    using assms(3) that by (metis same_slot_def)
  then show "slot_uniq (js @ [x])"
    using assms(1,3) by (auto simp: jobs_ok_def slot_uniq_def)
qed (use assms in \<open>auto simp: jobs_ok_def\<close>)

lemma tupd_replace_one:
  assumes "tuniq job_id js" and "j0 \<in> set js" and "\<And>j. j \<in> set js \<Longrightarrow> p j \<longleftrightarrow> j = j0"
    and "job_id x \<notin> job_id ` set js"
  shows "tuniq job_id (tupd p (\<lambda>_. x) js)" and "set (tupd p (\<lambda>_. x) js) = insert x (set js - {j0})"
proof -
  have "p j \<longleftrightarrow> job_id j = job_id j0" if "j \<in> set js" for j
    using assms(1-3) that tuniq_inj by metis
  then have "map job_id (tupd p (\<lambda>_. x) js) =
      map (\<lambda>i. if i = job_id j0 then job_id x else i) (map job_id js)"
    by (auto simp: tupd_def)
  moreover have "inj_on (\<lambda>i. if i = job_id j0 then job_id x else i) (set (map job_id js))"
    using assms(4) unfolding inj_on_def set_map by (metis (full_types))
  ultimately show "tuniq job_id (tupd p (\<lambda>_. x) js)"
    using assms(1) by (simp only: tuniq_def distinct_map)
  show "set (tupd p (\<lambda>_. x) js) = insert x (set js - {j0})"
    using assms(2,3) unfolding set_tupd by (auto simp: image_iff)
qed

lemma Schedule_cases:
  assumes "jobs_ok js"
  obtains (absent) "\<not> (\<exists>j \<in> set js. same_slot (si_kind i) (si_room i) j)"
      and "Schedule nid i js = js @ [fresh_job nid i]"
  | (present) j0 where "j0 \<in> set js" and "same_slot (si_kind i) (si_room i) j0"
      and "\<And>j. j \<in> set js \<Longrightarrow> same_slot (si_kind i) (si_room i) j \<longleftrightarrow> j = j0"
      and "Schedule nid i js = tupd (same_slot (si_kind i) (si_room i)) (\<lambda>_. fresh_job nid i) js"
proof (cases "\<exists>j \<in> set js. same_slot (si_kind i) (si_room i) j")
  case True
  then obtain j0 where j0: "j0 \<in> set js" "same_slot (si_kind i) (si_room i) j0" by blast
  moreover have "j \<in> set js \<Longrightarrow> same_slot (si_kind i) (si_room i) j \<longleftrightarrow> j = j0" for j
    using slot_uniqD [OF jobs_okD(2) [OF assms]] j0 by blast
  ultimately show thesis using present True by (simp add: Schedule_def)
next
  case False
  then show thesis using absent by (simp add: Schedule_def)
qed

lemma jobs_ok_Schedule:
  assumes ok: "jobs_ok js" and fresh: "nid \<notin> job_id ` set js"
  shows "jobs_ok (Schedule nid i js)"
  using ok
proof (cases rule: Schedule_cases [of _ i nid])
  case absent
  with ok fresh show ?thesis by (simp add: jobs_ok_snoc)
next
  case (present j0)
  let ?x = "fresh_job nid i"
  note rep = tupd_replace_one [OF jobs_okD(1) [OF ok] present(1,3), of ?x]
  have set: "set (Schedule nid i js) = insert ?x (set js - {j0})"
    and uniq: "tuniq job_id (Schedule nid i js)"
    using rep fresh by (simp_all add: present(4))
  have x: "same_slot (job_kind ?x) (job_room ?x) j \<longleftrightarrow> j = j0" if "j \<in> set js" for j
    using present(3) [OF that] by simp
  have "\<not> same_slot (job_kind j) (job_room j) ?x" if "j \<in> set js" "j \<noteq> j0" for j
    using x [OF that(1)] that by (metis same_slot_def)
  then have "slot_uniq (Schedule nid i js)"
    using jobs_okD(2) [OF ok] x unfolding slot_uniq_def set by blast
  then show ?thesis
    by (rule jobs_okI [OF uniq]) (auto simp: set jobs_okD [OF ok])
qed

lemma ScheduleIfAbsent_cases:
  assumes "ScheduleIfAbsent nid i js = Inr js'"
  shows "js' = js \<or> \<not> (\<exists>j \<in> set js. same_slot (si_kind i) (si_room i) j) \<and> js' = js @ [fresh_job nid i]"
  using assms by (auto simp: ScheduleIfAbsent_def split: if_splits)

lemma jobs_ok_ScheduleIfAbsent:
  assumes "jobs_ok js" and "nid \<notin> job_id ` set js" and "ScheduleIfAbsent nid i js = Inr js'"
  shows "jobs_ok js'"
  using ScheduleIfAbsent_cases [OF assms(3)] assms(1,2) by (auto intro: jobs_ok_snoc)

lemma jobs_ok_Cancel: "jobs_ok js \<Longrightarrow> jobs_ok (Cancel kind room js)"
  by (simp add: Cancel_def jobs_ok_tdel)

lemma jobs_ok_Complete: "jobs_ok js \<Longrightarrow> jobs_ok (Complete i js)"
  by (simp add: Complete_def jobs_ok_tdel)

lemma jobs_ok_Retry: "jobs_ok js \<Longrightarrow> jobs_ok (Retry now i js)"
  unfolding Retry_def by (rule jobs_ok_tupd) auto

lemma jobs_ok_sweep: "jobs_ok js \<Longrightarrow> jobs_ok (sweepDeadLetters now js)"
  unfolding sweepDeadLetters_def
  by (intro jobs_ok_tdel jobs_ok_tupd) (auto simp: jobs_okD)

lemma fail_cases:
  assumes "fail now i msg js = Inr (r, js')"
  shows "js' = js \<or> (\<exists>t. js' = tupd (\<lambda>j. job_id j = i)
      (\<lambda>j. j\<lparr> job_locked_by := None, job_locked_at := None,
              job_last_error := Some (truncateLastError msg), job_run_at := t \<rparr>) js)"
  using assms by (auto simp: fail_def Let_def result_simps split: option.splits if_splits)

lemma jobs_ok_fail: "jobs_ok js \<Longrightarrow> fail now i msg js = Inr (r, js') \<Longrightarrow> jobs_ok js'"
  by (drule fail_cases) (auto intro!: jobs_ok_tupd simp: jobs_okD)

lemma claimed_due:
  assumes "ClaimDue busy now replica limit js = (cl, js')" and "c \<in> set cl"
  obtains j where "j \<in> set js" "due_job now j" "job_id j \<notin> set busy" "c = claim_row now replica j"
  using assms unfolding ClaimDue_def Let_def by (auto dest!: in_set_takeD)

lemma jobs_ok_ClaimDue:
  assumes ok: "jobs_ok js" and c: "ClaimDue busy now replica limit js = (cl, js')"
  shows "jobs_ok js'"
proof -
  let ?due = "take limit (sort_key job_run_at (filter (\<lambda>j. due_job now j \<and> job_id j \<notin> set busy) js))"
  have "js' = tupd (\<lambda>j. job_id j \<in> set (map job_id ?due)) (claim_row now replica) js"
    using c by (auto simp: ClaimDue_def Let_def)
  moreover have "job_attempts j + 1 \<le> job_max_attempts j"
    if "j \<in> set js" "job_id j \<in> set (map job_id ?due)" for j
  proof -
    from that(2) obtain d where "d \<in> set ?due" "job_id d = job_id j" by auto
    then have "d \<in> set js" "due_job now d" by (auto dest!: in_set_takeD)
    with \<open>job_id d = job_id j\<close> that(1) have "d = j" using tuniq_inj [OF jobs_okD(1) [OF ok]] by metis
    with \<open>due_job now d\<close> show ?thesis by (simp add: due_job_def)
  qed
  ultimately show ?thesis by (auto intro!: jobs_ok_tupd [OF ok])
qed

text \<open>One statement against the table, and the tables reachable by such statements.\<close>

inductive jobs_step :: "job list \<Rightarrow> job list \<Rightarrow> bool" where
  schedule: "nid \<notin> job_id ` set js \<Longrightarrow> jobs_step js (Schedule nid i js)"
| if_absent: "nid \<notin> job_id ` set js \<Longrightarrow> ScheduleIfAbsent nid i js = Inr js' \<Longrightarrow> jobs_step js js'"
| cancel: "jobs_step js (Cancel kind room js)"
| claim: "ClaimDue busy now replica limit js = (cl, js') \<Longrightarrow> jobs_step js js'"
| complete: "jobs_step js (Complete i js)"
| failed: "fail now i msg js = Inr (r, js') \<Longrightarrow> jobs_step js js'"
| retry: "jobs_step js (Retry now i js)"
| sweep: "jobs_step js (sweepDeadLetters now js)"

inductive_cases jobs_stepE: "jobs_step js js'"

lemma jobs_ok_Nil [simp]: "jobs_ok []"
  by (simp add: jobs_ok_def slot_uniq_def)

lemmas jobs_ok_ops = jobs_ok_Schedule jobs_ok_ScheduleIfAbsent jobs_ok_Cancel jobs_ok_ClaimDue
  jobs_ok_Complete jobs_ok_fail jobs_ok_Retry jobs_ok_sweep

lemma jobs_step_ok: "jobs_step js js' \<Longrightarrow> jobs_ok js \<Longrightarrow> jobs_ok js'"
  by (induction rule: jobs_step.induct) (erule jobs_ok_ops; assumption)+

lemma jobs_reachable_ok: "jobs_step\<^sup>*\<^sup>* [] js \<Longrightarrow> jobs_ok js"
  by (induction rule: rtranclp_induct) (auto intro: jobs_step_ok)

subsection \<open>The timer interface\<close>

text \<open>
  What the poll and booking code relies on: a room-scoped timer is armed or cancelled by
  \<^verbatim>\<open>(kind, room)\<close>, and there is at most one.
\<close>

definition pending :: "string \<Rightarrow> string \<Rightarrow> job list \<Rightarrow> job option" where
  "pending kind room js = find (same_slot kind (Some room)) js"

locale timer_queue =
  fixes look :: "'k \<Rightarrow> 'r \<Rightarrow> 't \<Rightarrow> 'j option"
    and arm :: "'k \<Rightarrow> 'r \<Rightarrow> 'a \<Rightarrow> 't \<Rightarrow> 't"
    and disarm :: "'k \<Rightarrow> 'r \<Rightarrow> 't \<Rightarrow> 't"
    and mk :: "'k \<Rightarrow> 'r \<Rightarrow> 'a \<Rightarrow> 'j"
  assumes look_arm: "look k r (arm k' r' a t) = (if k = k' \<and> r = r' then Some (mk k' r' a) else look k r t)"
    and look_disarm: "look k r (disarm k' r' t) = (if k = k' \<and> r = r' then None else look k r t)"
begin

lemma rearm_last_wins: "look k r (arm k r a' (arm k r a t)) = Some (mk k r a')"
  by (simp add: look_arm)

lemma disarm_after_arm: "look k r (disarm k r (arm k r a t)) = None"
  by (simp add: look_disarm)

lemma arm_other: "(k, r) \<noteq> (k', r') \<Longrightarrow> look k r (arm k' r' a t) = look k r t"
  by (auto simp: look_arm)

lemma disarm_other: "(k, r) \<noteq> (k', r') \<Longrightarrow> look k r (disarm k' r' t) = look k r t"
  by (auto simp: look_disarm)

lemma disarm_all:
  "look k r (fold (disarm k') rs t) = (if k = k' \<and> r \<in> set rs then None else look k r t)"
  by (induction rs arbitrary: t) (auto simp: look_disarm)

end

definition arm_timer :: "string \<Rightarrow> string \<Rightarrow> string \<times> instant \<times> json option \<times> nat \<Rightarrow> job list \<Rightarrow> job list" where
  "arm_timer kind room = (\<lambda>(nid, at, payload, m) js. Schedule nid
     \<lparr> si_kind = kind, si_room = Some room, si_run_at = at, si_payload = payload, si_max_attempts = m \<rparr> js)"

definition timer_row :: "string \<Rightarrow> string \<Rightarrow> string \<times> instant \<times> json option \<times> nat \<Rightarrow> job" where
  "timer_row kind room = (\<lambda>(nid, at, payload, m). fresh_job nid
     \<lparr> si_kind = kind, si_room = Some room, si_run_at = at, si_payload = payload, si_max_attempts = m \<rparr>)"

lemma same_slot_iff: "same_slot kind (Some room) j \<longleftrightarrow> job_kind j = kind \<and> job_room j = Some room"
  by (auto simp: same_slot_def)

lemma find_tupd_all:
  "p x \<Longrightarrow> find p (tupd p (\<lambda>_. x) t) = (if \<exists>j \<in> set t. p j then Some x else None)"
  by (induction t) (auto simp: tupd_def)

lemma find_tupd_other:
  "(\<And>j. p j \<Longrightarrow> \<not> q j) \<Longrightarrow> \<not> q x \<Longrightarrow> find q (tupd p (\<lambda>_. x) t) = find q t"
  by (induction t) (auto simp: tupd_def)

lemma find_snoc: "find p (t @ [x]) = (case find p t of Some r \<Rightarrow> Some r | None \<Rightarrow> if p x then Some x else None)"
  by (induction t) auto

lemma find_tdel_other: "(\<And>j. q j \<Longrightarrow> \<not> p j) \<Longrightarrow> find q (tdel p t) = find q t"
  by (induction t) (auto simp: tdel_def)

lemma find_tdel_same: "(\<And>j. q j \<Longrightarrow> p j) \<Longrightarrow> find q (tdel p t) = None"
  by (auto simp: tdel_def find_None_iff)

lemma find_SomeD: "find p xs = Some x \<Longrightarrow> x \<in> set xs \<and> p x"
  by (auto simp: find_Some_iff)

lemma pending_Schedule:
  "pending kind room (Schedule nid i js) =
     (if si_room i = Some room \<and> si_kind i = kind then Some (fresh_job nid i) else pending kind room js)"
proof (cases "si_room i = Some room \<and> si_kind i = kind")
  case True
  then have "same_slot kind (Some room) (fresh_job nid i)" by (simp add: same_slot_iff)
  with True show ?thesis
    by (auto simp: pending_def Schedule_def find_snoc find_tupd_all find_None_iff split: option.splits
        dest: find_Some_iff [THEN iffD1])
next
  case False
  then have x: "\<not> same_slot kind (Some room) (fresh_job nid i)" by (auto simp: same_slot_iff)
  moreover have "same_slot (si_kind i) (si_room i) j \<Longrightarrow> \<not> same_slot kind (Some room) j" for j
    using False by (auto simp: same_slot_def)
  ultimately show ?thesis
    using False by (auto simp: pending_def Schedule_def find_snoc find_tupd_other split: option.splits)
qed

lemma pending_Cancel:
  "pending kind room (Cancel kind' room' js) =
     (if kind = kind' \<and> room = room' then None else pending kind room js)"
  by (auto simp: pending_def Cancel_def same_slot_iff intro!: find_tdel_same find_tdel_other)

interpretation timers: timer_queue pending arm_timer Cancel timer_row
  by unfold_locales (auto simp: arm_timer_def timer_row_def pending_Schedule pending_Cancel)

subsection \<open>Leases, dead letters, retries\<close>

type_synonym claim_call = "string list \<times> instant \<times> string \<times> nat"

fun claim_run :: "claim_call list \<Rightarrow> job list \<Rightarrow> string list \<times> job list" where
  "claim_run [] js = ([], js)"
| "claim_run ((busy, now, replica, limit) # cs) js =
     (let (cl, js1) = ClaimDue busy now replica limit js; (ids, js2) = claim_run cs js1
      in (map job_id cl @ ids, js2))"

definition leased_until :: "instant \<Rightarrow> job \<Rightarrow> bool" where
  "leased_until t j \<longleftrightarrow> job_locked_by j \<noteq> None \<and> (\<exists>l. job_locked_at j = Some l \<and> t \<le> l + lockTimeout)"

lemma leased_not_due: "leased_until t j \<Longrightarrow> now \<le> t \<Longrightarrow> \<not> due_job now j"
  by (auto simp: leased_until_def due_job_def)

lemma ClaimDue_snd:
  "ClaimDue busy now replica limit js = (cl, js') \<Longrightarrow>
   js' = tupd (\<lambda>j. job_id j \<in> set (map job_id cl)) (claim_row now replica) js"
  by (auto simp: ClaimDue_def Let_def image_image)

lemma ClaimDue_distinct:
  assumes "jobs_ok js" and "ClaimDue busy now replica limit js = (cl, js')"
  shows "distinct (map job_id cl)" and "length cl \<le> limit"
proof -
  let ?f = "filter (\<lambda>j. due_job now j \<and> job_id j \<notin> set busy) js"
  have "distinct (map job_id ?f)"
    using jobs_okD(1) [OF assms(1)] by (simp add: tuniq_def distinct_map_filter)
  then have "distinct (map job_id (sort_key job_run_at ?f))"
    by (simp add: distinct_map)
  then have "distinct (map job_id (take limit (sort_key job_run_at ?f)))"
    by (metis distinct_take take_map)
  moreover have "map job_id cl = map job_id (take limit (sort_key job_run_at ?f))"
    using assms(2) by (auto simp: ClaimDue_def Let_def)
  ultimately show "distinct (map job_id cl)" by simp
  show "length cl \<le> limit" using assms(2) by (auto simp: ClaimDue_def Let_def)
qed

lemma claim_run_spec:
  assumes "jobs_ok js" and "\<forall>(b, now, r, n) \<in> set cs. t0 \<le> now \<and> now \<le> t0 + lockTimeout"
    and "claim_run cs js = (ids, js')"
    and "\<forall>j \<in> set js. job_id j \<in> L \<longrightarrow> leased_until (t0 + lockTimeout) j"
  shows "distinct ids \<and> set ids \<inter> L = {}"
  using assms
proof (induction cs arbitrary: js ids L)
  case (Cons c cs)
  obtain b now r n where c: "c = (b, now, r, n)" by (metis prod_cases4)
  obtain cl js1 where cl: "ClaimDue b now r n js = (cl, js1)" by fastforce
  obtain ids2 js2 where ids2: "claim_run cs js1 = (ids2, js2)" by fastforce
  have now: "t0 \<le> now" "now \<le> t0 + lockTimeout" using Cons.prems(2) by (auto simp: c)
  have ids: "ids = map job_id cl @ ids2" "js2 = js'" using Cons.prems(3) by (simp_all add: c cl ids2)
  have "job_id x \<notin> L" if "x \<in> set cl" for x
    using claimed_due [OF cl that] Cons.prems(4) leased_not_due now(2) by (metis claim_row_simps(1))
  then have L: "set (map job_id cl) \<inter> L = {}" by auto
  have "leased_until (t0 + lockTimeout) j"
    if j: "j \<in> set js1" "job_id j \<in> L \<union> set (map job_id cl)" for j
  proof -
    from j(1) obtain j0 where j0: "j0 \<in> set js"
      "j = (if job_id j0 \<in> set (map job_id cl) then claim_row now r j0 else j0)"
      unfolding ClaimDue_snd [OF cl] by (rule in_tupdE)
    show ?thesis
    proof (cases "job_id j0 \<in> set (map job_id cl)")
      case True
      with j0 now(1) show ?thesis by (simp add: leased_until_def)
    next
      case False
      with j0 j(2) Cons.prems(4) show ?thesis by auto
    qed
  qed
  then have "distinct ids2 \<and> set ids2 \<inter> (L \<union> set (map job_id cl)) = {}"
    using Cons.IH [of js1 ids2 "L \<union> set (map job_id cl)"] jobs_ok_ClaimDue [OF Cons.prems(1) cl]
      Cons.prems(2) ids2 ids(2) by (auto simp: c)
  with L ClaimDue_distinct(1) [OF Cons.prems(1) cl] show ?case unfolding ids(1) by auto
qed simp

lemma dead_job_tupd:
  assumes "tuniq job_id js" and "j \<in> set js" and "dead_job j" and "j' \<in> set (tupd p f js)"
    and "job_id j' = job_id j" and "\<And>x. job_id (f x) = job_id x"
    and "\<And>x. dead_job x \<Longrightarrow> p x \<Longrightarrow> dead_job (f x)"
  shows "dead_job j'"
proof -
  from assms(4) obtain x where x: "x \<in> set js" "j' = (if p x then f x else x)" by (rule in_tupdE)
  with assms(5,6) have "job_id x = job_id j" by (simp split: if_splits)
  with x(1) assms(1,2) have "x = j" by (metis tuniq_inj)
  with x assms(3,7) show ?thesis by simp
qed

lemma dead_job_step:
  assumes "jobs_step js js'" and ok: "jobs_ok js" and j: "j \<in> set js" "dead_job j"
    and j': "j' \<in> set js'" "job_id j' = job_id j"
  shows "dead_job j' \<or> (\<exists>now. js' = Retry now (job_id j) js)"
proof -
  have keep: "dead_job x" if "x \<in> set js" "job_id x = job_id j" for x
    using that j tuniq_inj [OF jobs_okD(1) [OF ok]] by metis
  from assms(1) show ?thesis
  proof cases
    case (schedule nid i)
    have "nid \<noteq> job_id j" using schedule j(1) by auto
    with schedule(1) j' have "j' \<in> set js"
      by (auto simp: Schedule_def set_tupd split: if_splits)
    with keep j'(2) show ?thesis by blast
  next
    case (if_absent nid i)
    have "nid \<noteq> job_id j" using if_absent j(1) by auto
    with ScheduleIfAbsent_cases [OF if_absent(2)] j' have "j' \<in> set js" by auto
    with keep j'(2) show ?thesis by blast
  next
    case (claim busy now replica limit cl)
    have "dead_job j'"
      using dead_job_tupd [OF jobs_okD(1) [OF ok] j, of j'] j' ClaimDue_snd [OF claim]
      by (simp add: dead_job_def le_SucI)
    then show ?thesis ..
  next
    case (failed now i msg r)
    with keep j' have "dead_job j'"
      by (auto dest!: fail_cases simp: set_tupd dead_job_def split: if_splits)
    then show ?thesis ..
  next
    case (retry now i)
    with keep j' show ?thesis
      by (cases "i = job_id j") (auto simp: Retry_def set_tupd split: if_splits)
  next
    case (sweep now)
    with keep j' have "dead_job j'"
      by (auto simp: sweepDeadLetters_def set_tupd dead_job_def split: if_splits)
    then show ?thesis ..
  qed (use keep j' in \<open>auto simp: Cancel_def Complete_def\<close>)
qed

subsection \<open>Properties\<close>

text \<open>C33: the table that any sequence of scheduling, claiming, completing, failing, retrying and
sweeping statements leaves has unique ids, at most one job per (kind, room), and never an attempt
count above the budget.\<close>
theorem jobs_table_wf:
  assumes "jobs_step\<^sup>*\<^sup>* [] js"
  shows "distinct (map job_id js) \<and>
    (\<forall>a \<in> set js. \<forall>b \<in> set js. job_room a \<noteq> None \<and> job_kind a = job_kind b \<and> job_room a = job_room b
       \<longrightarrow> a = b) \<and>
    (\<forall>j \<in> set js. job_attempts j \<le> job_max_attempts j)"
proof -
  have ok: "jobs_ok js" by (rule jobs_reachable_ok [OF assms])
  then have "a = b" if "a \<in> set js" "b \<in> set js" "job_room a \<noteq> None" "job_kind a = job_kind b"
    "job_room a = job_room b" for a b
    using that by (auto simp: jobs_ok_def slot_uniq_def same_slot_def)
  with ok show ?thesis by (auto simp: jobs_ok_def tuniq_def)
qed

definition sample_input :: ScheduleInput where
  "sample_input = \<lparr> si_kind = ''poll.digest'', si_room = Some ''p1'', si_run_at = 10,
     si_payload = None, si_max_attempts = 0 \<rparr>"

lemma sample_reachable: "jobs_step\<^sup>*\<^sup>* [] (Schedule ''b'' sample_input (Schedule ''a'' sample_input []))"
proof -
  have "jobs_step [] (Schedule ''a'' sample_input [])" by (rule jobs_step.schedule) simp
  moreover have "jobs_step (Schedule ''a'' sample_input [])
      (Schedule ''b'' sample_input (Schedule ''a'' sample_input []))"
    by (rule jobs_step.schedule) (simp add: Schedule_def)
  ultimately show ?thesis by auto
qed

lemma jobs_table_wf_witness:
  "length (Schedule ''b'' sample_input (Schedule ''a'' sample_input [])) = 1 \<and>
   distinct (map job_id (Schedule ''b'' sample_input (Schedule ''a'' sample_input [])))"
  using jobs_table_wf [OF sample_reachable] by (simp add: Schedule_def sample_input_def same_slot_def)

text \<open>C7: a claim is a lease of five minutes: over any series of polls by any workers whose clocks
lie within one lock timeout, no job is handed out twice.\<close>
theorem claim_lease_exclusive:
  assumes "jobs_ok js" and "\<forall>(busy, now, replica, limit) \<in> set calls. start \<le> now \<and> now \<le> start + lockTimeout"
  shows "distinct (fst (claim_run calls js))"
  using claim_run_spec [OF assms, of "fst (claim_run calls js)" "snd (claim_run calls js)" "{}"] by simp

lemma claim_lease_exclusive_witness:
  "fst (claim_run [([], 10, ''w1'', 20), ([], 20, ''w2'', 20)] (Schedule ''a'' sample_input [])) = [''a'']
   \<and> distinct (fst (claim_run [([], 10, ''w1'', 20), ([], 20, ''w2'', 20)] (Schedule ''a'' sample_input [])))"
proof
  have "jobs_ok (Schedule ''a'' sample_input [])" by (rule jobs_ok_Schedule) simp_all
  then show "distinct (fst (claim_run [([], 10, ''w1'', 20), ([], 20, ''w2'', 20)] (Schedule ''a'' sample_input [])))"
    by (rule claim_lease_exclusive [where start = 10]) (simp add: lockTimeout_def duration_defs)
qed code_simp

lemma dead_not_claimed:
  assumes "jobs_ok js" and "j \<in> set js" and "dead_job j"
  shows "job_id j \<notin> job_id ` set (fst (ClaimDue busy now replica limit js))"
proof
  assume "job_id j \<in> job_id ` set (fst (ClaimDue busy now replica limit js))"
  then obtain c where c: "c \<in> set (fst (ClaimDue busy now replica limit js))" "job_id c = job_id j"
    by auto
  obtain cl js' where cl: "ClaimDue busy now replica limit js = (cl, js')" by fastforce
  with c(1) have "c \<in> set cl" by simp
  with cl obtain x where x: "x \<in> set js" "due_job now x" "c = claim_row now replica x"
    by (rule claimed_due)
  with c(2) assms(2) have "x = j" using tuniq_inj [OF jobs_okD(1) [OF assms(1)]] by simp
  with x(2) assms(3) show False by (simp add: due_job_def dead_job_def)
qed

text \<open>the dead-letter queue is absorbing: a job whose attempts are spent is never claimed, and
no statement brings it back except an explicit Retry of that job.\<close>
lemma dead_letter_absorbing:
  assumes "jobs_ok js" and "j \<in> set js" and "dead_job j"
  shows "(\<forall>busy now replica limit. job_id j \<notin> job_id ` set (fst (ClaimDue busy now replica limit js))) \<and>
    (\<forall>js' j'. jobs_step js js' \<longrightarrow> j' \<in> set js' \<longrightarrow> job_id j' = job_id j \<longrightarrow>
       dead_job j' \<or> (\<exists>now. js' = Retry now (job_id j) js))"
  using dead_not_claimed [OF assms] dead_job_step [OF _ assms] by blast

definition sample_dead :: job where
  "sample_dead = \<lparr> job_id = ''d'', job_kind = ''mail:send'', job_room = None, job_run_at = 0,
     job_payload = Some JNull, job_attempts = 5, job_max_attempts = 5,
     job_last_error = Some ''smtp'', job_locked_by = None, job_locked_at = None \<rparr>"

lemma sample_dead_ok: "jobs_ok [sample_dead]" "dead_job sample_dead"
  by (simp_all add: jobs_ok_def slot_uniq_def tuniq_def sample_dead_def dead_job_def)

lemma dead_letter_absorbing_witness:
  "job_id sample_dead \<notin> job_id ` set (fst (ClaimDue [] 1000 ''w'' 20 [sample_dead]))"
  using dead_letter_absorbing [OF sample_dead_ok(1) _ sample_dead_ok(2)] by simp

lemma backoff_Inr_iff:
  "backoff a = Inr b \<longleftrightarrow> a < 38 \<and> b = min (2 ^ a * Minute) Hour"
proof -
  have "(2 :: int) ^ a \<le> 2 ^ 37" if "a < 38"
    using that by (intro power_increasing) auto
  moreover have "(2 :: int) ^ 38 \<le> 2 ^ a" if "\<not> a < 38"
    using that by (intro power_increasing) auto
  ultimately have "interval_range \<le> 2 ^ a * (Minute div 1000) \<longleftrightarrow> \<not> a < 38"
    by (cases "a < 38") (auto simp: interval_range_def duration_defs)
  then show ?thesis by (auto simp: backoff_def)
qed

lemma backoff_bounds: "backoff a = Inr b \<Longrightarrow> Minute \<le> b \<and> b \<le> Hour"
  using one_le_power [of "2 :: int" a] by (auto simp: backoff_Inr_iff min_def duration_defs)

lemma tget_job_in: "tget job_id i js = Some j \<Longrightarrow> j \<in> set js \<and> job_id j = i"
  by (rule tget_Some_in)

text \<open>C37: a failed job with attempts left is unlocked and becomes due again between one minute and
one hour later, keeping its attempt count; with no attempts left it stays where it is, dead. The
statement itself fails from the 38th attempt on, when the interval multiplication leaves the range
of a Postgres interval before LEAST can cap it.\<close>
theorem fail_outcome:
  assumes "tget job_id i js = Some j"
  shows "(case fail now i msg js of
      Inl e \<Rightarrow> e = ''interval out of range'' \<and> 38 \<le> job_attempts j \<and> job_attempts j < job_max_attempts j
    | Inr ((retry, found), js') \<Rightarrow> found \<and> (retry \<longleftrightarrow> \<not> dead_job j) \<and>
        (\<exists>j'. tget job_id i js' = Some j' \<and> job_attempts j' = job_attempts j \<and>
           job_locked_by j' = None \<and> job_last_error j' = Some (truncateLastError msg) \<and>
           (if retry then job_attempts j < 38 \<and> now + Minute \<le> job_run_at j' \<and> job_run_at j' \<le> now + Hour
            else job_run_at j' = job_run_at j)))"
proof (cases "job_attempts j < job_max_attempts j")
  case True
  then show ?thesis
  proof (cases "backoff (job_attempts j)")
    case (Inl e)
    then have "\<not> job_attempts j < 38" using backoff_Inr_iff by (metis Inl_Inr_False)
    with Inl True assms show ?thesis by (auto simp: fail_def backoff_def split: if_splits)
  next
    case (Inr b)
    then have "job_attempts j < 38" using backoff_Inr_iff by blast
    with Inr True assms backoff_bounds [OF Inr] tget_Some_in [OF assms] show ?thesis
      by (auto simp: fail_def tget_tupd dead_job_def)
  qed
next
  case False
  with assms tget_Some_in [OF assms] show ?thesis
    by (auto simp: fail_def tget_tupd dead_job_def)
qed

lemma fail_outcome_witness:
  "case fail 1000 ''a'' ''boom'' (Schedule ''a'' sample_input []) of
     Inl e \<Rightarrow> False
   | Inr ((retry, found), js') \<Rightarrow> found \<and> retry"
proof -
  have "tget job_id ''a'' (Schedule ''a'' sample_input []) = Some (fresh_job ''a'' sample_input)"
    by (simp add: Schedule_def tget_Cons)
  from fail_outcome [OF this, where now = 1000 and msg = "''boom''"] show ?thesis
    by (auto simp: dead_job_def split: sum.splits)
qed

text \<open>C38: a handler that re-arms its own (kind, room) while it runs survives its own completion:
the row it was claimed on is gone, and the re-armed row is pending with a fresh budget.\<close>
theorem self_reschedule_survives:
  assumes "jobs_ok js" and "handlers (job_kind j) = Some h" and "h j js = (Nil_error, Schedule nid i js)"
    and "si_kind i = job_kind j" and "si_room i = Some room" and "nid \<noteq> job_id j"
  shows "pending (job_kind j) room (process handlers now j js) = Some (fresh_job nid i) \<and>
    tget job_id (job_id j) (process handlers now j js) = None"
proof -
  have p: "process handlers now j js = Complete (job_id j) (Schedule nid i js)"
    using assms by (simp add: process_def invoke_def)
  have "pending (job_kind j) room (Schedule nid i js) = Some (fresh_job nid i)"
    using assms by (simp add: pending_Schedule)
  moreover have "find p t = Some x \<Longrightarrow> \<not> q x \<Longrightarrow> find p (tdel q t) = Some x" for p q t and x :: job
    by (induction t) (auto simp: tdel_def split: if_splits)
  ultimately have "pending (job_kind j) room (Complete (job_id j) (Schedule nid i js)) = Some (fresh_job nid i)"
    using assms(6) by (simp add: pending_def Complete_def)
  then show ?thesis by (simp add: p Complete_def tget_tdel_key)
qed

definition sample_chain :: job where
  "sample_chain = fresh_job ''c'' (housekeeping_input 0 ''deadletter:sweep'' Hour)"

lemma self_reschedule_survives_witness:
  "pending ''deadletter:sweep'' housekeepingRoomKey
     (process (\<lambda>_. Some (deadletter_handler ''n'' Hour)) (2 * Hour) sample_chain [sample_chain]) =
   Some (fresh_job ''n'' (housekeeping_input Hour ''deadletter:sweep'' Hour))"
proof -
  have "sweepDeadLetters Hour [sample_chain] = [sample_chain]"
    by (simp add: sweepDeadLetters_def tupd_def tdel_def sample_chain_def dead_job_def
        housekeeping_input_def max_attempts_of_def housekeepingMaxAttempts_def)
  then show ?thesis
    using self_reschedule_survives [of "[sample_chain]" "\<lambda>_. Some (deadletter_handler ''n'' Hour)" sample_chain
        "deadletter_handler ''n'' Hour" "''n''" "housekeeping_input Hour ''deadletter:sweep'' Hour"
        housekeepingRoomKey "2 * Hour"]
    by (simp add: sample_chain_def deadletter_handler_def rescheduleHousekeeping_def housekeeping_input_def
        jobs_ok_def tuniq_def slot_uniq_def)
qed

lemma cut_back_le: "cut_back s n \<le> n"
  by (induction n) auto

lemma cut_back_start: "0 < cut_back s n \<Longrightarrow> \<not> is_cont (s ! cut_back s n)"
  by (induction n) (auto simp: rune_start_def)

lemma cut_back_skips: "cut_back s n < k \<Longrightarrow> k \<le> n \<Longrightarrow> is_cont (s ! k)"
  by (induction n) (auto simp: rune_start_def le_Suc_eq split: if_splits)

text \<open>the stored error text is at most 2000 bytes, a prefix of the message, and still valid
UTF-8 when the message is (Postgres rejects an UPDATE that is not); it is cut at most three bytes
short of the limit.\<close>
lemma truncateLastError_valid:
  assumes "valid_utf8 s"
  shows "valid_utf8 (truncateLastError s) \<and> length (truncateLastError s) \<le> maxLastErrorLen \<and>
    (\<exists>rest. s = truncateLastError s @ rest) \<and>
    (\<forall>k. length (truncateLastError s) < k \<longrightarrow> k \<le> maxLastErrorLen \<longrightarrow> k < length s \<longrightarrow> is_cont (s ! k))"
proof (cases "length s \<le> maxLastErrorLen")
  case False
  let ?c = "cut_back s maxLastErrorLen"
  have c: "?c \<le> maxLastErrorLen" by (rule cut_back_le)
  have "valid_utf8 (take ?c s)"
  proof (cases "?c = 0")
    case False
    then show ?thesis using c \<open>\<not> length s \<le> maxLastErrorLen\<close>
      by (intro valid_utf8_cut [OF assms]) (auto simp: cut_back_start)
  qed simp
  moreover have "s = take ?c s @ drop ?c s" by simp
  ultimately show ?thesis
    using False c cut_back_skips [of s maxLastErrorLen]
    by (auto simp: truncateLastError_def min_def intro: exI [of _ "drop ?c s"])
qed (use assms in \<open>simp add: truncateLastError_def\<close>)

lemma valid_utf8_ascii: "\<forall>c \<in> set s. byte c < 128 \<Longrightarrow> valid_utf8 s"
  by (induction s) (simp_all add: valid_utf8.simps [of "_ # _"])

lemma truncateLastError_valid_witness:
  "valid_utf8 (truncateLastError (replicate 3000 CHR ''x''))"
  using truncateLastError_valid [OF valid_utf8_ascii, of "replicate 3000 CHR ''x''"]
  by (simp add: byte_def)

lemma ScheduleIfAbsent_pending:
  assumes "ScheduleIfAbsent nid i js = Inr js'"
  shows "pending kind room js' = (case pending kind room js of Some j \<Rightarrow> Some j
    | None \<Rightarrow> if si_kind i = kind \<and> si_room i = Some room then Some (fresh_job nid i) else None)"
proof -
  have "pending kind room js = None"
    if "\<forall>j \<in> set js. \<not> same_slot (si_kind i) (si_room i) j" "si_kind i = kind" "si_room i = Some room"
    using that by (auto simp: pending_def find_None_iff)
  moreover have "pending kind room js \<noteq> None"
    if "j \<in> set js" "job_kind j = kind" "job_room j = Some room" for j
    using that by (auto simp: pending_def find_None_iff same_slot_iff)
  ultimately show ?thesis
    using assms
    by (auto simp: pending_def find_snoc same_slot_iff [of "si_kind i"] ScheduleIfAbsent_def
        same_slot_iff split: option.splits if_splits dest: find_SomeD)
qed

lemma seed_all_spec:
  assumes "seed_all cs now js = Inr js'"
  shows "set js \<subseteq> set js'"
    and "pending kind room js = Some j \<Longrightarrow> pending kind room js' = Some j"
    and "kind \<in> set (map (fst \<circ> snd) cs) \<Longrightarrow> pending kind housekeepingRoomKey js' \<noteq> None"
    and "(\<forall>c \<in> set cs. pending (fst (snd c)) housekeepingRoomKey js \<noteq> None) \<Longrightarrow> js' = js"
  using assms
proof (induction cs arbitrary: js j room kind)
  case (Cons c cs)
  obtain nid k iv where c: "c = (nid, k, iv)" by (metis prod_cases3)
  let ?i = "housekeeping_input now k iv"
  {
    case 1
    then obtain js1 where "ScheduleIfAbsent nid ?i js = Inr js1" "seed_all cs now js1 = Inr js'"
      by (auto simp: c seedHousekeeping_def result_simps)
    with Cons.IH(1) ScheduleIfAbsent_cases show ?case by fastforce
  next
    case 2
    then obtain js1 where 1: "ScheduleIfAbsent nid ?i js = Inr js1" "seed_all cs now js1 = Inr js'"
      by (auto simp: c seedHousekeeping_def result_simps)
    with Cons.IH(2) [OF _ 1(2)] ScheduleIfAbsent_pending [OF 1(1)] 2 show ?case by simp
  next
    case 3
    then obtain js1 where 1: "ScheduleIfAbsent nid ?i js = Inr js1" "seed_all cs now js1 = Inr js'"
      by (auto simp: c seedHousekeeping_def result_simps)
    show ?case
    proof (cases "kind = k")
      case True
      then have "pending kind housekeepingRoomKey js1 \<noteq> None"
        using ScheduleIfAbsent_pending [OF 1(1)] by (simp add: housekeeping_input_def split: option.splits)
      with Cons.IH(2) [OF _ 1(2)] show ?thesis by auto
    next
      case False
      with 3 Cons.IH(3) [OF _ 1(2)] show ?thesis by (simp add: c)
    qed
  next
    case 4
    then obtain js1 where 1: "ScheduleIfAbsent nid ?i js = Inr js1" "seed_all cs now js1 = Inr js'"
      by (auto simp: c seedHousekeeping_def result_simps)
    have "pending k housekeepingRoomKey js \<noteq> None" using 4 by (simp add: c)
    then have "js1 = js"
      using 1(1) by (auto simp: ScheduleIfAbsent_def pending_def housekeeping_input_def find_None_iff
          split: if_splits)
    with 4 1(2) Cons.IH(4) show ?case by simp
  }
qed simp_all

lemma seed_all_total: "\<exists>js'. seed_all cs now js = Inr js'"
  by (induction cs arbitrary: js)
    (auto simp: seedHousekeeping_def ScheduleIfAbsent_def housekeeping_input_def split: prod.splits)

text \<open>seeding at boot never fails, leaves every existing job untouched (in particular a chain
already scheduled far ahead), leaves a pending job for every housekeeping chain, and running it again
on the next restart changes nothing.\<close>
lemma EnsureScheduled_seeds:
  assumes "length nids = length housekeepingChains"
  shows "\<exists>js'. EnsureScheduled nids now js = Inr js' \<and> set js \<subseteq> set js' \<and>
    (\<forall>kind room j. pending kind room js = Some j \<longrightarrow> pending kind room js' = Some j) \<and>
    (\<forall>kind \<in> set (map fst housekeepingChains). pending kind housekeepingRoomKey js' \<noteq> None) \<and>
    (\<forall>nids' now'. EnsureScheduled nids' now' js' = Inr js')"
proof -
  obtain js' where js': "seed_all (zip nids housekeepingChains) now js = Inr js'"
    using seed_all_total by blast
  note spec = seed_all_spec [OF js']
  have "map (fst \<circ> snd) (zip nids housekeepingChains) = map fst (map snd (zip nids housekeepingChains))"
    by simp
  also have "\<dots> = map fst housekeepingChains" using assms by simp
  finally have kinds: "map (fst \<circ> snd) (zip nids housekeepingChains) = map fst housekeepingChains" .
  have pend: "\<forall>kind \<in> set (map fst housekeepingChains). pending kind housekeepingRoomKey js' \<noteq> None"
    using spec(3) unfolding kinds by blast
  have "EnsureScheduled nids' now' js' = Inr js'" for nids' now'
  proof -
    obtain js2 where 2: "seed_all (zip nids' housekeepingChains) now' js' = Inr js2"
      using seed_all_total by blast
    have "\<forall>c \<in> set (zip nids' housekeepingChains). pending (fst (snd c)) housekeepingRoomKey js' \<noteq> None"
      using pend by (auto dest!: set_zip_rightD)
    from seed_all_spec(4) [OF 2 this] 2 show ?thesis by (simp add: EnsureScheduled_def)
  qed
  with js' spec(1,2) pend show ?thesis unfolding EnsureScheduled_def by blast
qed

lemma EnsureScheduled_seeds_witness:
  "\<exists>js'. EnsureScheduled [''a'', ''b'', ''c'', ''d'', ''e''] 0 [] = Inr js' \<and>
     pending ''rooms:prune'' housekeepingRoomKey js' \<noteq> None"
  using EnsureScheduled_seeds [of "[''a'', ''b'', ''c'', ''d'', ''e'']" 0 "[]"]
  by (auto simp: housekeepingChains_def)

text \<open>the dead-letter sweep never touches a job with attempts left; of the dead ones it deletes
exactly those older than 30 days and empties the payload of exactly the \<^verbatim>\<open>mail:send\<close> jobs older than
24 hours, the ones whose Retry is then refused as expired.\<close>
lemma sweepDeadLetters_exact:
  "set (sweepDeadLetters now js) =
     {j \<in> set js. \<not> dead_job j} \<union>
     {j \<in> set js. dead_job j \<and> now - 30 * day_ns \<le> job_run_at j \<and>
        \<not> (job_kind j = ''mail:send'' \<and> job_run_at j < now - 24 * Hour)} \<union>
     (\<lambda>j. j\<lparr> job_payload := None \<rparr>) ` {j \<in> set js. dead_job j \<and> now - 30 * day_ns \<le> job_run_at j \<and>
        job_kind j = ''mail:send'' \<and> job_run_at j < now - 24 * Hour}"
  (is "?L = ?A \<union> ?B \<union> ?C")
proof -
  have id: "(if job_payload j \<noteq> None then j\<lparr> job_payload := None \<rparr> else j) = j\<lparr> job_payload := None \<rparr>" for j
    by (cases j) simp
  have upd: "(if q \<and> dead_job j \<and> job_payload j \<noteq> None \<and> r then j\<lparr> job_payload := None \<rparr> else j) =
     (if q \<and> dead_job j \<and> r then j\<lparr> job_payload := None \<rparr> else j)" for q r j
    using id [of j] by (auto split: if_splits)
  show ?thesis
    unfolding sweepDeadLetters_def set_tdel set_tupd upd
    by (auto simp: dead_job_def image_iff split: if_splits)
qed

end
