(* ===== verification/Hub.thy ===== *)
theory Hub
  imports Jobs
begin

text \<open>
  The realtime rooms of \<^verbatim>\<open>internal/rooms\<close>: \<open>Emit\<close> (\<^verbatim>\<open>emit.go\<close>), the hub that fans committed events
  out to its local subscribers (\<^verbatim>\<open>hub.go\<close>) and the handling of notifications (\<^verbatim>\<open>listener.go\<close>).

  A \<open>world\<close> holds what exists besides one hub: the committed rows of \<^verbatim>\<open>room_events\<close> in commit order
  (ids need not be increasing: a bigserial is drawn before its transaction commits) and the
  notifications queued for the hub's LISTEN session, in commit order. Each of the hub's methods that
  holds its mutex is one function; \<open>handleNotify\<close> is one step, its query seeing the rows committed by
  then. A subscriber's channel is the list of all frames ever sent to it and the number its consumer
  has read, so the buffer holds the difference; \<open>sub_since\<close> is a history variable, the number of
  events committed when it registered.
\<close>

record Event =
  ev_id :: int
  ev_room :: string
  ev_type :: string
  ev_data :: json

definition override_fields :: "(string \<times> json) list \<Rightarrow> int \<Rightarrow> string \<Rightarrow> json" where
  "override_fields fs i t =
     JObj ((''type'', JStr t) # (''seq'', JNum i) #
           filter (\<lambda>(k, _). k \<noteq> ''type'' \<and> k \<noteq> ''seq'') fs)"

fun buildFrameFromParts :: "int \<Rightarrow> string \<Rightarrow> json \<Rightarrow> json" where
  "buildFrameFromParts i t JNull = override_fields [] i t"
| "buildFrameFromParts i t (JObj fs) = override_fields fs i t"
| "buildFrameFromParts i t d = override_fields [(''data'', d)] i t"

definition Frame :: "Event \<Rightarrow> json" where
  "Frame e = buildFrameFromParts (ev_id e) (ev_type e) (ev_data e)"

definition resyncFrame :: json where
  "resyncFrame = JObj [(''type'', JStr ''resync'')]"

definition notify_pointer :: "string \<Rightarrow> int \<Rightarrow> string" where
  "notify_pointer room i = room @ '':'' @ FormatInt i"

definition parseNotifyPayload :: "string \<Rightarrow> (string \<times> int) option" where
  "parseNotifyPayload p = (case last_cut CHR '':'' p of
      None \<Rightarrow> None
    | Some (room, ds) \<Rightarrow> map_option (\<lambda>i. (room, i)) (ParseInt ds))"

record subscriber =
  sub_id :: nat
  sub_sent :: "json list"
  sub_read :: nat
  sub_since :: nat

record Hub =
  hub_subs :: "string \<Rightarrow> subscriber list"
  hub_watermark :: "string \<Rightarrow> int option"
  hub_pending :: "string \<Rightarrow> int list"

definition NewHub :: Hub where
  "NewHub = \<lparr> hub_subs = (\<lambda>_. []), hub_watermark = (\<lambda>_. None), hub_pending = (\<lambda>_. []) \<rparr>"

definition subscriberBufferSize :: nat where "subscriberBufferSize = 64"

definition pruneRoomLocked :: "string \<Rightarrow> Hub \<Rightarrow> Hub" where
  "pruneRoomLocked r h =
     h\<lparr> hub_subs := (hub_subs h)(r := []), hub_watermark := (hub_watermark h)(r := None),
        hub_pending := (hub_pending h)(r := []) \<rparr>"

definition establishWatermarkFloor :: "string \<Rightarrow> int \<Rightarrow> Hub \<Rightarrow> Hub" where
  "establishWatermarkFloor r floor h =
     (case hub_watermark h r of
        None \<Rightarrow> h\<lparr> hub_watermark := (hub_watermark h)(r := Some floor) \<rparr>
      | Some current \<Rightarrow>
          if current < floor then h\<lparr> hub_watermark := (hub_watermark h)(r := Some floor) \<rparr> else h)"

definition channel_full :: "subscriber \<Rightarrow> bool" where
  "channel_full s \<longleftrightarrow> sub_read s + subscriberBufferSize \<le> length (sub_sent s)"

definition send_frame :: "json \<Rightarrow> subscriber \<Rightarrow> subscriber" where
  "send_frame f s = s\<lparr> sub_sent := sub_sent s @ [f] \<rparr>"

definition dispatchLocal :: "string \<Rightarrow> json \<Rightarrow> Hub \<Rightarrow> Hub" where
  "dispatchLocal r f h =
     (let kept = map (send_frame f) (filter (\<lambda>s. \<not> channel_full s) (hub_subs h r));
          h' = h\<lparr> hub_subs := (hub_subs h)(r := kept) \<rparr>
      in if kept = [] then pruneRoomLocked r h' else h')"

definition subscribe_register :: "nat \<Rightarrow> nat \<Rightarrow> string \<Rightarrow> Hub \<Rightarrow> bool \<times> Hub" where
  "subscribe_register sid since r h =
     (hub_subs h r = [] \<and> hub_watermark h r = None,
      h\<lparr> hub_subs := (hub_subs h)(r := hub_subs h r @
          [\<lparr> sub_id = sid, sub_sent = [], sub_read = 0, sub_since = since \<rparr>]) \<rparr>)"

definition unsubscribe :: "nat \<Rightarrow> string \<Rightarrow> Hub \<Rightarrow> Hub" where
  "unsubscribe sid r h =
     (let room = filter (\<lambda>s. sub_id s \<noteq> sid) (hub_subs h r);
          h' = h\<lparr> hub_subs := (hub_subs h)(r := room) \<rparr>
      in if room = [] then pruneRoomLocked r h' else h')"

definition floor_query :: "string \<Rightarrow> Event list \<Rightarrow> int" where
  "floor_query r evs = fold max (map ev_id (filter (\<lambda>e. ev_room e = r) evs)) 0"

definition initWatermarkFloor :: "bool \<Rightarrow> string \<Rightarrow> Event list \<Rightarrow> Hub \<Rightarrow> Hub" where
  "initWatermarkFloor query_ok r evs h =
     (if query_ok then establishWatermarkFloor r (floor_query r evs) h else h)"

definition EventsSince :: "string \<Rightarrow> int \<Rightarrow> Event list \<Rightarrow> Event list" where
  "EventsSince r since evs = sort_key ev_id (filter (\<lambda>e. ev_room e = r \<and> since < ev_id e) evs)"

definition deliverExact :: "string \<Rightarrow> int \<Rightarrow> Event list \<Rightarrow> Hub \<Rightarrow> Hub" where
  "deliverExact r i evs h =
     (case find (\<lambda>e. ev_room e = r \<and> ev_id e = i) evs of
        None \<Rightarrow> h
      | Some e \<Rightarrow> dispatchLocal r (Frame e) h)"

definition consumePending :: "string \<Rightarrow> int \<Rightarrow> Hub \<Rightarrow> bool \<times> Hub" where
  "consumePending r i h =
     (if i \<in> set (hub_pending h r)
      then (True, h\<lparr> hub_pending := (hub_pending h)(r := filter (\<lambda>p. p \<noteq> i) (hub_pending h r)) \<rparr>)
      else (False, h))"

definition deliverLateCommitter :: "string \<Rightarrow> int \<Rightarrow> Event list \<Rightarrow> Hub \<Rightarrow> Hub" where
  "deliverLateCommitter r i evs h =
     (case consumePending r i h of (True, h') \<Rightarrow> h' | (False, h') \<Rightarrow> deliverExact r i evs h')"

definition trackPending :: "string \<Rightarrow> int \<Rightarrow> Hub \<Rightarrow> Hub" where
  "trackPending r i h = h\<lparr> hub_pending := (hub_pending h)(r := List.insert i (hub_pending h r)) \<rparr>"

definition deliver_row :: "string \<Rightarrow> int \<Rightarrow> Event \<Rightarrow> Hub \<Rightarrow> Hub" where
  "deliver_row r trig e h =
     dispatchLocal r (Frame e) (if ev_id e \<noteq> trig then trackPending r (ev_id e) h else h)"

definition deliverSince :: "string \<Rightarrow> int \<Rightarrow> int \<Rightarrow> Event list \<Rightarrow> Hub \<Rightarrow> Hub" where
  "deliverSince r watermark trig evs h =
     (let rows = EventsSince r watermark evs;
          h' = fold (deliver_row r trig) rows h;
          highest = fold max (map ev_id rows) watermark
      in if watermark < highest then establishWatermarkFloor r highest h' else h')"

definition handleNotify :: "string \<Rightarrow> int \<Rightarrow> Event list \<Rightarrow> Hub \<Rightarrow> Hub" where
  "handleNotify r i evs h =
     (if hub_subs h r = [] then establishWatermarkFloor r i h
      else (case hub_watermark h r of
              None \<Rightarrow> establishWatermarkFloor r i (deliverExact r i evs h)
            | Some w \<Rightarrow>
                if i \<le> w then deliverLateCommitter r i evs h else deliverSince r w i evs h))"

definition clearPendingNotify :: "Hub \<Rightarrow> Hub" where
  "clearPendingNotify h = h\<lparr> hub_pending := (\<lambda>_. []) \<rparr>"

definition resyncAll :: "string list \<Rightarrow> Hub \<Rightarrow> Hub" where
  "resyncAll rooms h = fold (\<lambda>r. dispatchLocal r resyncFrame) rooms h"

subsection \<open>One hub and its database\<close>

record world =
  w_events :: "Event list"
  w_queue :: "(string \<times> int) list"
  w_hub :: Hub

definition commit_event :: "Event \<Rightarrow> world \<Rightarrow> world" where
  "commit_event e w =
     w\<lparr> w_events := w_events w @ [e], w_queue := w_queue w @ [(ev_room e, ev_id e)] \<rparr>"

definition read_frame :: "nat \<Rightarrow> Hub \<Rightarrow> Hub" where
  "read_frame sid h = h\<lparr> hub_subs := (\<lambda>r. map (\<lambda>s.
     if sub_id s = sid \<and> sub_read s < length (sub_sent s) then s\<lparr> sub_read := sub_read s + 1 \<rparr> else s)
     (hub_subs h r)) \<rparr>"

text \<open>
  The moves: a transaction with one \<open>Emit\<close> commits (its id drawn earlier, distinct from every
  other); the hub handles the oldest queued notification; a subscriber registers; the floor query
  runs on a snapshot and is established later; a subscriber leaves; a consumer reads a frame.
\<close>

inductive hub_step :: "world \<Rightarrow> world \<Rightarrow> bool" where
  commit: "ev_id e \<notin> ev_id ` set (w_events w) \<Longrightarrow> hub_step w (commit_event e w)"
| notify: "w_queue w = (r, i) # q \<Longrightarrow>
     hub_step w (w\<lparr> w_queue := q, w_hub := handleNotify r i (w_events w) (w_hub w) \<rparr>)"
| subscribe: "hub_step w (w\<lparr> w_hub := snd (subscribe_register sid (length (w_events w)) r (w_hub w)) \<rparr>)"
| init_floor: "hub_step w (w\<lparr> w_hub := initWatermarkFloor ok r (take n (w_events w)) (w_hub w) \<rparr>)"
| unsubscribe: "hub_step w (w\<lparr> w_hub := unsubscribe sid r (w_hub w) \<rparr>)"
| reads: "hub_step w (w\<lparr> w_hub := read_frame sid (w_hub w) \<rparr>)"

definition initial_world :: "world \<Rightarrow> bool" where
  "initial_world w \<longleftrightarrow> w_hub w = NewHub \<and> w_queue w = [] \<and> distinct (map ev_id (w_events w))"

definition due_events :: "world \<Rightarrow> string \<Rightarrow> subscriber \<Rightarrow> Event set" where
  "due_events w r s = {e \<in> set (drop (sub_since s) (w_events w)). ev_room e = r}"

definition got :: "subscriber \<Rightarrow> Event \<Rightarrow> bool" where
  "got s e \<longleftrightarrow> Frame e \<in> set (sub_sent s)"

definition hub_ok :: "world \<Rightarrow> bool" where
  "hub_ok w \<longleftrightarrow> distinct (map ev_id (w_events w)) \<and>
     (\<forall>(r, i) \<in> set (w_queue w). \<exists>e \<in> set (w_events w). ev_room e = r \<and> ev_id e = i) \<and>
     (\<forall>r. \<forall>i \<in> set (hub_pending (w_hub w) r). i \<in> ev_id ` set (w_events w)) \<and>
     (\<forall>r. \<forall>s \<in> set (hub_subs (w_hub w) r).
        sub_since s \<le> length (w_events w) \<and> length (sub_sent s) \<le> sub_read s + subscriberBufferSize \<and>
        (\<forall>e \<in> due_events w r s. got s e \<or> (r, ev_id e) \<in> set (w_queue w)) \<and>
        (\<forall>e \<in> due_events w r s. ev_id e \<in> set (hub_pending (w_hub w) r) \<longrightarrow> got s e))"

lemma dispatch_subs:
  assumes "s' \<in> set (hub_subs (dispatchLocal r f h) r')"
  shows "if r' = r then \<exists>s \<in> set (hub_subs h r). \<not> channel_full s \<and> s' = send_frame f s
         else s' \<in> set (hub_subs h r')"
  using assms by (auto simp: dispatchLocal_def Let_def pruneRoomLocked_def split: if_splits)

lemma dispatch_pending: "set (hub_pending (dispatchLocal r f h) r') \<subseteq> set (hub_pending h r')"
  by (auto simp: dispatchLocal_def Let_def pruneRoomLocked_def)

lemma send_frame_simps [simp]:
  "sub_sent (send_frame f s) = sub_sent s @ [f]" "sub_read (send_frame f s) = sub_read s"
  "sub_since (send_frame f s) = sub_since s" "sub_id (send_frame f s) = sub_id s"
  by (simp_all add: send_frame_def)

text \<open>
  \<open>extends r ps h h'\<close>: the hub \<open>h'\<close> came from \<open>h\<close> by sending to room \<open>r\<close>. Every subscriber left is an
  old one with more frames, those of \<open>r\<close> have all events of \<open>ps\<close>, and the pending ids new in \<open>h'\<close>
  are among the ids of \<open>ps\<close>.
\<close>

definition grown :: "bool \<Rightarrow> Event list \<Rightarrow> subscriber \<Rightarrow> subscriber \<Rightarrow> bool" where
  "grown here ps s s' \<longleftrightarrow>
     (\<exists>fs. sub_sent s' = sub_sent s @ fs \<and> (here \<longrightarrow> (\<forall>e \<in> set ps. Frame e \<in> set fs))) \<and>
     sub_since s' = sub_since s \<and>
     (length (sub_sent s) \<le> sub_read s + subscriberBufferSize \<longrightarrow>
      length (sub_sent s') \<le> sub_read s' + subscriberBufferSize)"

definition extends :: "string \<Rightarrow> Event list \<Rightarrow> Hub \<Rightarrow> Hub \<Rightarrow> bool" where
  "extends r ps h h' \<longleftrightarrow>
     (\<forall>r'. \<forall>s' \<in> set (hub_subs h' r'). \<exists>s \<in> set (hub_subs h r'). grown (r' = r) ps s s') \<and>
     (\<forall>r' i. i \<in> set (hub_pending h' r') \<longrightarrow>
        i \<in> set (hub_pending h r') \<or> r' = r \<and> i \<in> ev_id ` set ps)"

lemma grown_refl: "grown here [] s s"
  by (auto simp: grown_def)

lemma grown_trans: "grown here ps s1 s2 \<Longrightarrow> grown here qs s2 s3 \<Longrightarrow> grown here (ps @ qs) s1 s3"
  by (auto simp: grown_def)

lemma grown_send: "\<not> channel_full s \<Longrightarrow> grown here [e] s (send_frame (Frame e) s)"
  by (auto simp: grown_def channel_full_def)

lemma grown_elsewhere: "grown False ps s s"
  by (auto simp: grown_def)

lemma extends_refl: "extends r [] h h"
  unfolding extends_def using grown_refl by blast

lemma extends_subs:
  "extends r ps h h' \<Longrightarrow> s' \<in> set (hub_subs h' r') \<Longrightarrow> \<exists>s \<in> set (hub_subs h r'). grown (r' = r) ps s s'"
  by (simp add: extends_def)

lemma extends_pending:
  "extends r ps h h' \<Longrightarrow> i \<in> set (hub_pending h' r') \<Longrightarrow>
   i \<in> set (hub_pending h r') \<or> r' = r \<and> i \<in> ev_id ` set ps"
  by (simp add: extends_def)

lemma extends_trans:
  assumes "extends r ps h1 h2" and "extends r qs h2 h3"
  shows "extends r (ps @ qs) h1 h3"
  unfolding extends_def
proof (intro conjI allI ballI impI)
  fix r' s3 assume "s3 \<in> set (hub_subs h3 r')"
  then obtain s2 where "s2 \<in> set (hub_subs h2 r')" "grown (r' = r) qs s2 s3"
    using assms(2) unfolding extends_def by blast
  moreover from this(1) obtain s1 where "s1 \<in> set (hub_subs h1 r')" "grown (r' = r) ps s1 s2"
    using assms(1) unfolding extends_def by blast
  ultimately show "\<exists>s \<in> set (hub_subs h1 r'). grown (r' = r) (ps @ qs) s s3"
    using grown_trans by blast
next
  fix r' i assume "i \<in> set (hub_pending h3 r')"
  then show "i \<in> set (hub_pending h1 r') \<or> r' = r \<and> i \<in> ev_id ` set (ps @ qs)"
    using extends_pending [OF assms(1), of i r'] extends_pending [OF assms(2), of i r'] by auto
qed

lemma floor_same [simp]:
  "hub_subs (establishWatermarkFloor r i h) = hub_subs h"
  "hub_pending (establishWatermarkFloor r i h) = hub_pending h"
  by (auto simp: establishWatermarkFloor_def split: option.splits)

lemma track_same [simp]:
  "hub_subs (trackPending r i h) = hub_subs h"
  "i' \<in> set (hub_pending (trackPending r i h) r') \<longleftrightarrow> i' \<in> set (hub_pending h r') \<or> r' = r \<and> i' = i"
  by (auto simp: trackPending_def)

lemma extends_floor: "extends r ps h h' \<Longrightarrow> extends r ps h (establishWatermarkFloor r' i h')"
  unfolding extends_def by simp

lemma extends_deliver_row: "extends r [e] h (deliver_row r trig e h)"
  unfolding extends_def
proof (intro conjI allI ballI impI)
  let ?h = "if ev_id e \<noteq> trig then trackPending r (ev_id e) h else h"
  have subs: "hub_subs ?h = hub_subs h" by simp
  fix r' s' assume "s' \<in> set (hub_subs (deliver_row r trig e h) r')"
  then have s': "if r' = r then \<exists>s \<in> set (hub_subs h r). \<not> channel_full s \<and> s' = send_frame (Frame e) s
         else s' \<in> set (hub_subs h r')"
    unfolding deliver_row_def using dispatch_subs subs by metis
  show "\<exists>s \<in> set (hub_subs h r'). grown (r' = r) [e] s s'"
  proof (cases "r' = r")
    case True
    with s' obtain s where s: "s \<in> set (hub_subs h r)" "\<not> channel_full s" "s' = send_frame (Frame e) s"
      by auto
    have "grown True [e] s s'" unfolding s(3) by (rule grown_send [OF s(2)])
    with s(1) True show ?thesis by auto
  next
    case False
    with s' show ?thesis using grown_elsewhere by auto
  qed
next
  let ?h = "if ev_id e \<noteq> trig then trackPending r (ev_id e) h else h"
  fix r' i assume "i \<in> set (hub_pending (deliver_row r trig e h) r')"
  then have "i \<in> set (hub_pending ?h r')" unfolding deliver_row_def using dispatch_pending by blast
  then show "i \<in> set (hub_pending h r') \<or> r' = r \<and> i \<in> ev_id ` set [e]" by (auto split: if_splits)
qed

lemma deliver_row_trig: "ev_id e = trig \<Longrightarrow> deliver_row r trig e h = dispatchLocal r (Frame e) h"
  by (simp add: deliver_row_def)

lemma extends_dispatch: "extends r [e] h (dispatchLocal r (Frame e) h)"
  using extends_deliver_row [of r e h "ev_id e"] by (simp add: deliver_row_trig)

lemma extends_sweep: "extends r rows h (fold (deliver_row r trig) rows h)"
proof (induction rows arbitrary: h)
  case (Cons e rows)
  from extends_trans [OF extends_deliver_row Cons.IH] show ?case by simp
qed (simp add: extends_refl)

text \<open>
  What a notification for the committed event \<open>e\<close> does: it extends the hub by a batch \<open>ps\<close> of
  committed events of the room. The batch contains \<open>e\<close>, unless \<open>e\<close> was pending.
\<close>

lemma consumePending_cases:
  "consumePending r i h = (b, h') \<Longrightarrow>
   hub_subs h' = hub_subs h \<and> (\<forall>r'. set (hub_pending h' r') \<subseteq> set (hub_pending h r')) \<and>
   (b \<longleftrightarrow> i \<in> set (hub_pending h r))"
  by (auto simp: consumePending_def split: if_splits)

lemma extends_shrink_pending:
  "hub_subs h' = hub_subs h \<Longrightarrow> (\<forall>r'. set (hub_pending h' r') \<subseteq> set (hub_pending h r')) \<Longrightarrow> extends r [] h h'"
  unfolding extends_def using grown_refl by (metis subsetD)

lemma find_event:
  assumes "distinct (map ev_id evs)" and "e \<in> set evs"
  shows "find (\<lambda>x. ev_room x = ev_room e \<and> ev_id x = ev_id e) evs = Some e"
  using assms by (induction evs) (auto simp: rev_image_eqI)

lemma handleNotify_extends:
  assumes "distinct (map ev_id evs)" and "e \<in> set evs"
  shows "\<exists>ps. extends (ev_room e) ps h (handleNotify (ev_room e) (ev_id e) evs h) \<and>
    (\<forall>p \<in> set ps. p \<in> set evs \<and> ev_room p = ev_room e) \<and>
    (e \<in> set ps \<or> ev_id e \<in> set (hub_pending h (ev_room e)) \<or> hub_subs h (ev_room e) = [])"
proof -
  let ?r = "ev_room e" let ?i = "ev_id e"
  have ex: "deliverExact ?r ?i evs h' = dispatchLocal ?r (Frame e) h'" for h'
    by (simp add: deliverExact_def find_event [OF assms])
  consider "hub_subs h ?r = []" | "hub_subs h ?r \<noteq> []" "hub_watermark h ?r = None"
    | w where "hub_subs h ?r \<noteq> []" "hub_watermark h ?r = Some w" "?i \<le> w"
    | w where "hub_subs h ?r \<noteq> []" "hub_watermark h ?r = Some w" "w < ?i"
    by (cases "hub_watermark h ?r") force+
  then show ?thesis
  proof cases
    case 1
    then show ?thesis
      by (intro exI [of _ "[]"]) (simp add: handleNotify_def extends_floor extends_refl)
  next
    case 2
    with assms(2) show ?thesis
      by (intro exI [of _ "[e]"]) (simp add: handleNotify_def ex extends_floor extends_dispatch)
  next
    case (3 w)
    obtain b h' where c: "consumePending ?r ?i h = (b, h')" by fastforce
    note cp = consumePending_cases [OF c]
    then have ext: "extends ?r [] h h'" by (intro extends_shrink_pending) auto
    show ?thesis
    proof (cases b)
      case True
      with 3 c cp ext show ?thesis
        by (intro exI [of _ "[]"]) (simp add: handleNotify_def deliverLateCommitter_def)
    next
      case False
      from extends_trans [OF ext extends_dispatch [of ?r e h']] False 3 c assms(2) show ?thesis
        by (intro exI [of _ "[e]"]) (simp add: handleNotify_def deliverLateCommitter_def ex)
    qed
  next
    case (4 w)
    let ?rows = "EventsSince ?r w evs"
    have "e \<in> set ?rows" using 4 assms(2) by (simp add: EventsSince_def)
    moreover have "extends ?r ?rows h (handleNotify ?r ?i evs h)"
      using 4 extends_sweep [of ?r ?rows h ?i]
      by (simp add: handleNotify_def deliverSince_def Let_def extends_floor)
    moreover have "\<forall>p \<in> set ?rows. p \<in> set evs \<and> ev_room p = ?r" by (simp add: EventsSince_def)
    ultimately show ?thesis by blast
  qed
qed

lemma hub_okD:
  assumes "hub_ok w"
  shows "distinct (map ev_id (w_events w))"
    and "(r, i) \<in> set (w_queue w) \<Longrightarrow> \<exists>e \<in> set (w_events w). ev_room e = r \<and> ev_id e = i"
    and "s \<in> set (hub_subs (w_hub w) r) \<Longrightarrow>
      sub_since s \<le> length (w_events w) \<and> length (sub_sent s) \<le> sub_read s + subscriberBufferSize"
    and "s \<in> set (hub_subs (w_hub w) r) \<Longrightarrow> e \<in> due_events w r s \<Longrightarrow>
      got s e \<or> (r, ev_id e) \<in> set (w_queue w)"
    and "s \<in> set (hub_subs (w_hub w) r) \<Longrightarrow> e \<in> due_events w r s \<Longrightarrow>
      ev_id e \<in> set (hub_pending (w_hub w) r) \<Longrightarrow> got s e"
    and "i \<in> set (hub_pending (w_hub w) r) \<Longrightarrow> i \<in> ev_id ` set (w_events w)"
  using assms unfolding hub_ok_def by (simp_all add: split_beta) (fastforce)+

lemma due_in_events: "e \<in> due_events w r s \<Longrightarrow> e \<in> set (w_events w) \<and> ev_room e = r"
  by (auto simp: due_events_def dest: in_set_dropD)

lemma grown_got: "grown here ps s s' \<Longrightarrow> got s e \<Longrightarrow> got s' e"
  by (auto simp: grown_def got_def)

lemma grown_batch: "grown True ps s s' \<Longrightarrow> e \<in> set ps \<Longrightarrow> got s' e"
  by (auto simp: grown_def got_def)

lemma ev_id_inj:
  "distinct (map ev_id evs) \<Longrightarrow> a \<in> set evs \<Longrightarrow> b \<in> set evs \<Longrightarrow> ev_id a = ev_id b \<Longrightarrow> a = b"
  using tuniq_inj [of ev_id evs a b] by (simp add: tuniq_def)

lemma hub_ok_extends:
  assumes ok: "hub_ok w" and ext: "extends r ps (w_hub w) h'"
    and ps: "\<forall>p \<in> set ps. p \<in> set (w_events w) \<and> ev_room p = r"
    and q: "set q \<subseteq> set (w_queue w)"
    and dropped: "\<And>r' e s. (r', ev_id e) \<in> set (w_queue w) \<Longrightarrow> (r', ev_id e) \<notin> set q \<Longrightarrow>
      s \<in> set (hub_subs (w_hub w) r') \<Longrightarrow> e \<in> due_events w r' s \<Longrightarrow> got s e \<or> r' = r \<and> e \<in> set ps"
  shows "hub_ok (w\<lparr> w_queue := q, w_hub := h' \<rparr>)"
proof -
  have "sub_since s' \<le> length (w_events w) \<and> length (sub_sent s') \<le> sub_read s' + subscriberBufferSize \<and>
      (\<forall>e \<in> due_events w r' s'. got s' e \<or> (r', ev_id e) \<in> set q) \<and>
      (\<forall>e \<in> due_events w r' s'. ev_id e \<in> set (hub_pending h' r') \<longrightarrow> got s' e)"
    if s': "s' \<in> set (hub_subs h' r')" for r' s'
  proof -
    from extends_subs [OF ext s'] obtain s where
      s: "s \<in> set (hub_subs (w_hub w) r')" "grown (r' = r) ps s s'" by blast
    from hub_okD(3) [OF ok s(1)] s(2)
    have b: "sub_since s' \<le> length (w_events w) \<and> length (sub_sent s') \<le> sub_read s' + subscriberBufferSize"
      and since: "sub_since s' = sub_since s"
      by (auto simp: grown_def)
    have due: "due_events w r' s' = due_events w r' s" by (simp add: due_events_def since)
    have "got s' e \<or> (r', ev_id e) \<in> set q" if e: "e \<in> due_events w r' s" for e
      using hub_okD(4) [OF ok s(1) e] dropped [OF _ _ s(1) e] grown_got [OF s(2)] grown_batch s(2)
      by (metis (full_types))
    moreover have "got s' e" if e: "e \<in> due_events w r' s" "ev_id e \<in> set (hub_pending h' r')" for e
    proof -
      from extends_pending [OF ext e(2)] show ?thesis
      proof
        assume "ev_id e \<in> set (hub_pending (w_hub w) r')"
        with hub_okD(5) [OF ok s(1) e(1)] grown_got [OF s(2)] show ?thesis by blast
      next
        assume a: "r' = r \<and> ev_id e \<in> ev_id ` set ps"
        then obtain p where p: "p \<in> set ps" "ev_id p = ev_id e" by auto
        then have "p = e"
          using ev_id_inj [OF hub_okD(1) [OF ok]] ps due_in_events [OF e(1)] by blast
        with p a s(2) grown_batch show ?thesis by auto
      qed
    qed
    ultimately show ?thesis using b due by simp
  qed
  moreover have "due_events (w\<lparr> w_queue := q, w_hub := h' \<rparr>) r' s = due_events w r' s" for r' s
    by (simp add: due_events_def)
  moreover have "i \<in> ev_id ` set (w_events w)" if "i \<in> set (hub_pending h' r')" for r' i
    using extends_pending [OF ext that] hub_okD(6) [OF ok] ps by blast
  ultimately show ?thesis
    using hub_okD(1,2) [OF ok] q unfolding hub_ok_def by auto
qed

lemma hub_ok_notify:
  assumes ok: "hub_ok w" and q: "w_queue w = (r, i) # q"
  shows "hub_ok (w\<lparr> w_queue := q, w_hub := handleNotify r i (w_events w) (w_hub w) \<rparr>)"
proof -
  from hub_okD(2) [OF ok, of r i] q obtain e where
    e: "e \<in> set (w_events w)" "ev_room e = r" "ev_id e = i" by auto
  from handleNotify_extends [OF hub_okD(1) [OF ok] e(1), of "w_hub w"] e obtain ps where
    ps: "extends r ps (w_hub w) (handleNotify r i (w_events w) (w_hub w))"
      "\<forall>p \<in> set ps. p \<in> set (w_events w) \<and> ev_room p = r"
      "e \<in> set ps \<or> i \<in> set (hub_pending (w_hub w) r) \<or> hub_subs (w_hub w) r = []"
    by auto
  show ?thesis
  proof (rule hub_ok_extends [OF ok ps(1,2)])
    show "set q \<subseteq> set (w_queue w)" by (auto simp: q)
  next
    fix r' e' s
    assume a: "(r', ev_id e') \<in> set (w_queue w)" "(r', ev_id e') \<notin> set q"
      "s \<in> set (hub_subs (w_hub w) r')" "e' \<in> due_events w r' s"
    then have i: "r' = r" "ev_id e' = i" by (auto simp: q)
    then have "e' = e"
      using ev_id_inj [OF hub_okD(1) [OF ok]] e due_in_events [OF a(4)] by blast
    with i ps(3) a(3,4) hub_okD(5) [OF ok a(3,4)] show "got s e' \<or> r' = r \<and> e' \<in> set ps" by auto
  qed
qed

lemma hub_ok_same_queue:
  assumes "hub_ok w" and "extends r [] (w_hub w) h'"
  shows "hub_ok (w\<lparr> w_hub := h' \<rparr>)"
  using hub_ok_extends [OF assms, of "w_queue w"] by simp

lemma hub_ok_commit:
  assumes ok: "hub_ok w" and new: "ev_id e \<notin> ev_id ` set (w_events w)"
  shows "hub_ok (commit_event e w)"
proof -
  let ?w = "commit_event e w"
  have due: "x \<in> due_events ?w r s \<longleftrightarrow> x \<in> due_events w r s \<or> x = e \<and> r = ev_room e"
    if "sub_since s \<le> length (w_events w)" for x r s
    using that by (auto simp: due_events_def commit_event_def)
  have same: "w_hub ?w = w_hub w" and evs: "w_events ?w = w_events w @ [e]"
    and que: "w_queue ?w = w_queue w @ [(ev_room e, ev_id e)]" by (simp_all add: commit_event_def)
  have "sub_since s \<le> length (w_events ?w) \<and> length (sub_sent s) \<le> sub_read s + subscriberBufferSize \<and>
      (\<forall>x \<in> due_events ?w r s. got s x \<or> (r, ev_id x) \<in> set (w_queue ?w)) \<and>
      (\<forall>x \<in> due_events ?w r s. ev_id x \<in> set (hub_pending (w_hub w) r) \<longrightarrow> got s x)"
    if s: "s \<in> set (hub_subs (w_hub w) r)" for r s
  proof -
    have old: "\<forall>x \<in> due_events w r s. got s x \<or> (r, ev_id x) \<in> set (w_queue w)"
      "\<forall>x \<in> due_events w r s. ev_id x \<in> set (hub_pending (w_hub w) r) \<longrightarrow> got s x"
      using hub_okD(4,5) [OF ok s] by blast+
    have "ev_id e \<notin> set (hub_pending (w_hub w) r)" using hub_okD(6) [OF ok] new by blast
    with old hub_okD(3) [OF ok s] show ?thesis by (auto simp: due evs que)
  qed
  moreover have "distinct (map ev_id (w_events ?w))" using hub_okD(1) [OF ok] new by (simp add: evs)
  moreover have "\<forall>(r, i) \<in> set (w_queue ?w). \<exists>e \<in> set (w_events ?w). ev_room e = r \<and> ev_id e = i"
    using hub_okD(2) [OF ok] by (auto simp: evs que)
  moreover have "\<forall>r. \<forall>i \<in> set (hub_pending (w_hub w) r). i \<in> ev_id ` set (w_events ?w)"
    using hub_okD(6) [OF ok] by (auto simp: evs)
  ultimately show ?thesis unfolding hub_ok_def same by blast
qed

lemma hub_ok_subscribe:
  assumes ok: "hub_ok w"
  shows "hub_ok (w\<lparr> w_hub := snd (subscribe_register sid (length (w_events w)) r (w_hub w)) \<rparr>)"
    (is "hub_ok ?w")
proof -
  let ?s = "\<lparr> sub_id = sid, sub_sent = [], sub_read = 0, sub_since = length (w_events w) \<rparr>"
  have subs: "s \<in> set (hub_subs (w_hub ?w) r') \<Longrightarrow> s \<in> set (hub_subs (w_hub w) r') \<or> s = ?s" for r' s
    by (auto simp: subscribe_register_def split: if_splits)
  have due: "due_events ?w r' s = due_events w r' s" "due_events w r' ?s = {}" for r' s
    by (auto simp: due_events_def)
  have pend: "hub_pending (w_hub ?w) = hub_pending (w_hub w)"
    by (simp add: subscribe_register_def)
  have "sub_since s \<le> length (w_events w) \<and> length (sub_sent s) \<le> sub_read s + subscriberBufferSize \<and>
      (\<forall>x \<in> due_events w r' s. got s x \<or> (r', ev_id x) \<in> set (w_queue w)) \<and>
      (\<forall>x \<in> due_events w r' s. ev_id x \<in> set (hub_pending (w_hub w) r') \<longrightarrow> got s x)"
    if s: "s \<in> set (hub_subs (w_hub ?w) r')" for r' s
    using subs [OF s] hub_okD(3-5) [OF ok, of s r'] due(2) by auto
  with hub_okD(1,2,6) [OF ok] show ?thesis
    unfolding hub_ok_def due pend by auto
qed

lemma extends_init_floor: "extends r [] h (initWatermarkFloor ok r evs h)"
  by (simp add: initWatermarkFloor_def extends_floor extends_refl)

lemma extends_filtered:
  assumes "\<And>r'. set (hub_subs h' r') \<subseteq> set (hub_subs h r')"
    and "\<And>r'. set (hub_pending h' r') \<subseteq> set (hub_pending h r')"
  shows "extends r [] h h'"
  unfolding extends_def using assms grown_refl by blast

lemma extends_unsubscribe: "extends r [] h (unsubscribe sid r h)"
  by (rule extends_filtered) (auto simp: unsubscribe_def Let_def pruneRoomLocked_def)

lemma extends_read: "extends r [] h (read_frame sid h)"
  unfolding extends_def
proof (intro conjI allI ballI impI)
  fix r' s' assume "s' \<in> set (hub_subs (read_frame sid h) r')"
  then obtain s where "s \<in> set (hub_subs h r')"
    "s' = (if sub_id s = sid \<and> sub_read s < length (sub_sent s) then s\<lparr> sub_read := sub_read s + 1 \<rparr> else s)"
    by (auto simp: read_frame_def)
  then show "\<exists>s \<in> set (hub_subs h r'). grown (r' = r) [] s s'"
    by (intro bexI [of _ s]) (auto simp: grown_def)
qed (simp add: read_frame_def)

lemma hub_ok_step: "hub_step w w' \<Longrightarrow> hub_ok w \<Longrightarrow> hub_ok w'"
  by (induction rule: hub_step.induct)
    (auto intro: hub_ok_commit hub_ok_notify hub_ok_subscribe hub_ok_same_queue extends_init_floor
      extends_unsubscribe extends_read)

lemma hub_ok_initial: "initial_world w \<Longrightarrow> hub_ok w"
  by (simp add: initial_world_def hub_ok_def NewHub_def)

lemma hub_ok_reachable: "hub_step\<^sup>*\<^sup>* w w' \<Longrightarrow> initial_world w \<Longrightarrow> hub_ok w'"
  by (induction rule: rtranclp_induct) (auto intro: hub_ok_initial hub_ok_step)

lemma buildFrame_shape: "\<exists>fs. buildFrameFromParts i t d = JObj ((''type'', JStr t) # (''seq'', JNum i) # fs)"
  by (cases d) (simp_all add: override_fields_def)

lemma Frame_seq: "Frame e = Frame e' \<Longrightarrow> ev_id e = ev_id e' \<and> ev_type e = ev_type e'"
  using buildFrame_shape [of "ev_id e" "ev_type e" "ev_data e"]
    buildFrame_shape [of "ev_id e'" "ev_type e'" "ev_data e'"]
  unfolding Frame_def by auto

subsection \<open>Properties\<close>


definition demo_event :: "int \<Rightarrow> Event" where
  "demo_event i = \<lparr> ev_id = i, ev_room = ''poll:p'', ev_type = ''vote'', ev_data = JNull \<rparr>"

definition demo_world :: "nat \<Rightarrow> world" where
  "demo_world n =
     (let h0 = snd (subscribe_register 1 0 ''poll:p'' NewHub);
          h1 = initWatermarkFloor True ''poll:p'' [] h0;
          h2 = handleNotify ''poll:p'' 101 [demo_event 101] h1;
          h3 = handleNotify ''poll:p'' 100 [demo_event 101, demo_event 100] h2;
          mk = (\<lambda>evs q h. \<lparr> w_events = evs, w_queue = q, w_hub = h \<rparr>)
      in [mk [] [] NewHub, mk [] [] h0, mk [] [] h1,
          mk [demo_event 101] [(''poll:p'', 101)] h1, mk [demo_event 101] [] h2,
          mk [demo_event 101, demo_event 100] [(''poll:p'', 100)] h2,
          mk [demo_event 101, demo_event 100] [] h3] ! n)"

lemma demo_reachable: "hub_step\<^sup>*\<^sup>* (demo_world 0) (demo_world 6)"
proof -
  have 1: "hub_step (demo_world 0) (demo_world 1)"
    using hub_step.subscribe [of "demo_world 0" 1 "''poll:p''"] by (simp add: demo_world_def Let_def)
  have 2: "hub_step (demo_world 1) (demo_world 2)"
    using hub_step.init_floor [of "demo_world 1" True "''poll:p''" 0] by (simp add: demo_world_def Let_def)
  have 3: "hub_step (demo_world 2) (demo_world 3)"
    using hub_step.commit [of "demo_event 101" "demo_world 2"]
    by (simp add: demo_world_def Let_def commit_event_def demo_event_def)
  have 4: "hub_step (demo_world 3) (demo_world 4)"
    using hub_step.notify [of "demo_world 3" "''poll:p''" 101 "[]"] by (simp add: demo_world_def Let_def)
  have 5: "hub_step (demo_world 4) (demo_world 5)"
    using hub_step.commit [of "demo_event 100" "demo_world 4"]
    by (simp add: demo_world_def Let_def commit_event_def demo_event_def)
  have 6: "hub_step (demo_world 5) (demo_world 6)"
    using hub_step.notify [of "demo_world 5" "''poll:p''" 100 "[]"] by (simp add: demo_world_def Let_def)
  from 1 2 3 4 5 6 show ?thesis by (meson converse_rtranclp_into_rtranclp rtranclp.rtrancl_refl)
qed

lemma demo_subs:
  "hub_subs (w_hub (demo_world 6)) ''poll:p'' =
   [\<lparr> sub_id = 1, sub_sent = [Frame (demo_event 101), Frame (demo_event 100)], sub_read = 0, sub_since = 0 \<rparr>]"
  by code_simp

definition demo_sub :: subscriber where
  "demo_sub = hd (hub_subs (w_hub (demo_world 6)) ''poll:p'')"

lemma demo_sub_in: "demo_sub \<in> set (hub_subs (w_hub (demo_world 6)) ''poll:p'')" "sub_since demo_sub = 0"
  by (simp_all add: demo_sub_def demo_subs)

lemma demo_initial: "initial_world (demo_world 0)"
  by (simp add: initial_world_def demo_world_def Let_def)


text \<open>a slow consumer costs at most its bounded buffer: in every reachable state each
subscriber has at most 64 frames sent and not yet read.\<close>
lemma hub_buffer_bounded:
  assumes "initial_world w0" and "hub_step\<^sup>*\<^sup>* w0 w" and "s \<in> set (hub_subs (w_hub w) r)"
  shows "length (sub_sent s) - sub_read s \<le> subscriberBufferSize"
  using hub_okD(3) [OF hub_ok_reachable [OF assms(2,1)] assms(3)] by linarith

lemma hub_buffer_bounded_witness:
  "length (sub_sent demo_sub) - sub_read demo_sub \<le> 64"
  using hub_buffer_bounded [OF demo_initial demo_reachable demo_sub_in(1)]
  by (simp add: subscriberBufferSize_def)

text \<open>subscribing before the catch-up query misses nothing: for a connected subscriber
registered before the query's snapshot (the first \<open>n\<close> commits), every event of the room newer than
the client's cursor is in the query's answer, or was sent live, or is still queued.\<close>
lemma backfill_complete:
  assumes "initial_world w0" and "hub_step\<^sup>*\<^sup>* w0 w" and "s \<in> set (hub_subs (w_hub w) r)"
    and "sub_since s \<le> n"
  shows "\<forall>e \<in> set (w_events w). ev_room e = r \<and> since < ev_id e \<longrightarrow>
    e \<in> set (EventsSince r since (take n (w_events w))) \<or> Frame e \<in> set (sub_sent s) \<or>
    (r, ev_id e) \<in> set (w_queue w)"
proof (intro ballI impI)
  fix e assume e: "e \<in> set (w_events w)" "ev_room e = r \<and> since < ev_id e"
  have "e \<in> set (take n (w_events w)) \<or> e \<in> set (drop n (w_events w))"
    using e(1) by (metis append_take_drop_id Un_iff set_append)
  moreover have "set (drop n (w_events w)) \<subseteq> set (drop (sub_since s) (w_events w))"
    by (rule set_drop_subset_set_drop) (rule assms(4))
  ultimately show "e \<in> set (EventsSince r since (take n (w_events w))) \<or> Frame e \<in> set (sub_sent s) \<or>
      (r, ev_id e) \<in> set (w_queue w)"
    using e hub_okD(4) [OF hub_ok_reachable [OF assms(2,1)] assms(3), of e]
    by (auto simp: due_events_def EventsSince_def got_def)
qed

lemma backfill_complete_witness:
  "demo_event 100 \<in> set (EventsSince ''poll:p'' 0 (take 1 (w_events (demo_world 6)))) \<or>
     Frame (demo_event 100) \<in> set (sub_sent demo_sub) \<or>
     (''poll:p'', 100) \<in> set (w_queue (demo_world 6))"
  using backfill_complete [OF demo_initial demo_reachable demo_sub_in(1), of 1 0]
  by (simp add: demo_sub_in(2) demo_world_def Let_def demo_event_def)

text \<open>The pointer \<open>Emit\<close> sends is read back exactly, whatever colons the room key contains.\<close>

lemma notify_pointer_roundtrip:
  assumes "in_int64 i"
  shows "parseNotifyPayload (notify_pointer room i) = Some (room, i)"
proof -
  have "CHR '':'' \<notin> set (FormatInt i)" by (rule FormatInt_no_colon)
  then show ?thesis
    by (simp add: parseNotifyPayload_def notify_pointer_def last_cut_append ParseInt_FormatInt assms)
qed

lemma notify_pointer_roundtrip_witness:
  "parseNotifyPayload (notify_pointer ''poll:p1'' 42) = Some (''poll:p1'', 42)"
  by (rule notify_pointer_roundtrip) (simp add: in_int64_def)

end
