(* ===== verification/Presence.thy ===== *)
theory Presence
  imports Hub
begin

text \<open>
  Live viewer counts (\<^verbatim>\<open>internal/rooms/presence.go\<close> and the stale-row sweep of
  \<^verbatim>\<open>internal/jobs/housekeeping.go\<close>): the \<^verbatim>\<open>ws_presence\<close> table has one row per (room, replica) with
  that replica's number of viewers and its last heartbeat.
\<close>

record presence_row =
  pr_room :: string
  pr_replica :: string
  pr_count :: int
  pr_heartbeat :: instant

definition pr_key :: "presence_row \<Rightarrow> string \<times> string" where
  "pr_key p = (pr_room p, pr_replica p)"

definition presenceJoin :: "string \<Rightarrow> instant \<Rightarrow> string \<Rightarrow> presence_row list \<Rightarrow> presence_row list" where
  "presenceJoin replica now room rows =
     (if tget pr_key (room, replica) rows = None
      then rows @ [\<lparr> pr_room = room, pr_replica = replica, pr_count = 1, pr_heartbeat = now \<rparr>]
      else tupd (\<lambda>p. pr_key p = (room, replica))
             (\<lambda>p. p\<lparr> pr_count := pr_count p + 1, pr_heartbeat := now \<rparr>) rows)"

definition presenceLeave :: "string \<Rightarrow> instant \<Rightarrow> string \<Rightarrow> presence_row list \<Rightarrow> presence_row list" where
  "presenceLeave replica now room rows =
     tupd (\<lambda>p. pr_key p = (room, replica))
       (\<lambda>p. p\<lparr> pr_count := max (pr_count p - 1) 0, pr_heartbeat := now \<rparr>) rows"

definition presence_total :: "string \<Rightarrow> presence_row list \<Rightarrow> int" where
  "presence_total room rows = sum_list (map pr_count (filter (\<lambda>p. pr_room p = room) rows))"

definition BroadcastPresenceTotal :: "int \<Rightarrow> string \<Rightarrow> presence_row list \<Rightarrow> Event" where
  "BroadcastPresenceTotal i room rows =
     \<lparr> ev_id = i, ev_room = room, ev_type = ''presence'',
       ev_data = JObj [(''count'', JNum (presence_total room rows))] \<rparr>"

definition presenceBootSweep :: "string \<Rightarrow> presence_row list \<Rightarrow> presence_row list" where
  "presenceBootSweep replica rows = tdel (\<lambda>p. pr_replica p = replica) rows"

definition presenceShutdownSweep ::
  "string \<Rightarrow> presence_row list \<Rightarrow> string list \<times> presence_row list" where
  "presenceShutdownSweep replica rows =
     (map pr_room (filter (\<lambda>p. pr_replica p = replica \<and> 0 < pr_count p) rows),
      tdel (\<lambda>p. pr_replica p = replica) rows)"

definition presence_heartbeat :: "string \<Rightarrow> instant \<Rightarrow> presence_row list \<Rightarrow> presence_row list" where
  "presence_heartbeat replica now rows =
     tupd (\<lambda>p. pr_replica p = replica \<and> 0 < pr_count p) (\<lambda>p. p\<lparr> pr_heartbeat := now \<rparr>) rows"

definition deleteStalePresenceRows ::
  "instant \<Rightarrow> presence_row list \<Rightarrow> string list \<times> presence_row list" where
  "deleteStalePresenceRows now rows =
     (remdups (map pr_room (filter (\<lambda>p. pr_heartbeat p < now - 90 * Second) rows)),
      tdel (\<lambda>p. pr_heartbeat p < now - 90 * Second) rows)"

text \<open>
  The moves, with the true number of open connections of each (room, replica) beside the table. A
  sweep runs while every replica with viewers has sent its heartbeat in the last 90 seconds; at
  shutdown the replica's connections are closed.
\<close>

type_synonym connections = "string \<times> string \<Rightarrow> nat"

inductive presence_step ::
  "connections \<times> presence_row list \<Rightarrow> connections \<times> presence_row list \<Rightarrow> bool" where
  join: "presence_step (c, rows)
     (c((room, rep) := c (room, rep) + 1), presenceJoin rep now room rows)"
| leave: "c (room, rep) = Suc n \<Longrightarrow>
     presence_step (c, rows) (c((room, rep) := n), presenceLeave rep now room rows)"
| beat: "presence_step (c, rows) (c, presence_heartbeat rep now rows)"
| sweep: "\<forall>p \<in> set rows. 0 < pr_count p \<longrightarrow> now - 90 * Second \<le> pr_heartbeat p \<Longrightarrow>
     presence_step (c, rows) (c, snd (deleteStalePresenceRows now rows))"
| shutdown: "presence_step (c, rows)
     (\<lambda>(room, r). if r = rep then 0 else c (room, r), snd (presenceShutdownSweep rep rows))"

definition row_count :: "string \<times> string \<Rightarrow> presence_row list \<Rightarrow> int" where
  "row_count k rows = (case tget pr_key k rows of None \<Rightarrow> 0 | Some p \<Rightarrow> pr_count p)"

definition presence_ok :: "connections \<times> presence_row list \<Rightarrow> bool" where
  "presence_ok = (\<lambda>(c, rows). tuniq pr_key rows \<and> (\<forall>k. row_count k rows = int (c k)))"

lemma pr_key_simps [simp]:
  "pr_key (p\<lparr> pr_count := n \<rparr>) = pr_key p" "pr_key (p\<lparr> pr_heartbeat := t \<rparr>) = pr_key p"
  by (simp_all add: pr_key_def)

lemma row_count_cases:
  "tget pr_key k rows = None \<Longrightarrow> row_count k rows = 0"
  "tget pr_key k rows = Some p \<Longrightarrow> row_count k rows = pr_count p"
  by (simp_all add: row_count_def)

lemma row_count_tupd_key:
  assumes "\<And>p. pr_key (f p) = pr_key p"
  shows "row_count k (tupd (\<lambda>p. pr_key p = k') f rows) =
    (case tget pr_key k rows of None \<Rightarrow> 0 | Some p \<Rightarrow> if k = k' then pr_count (f p) else pr_count p)"
  by (auto simp: row_count_def tget_tupd assms split: option.splits dest: tget_Some_in)

lemma row_count_tdel:
  assumes "tuniq pr_key rows"
  shows "row_count k (tdel q rows) =
    (case tget pr_key k rows of None \<Rightarrow> 0 | Some p \<Rightarrow> if q p then 0 else pr_count p)"
proof (cases "tget pr_key k rows")
  case None
  then show ?thesis by (simp add: row_count_def tget_tdel_None)
next
  case (Some p)
  note p = tget_Some_in [OF Some]
  show ?thesis
  proof (cases "q p")
    case True
    have "pr_key x \<noteq> k" if "x \<in> set (tdel q rows)" for x
      using that p True tuniq_inj [OF assms] by (metis (mono_tags, lifting) mem_Collect_eq set_tdel)
    then have "tget pr_key k (tdel q rows) = None" by (simp add: tget_None_iff)
    with Some True show ?thesis by (simp add: row_count_def)
  next
    case False
    then have "p \<in> set (tdel q rows)" using p by simp
    then have "tget pr_key (pr_key p) (tdel q rows) = Some p"
      using tget_in_uniq [OF tuniq_tdel [OF assms]] by blast
    with Some False p show ?thesis by (simp add: row_count_def)
  qed
qed

lemma row_count_join:
  "row_count k (presenceJoin rep now room rows) = row_count k rows + (if k = (room, rep) then 1 else 0)"
proof (cases "tget pr_key (room, rep) rows")
  case None
  then show ?thesis
    by (cases "tget pr_key k rows")
      (auto simp: presenceJoin_def row_count_def tget_append tget_Cons pr_key_def)
next
  case (Some p)
  then show ?thesis
    by (cases "tget pr_key k rows") (auto simp: presenceJoin_def row_count_tupd_key row_count_cases)
qed

lemma row_count_leave:
  "row_count k (presenceLeave rep now room rows) =
     (if k = (room, rep) then max (row_count k rows - 1) 0 else row_count k rows)"
  by (cases "tget pr_key k rows") (auto simp: presenceLeave_def row_count_tupd_key row_count_cases)

lemma row_count_beat: "row_count k (presence_heartbeat rep now rows) = row_count k rows"
  by (cases "tget pr_key k rows") (auto simp: presence_heartbeat_def row_count_def tget_tupd)

lemma row_count_sweep:
  assumes "tuniq pr_key rows" and "\<forall>k. 0 \<le> row_count k rows"
    and fresh: "\<forall>p \<in> set rows. 0 < pr_count p \<longrightarrow> now - 90 * Second \<le> pr_heartbeat p"
  shows "row_count k (snd (deleteStalePresenceRows now rows)) = row_count k rows"
proof (cases "tget pr_key k rows")
  case (Some p)
  with assms(2) have "0 \<le> pr_count p" by (metis row_count_cases(2))
  with fresh tget_Some_in [OF Some] have "pr_heartbeat p < now - 90 * Second \<longrightarrow> pr_count p = 0"
    by force
  with Some show ?thesis by (auto simp: deleteStalePresenceRows_def row_count_tdel [OF assms(1)] row_count_cases)
qed (simp add: deleteStalePresenceRows_def row_count_tdel [OF assms(1)] row_count_cases)

lemma row_count_shutdown:
  assumes "tuniq pr_key rows"
  shows "row_count (room, r) (snd (presenceShutdownSweep rep rows)) =
    (if r = rep then 0 else row_count (room, r) rows)"
proof (cases "tget pr_key (room, r) rows")
  case (Some p)
  then have "pr_replica p = r" using tget_Some_in [OF Some] by (simp add: pr_key_def)
  with Some show ?thesis
    by (simp add: presenceShutdownSweep_def row_count_tdel [OF assms] row_count_cases)
qed (simp add: presenceShutdownSweep_def row_count_tdel [OF assms] row_count_cases)

lemma tuniq_join: "tuniq pr_key rows \<Longrightarrow> tuniq pr_key (presenceJoin rep now room rows)"
  by (auto simp: presenceJoin_def tget_None_iff tuniq_def pr_key_def image_iff map_key_tupd)

lemma presence_okI:
  "tuniq pr_key rows \<Longrightarrow> (\<And>room r. row_count (room, r) rows = int (c (room, r))) \<Longrightarrow> presence_ok (c, rows)"
  by (simp add: presence_ok_def)

lemma presence_okD:
  "presence_ok (c, rows) \<Longrightarrow> tuniq pr_key rows" "presence_ok (c, rows) \<Longrightarrow> row_count k rows = int (c k)"
  by (cases k; simp add: presence_ok_def)+

lemma presence_ok_step: "presence_step a b \<Longrightarrow> presence_ok a \<Longrightarrow> presence_ok b"
proof (induction rule: presence_step.induct)
  case (join c rows room rep now)
  then show ?case by (intro presence_okI) (simp_all add: tuniq_join row_count_join presence_okD)
next
  case (leave c room rep n rows now)
  have "tuniq pr_key (presenceLeave rep now room rows)"
    unfolding presenceLeave_def using presence_okD(1) [OF leave.prems] by (subst tuniq_tupd) auto
  with leave show ?case by (intro presence_okI) (auto simp: row_count_leave presence_okD)
next
  case (beat c rows rep now)
  have "tuniq pr_key (presence_heartbeat rep now rows)"
    unfolding presence_heartbeat_def using presence_okD(1) [OF beat.prems] by (subst tuniq_tupd) auto
  with beat show ?case by (intro presence_okI) (simp_all add: row_count_beat presence_okD)
next
  case (sweep rows now c)
  have "tuniq pr_key (snd (deleteStalePresenceRows now rows))"
    using presence_okD(1) [OF sweep.prems] by (simp add: deleteStalePresenceRows_def tuniq_tdel)
  with sweep show ?case by (intro presence_okI) (simp_all add: row_count_sweep presence_okD)
next
  case (shutdown c rows rep)
  have "tuniq pr_key (snd (presenceShutdownSweep rep rows))"
    using presence_okD(1) [OF shutdown.prems] by (simp add: presenceShutdownSweep_def tuniq_tdel)
  with shutdown show ?case by (intro presence_okI) (simp_all add: row_count_shutdown presence_okD)
qed

lemma presence_reachable_ok: "presence_step\<^sup>*\<^sup>* (\<lambda>_. 0, []) x \<Longrightarrow> presence_ok x"
proof (induction rule: rtranclp_induct)
  case base
  show ?case by (simp add: presence_ok_def row_count_def)
qed (rule presence_ok_step)



end
