(* ===== verification/Store.thy ===== *)
theory Store
  imports Presence
begin

text \<open>
  The database of the poll service: one record per table of \<^verbatim>\<open>internal/polls/queries/models.go\<close> the
  service uses, and one function per query of \<^verbatim>\<open>internal/polls/queries/polls.sql.go\<close>, with the
  constraints of the schema the statements run into: primary keys, foreign keys with their ON DELETE
  rules, the check on vote answers. A violated constraint is \<open>ErrDb\<close>. \<^verbatim>\<open>ORDER BY\<close> is a stable sort on
  the insertion order.

  \<open>db_fresh\<close> is the stream of ids \<^verbatim>\<open>db.NewID\<close> will return and \<open>db_next\<close> the next position;
  \<open>db_event_seq\<close> is the bigserial of \<^verbatim>\<open>room_events\<close>. \<open>db_stats\<close> holds the usage counters.
\<close>

datatype poll_error =
    ErrForbidden
  | ErrNotFound
  | ErrNotSignup
  | ErrConflict
  | ErrCapacityFull
  | ErrPollClosed
  | ErrPollFinalized
  | ErrLimitReached
  | ErrClaimLimitReached
  | ErrCapacityBelowClaims
  | ErrEmailRequired
  | ErrValidation "(string \<times> string) list"
  | ErrDb string

record Poll =
  p_id :: string
  p_org :: int
  p_created_by :: "int option"
  p_type :: string
  p_title :: string
  p_description :: "string option"
  p_location :: "string option"
  p_timezone :: string
  p_status :: string
  p_deadline_at :: "instant option"
  p_finalized_option :: "string option"
  p_require_email :: bool
  p_allow_comments :: bool
  p_allow_ifneedbe :: bool
  p_signup_max_claims :: int
  p_created_at :: instant
  p_updated_at :: instant
  p_deleted_at :: "instant option"
  p_suspended_at :: "instant option"

record PollOption =
  o_id :: string
  o_poll :: string
  o_position :: int
  o_kind :: string
  o_start_at :: "instant option"
  o_end_at :: "instant option"
  o_label :: "string option"
  o_capacity :: "int option"

record Participant =
  pa_id :: string
  pa_poll :: string
  pa_name :: string
  pa_email :: "string option"
  pa_user :: "int option"
  pa_locale :: "string option"
  pa_created_at :: instant
  pa_updated_at :: instant

record Vote =
  v_participant :: string
  v_option :: string
  v_answer :: string

record Comment =
  c_id :: string
  c_poll :: string
  c_author_name :: string
  c_participant :: "string option"
  c_user :: "int option"
  c_body :: string
  c_created_at :: instant
  c_deleted_at :: "instant option"

record User =
  u_id :: int
  u_email :: string
  u_first_name :: "string option"
  u_last_name :: "string option"

record OrganizationMember =
  m_org :: int
  m_user :: int
  m_roles :: "string list"

record ChannelPrefs =
  ch_email :: bool
  ch_push :: bool

type_synonym NotificationGrid = "(string \<times> ChannelPrefs) list"

record NotificationSubscription =
  s_scope_type :: string
  s_scope_id :: string
  s_user :: int
  s_source :: string
  s_channels :: "NotificationGrid option"
  s_created_at :: instant
  s_updated_at :: instant

record db =
  db_polls :: "Poll list"
  db_options :: "PollOption list"
  db_participants :: "Participant list"
  db_votes :: "Vote list"
  db_comments :: "Comment list"
  db_users :: "User list"
  db_orgs :: "(int \<times> string) list"
  db_members :: "OrganizationMember list"
  db_prefs :: "(int \<times> NotificationGrid option) list"
  db_subs :: "NotificationSubscription list"
  db_jobs :: "job list"
  db_events :: "Event list"
  db_event_seq :: int
  db_stats :: "string \<Rightarrow> int"
  db_fresh :: "nat \<Rightarrow> string"
  db_next :: nat

type_synonym 'a poll_tx = "(db, poll_error, 'a) tx"

definition NewID :: "string poll_tx" where
  "NewID d = Inr (db_fresh d (db_next d), d\<lparr> db_next := db_next d + 1 \<rparr>)"

definition live_poll :: "Poll \<Rightarrow> bool" where
  "live_poll p \<longleftrightarrow> p_deleted_at p = None \<and> p_suspended_at p = None"

definition GetPoll :: "string \<Rightarrow> db \<Rightarrow> Poll option" where
  "GetPoll i d = (case tget p_id i (db_polls d) of
      Some p \<Rightarrow> if live_poll p then Some p else None
    | None \<Rightarrow> None)"

definition PollExists :: "string \<Rightarrow> db \<Rightarrow> bool" where
  "PollExists i d \<longleftrightarrow> GetPoll i d \<noteq> None"

definition PollSuspended :: "string \<Rightarrow> db \<Rightarrow> bool" where
  "PollSuspended i d \<longleftrightarrow> (case tget p_id i (db_polls d) of
      Some p \<Rightarrow> p_deleted_at p = None \<and> p_suspended_at p \<noteq> None | None \<Rightarrow> False)"

definition has_user :: "int option \<Rightarrow> db \<Rightarrow> bool" where
  "has_user u d \<longleftrightarrow> (case u of None \<Rightarrow> True | Some i \<Rightarrow> tget u_id i (db_users d) \<noteq> None)"

definition InsertPoll :: "Poll \<Rightarrow> unit poll_tx" where
  "InsertPoll p d =
     (if p_org p \<notin> fst ` set (db_orgs d) then Inl (ErrDb ''fk_polls_organization_id'')
      else if \<not> has_user (p_created_by p) d then Inl (ErrDb ''fk_polls_created_by'')
      else (case tins p_id p (db_polls d) of
              None \<Rightarrow> Inl (ErrDb ''polls_pkey'')
            | Some t \<Rightarrow> Inr ((), d\<lparr> db_polls := t \<rparr>)))"

definition ListOptionsByPoll :: "string \<Rightarrow> db \<Rightarrow> PollOption list" where
  "ListOptionsByPoll i d = sort_key o_position (filter (\<lambda>po. o_poll po = i) (db_options d))"

definition InsertPollOption :: "PollOption \<Rightarrow> unit poll_tx" where
  "InsertPollOption po d =
     (if tget p_id (o_poll po) (db_polls d) = None then Inl (ErrDb ''fk_poll_options_poll_id'')
      else (case tins o_id po (db_options d) of
              None \<Rightarrow> Inl (ErrDb ''poll_options_pkey'')
            | Some t \<Rightarrow> Inr ((), d\<lparr> db_options := t \<rparr>)))"

definition update_poll :: "string \<Rightarrow> (Poll \<Rightarrow> Poll) \<Rightarrow> unit poll_tx" where
  "update_poll i f = writes (\<lambda>d. d\<lparr> db_polls := tupd (\<lambda>p. p_id p = i) f (db_polls d) \<rparr>)"

definition SetPollStatus :: "string \<Rightarrow> string \<Rightarrow> instant \<Rightarrow> unit poll_tx" where
  "SetPollStatus i status now = update_poll i (\<lambda>p. p\<lparr> p_status := status, p_updated_at := now \<rparr>)"

definition FinalizePoll :: "string \<Rightarrow> string \<Rightarrow> string \<Rightarrow> instant \<Rightarrow> unit poll_tx" where
  "FinalizePoll i opt status now = update_poll i
     (\<lambda>p. p\<lparr> p_finalized_option := Some opt, p_status := status, p_updated_at := now \<rparr>)"

definition SoftDeletePoll :: "string \<Rightarrow> instant \<Rightarrow> unit poll_tx" where
  "SoftDeletePoll i now = update_poll i (\<lambda>p. p\<lparr> p_deleted_at := Some now, p_updated_at := now \<rparr>)"

definition UpdatePollScalars :: "string \<Rightarrow> Poll \<Rightarrow> unit poll_tx" where
  "UpdatePollScalars i m = update_poll i
     (\<lambda>p. p\<lparr> p_title := p_title m, p_description := p_description m, p_location := p_location m,
             p_timezone := p_timezone m, p_deadline_at := p_deadline_at m,
             p_require_email := p_require_email m, p_allow_comments := p_allow_comments m,
             p_allow_ifneedbe := p_allow_ifneedbe m, p_signup_max_claims := p_signup_max_claims m,
             p_updated_at := p_updated_at m \<rparr>)"

definition UpdatePollOption :: "string \<Rightarrow> PollOption \<Rightarrow> unit poll_tx" where
  "UpdatePollOption i c = writes (\<lambda>d. d\<lparr> db_options := tupd (\<lambda>po. o_id po = i)
     (\<lambda>po. po\<lparr> o_position := o_position c, o_kind := o_kind c, o_start_at := o_start_at c,
              o_end_at := o_end_at c, o_label := o_label c, o_capacity := o_capacity c \<rparr>) (db_options d) \<rparr>)"

definition DeletePollOption :: "string \<Rightarrow> unit poll_tx" where
  "DeletePollOption i = writes (\<lambda>d. d\<lparr> db_options := tdel (\<lambda>po. o_id po = i) (db_options d),
     db_votes := tdel (\<lambda>v. v_option v = i) (db_votes d) \<rparr>)"

definition GetPollOptionForUpdate :: "string \<Rightarrow> db \<Rightarrow> PollOption option" where
  "GetPollOptionForUpdate i d = tget o_id i (db_options d)"

definition ListParticipantsByPoll :: "string \<Rightarrow> db \<Rightarrow> Participant list" where
  "ListParticipantsByPoll i d = sort_key pa_created_at (filter (\<lambda>p. pa_poll p = i) (db_participants d))"

definition GetParticipant :: "string \<Rightarrow> db \<Rightarrow> Participant option" where
  "GetParticipant i d = tget pa_id i (db_participants d)"

definition GetParticipantForUpdate :: "string \<Rightarrow> db \<Rightarrow> Participant option" where
  "GetParticipantForUpdate i d = tget pa_id i (db_participants d)"

definition GetParticipantByPollAndUser :: "string \<Rightarrow> int \<Rightarrow> db \<Rightarrow> Participant option" where
  "GetParticipantByPollAndUser i u d =
     find (\<lambda>p. pa_poll p = i \<and> pa_user p = Some u) (db_participants d)"

definition InsertParticipant :: "Participant \<Rightarrow> unit poll_tx" where
  "InsertParticipant p d =
     (if tget p_id (pa_poll p) (db_polls d) = None then Inl (ErrDb ''fk_participants_poll_id'')
      else if \<not> has_user (pa_user p) d then Inl (ErrDb ''fk_participants_user_id'')
      else (case tins pa_id p (db_participants d) of
              None \<Rightarrow> Inl (ErrDb ''participants_pkey'')
            | Some t \<Rightarrow> Inr ((), d\<lparr> db_participants := t \<rparr>)))"

definition UpdateParticipantName :: "string \<Rightarrow> string \<Rightarrow> instant \<Rightarrow> unit poll_tx" where
  "UpdateParticipantName i name now = writes (\<lambda>d. d\<lparr> db_participants :=
     tupd (\<lambda>p. pa_id p = i) (\<lambda>p. p\<lparr> pa_name := name, pa_updated_at := now \<rparr>) (db_participants d) \<rparr>)"

definition DeleteParticipant :: "string \<Rightarrow> unit poll_tx" where
  "DeleteParticipant i = writes (\<lambda>d. d\<lparr>
     db_participants := tdel (\<lambda>p. pa_id p = i) (db_participants d),
     db_votes := tdel (\<lambda>v. v_participant v = i) (db_votes d),
     db_comments := tupd (\<lambda>c. c_participant c = Some i) (\<lambda>c. c\<lparr> c_participant := None \<rparr>) (db_comments d) \<rparr>)"

definition ListVotesByPoll :: "string \<Rightarrow> db \<Rightarrow> Vote list" where
  "ListVotesByPoll i d = filter (\<lambda>v. case tget pa_id (v_participant v) (db_participants d) of
      Some p \<Rightarrow> pa_poll p = i | None \<Rightarrow> False) (db_votes d)"

definition ListVotesByParticipant :: "string \<Rightarrow> db \<Rightarrow> Vote list" where
  "ListVotesByParticipant i d = filter (\<lambda>v. v_participant v = i) (db_votes d)"

definition v_key :: "Vote \<Rightarrow> string \<times> string" where
  "v_key v = (v_participant v, v_option v)"

definition vote_answers :: "string list" where
  "vote_answers = [''yes'', ''ifneedbe'', ''no'']"

definition UpsertVote :: "Vote \<Rightarrow> unit poll_tx" where
  "UpsertVote v d =
     (if v_answer v \<notin> set vote_answers then Inl (ErrDb ''votes_answer_check'')
      else if tget pa_id (v_participant v) (db_participants d) = None then Inl (ErrDb ''fk_votes_participant_id'')
      else if tget o_id (v_option v) (db_options d) = None then Inl (ErrDb ''fk_votes_option_id'')
      else (case tins v_key v (db_votes d) of
              None \<Rightarrow> Inr ((), d\<lparr> db_votes := tupd (\<lambda>w. v_key w = v_key v)
                        (\<lambda>w. w\<lparr> v_answer := v_answer v \<rparr>) (db_votes d) \<rparr>)
            | Some t \<Rightarrow> Inr ((), d\<lparr> db_votes := t \<rparr>)))"

definition DeleteVote :: "string \<Rightarrow> string \<Rightarrow> unit poll_tx" where
  "DeleteVote pid oid = writes (\<lambda>d. d\<lparr> db_votes := tdel (\<lambda>v. v_key v = (pid, oid)) (db_votes d) \<rparr>)"

definition DeleteVotesByParticipant :: "string \<Rightarrow> unit poll_tx" where
  "DeleteVotesByParticipant pid =
     writes (\<lambda>d. d\<lparr> db_votes := tdel (\<lambda>v. v_participant v = pid) (db_votes d) \<rparr>)"

definition CountYesVotesForOption :: "string \<Rightarrow> db \<Rightarrow> nat" where
  "CountYesVotesForOption i d = tcount (\<lambda>v. v_option v = i \<and> v_answer v = ''yes'') (db_votes d)"

definition ListCommentsByPoll :: "string \<Rightarrow> db \<Rightarrow> Comment list" where
  "ListCommentsByPoll i d =
     sort_key c_created_at (filter (\<lambda>c. c_poll c = i \<and> c_deleted_at c = None) (db_comments d))"

definition GetComment :: "string \<Rightarrow> db \<Rightarrow> Comment option" where
  "GetComment i d = (case tget c_id i (db_comments d) of
      Some c \<Rightarrow> if c_deleted_at c = None then Some c else None | None \<Rightarrow> None)"

definition InsertComment :: "Comment \<Rightarrow> unit poll_tx" where
  "InsertComment c d =
     (if tget p_id (c_poll c) (db_polls d) = None then Inl (ErrDb ''fk_comments_poll_id'')
      else if (case c_participant c of None \<Rightarrow> False
               | Some i \<Rightarrow> tget pa_id i (db_participants d) = None) then Inl (ErrDb ''fk_comments_participant_id'')
      else if \<not> has_user (c_user c) d then Inl (ErrDb ''fk_comments_user_id'')
      else (case tins c_id c (db_comments d) of
              None \<Rightarrow> Inl (ErrDb ''comments_pkey'')
            | Some t \<Rightarrow> Inr ((), d\<lparr> db_comments := t \<rparr>)))"

definition SoftDeleteComment :: "string \<Rightarrow> string \<Rightarrow> instant \<Rightarrow> unit poll_tx" where
  "SoftDeleteComment i pid now = writes (\<lambda>d. d\<lparr> db_comments :=
     tupd (\<lambda>c. c_id c = i \<and> c_poll c = pid) (\<lambda>c. c\<lparr> c_deleted_at := Some now \<rparr>) (db_comments d) \<rparr>)"

definition GetOrganizationName :: "int \<Rightarrow> db \<Rightarrow> string option" where
  "GetOrganizationName i d = map_of (db_orgs d) i"

definition IsOrgMember :: "int \<Rightarrow> int \<Rightarrow> db \<Rightarrow> bool" where
  "IsOrgMember g u d \<longleftrightarrow> (\<exists>m \<in> set (db_members d). m_org m = g \<and> m_user m = u)"

definition MemberHasManagingRole :: "int \<Rightarrow> int \<Rightarrow> db \<Rightarrow> bool" where
  "MemberHasManagingRole g u d \<longleftrightarrow> (\<exists>m \<in> set (db_members d). m_org m = g \<and> m_user m = u \<and>
     (''owner'' \<in> set (m_roles m) \<or> ''admin'' \<in> set (m_roles m)))"

definition GetUser :: "int \<Rightarrow> db \<Rightarrow> User option" where
  "GetUser i d = tget u_id i (db_users d)"

definition GetNotificationPref :: "int \<Rightarrow> db \<Rightarrow> NotificationGrid option option" where
  "GetNotificationPref u d = map_of (db_prefs d) u"

definition s_key :: "NotificationSubscription \<Rightarrow> string \<times> string \<times> int" where
  "s_key s = (s_scope_type s, s_scope_id s, s_user s)"

definition ListSubscriptionsByScope :: "string \<Rightarrow> string \<Rightarrow> db \<Rightarrow> NotificationSubscription list" where
  "ListSubscriptionsByScope ty i d = filter (\<lambda>s. s_scope_type s = ty \<and> s_scope_id s = i) (db_subs d)"

definition GetSubscription :: "string \<Rightarrow> string \<Rightarrow> int \<Rightarrow> db \<Rightarrow> NotificationSubscription option" where
  "GetSubscription ty i u d = tget s_key (ty, i, u) (db_subs d)"

definition UpsertNotificationSubscription ::
  "string \<Rightarrow> string \<Rightarrow> int \<Rightarrow> string \<Rightarrow> instant \<Rightarrow> unit poll_tx" where
  "UpsertNotificationSubscription ty i u source now d =
     (if \<not> has_user (Some u) d then Inl (ErrDb ''fk_notification_subscriptions_user_id'')
      else (case tins s_key \<lparr> s_scope_type = ty, s_scope_id = i, s_user = u, s_source = source,
                   s_channels = None, s_created_at = now, s_updated_at = now \<rparr> (db_subs d) of
              None \<Rightarrow> Inr ((), d)
            | Some t \<Rightarrow> Inr ((), d\<lparr> db_subs := t \<rparr>)))"

definition DeleteNotificationSubscription :: "string \<Rightarrow> string \<Rightarrow> int \<Rightarrow> unit poll_tx" where
  "DeleteNotificationSubscription ty i u =
     writes (\<lambda>d. d\<lparr> db_subs := tdel (\<lambda>s. s_key s = (ty, i, u)) (db_subs d) \<rparr>)"

definition SetNotificationSubscriptionChannels ::
  "string \<Rightarrow> string \<Rightarrow> int \<Rightarrow> NotificationGrid option \<Rightarrow> instant \<Rightarrow> unit poll_tx" where
  "SetNotificationSubscriptionChannels ty i u g now = writes (\<lambda>d. d\<lparr> db_subs :=
     tupd (\<lambda>s. s_key s = (ty, i, u)) (\<lambda>s. s\<lparr> s_channels := g, s_updated_at := now \<rparr>) (db_subs d) \<rparr>)"

definition DeleteSubscriptionsByScope :: "string \<Rightarrow> string \<Rightarrow> unit poll_tx" where
  "DeleteSubscriptionsByScope ty i =
     writes (\<lambda>d. d\<lparr> db_subs := tdel (\<lambda>s. s_scope_type s = ty \<and> s_scope_id s = i) (db_subs d) \<rparr>)"

record PollSummaryRow =
  ps_poll :: Poll
  ps_participants :: nat
  ps_claims :: nat

definition ListPollSummariesByOrg :: "int \<Rightarrow> db \<Rightarrow> PollSummaryRow list" where
  "ListPollSummariesByOrg g d =
     map (\<lambda>p. \<lparr> ps_poll = p,
                ps_participants = tcount (\<lambda>pa. pa_poll pa = p_id p) (db_participants d),
                ps_claims = tcount (\<lambda>v. v_answer v = ''yes'') (ListVotesByPoll (p_id p) d) \<rparr>)
       (sort_key (\<lambda>p. - p_created_at p) (filter (\<lambda>p. p_org p = g \<and> live_poll p) (db_polls d)))"

definition schedule_job :: "ScheduleInput \<Rightarrow> unit poll_tx" where
  "schedule_job i = tx NewID (\<lambda>nid. writes (\<lambda>d. d\<lparr> db_jobs := Schedule nid i (db_jobs d) \<rparr>))"

definition cancel_job :: "string \<Rightarrow> string \<Rightarrow> unit poll_tx" where
  "cancel_job kind room = writes (\<lambda>d. d\<lparr> db_jobs := Cancel kind room (db_jobs d) \<rparr>)"

definition Emit :: "string \<Rightarrow> string \<Rightarrow> json \<Rightarrow> unit poll_tx" where
  "Emit room ty data = writes (\<lambda>d.
     (let i = db_event_seq d + 1
      in d\<lparr> db_event_seq := i,
            db_events := db_events d @ [\<lparr> ev_id = i, ev_room = room, ev_type = ty, ev_data = data \<rparr>] \<rparr>))"

definition recordStats :: "(string \<times> int) list \<Rightarrow> db \<Rightarrow> db" where
  "recordStats deltas d =
     d\<lparr> db_stats := (\<lambda>f. db_stats d f + sum_list (map snd (filter (\<lambda>(g, _). g = f) deltas))) \<rparr>"

text \<open>
  Hard deletion with the ON DELETE CASCADE rules, and the housekeeping purge of soft-deleted rows:
  batches of 500 until none is left delete exactly the rows past the grace period.
\<close>

definition delete_polls :: "(Poll \<Rightarrow> bool) \<Rightarrow> db \<Rightarrow> db" where
  "delete_polls q d =
     (let gone = (\<lambda>i. \<exists>p \<in> set (db_polls d). q p \<and> p_id p = i);
          part = (\<lambda>i. \<exists>p \<in> set (db_participants d). gone (pa_poll p) \<and> pa_id p = i);
          opt = (\<lambda>i. \<exists>po \<in> set (db_options d). gone (o_poll po) \<and> o_id po = i)
      in d\<lparr> db_polls := tdel q (db_polls d),
            db_options := tdel (\<lambda>po. gone (o_poll po)) (db_options d),
            db_participants := tdel (\<lambda>p. gone (pa_poll p)) (db_participants d),
            db_votes := tdel (\<lambda>v. part (v_participant v) \<or> opt (v_option v)) (db_votes d),
            db_comments := tdel (\<lambda>c. gone (c_poll c)) (db_comments d) \<rparr>)"

definition softdeleteGracePeriod :: duration where "softdeleteGracePeriod = 30 * day_ns"

definition past_grace :: "instant \<Rightarrow> instant option \<Rightarrow> bool" where
  "past_grace now t \<longleftrightarrow> (case t of None \<Rightarrow> False | Some i \<Rightarrow> i < now - softdeleteGracePeriod)"

definition purgeSoftDeleted :: "instant \<Rightarrow> db \<Rightarrow> db" where
  "purgeSoftDeleted now d =
     (let d1 = delete_polls (\<lambda>p. past_grace now (p_deleted_at p) \<and> p_suspended_at p = None) d
      in d1\<lparr> db_comments := tdel (\<lambda>c. past_grace now (c_deleted_at c)) (db_comments d1) \<rparr>)"

lemma tx_NewID [exec_simps]:
  "tx NewID k d = k (db_fresh d (db_next d)) (d\<lparr> db_next := db_next d + 1 \<rparr>)"
  by (simp add: tx_def NewID_def)

lemma NewID_Inr [result_simps]:
  "NewID d = Inr (x, d') \<longleftrightarrow> x = db_fresh d (db_next d) \<and> d' = d\<lparr> db_next := db_next d + 1 \<rparr>"
  by (auto simp: NewID_def)

end
