(* ===== verification/PollSchemas.thy ===== *)
theory PollSchemas
  imports Store
begin

text \<open>
  Input validation of the poll service (\<^verbatim>\<open>internal/polls/schemas.go\<close>): the shapes of
  \<open>CreatePollInput\<close> and \<open>UpdatePollInput\<close> and every rule of their \<open>Validate\<close> methods. A
  \<open>map[string]string\<close> of field messages is an association list with one entry per field.
  \<open>lower\<close> stands for \<^verbatim>\<open>strings.ToLower\<close>, \<open>parse_address\<close> for the address \<^verbatim>\<open>mail.ParseAddress\<close> returns.
\<close>

definition LimitTitle :: nat where "LimitTitle = 200"
definition LimitDescription :: nat where "LimitDescription = 2000"
definition LimitLocation :: nat where "LimitLocation = 200"
definition LimitOptions :: nat where "LimitOptions = 100"
definition LimitOptionLabel :: nat where "LimitOptionLabel = 100"
definition LimitParticipants :: nat where "LimitParticipants = 500"
definition LimitName :: nat where "LimitName = 80"
definition LimitComment :: nat where "LimitComment = 2000"
definition LimitEmail :: nat where "LimitEmail = 254"

lemmas limit_defs = LimitTitle_def LimitDescription_def LimitLocation_def LimitOptions_def
  LimitOptionLabel_def LimitParticipants_def LimitName_def LimitComment_def LimitEmail_def

type_synonym fields = "(string \<times> string) list"

definition set_field :: "string \<Rightarrow> string \<Rightarrow> fields \<Rightarrow> fields" where
  "set_field k v fs = (k, v) # filter (\<lambda>(k', _). k' \<noteq> k) fs"

definition field_if :: "bool \<Rightarrow> string \<Rightarrow> string \<Rightarrow> fields \<Rightarrow> fields" where
  "field_if b k v fs = (if b then set_field k v fs else fs)"

definition validationErrorFrom :: "fields \<Rightarrow> poll_error + unit" where
  "validationErrorFrom fs = (if fs = [] then Inr () else Inl (ErrValidation fs))"

definition newValidationError :: "string \<Rightarrow> string \<Rightarrow> poll_error" where
  "newValidationError f msg = ErrValidation [(f, msg)]"

record OptionInput =
  oi_id :: string
  oi_kind :: string
  oi_date :: string
  oi_start_at :: string
  oi_end_at :: "string option"
  oi_label :: string
  oi_capacity_set :: bool
  oi_capacity :: "int option"

record CreatePollInput =
  ci_type :: string
  ci_title :: string
  ci_description :: "string option"
  ci_location :: "string option"
  ci_timezone :: string
  ci_deadline_at :: "string option"
  ci_options :: "OptionInput list"
  ci_signup_max_claims :: "int option"
  ci_require_email :: "bool option"
  ci_allow_comments :: "bool option"
  ci_allow_ifneedbe :: "bool option"

record UpdatePollInput =
  ui_title :: "string option"
  ui_description :: "string option"
  ui_location :: "string option"
  ui_timezone :: "string option"
  ui_deadline_set :: bool
  ui_deadline_at :: "string option"
  ui_options :: "OptionInput list option"
  ui_signup_max_claims :: "int option"
  ui_require_email :: "bool option"
  ui_allow_comments :: "bool option"
  ui_allow_ifneedbe :: "bool option"

subsection \<open>The two regular expressions\<close>

definition digits_then :: "nat \<Rightarrow> string \<Rightarrow> string \<Rightarrow> string option" where
  "digits_then w sep s = Option.bind (field w s) (\<lambda>(_, r). lit sep r)"

definition dateOnlyRegexp :: "string \<Rightarrow> bool" where
  "dateOnlyRegexp s \<longleftrightarrow>
     Option.bind (digits_then 4 ''-'' s) (\<lambda>r. Option.bind (digits_then 2 ''-'' r) (digits_then 2 [])) = Some []"

definition fraction_Z :: "string \<Rightarrow> bool" where
  "fraction_Z s \<longleftrightarrow> s = ''Z'' \<or>
     (case s of [] \<Rightarrow> False | c # cs \<Rightarrow> c = CHR ''.'' \<and>
        (let ds = takeWhile (\<lambda>x. digit_val x \<noteq> None) cs in ds \<noteq> [] \<and> drop (length ds) cs = ''Z''))"

definition isoDateTimeRegexp :: "string \<Rightarrow> bool" where
  "isoDateTimeRegexp s \<longleftrightarrow>
     (case Option.bind (digits_then 4 ''-'' s) (\<lambda>r. Option.bind (digits_then 2 ''-'' r)
        (\<lambda>r. Option.bind (digits_then 2 ''T'' r) (\<lambda>r. Option.bind (digits_then 2 '':'' r)
        (\<lambda>r. Option.bind (digits_then 2 '':'' r) (digits_then 2 []))))) of
        None \<Rightarrow> False | Some r \<Rightarrow> fraction_Z r)"

subsection \<open>Options\<close>

definition option_prefix :: "nat \<Rightarrow> string" where
  "option_prefix i = ''options.'' @ FormatInt (int i)"

definition iso_bad :: "string \<Rightarrow> string \<Rightarrow> string \<Rightarrow> fields \<Rightarrow> fields" where
  "iso_bad name key s fs =
     field_if (\<not> isoDateTimeRegexp s) key (name @ '' must be an ISO 8601 UTC datetime'') fs"

definition validateOptionShape :: "nat \<Rightarrow> OptionInput \<Rightarrow> fields \<Rightarrow> fields" where
  "validateOptionShape i opt fs =
     (let prefix = option_prefix i;
          fs1 =
            (if oi_kind opt = ''date'' then
               field_if (\<not> dateOnlyRegexp (oi_date opt)) (prefix @ ''.date'')
                 ''date must be formatted YYYY-MM-DD'' fs
             else if oi_kind opt = ''datetime'' then
               (let fs0 = iso_bad ''startAt'' (prefix @ ''.startAt'') (oi_start_at opt) fs
                in case oi_end_at opt of None \<Rightarrow> fs0
                   | Some e \<Rightarrow> if e = [] then fs0 else iso_bad ''endAt'' (prefix @ ''.endAt'') e fs0)
             else if oi_kind opt = ''text'' then
               (let label = TrimSpace (oi_label opt)
                in if label = [] then set_field (prefix @ ''.label'') ''label is required'' fs
                   else field_if (LimitOptionLabel < length label) (prefix @ ''.label'')
                          ''label must be at most 100 characters'' fs)
             else set_field (prefix @ ''.kind'') ''kind must be one of date, datetime, text'' fs)
      in case oi_capacity opt of
           None \<Rightarrow> fs1
         | Some c \<Rightarrow> field_if (oi_capacity_set opt \<and> (c < 1 \<or> 10000 < c)) (prefix @ ''.capacity'')
                      ''capacity must be between 1 and 10000'' fs1)"

fun shapes_from :: "nat \<Rightarrow> OptionInput list \<Rightarrow> fields \<Rightarrow> fields" where
  "shapes_from i [] fs = fs"
| "shapes_from i (x # xs) fs = shapes_from (Suc i) xs (validateOptionShape i x fs)"

definition validateOptionsField :: "OptionInput list \<Rightarrow> fields \<Rightarrow> fields" where
  "validateOptionsField opts fs =
     (if opts = [] then set_field ''options'' ''at least one option is required'' fs
      else shapes_from 0 opts
             (field_if (LimitOptions < length opts) ''options'' ''at most 100 options allowed'' fs))"

definition option_key :: "(string \<Rightarrow> string) \<Rightarrow> OptionInput \<Rightarrow> string" where
  "option_key lower opt =
     (if oi_kind opt = ''date'' then ''date:'' @ oi_date opt
      else if oi_kind opt = ''datetime'' then
        ''datetime:'' @ oi_start_at opt @ ''|'' @ (case oi_end_at opt of None \<Rightarrow> [] | Some e \<Rightarrow> e)
      else ''text:'' @ lower (TrimSpace (oi_label opt)))"

definition end_not_after_start :: "OptionInput \<Rightarrow> bool" where
  "end_not_after_start opt \<longleftrightarrow> oi_kind opt = ''datetime'' \<and>
     (case oi_end_at opt of None \<Rightarrow> False
      | Some e \<Rightarrow> e \<noteq> [] \<and> (case (parseISODateTime e, parseISODateTime (oi_start_at opt)) of
                              (Some te, Some ts) \<Rightarrow> te \<le> ts | _ \<Rightarrow> False))"

definition refine_step ::
  "(string \<Rightarrow> string) \<Rightarrow> string \<Rightarrow> nat \<Rightarrow> OptionInput \<Rightarrow> string option \<times> string list \<times> fields
    \<Rightarrow> string option \<times> string list \<times> fields" where
  "refine_step lower pollType i opt = (\<lambda>(signupKind, seen, fs).
     (let prefix = option_prefix i;
          fs1 = field_if (pollType = ''datetime'' \<and> oi_kind opt \<noteq> ''date'' \<and> oi_kind opt \<noteq> ''datetime'')
                  prefix ''options for a datetime poll must be dates or date/times'' fs;
          fs2 = field_if (pollType = ''options'' \<and> oi_kind opt \<noteq> ''text'')
                  prefix ''options for an options poll must be text'' fs1;
          (signupKind', fs3) =
            (if pollType = ''signup'' then
               (case signupKind of None \<Rightarrow> (Some (oi_kind opt), fs2)
                | Some k \<Rightarrow> (Some k, field_if (oi_kind opt \<noteq> k) prefix
                    ''sign-up sheet options must all be the same kind'' fs2))
             else (signupKind, fs2));
          fs4 = field_if (pollType \<noteq> [] \<and> pollType \<noteq> ''signup'' \<and> oi_capacity_set opt \<and> oi_capacity opt \<noteq> None)
                  (prefix @ ''.capacity'') ''capacity is only allowed on sign-up sheet options'' fs3;
          fs5 = field_if (end_not_after_start opt) (prefix @ ''.endAt'') ''endAt must be after startAt'' fs4;
          key = option_key lower opt
      in if key \<in> set seen then (signupKind', seen, set_field prefix ''duplicate option'' fs5)
         else (signupKind', key # seen, fs5)))"

fun refine_from ::
  "(string \<Rightarrow> string) \<Rightarrow> string \<Rightarrow> nat \<Rightarrow> OptionInput list \<Rightarrow> string option \<times> string list \<times> fields
    \<Rightarrow> string option \<times> string list \<times> fields" where
  "refine_from lower ty i [] st = st"
| "refine_from lower ty i (x # xs) st = refine_from lower ty (Suc i) xs (refine_step lower ty i x st)"

definition refinePollOptions :: "(string \<Rightarrow> string) \<Rightarrow> string \<Rightarrow> OptionInput list \<Rightarrow> fields \<Rightarrow> fields" where
  "refinePollOptions lower pollType opts fs = snd (snd (refine_from lower pollType 0 opts (None, [], fs)))"

subsection \<open>The Validate methods\<close>

definition title_fields :: "string \<Rightarrow> fields \<Rightarrow> fields" where
  "title_fields t fs =
     (let title = TrimSpace t
      in if title = [] then set_field ''title'' ''title is required'' fs
         else field_if (LimitTitle < length title) ''title'' ''title must be at most 200 characters'' fs)"

definition optional_len :: "string option \<Rightarrow> nat \<Rightarrow> string \<Rightarrow> string \<Rightarrow> fields \<Rightarrow> fields" where
  "optional_len v limit k msg fs =
     (case v of None \<Rightarrow> fs | Some s \<Rightarrow> field_if (limit < length (TrimSpace s)) k msg fs)"

definition timezone_bad :: "string \<Rightarrow> bool" where
  "timezone_bad tz \<longleftrightarrow> length tz < 1 \<or> 64 < length tz"

definition max_claims_bad :: "int \<Rightarrow> bool" where
  "max_claims_bad n \<longleftrightarrow> n < 1 \<or> 100 < n"

definition CreatePollInput_scalars :: "CreatePollInput \<Rightarrow> fields" where
  "CreatePollInput_scalars i =
     (let f1 = field_if (ci_type i \<notin> set [''datetime'', ''options'', ''signup'']) ''type''
                 ''type must be one of datetime, options, signup'' [];
          f2 = title_fields (ci_title i) f1;
          f3 = optional_len (ci_description i) LimitDescription ''description''
                 ''description must be at most 2000 characters'' f2;
          f4 = optional_len (ci_location i) LimitLocation ''location''
                 ''location must be at most 200 characters'' f3;
          f5 = field_if (timezone_bad (ci_timezone i)) ''timezone'' ''timezone must be 1-64 characters'' f4
      in case ci_deadline_at i of None \<Rightarrow> f5 | Some dl \<Rightarrow> iso_bad ''deadlineAt'' ''deadlineAt'' dl f5)"

definition CreatePollInput_fields :: "(string \<Rightarrow> string) \<Rightarrow> CreatePollInput \<Rightarrow> fields" where
  "CreatePollInput_fields lower i =
     (let f7 = validateOptionsField (ci_options i) (CreatePollInput_scalars i);
          f8 = refinePollOptions lower (ci_type i) (ci_options i) f7
      in case ci_signup_max_claims i of
           None \<Rightarrow> f8
         | Some n \<Rightarrow> field_if (ci_type i \<noteq> ''signup'') ''signupMaxClaims''
                      ''signupMaxClaims is only allowed for sign-up sheets''
                      (field_if (max_claims_bad n) ''signupMaxClaims''
                         ''signupMaxClaims must be between 1 and 100'' f8))"

definition CreatePollInput_Validate :: "(string \<Rightarrow> string) \<Rightarrow> CreatePollInput \<Rightarrow> poll_error + unit" where
  "CreatePollInput_Validate lower i = validationErrorFrom (CreatePollInput_fields lower i)"

definition UpdatePollInput_fields :: "(string \<Rightarrow> string) \<Rightarrow> UpdatePollInput \<Rightarrow> fields" where
  "UpdatePollInput_fields lower i =
     (let f1 = (case ui_title i of None \<Rightarrow> [] | Some t \<Rightarrow> title_fields t []);
          f2 = optional_len (ui_description i) LimitDescription ''description''
                 ''description must be at most 2000 characters'' f1;
          f3 = optional_len (ui_location i) LimitLocation ''location''
                 ''location must be at most 200 characters'' f2;
          f4 = (case ui_timezone i of None \<Rightarrow> f3 | Some tz \<Rightarrow>
                  field_if (timezone_bad tz) ''timezone'' ''timezone must be 1-64 characters'' f3);
          f5 = (case ui_deadline_at i of None \<Rightarrow> f4 | Some dl \<Rightarrow>
                  if ui_deadline_set i then iso_bad ''deadlineAt'' ''deadlineAt'' dl f4 else f4);
          f6 = (case ui_signup_max_claims i of None \<Rightarrow> f5 | Some n \<Rightarrow>
                  field_if (max_claims_bad n) ''signupMaxClaims''
                    ''signupMaxClaims must be between 1 and 100'' f5)
      in case ui_options i of
           None \<Rightarrow> f6
         | Some opts \<Rightarrow> refinePollOptions lower [] opts (validateOptionsField opts f6))"

definition UpdatePollInput_Validate :: "(string \<Rightarrow> string) \<Rightarrow> UpdatePollInput \<Rightarrow> poll_error + unit" where
  "UpdatePollInput_Validate lower i = validationErrorFrom (UpdatePollInput_fields lower i)"

definition validateNameField :: "string \<Rightarrow> string \<Rightarrow> fields \<Rightarrow> string \<times> fields" where
  "validateNameField k name fs =
     (let t = TrimSpace name
      in (t, if t = [] then set_field k (k @ '' is required'') fs
             else field_if (LimitName < length (runes t)) k (k @ '' must be at most 80 characters'') fs))"

definition isBareEmail :: "(string \<Rightarrow> string option) \<Rightarrow> string \<Rightarrow> bool" where
  "isBareEmail parse_address s \<longleftrightarrow> parse_address s = Some s \<and>
     (case last_cut CHR ''@'' s of None \<Rightarrow> False
      | Some (l, r) \<Rightarrow> l \<noteq> [] \<and> r \<noteq> [] \<and> CHR ''.'' \<in> set r)"

definition validateEmailField ::
  "(string \<Rightarrow> string option) \<Rightarrow> string \<Rightarrow> string option \<Rightarrow> fields \<Rightarrow> string option \<times> fields" where
  "validateEmailField parse_address k email fs =
     (case email of
        None \<Rightarrow> (None, fs)
      | Some e \<Rightarrow>
          (let t = TrimSpace e
           in (Some t,
               if t = [] then fs
               else if LimitEmail < length (runes t) then set_field k (k @ '' must be at most 254 characters'') fs
               else field_if (\<not> isBareEmail parse_address t) k (k @ '' must be a valid email address'') fs)))"

subsection \<open>What a valid input satisfies\<close>

lemma set_field_not_Nil [simp]: "set_field k v fs \<noteq> []"
  by (simp add: set_field_def)

lemma field_if_Nil [simp]: "field_if b k v fs = [] \<longleftrightarrow> \<not> b \<and> fs = []"
  by (simp add: field_if_def)

lemma iso_bad_Nil [simp]: "iso_bad n k s fs = [] \<longleftrightarrow> isoDateTimeRegexp s \<and> fs = []"
  by (auto simp: iso_bad_def)

definition shape_ok :: "OptionInput \<Rightarrow> bool" where
  "shape_ok opt \<longleftrightarrow>
     (oi_kind opt = ''date'' \<and> dateOnlyRegexp (oi_date opt) \<or>
      oi_kind opt = ''datetime'' \<and> isoDateTimeRegexp (oi_start_at opt) \<and>
        (\<forall>e. oi_end_at opt = Some e \<longrightarrow> e = [] \<or> isoDateTimeRegexp e) \<or>
      oi_kind opt = ''text'' \<and> TrimSpace (oi_label opt) \<noteq> [] \<and>
        length (TrimSpace (oi_label opt)) \<le> LimitOptionLabel) \<and>
     (oi_capacity_set opt \<longrightarrow> (\<forall>c. oi_capacity opt = Some c \<longrightarrow> 1 \<le> c \<and> c \<le> 10000))"

lemma validateOptionShape_Nil: "validateOptionShape i opt fs = [] \<longleftrightarrow> fs = [] \<and> shape_ok opt"
  by (auto simp: validateOptionShape_def shape_ok_def Let_def not_less split: option.splits if_splits)

lemma shapes_from_Nil: "shapes_from i opts fs = [] \<longleftrightarrow> fs = [] \<and> (\<forall>x \<in> set opts. shape_ok x)"
  by (induction opts arbitrary: i fs) (auto simp: validateOptionShape_Nil)

lemma validateOptionsField_Nil:
  "validateOptionsField opts fs = [] \<longleftrightarrow>
   fs = [] \<and> opts \<noteq> [] \<and> length opts \<le> LimitOptions \<and> (\<forall>x \<in> set opts. shape_ok x)"
  by (auto simp: validateOptionsField_def shapes_from_Nil not_less)

definition kind_ok :: "string \<Rightarrow> OptionInput \<Rightarrow> bool" where
  "kind_ok ty x \<longleftrightarrow> (ty = ''datetime'' \<longrightarrow> oi_kind x = ''date'' \<or> oi_kind x = ''datetime'') \<and>
     (ty = ''options'' \<longrightarrow> oi_kind x = ''text'') \<and>
     (ty \<noteq> [] \<and> ty \<noteq> ''signup'' \<longrightarrow> \<not> (oi_capacity_set x \<and> oi_capacity x \<noteq> None))"

lemma refine_step_Nil:
  assumes "refine_step lower ty i x (k, seen, fs) = (k', seen', fs')"
  shows "fs' = [] \<longleftrightarrow> fs = [] \<and> kind_ok ty x \<and> (ty = ''signup'' \<longrightarrow> k = None \<or> k = Some (oi_kind x)) \<and>
      \<not> end_not_after_start x \<and> option_key lower x \<notin> set seen"
    and "fs' = [] \<Longrightarrow> seen' = option_key lower x # seen"
    and "k' = (if ty = ''signup'' \<and> k = None then Some (oi_kind x) else k)"
  using assms
  by (auto simp: refine_step_def Let_def kind_ok_def split: if_splits option.splits)

definition same_kind :: "string option \<Rightarrow> OptionInput list \<Rightarrow> bool" where
  "same_kind k xs \<longleftrightarrow> (case k of Some q \<Rightarrow> \<forall>x \<in> set xs. oi_kind x = q
     | None \<Rightarrow> \<forall>x \<in> set xs. \<forall>y \<in> set xs. oi_kind x = oi_kind y)"

lemma same_kind_Cons_None: "same_kind None (x # xs) \<longleftrightarrow> same_kind (Some (oi_kind x)) xs"
  by (auto simp: same_kind_def)

lemma same_kind_Cons_Some: "same_kind (Some q) (x # xs) \<longleftrightarrow> oi_kind x = q \<and> same_kind (Some q) xs"
  by (auto simp: same_kind_def)

lemma refine_from_Nil:
  "snd (snd (refine_from lower ty i xs (k, seen, fs))) = [] \<longleftrightarrow>
   fs = [] \<and> (\<forall>x \<in> set xs. kind_ok ty x \<and> \<not> end_not_after_start x) \<and>
   distinct (map (option_key lower) xs) \<and> (\<forall>x \<in> set xs. option_key lower x \<notin> set seen) \<and>
   (ty = ''signup'' \<longrightarrow> same_kind k xs)"
proof (induction xs arbitrary: i k seen fs)
  case Nil
  then show ?case by (simp add: same_kind_def split: option.splits)
next
  case (Cons x xs)
  obtain k' seen' fs' where st: "refine_step lower ty i x (k, seen, fs) = (k', seen', fs')"
    by (metis prod_cases3)
  note r = refine_step_Nil [OF st]
  have sk: "ty = ''signup'' \<Longrightarrow> same_kind k (x # xs) \<longleftrightarrow>
      (k = None \<or> k = Some (oi_kind x)) \<and> same_kind k' xs"
    using r(3) by (cases k) (auto simp: same_kind_Cons_None same_kind_Cons_Some)
  have img: "option_key lower x \<in> option_key lower ` set xs \<longleftrightarrow>
      (\<exists>y \<in> set xs. option_key lower y = option_key lower x)"
    by (simp add: image_iff) metis
  show ?case
  proof (cases "fs' = []")
    case True
    with r(1,2) have "seen' = option_key lower x # seen" by simp
    with True r(1) sk show ?thesis
      unfolding refine_from.simps st Cons.IH by (auto simp: img)
  next
    case False
    with r(1) sk show ?thesis unfolding refine_from.simps st Cons.IH by auto
  qed
qed

lemma title_fields_Nil:
  "title_fields t fs = [] \<longleftrightarrow> fs = [] \<and> TrimSpace t \<noteq> [] \<and> length (TrimSpace t) \<le> LimitTitle"
  by (auto simp: title_fields_def Let_def not_less)

lemma optional_len_Nil:
  "optional_len v n k msg fs = [] \<longleftrightarrow> fs = [] \<and> (\<forall>s. v = Some s \<longrightarrow> length (TrimSpace s) \<le> n)"
  by (auto simp: optional_len_def not_less split: option.splits)

lemma refinePollOptions_Nil:
  "refinePollOptions lower ty opts fs = [] \<longleftrightarrow>
   fs = [] \<and> (\<forall>x \<in> set opts. kind_ok ty x \<and> \<not> end_not_after_start x) \<and>
   distinct (map (option_key lower) opts) \<and> (ty = ''signup'' \<longrightarrow> same_kind None opts)"
  by (simp add: refinePollOptions_def refine_from_Nil)

lemma CreatePollInput_scalars_Nil:
  "CreatePollInput_scalars i = [] \<longleftrightarrow>
     ci_type i \<in> {''datetime'', ''options'', ''signup''} \<and>
     TrimSpace (ci_title i) \<noteq> [] \<and> length (TrimSpace (ci_title i)) \<le> LimitTitle \<and>
     (\<forall>s. ci_description i = Some s \<longrightarrow> length (TrimSpace s) \<le> LimitDescription) \<and>
     (\<forall>s. ci_location i = Some s \<longrightarrow> length (TrimSpace s) \<le> LimitLocation) \<and>
     \<not> timezone_bad (ci_timezone i) \<and> (\<forall>s. ci_deadline_at i = Some s \<longrightarrow> isoDateTimeRegexp s)"
  unfolding CreatePollInput_scalars_def Let_def
  by (cases "ci_deadline_at i") (simp_all add: optional_len_Nil title_fields_Nil conj_ac disj_ac)

lemma CreatePollInput_fields_Nil:
  "CreatePollInput_fields lower i = [] \<longleftrightarrow> CreatePollInput_scalars i = [] \<and>
     ci_options i \<noteq> [] \<and> length (ci_options i) \<le> LimitOptions \<and>
     (\<forall>x \<in> set (ci_options i). shape_ok x \<and> kind_ok (ci_type i) x \<and> \<not> end_not_after_start x) \<and>
     distinct (map (option_key lower) (ci_options i)) \<and>
     (ci_type i = ''signup'' \<longrightarrow> same_kind None (ci_options i)) \<and>
     (\<forall>n. ci_signup_max_claims i = Some n \<longrightarrow> ci_type i = ''signup'' \<and> \<not> max_claims_bad n)"
  unfolding CreatePollInput_fields_def Let_def
  by (cases "ci_signup_max_claims i") (auto simp: refinePollOptions_Nil validateOptionsField_Nil)

text \<open>\<open>CreatePollInput.Validate\<close> accepts exactly the inputs the schema describes: a known type, a
trimmed title of 1 to 200 bytes, bounded description and location, a timezone of 1 to 64 bytes, an
ISO deadline, 1 to 100 well-shaped options whose kinds fit the type, all of one kind and alone
allowed a capacity on a sign-up sheet, pairwise distinct and ending after they start, and 1 to 100
claims per person only on a sign-up sheet.\<close>
lemma CreatePollInput_Validate_iff:
  "CreatePollInput_Validate lower i = Inr () \<longleftrightarrow>
     ci_type i \<in> {''datetime'', ''options'', ''signup''} \<and>
     TrimSpace (ci_title i) \<noteq> [] \<and> length (TrimSpace (ci_title i)) \<le> LimitTitle \<and>
     (\<forall>s. ci_description i = Some s \<longrightarrow> length (TrimSpace s) \<le> LimitDescription) \<and>
     (\<forall>s. ci_location i = Some s \<longrightarrow> length (TrimSpace s) \<le> LimitLocation) \<and>
     ci_timezone i \<noteq> [] \<and> length (ci_timezone i) \<le> 64 \<and>
     (\<forall>s. ci_deadline_at i = Some s \<longrightarrow> isoDateTimeRegexp s) \<and>
     ci_options i \<noteq> [] \<and> length (ci_options i) \<le> LimitOptions \<and>
     (\<forall>x \<in> set (ci_options i). shape_ok x \<and> kind_ok (ci_type i) x \<and> \<not> end_not_after_start x) \<and>
     distinct (map (option_key lower) (ci_options i)) \<and>
     (ci_type i = ''signup'' \<longrightarrow> same_kind None (ci_options i)) \<and>
     (\<forall>n. ci_signup_max_claims i = Some n \<longrightarrow> ci_type i = ''signup'' \<and> 1 \<le> n \<and> n \<le> 100)"
proof -
  have "CreatePollInput_Validate lower i = Inr () \<longleftrightarrow> CreatePollInput_fields lower i = []"
    by (simp add: CreatePollInput_Validate_def validationErrorFrom_def)
  then show ?thesis
    unfolding CreatePollInput_fields_Nil CreatePollInput_scalars_Nil
    by (simp add: timezone_bad_def max_claims_bad_def not_less conj_ac)
qed

definition sample_create :: CreatePollInput where
  "sample_create = \<lparr> ci_type = ''signup'', ci_title = ''Snacks'', ci_description = None, ci_location = None,
     ci_timezone = ''UTC'', ci_deadline_at = None,
     ci_options = [\<lparr> oi_id = [], oi_kind = ''text'', oi_date = [], oi_start_at = [], oi_end_at = None,
       oi_label = ''Bread'', oi_capacity_set = True, oi_capacity = Some 2 \<rparr>],
     ci_signup_max_claims = Some 2, ci_require_email = None, ci_allow_comments = None,
     ci_allow_ifneedbe = None \<rparr>"

lemma CreatePollInput_Validate_iff_witness:
  "CreatePollInput_Validate ascii_lower sample_create = Inr () \<and> distinct (map (option_key ascii_lower) (ci_options sample_create))"
proof
  show ok: "CreatePollInput_Validate ascii_lower sample_create = Inr ()" by code_simp
  show "distinct (map (option_key ascii_lower) (ci_options sample_create))"
    using ok CreatePollInput_Validate_iff by blast
qed

text \<open>The length limits of \<open>Validate\<close> count bytes while its messages speak of characters.\<close>

definition two_byte_title :: string where
  "two_byte_title = concat (replicate 101 (map char_of [0xC3, 0xA6 :: nat]))"

lemma title_limit_counts_bytes:
  "length (runes two_byte_title) = 101 \<and>
   title_fields two_byte_title [] = [(''title'', ''title must be at most 200 characters'')]"
  by code_simp

end
