(* ===== verification/PollAccess.thy ===== *)
theory PollAccess
  imports PollSchemas
begin

text \<open>
  Who may do what to a poll: the guards of \<^verbatim>\<open>internal/polls/service.go\<close> and \<^verbatim>\<open>participants.go\<close> that
  every operation starts with. A \<open>Viewer\<close> carries the identity the HTTP layer resolved: the user id
  of the session in decimal (empty when signed out) and the participant id of a verified guest token
  (empty when there is none).
\<close>

record Viewer =
  vw_user :: string
  vw_guest :: string

definition requireOrgPoll :: "string \<Rightarrow> string \<Rightarrow> Poll poll_tx" where
  "requireOrgPoll pollID orgID =
     tx (lookup_or ErrNotFound (\<lambda>_. ParseInt orgID)) (\<lambda>g.
     tx (lookup_or ErrNotFound (GetPoll pollID)) (\<lambda>poll.
     tx (ensure (p_org poll = g) ErrNotFound) (\<lambda>_. ret poll)))"

definition canManagePoll :: "int \<Rightarrow> int option \<Rightarrow> string \<Rightarrow> db \<Rightarrow> bool" where
  "canManagePoll g createdBy viewerUserID d =
     (if viewerUserID = [] then False
      else case ParseInt viewerUserID of
             None \<Rightarrow> False
           | Some u \<Rightarrow>
               if \<not> IsOrgMember g u d then False
               else if createdBy = Some u then True
               else MemberHasManagingRole g u d)"

definition RequireManageable :: "string \<Rightarrow> string \<Rightarrow> string \<Rightarrow> unit poll_tx" where
  "RequireManageable pollID orgID userID =
     tx (requireOrgPoll pollID orgID) (\<lambda>poll.
     tx (reads (canManagePoll (p_org poll) (p_created_by poll) userID)) (\<lambda>can.
     ensure can ErrForbidden))"

definition requireOpenPollTx :: "string \<Rightarrow> Poll poll_tx" where
  "requireOpenPollTx pollID =
     tx (lookup_or ErrNotFound (GetPoll pollID)) (\<lambda>poll.
     tx (ensure (p_status poll = ''open'') ErrPollClosed) (\<lambda>_. ret poll))"

definition requireParticipantInPollTx :: "string \<Rightarrow> string \<Rightarrow> Participant poll_tx" where
  "requireParticipantInPollTx pollID participantID =
     tx (lookup_or ErrNotFound (GetParticipant participantID)) (\<lambda>p.
     tx (ensure (pa_poll p = pollID) ErrNotFound) (\<lambda>_. ret p))"

definition own_user :: "string \<Rightarrow> int option \<Rightarrow> bool" where
  "own_user userID owner \<longleftrightarrow> userID \<noteq> [] \<and> owner \<noteq> None \<and> ParseInt userID = owner"

definition participantAuthorized :: "Participant \<Rightarrow> Viewer \<Rightarrow> bool \<Rightarrow> bool" where
  "participantAuthorized participant viewer canManage \<longleftrightarrow>
     canManage
     \<or> (vw_guest viewer \<noteq> [] \<and> vw_guest viewer = pa_id participant)
     \<or> own_user (vw_user viewer) (pa_user participant)"

text \<open>
  The map of answers is the list of its entries in the order the range loop happens to visit them;
  the first bad entry is the one reported.
\<close>

fun check_answers :: "string list \<Rightarrow> bool \<Rightarrow> (string \<times> string) list \<Rightarrow> poll_error + unit" where
  "check_answers ids allowIfNeedBe [] = Inr ()"
| "check_answers ids allowIfNeedBe ((optionID, answer) # rest) =
     (if optionID \<notin> set ids then
        Inl (newValidationError ''answers'' (''option '' @ optionID @ '' is not on this poll''))
      else if answer \<notin> set vote_answers then
        Inl (newValidationError ''answers''
          (''answer '' @ answer @ '' for option '' @ optionID @ '' must be one of yes, ifneedbe, no''))
      else if answer = ''ifneedbe'' \<and> \<not> allowIfNeedBe then
        Inl (newValidationError ''answers'' ''ifneedbe is not allowed on this poll'')
      else check_answers ids allowIfNeedBe rest)"

definition validateAnswersTx :: "string \<Rightarrow> (string \<times> string) list \<Rightarrow> bool \<Rightarrow> unit poll_tx" where
  "validateAnswersTx pollID answers allowIfNeedBe =
     tx (reads (ListOptionsByPoll pollID)) (\<lambda>options.
     of_result (check_answers (map o_id options) allowIfNeedBe answers))"

subsection \<open>What the guards decide\<close>

lemma GetPoll_Some:
  "GetPoll i d = Some p \<longleftrightarrow> tget p_id i (db_polls d) = Some p \<and> live_poll p"
  by (auto simp: GetPoll_def split: option.splits if_splits)

lemma GetPoll_id: "GetPoll i d = Some p \<Longrightarrow> p_id p = i \<and> p \<in> set (db_polls d)"
  by (auto simp: GetPoll_Some dest: tget_Some_in)

lemma ParseInt_Nil [simp]: "ParseInt [] = None"
  by code_simp

lemma requireOrgPoll_Inr [result_simps]:
  "requireOrgPoll i g d = Inr (p, d') \<longleftrightarrow>
   GetPoll i d = Some p \<and> ParseInt g = Some (p_org p) \<and> d' = d"
  by (auto simp: requireOrgPoll_def result_simps)

lemma requireOrgPoll_Inl [result_simps]:
  "requireOrgPoll i g d = Inl e \<longleftrightarrow>
   e = ErrNotFound \<and> (\<forall>p. GetPoll i d = Some p \<longrightarrow> ParseInt g \<noteq> Some (p_org p))"
  by (cases "ParseInt g"; cases "GetPoll i d") (auto simp: requireOrgPoll_def result_simps)

lemma requireOpenPollTx_Inr [result_simps]:
  "requireOpenPollTx i d = Inr (p, d') \<longleftrightarrow> GetPoll i d = Some p \<and> p_status p = ''open'' \<and> d' = d"
  by (auto simp: requireOpenPollTx_def result_simps)

lemma requireParticipantInPollTx_Inr [result_simps]:
  "requireParticipantInPollTx i j d = Inr (p, d') \<longleftrightarrow> GetParticipant j d = Some p \<and> pa_poll p = i \<and> d' = d"
  by (auto simp: requireParticipantInPollTx_def result_simps)

lemma canManagePoll_iff:
  "canManagePoll g c u d \<longleftrightarrow>
   (\<exists>n. ParseInt u = Some n \<and> IsOrgMember g n d \<and> (c = Some n \<or> MemberHasManagingRole g n d))"
  by (auto simp: canManagePoll_def split: option.splits)

lemma check_answers_Inr:
  "check_answers ids a xs = Inr u \<longleftrightarrow>
   (\<forall>(i, v) \<in> set xs. i \<in> set ids \<and> v \<in> set vote_answers \<and> (v = ''ifneedbe'' \<longrightarrow> a))"
proof (induction xs)
  case (Cons x xs)
  then show ?case by (cases x) (simp; blast)
qed simp

lemma validateAnswersTx_Inr [result_simps]:
  "validateAnswersTx i xs a d = Inr (u, d') \<longleftrightarrow> d' = d \<and>
   (\<forall>(oid, v) \<in> set xs. oid \<in> o_id ` set (ListOptionsByPoll i d) \<and> v \<in> set vote_answers \<and>
      (v = ''ifneedbe'' \<longrightarrow> a))"
  by (auto simp: validateAnswersTx_def result_simps check_answers_Inr)

lemma keeps_guards [keeps_intros]:
  "keeps P (requireOrgPoll i g)" "keeps P (requireOpenPollTx i)"
  "keeps P (requireParticipantInPollTx i j)" "keeps P (validateAnswersTx i xs a)"
  "keeps P (RequireManageable i g u)"
  unfolding requireOrgPoll_def requireOpenPollTx_def requireParticipantInPollTx_def
    validateAnswersTx_def RequireManageable_def
  by (intro keeps_intros)+

text \<open>C32: The management guard is membership first. A caller passes \<open>RequireManageable\<close> exactly when
  the poll is live, belongs to the organization of the request, the caller is still a member of that
  organization, and is the creator or holds a managing role; a missing, deleted, suspended or
  foreign poll is always reported as the same \<open>ErrNotFound\<close>, whoever asks; and the guard never
  changes the database.\<close>

theorem RequireManageable_iff:
  "(RequireManageable i g u d = Inr ((), d) \<longleftrightarrow>
     (\<exists>p n. GetPoll i d = Some p \<and> ParseInt g = Some (p_org p) \<and> ParseInt u = Some n \<and>
        IsOrgMember (p_org p) n d \<and> (p_created_by p = Some n \<or> MemberHasManagingRole (p_org p) n d))) \<and>
   (RequireManageable i g u d = Inl ErrNotFound \<longleftrightarrow>
     \<not> (\<exists>p. GetPoll i d = Some p \<and> ParseInt g = Some (p_org p))) \<and>
   RequireManageable i g u d \<in> {Inr ((), d), Inl ErrNotFound, Inl ErrForbidden}"
proof (cases "\<exists>p. GetPoll i d = Some p \<and> ParseInt g = Some (p_org p)")
  case True
  then obtain p where "GetPoll i d = Some p" "ParseInt g = Some (p_org p)" by blast
  then show ?thesis
    by (auto simp: RequireManageable_def requireOrgPoll_def tx_def lookup_or_def ensure_def reads_def
        ret_def canManagePoll_iff)
next
  case False
  then have "requireOrgPoll i g d = Inl ErrNotFound" by (auto simp: result_simps)
  with False show ?thesis by (auto simp: RequireManageable_def tx_def)
qed

subsection \<open>A small database for the witnesses\<close>

definition sample_poll :: Poll where
  "sample_poll = \<lparr> p_id = ''p1'', p_org = 1, p_created_by = Some 7, p_type = ''signup'',
     p_title = ''Snacks'', p_description = None, p_location = None, p_timezone = ''UTC'',
     p_status = ''open'', p_deadline_at = None, p_finalized_option = None, p_require_email = False,
     p_allow_comments = True, p_allow_ifneedbe = False, p_signup_max_claims = 1, p_created_at = 0,
     p_updated_at = 0, p_deleted_at = None, p_suspended_at = None \<rparr>"

definition sample_option :: PollOption where
  "sample_option = \<lparr> o_id = ''o1'', o_poll = ''p1'', o_position = 0, o_kind = ''text'',
     o_start_at = None, o_end_at = None, o_label = Some ''Bread'', o_capacity = Some 1 \<rparr>"

definition sample_participant :: Participant where
  "sample_participant = \<lparr> pa_id = ''g1'', pa_poll = ''p1'', pa_name = ''Ada'', pa_email = None,
     pa_user = None, pa_locale = None, pa_created_at = 0, pa_updated_at = 0 \<rparr>"

definition sample_user :: "int \<Rightarrow> User" where
  "sample_user u = \<lparr> u_id = u, u_email = ''ada@example.org'', u_first_name = Some ''Ada'', u_last_name = None \<rparr>"

definition sample_sub :: "int \<Rightarrow> NotificationSubscription" where
  "sample_sub u = \<lparr> s_scope_type = ''poll'', s_scope_id = ''p1'', s_user = u, s_source = ''follow'',
     s_channels = None, s_created_at = 0, s_updated_at = 0 \<rparr>"

definition sample_db :: db where
  "sample_db = \<lparr> db_polls = [sample_poll], db_options = [sample_option], db_participants = [sample_participant],
     db_votes = [], db_comments = [], db_users = [sample_user 7, sample_user 8], db_orgs = [(1, ''Org'')],
     db_members = [\<lparr> m_org = 1, m_user = 7, m_roles = [''owner''] \<rparr>], db_prefs = [],
     db_subs = [sample_sub 7, sample_sub 8], db_jobs = [], db_events = [], db_event_seq = 0,
     db_stats = (\<lambda>_. 0), db_fresh = (\<lambda>n. ''n'' @ format_nat n), db_next = 0 \<rparr>"

lemmas sample_defs = sample_poll_def sample_option_def sample_participant_def sample_user_def
  sample_sub_def sample_db_def

end
