(* ===== verification/Notify.thy ===== *)
theory Notify
  imports PollAccess
begin

text \<open>
  Who gets mail about a poll, and the jobs that carry it: \<^verbatim>\<open>internal/polls/notifications.go\<close> and the
  scheduling half of \<^verbatim>\<open>timers.go\<close>. Mail never leaves this model: an event becomes \<^verbatim>\<open>mail:poll\<close>
  rows of the job table, whose payloads name recipients by id. \<open>source\<close> is the user-locale lookup the
  service was wired with, if any.
\<close>

subsection \<open>The event catalog\<close>

definition digestEvents :: "string list" where
  "digestEvents = [''response.created'', ''response.updated'', ''response.withdrawn'',
     ''comment.created'', ''signup.full'']"

definition isDigestEvent :: "string \<Rightarrow> bool" where
  "isDigestEvent event \<longleftrightarrow> event \<in> set digestEvents"

definition systemDefaults :: "(string \<times> ChannelPrefs) list" where
  "systemDefaults =
     [(''response.created'', \<lparr> ch_email = True, ch_push = True \<rparr>),
      (''response.updated'', \<lparr> ch_email = True, ch_push = False \<rparr>),
      (''response.withdrawn'', \<lparr> ch_email = False, ch_push = False \<rparr>),
      (''comment.created'', \<lparr> ch_email = True, ch_push = True \<rparr>),
      (''deadline.approaching'', \<lparr> ch_email = True, ch_push = True \<rparr>),
      (''poll.closed'', \<lparr> ch_email = True, ch_push = False \<rparr>),
      (''poll.finalized'', \<lparr> ch_email = True, ch_push = False \<rparr>),
      (''signup.full'', \<lparr> ch_email = True, ch_push = False \<rparr>)]"

definition grid_at :: "NotificationGrid option \<Rightarrow> string \<Rightarrow> ChannelPrefs option" where
  "grid_at g event = Option.bind g (\<lambda>m. map_of m event)"

definition resolveChannels ::
  "string \<Rightarrow> NotificationGrid option \<Rightarrow> NotificationGrid option \<Rightarrow> ChannelPrefs" where
  "resolveChannels event override defaults =
     (case grid_at override event of
        Some v \<Rightarrow> v
      | None \<Rightarrow>
          (case grid_at defaults event of
             Some v \<Rightarrow> v
           | None \<Rightarrow> (case map_of systemDefaults event of
                        Some v \<Rightarrow> v
                      | None \<Rightarrow> \<lparr> ch_email = False, ch_push = False \<rparr>)))"

subsection \<open>Recipients\<close>

record Recipient =
  r_user :: string
  r_email :: string
  r_name :: string
  r_locale :: string

definition trimmed_or_empty :: "string option \<Rightarrow> string" where
  "trimmed_or_empty v = (case v of None \<Rightarrow> [] | Some s \<Rightarrow> TrimSpace s)"

definition displayName :: "User \<Rightarrow> string" where
  "displayName u =
     (let name = TrimSpace (TrimSpace
            (trimmed_or_empty (u_first_name u) @ '' '' @ trimmed_or_empty (u_last_name u)))
      in if name \<noteq> [] then name
         else case Cut (CHR ''@'') (u_email u) of
                Some (before, _) \<Rightarrow> if before \<noteq> [] then before else u_email u
              | None \<Rightarrow> u_email u)"

definition orDefaultLocale :: "string option \<Rightarrow> string" where
  "orDefaultLocale l = (case l of None \<Rightarrow> ''en'' | Some s \<Rightarrow> if s \<noteq> [] then s else ''en'')"

definition userLocale :: "(string \<Rightarrow> string) option \<Rightarrow> string \<Rightarrow> string" where
  "userLocale source userID =
     (case source of
        None \<Rightarrow> ''en''
      | Some f \<Rightarrow> if userID = [] then ''en'' else if f userID \<noteq> [] then f userID else ''en'')"

definition recipient_of ::
  "(string \<Rightarrow> string) option \<Rightarrow> int \<Rightarrow> string \<Rightarrow> string \<Rightarrow> db \<Rightarrow> NotificationSubscription \<Rightarrow> Recipient option"
where
  "recipient_of source orgID event actorUserID d sub =
     (let uid = FormatInt (s_user sub)
      in if uid = actorUserID then None
         else if \<not> IsOrgMember orgID (s_user sub) d then None
         else case GetUser (s_user sub) d of
                None \<Rightarrow> None
              | Some u \<Rightarrow>
                  (let prefGrid = Option.bind (GetNotificationPref (s_user sub) d) id;
                       ch = resolveChannels event (s_channels sub) prefGrid
                   in if \<not> ch_email ch then None
                      else Some \<lparr> r_user = uid, r_email = u_email u, r_name = displayName u,
                                  r_locale = userLocale source uid \<rparr>))"

definition resolveRecipients ::
  "(string \<Rightarrow> string) option \<Rightarrow> int \<Rightarrow> string \<Rightarrow> string \<Rightarrow> string \<Rightarrow> db \<Rightarrow> Recipient list" where
  "resolveRecipients source orgID pollID event actorUserID d =
     List.map_filter (recipient_of source orgID event actorUserID d)
       (ListSubscriptionsByScope ''poll'' pollID d)"

subsection \<open>Following a poll\<close>

definition UpdateNotificationPrefs ::
  "string \<Rightarrow> string \<Rightarrow> string \<Rightarrow> NotificationGrid option \<Rightarrow> instant \<Rightarrow> unit poll_tx" where
  "UpdateNotificationPrefs pollID orgID userID channels now =
     tx (lookup_or ErrForbidden (\<lambda>_. ParseInt userID)) (\<lambda>u.
     tx (requireOrgPoll pollID orgID) (\<lambda>_.
     tx (UpsertNotificationSubscription ''poll'' pollID u ''follow'' now) (\<lambda>_.
     SetNotificationSubscriptionChannels ''poll'' pollID u channels now)))"

definition SetFollowing :: "string \<Rightarrow> string \<Rightarrow> string \<Rightarrow> bool \<Rightarrow> instant \<Rightarrow> unit poll_tx" where
  "SetFollowing pollID orgID userID following now =
     tx (lookup_or ErrForbidden (\<lambda>_. ParseInt userID)) (\<lambda>u.
     tx (requireOrgPoll pollID orgID) (\<lambda>_.
     (if following then UpsertNotificationSubscription ''poll'' pollID u ''follow'' now
      else DeleteNotificationSubscription ''poll'' pollID u)))"

definition ensureCreatorSubscriptionBestEffort :: "string \<Rightarrow> int option \<Rightarrow> instant \<Rightarrow> db \<Rightarrow> db" where
  "ensureCreatorSubscriptionBestEffort pollID userID now d =
     (case userID of
        None \<Rightarrow> d
      | Some u \<Rightarrow> commit d (UpsertNotificationSubscription ''poll'' pollID u ''creator'' now d))"

definition copyNotificationOverrideBestEffort :: "string \<Rightarrow> string \<Rightarrow> int \<Rightarrow> instant \<Rightarrow> db \<Rightarrow> db" where
  "copyNotificationOverrideBestEffort originalPollID newPollID u now d =
     (case find (\<lambda>s. s_user s = u \<and> s_channels s \<noteq> None)
             (ListSubscriptionsByScope ''poll'' originalPollID d) of
        None \<Rightarrow> d
      | Some s \<Rightarrow> commit d (SetNotificationSubscriptionChannels ''poll'' newPollID u (s_channels s) now d))"

subsection \<open>Queued mail and the poll's timers\<close>

record DigestItem =
  di_event :: string
  di_name :: string
  di_actor :: string

record mailPollPayload =
  mp_poll :: string
  mp_event :: string
  mp_participant :: string
  mp_user :: string
  mp_items :: "DigestItem list"

definition omitempty :: "string \<Rightarrow> string \<Rightarrow> (string \<times> json) list" where
  "omitempty k s = (if s = [] then [] else [(k, JStr s)])"

definition json_of_item :: "DigestItem \<Rightarrow> json" where
  "json_of_item i =
     JObj ((''event'', JStr (di_event i)) # omitempty ''name'' (di_name i) @ omitempty ''actorUserId'' (di_actor i))"

definition json_of_mail :: "mailPollPayload \<Rightarrow> json" where
  "json_of_mail m =
     JObj ([(''pollId'', JStr (mp_poll m)), (''event'', JStr (mp_event m))]
       @ omitempty ''participantId'' (mp_participant m) @ omitempty ''userId'' (mp_user m)
       @ (if mp_items m = [] then [] else [(''items'', JArr (map json_of_item (mp_items m)))]))"

definition mailPollMaxAttempts :: nat where "mailPollMaxAttempts = 10"
definition digestDelay :: duration where "digestDelay = 10 * Minute"
definition reminderLead :: duration where "reminderLead = 24 * Hour"

definition mail_to_participant :: "string \<Rightarrow> string \<Rightarrow> string \<Rightarrow> mailPollPayload" where
  "mail_to_participant pollID event pid =
     \<lparr> mp_poll = pollID, mp_event = event, mp_participant = pid, mp_user = [], mp_items = [] \<rparr>"

definition mail_to_user :: "string \<Rightarrow> string \<Rightarrow> string \<Rightarrow> DigestItem list \<Rightarrow> mailPollPayload" where
  "mail_to_user pollID event uid items =
     \<lparr> mp_poll = pollID, mp_event = event, mp_participant = [], mp_user = uid, mp_items = items \<rparr>"

definition enqueueMailPoll :: "mailPollPayload \<Rightarrow> instant \<Rightarrow> unit poll_tx" where
  "enqueueMailPoll payload now = schedule_job
     \<lparr> si_kind = ''mail:poll'', si_room = None, si_run_at = now,
       si_payload = Some (json_of_mail payload), si_max_attempts = mailPollMaxAttempts \<rparr>"

definition poll_room :: "string \<Rightarrow> string" where
  "poll_room pollID = ''poll:'' @ pollID"

definition timer_input :: "string \<Rightarrow> string \<Rightarrow> instant \<Rightarrow> ScheduleInput" where
  "timer_input kind pollID at =
     \<lparr> si_kind = kind, si_room = Some (poll_room pollID), si_run_at = at,
       si_payload = Some (JObj [(''pollId'', JStr pollID)]), si_max_attempts = 0 \<rparr>"

definition armDeadline :: "string \<Rightarrow> instant option \<Rightarrow> instant \<Rightarrow> unit poll_tx" where
  "armDeadline pollID deadlineAt now =
     (case deadlineAt of
        None \<Rightarrow>
          tx (cancel_job ''poll.deadline'' (poll_room pollID)) (\<lambda>_.
          cancel_job ''poll.reminder'' (poll_room pollID))
      | Some t \<Rightarrow>
          tx (schedule_job (timer_input ''poll.deadline'' pollID t)) (\<lambda>_.
          (let remindAt = t - reminderLead
           in if now < remindAt then schedule_job (timer_input ''poll.reminder'' pollID remindAt)
              else cancel_job ''poll.reminder'' (poll_room pollID))))"

subsection \<open>Lemmas\<close>

lemma schedule_job_Inr [result_simps]:
  "schedule_job i d = Inr (u, d') \<longleftrightarrow>
   d' = d\<lparr> db_next := db_next d + 1, db_jobs := Schedule (db_fresh d (db_next d)) i (db_jobs d) \<rparr>"
  by (auto simp: schedule_job_def result_simps NewID_def)

lemma schedule_job_ok: "schedule_job i d \<noteq> Inl e"
  by (auto simp: schedule_job_def result_simps NewID_def)

lemma cancel_job_Inr [result_simps]:
  "cancel_job k r d = Inr (u, d') \<longleftrightarrow> d' = d\<lparr> db_jobs := Cancel k r (db_jobs d) \<rparr>"
  by (auto simp: cancel_job_def result_simps)

lemma cancel_job_ok: "cancel_job k r d \<noteq> Inl e"
  by (auto simp: cancel_job_def result_simps)

lemma armDeadline_total: "\<exists>d'. armDeadline i t now d = Inr ((), d')"
  by (cases t) (auto simp: armDeadline_def tx_def schedule_job_def cancel_job_def writes_def NewID_def Let_def)

text \<open>Arming a deadline leaves exactly the timers the poll should have. After
  \<open>armDeadline\<close> the poll's deadline timer fires at the deadline (or is absent when the deadline was
  removed), its reminder is armed for 24 hours before the deadline exactly when that moment is still
  in the future, every other room-scoped timer of the table is as it was, and nothing but the job
  table and the id source changes.\<close>

lemma armDeadline_timers:
  "\<exists>d'. armDeadline i t now d = Inr ((), d') \<and>
     map_option job_run_at (pending ''poll.deadline'' (poll_room i) (db_jobs d')) = t \<and>
     map_option job_run_at (pending ''poll.reminder'' (poll_room i) (db_jobs d')) =
       (case t of None \<Rightarrow> None
        | Some dl \<Rightarrow> if now < dl - 24 * Hour then Some (dl - 24 * Hour) else None) \<and>
     (\<forall>k r. r \<noteq> poll_room i \<or> k \<notin> {''poll.deadline'', ''poll.reminder''} \<longrightarrow>
        pending k r (db_jobs d') = pending k r (db_jobs d)) \<and>
     d' = d\<lparr> db_jobs := db_jobs d', db_next := db_next d' \<rparr>"
proof -
  obtain d' where d': "armDeadline i t now d = Inr ((), d')" using armDeadline_total by blast
  show ?thesis
  proof (intro exI conjI)
    show "armDeadline i t now d = Inr ((), d')" by (rule d')
    show "map_option job_run_at (pending ''poll.deadline'' (poll_room i) (db_jobs d')) = t"
      using d' by (cases t) (auto simp: armDeadline_def result_simps Let_def timer_input_def
          pending_Schedule pending_Cancel split: if_splits)
    show "map_option job_run_at (pending ''poll.reminder'' (poll_room i) (db_jobs d')) =
       (case t of None \<Rightarrow> None
        | Some dl \<Rightarrow> if now < dl - 24 * Hour then Some (dl - 24 * Hour) else None)"
      using d' by (cases t) (auto simp: armDeadline_def result_simps Let_def timer_input_def
          pending_Schedule pending_Cancel reminderLead_def split: if_splits)
    show "\<forall>k r. r \<noteq> poll_room i \<or> k \<notin> {''poll.deadline'', ''poll.reminder''} \<longrightarrow>
        pending k r (db_jobs d') = pending k r (db_jobs d)"
      using d' by (cases t) (auto simp: armDeadline_def result_simps Let_def timer_input_def
          pending_Schedule pending_Cancel split: if_splits)
    show "d' = d\<lparr> db_jobs := db_jobs d', db_next := db_next d' \<rparr>"
      using d' by (cases t) (auto simp: armDeadline_def result_simps Let_def split: if_splits)
  qed
qed

lemma armDeadline_timers_witness:
  "\<exists>d'. armDeadline ''p1'' (Some (48 * Hour)) 0 sample_db = Inr ((), d') \<and>
     map_option job_run_at (pending ''poll.reminder'' (poll_room ''p1'') (db_jobs d')) = Some (24 * Hour)"
  using armDeadline_timers [of "''p1''" "Some (48 * Hour)" 0 sample_db]
  by (auto simp: duration_defs)

lemma set_map_filter: "set (List.map_filter f xs) = {y. \<exists>x \<in> set xs. f x = Some y}"
  by (force simp: List.map_filter_def)

lemma distinct_map_filter_key:
  assumes "distinct (map g xs)" and "\<And>x y. x \<in> set xs \<Longrightarrow> f x = Some y \<Longrightarrow> h y = k (g x)"
    and "inj_on k (g ` set xs)"
  shows "distinct (map h (List.map_filter f xs))"
  using assms
proof (induction xs)
  case (Cons x xs)
  have inj: "inj_on k (g ` set xs)" using Cons.prems(3) by (auto intro: inj_on_subset)
  have IH: "distinct (map h (List.map_filter f xs))"
    using Cons.IH Cons.prems inj by simp
  show ?case
  proof (cases "f x")
    case None
    then show ?thesis using IH by (simp add: List.map_filter_simps)
  next
    case (Some y)
    have "h y \<noteq> h z" if "z \<in> set (List.map_filter f xs)" for z
    proof -
      obtain w where w: "w \<in> set xs" "f w = Some z" using \<open>z \<in> _\<close> by (auto simp: set_map_filter)
      have "g x \<noteq> g w" using Cons.prems(1) w(1) by auto
      then have "k (g x) \<noteq> k (g w)" using Cons.prems(3) w(1) by (auto simp: inj_on_def)
      then show ?thesis using Cons.prems(2) [OF _ Some] Cons.prems(2) [OF _ w(2)] w(1) by simp
    qed
    then show ?thesis using IH Some by (auto simp: List.map_filter_simps)
  qed
qed (simp add: List.map_filter_simps)

definition wants_mail :: "string \<Rightarrow> db \<Rightarrow> NotificationSubscription \<Rightarrow> bool" where
  "wants_mail event d sub \<longleftrightarrow> ch_email (resolveChannels event (s_channels sub)
     (Option.bind (GetNotificationPref (s_user sub) d) id))"

lemma recipient_of_Some:
  "recipient_of source g event actor d sub = Some r \<longleftrightarrow>
   (\<exists>u. GetUser (s_user sub) d = Some u \<and> FormatInt (s_user sub) \<noteq> actor \<and>
      IsOrgMember g (s_user sub) d \<and> wants_mail event d sub \<and>
      r = \<lparr> r_user = FormatInt (s_user sub), r_email = u_email u, r_name = displayName u,
            r_locale = userLocale source (FormatInt (s_user sub)) \<rparr>)"
  by (auto simp: recipient_of_def wants_mail_def Let_def split: option.splits)

lemma distinct_subs:
  assumes "tuniq s_key (db_subs d)"
  shows "distinct (map s_user (ListSubscriptionsByScope ty i d))"
proof -
  have "distinct (map s_key (ListSubscriptionsByScope ty i d))"
    using assms by (simp add: tuniq_def ListSubscriptionsByScope_def distinct_map_filter)
  then show ?thesis
    by (auto simp: distinct_map inj_on_def s_key_def ListSubscriptionsByScope_def)
qed

text \<open>C34: Notification recipients are resolved exactly. For a subscription table with its unique key,
  the recipients of an event are precisely the subscribers of the poll who are still members of the
  poll's organization, still have an account, are not the actor, and have the email channel on after
  override, user default and system default are consulted in that order; and nobody is listed
  twice.\<close>

theorem resolveRecipients_exact:
  assumes "tuniq s_key (db_subs d)" and "\<forall>s \<in> set (db_subs d). in_int64 (s_user s)"
  shows "distinct (map r_user (resolveRecipients source g i event actor d)) \<and>
    r_user ` set (resolveRecipients source g i event actor d) =
      {FormatInt (s_user s) | s. s \<in> set (db_subs d) \<and> s_scope_type s = ''poll'' \<and> s_scope_id s = i \<and>
         IsOrgMember g (s_user s) d \<and> GetUser (s_user s) d \<noteq> None \<and> FormatInt (s_user s) \<noteq> actor \<and>
         ch_email (resolveChannels event (s_channels s) (Option.bind (GetNotificationPref (s_user s) d) id))}"
proof
  have "inj_on FormatInt (s_user ` set (ListSubscriptionsByScope ''poll'' i d))"
    using assms(2) by (auto simp: inj_on_def ListSubscriptionsByScope_def FormatInt_inj)
  then show "distinct (map r_user (resolveRecipients source g i event actor d))"
    unfolding resolveRecipients_def
    by (intro distinct_map_filter_key [where g = s_user and k = FormatInt])
       (auto simp: distinct_subs assms(1) recipient_of_Some)
  show "r_user ` set (resolveRecipients source g i event actor d) =
      {FormatInt (s_user s) | s. s \<in> set (db_subs d) \<and> s_scope_type s = ''poll'' \<and> s_scope_id s = i \<and>
         IsOrgMember g (s_user s) d \<and> GetUser (s_user s) d \<noteq> None \<and> FormatInt (s_user s) \<noteq> actor \<and>
         ch_email (resolveChannels event (s_channels s) (Option.bind (GetNotificationPref (s_user s) d) id))}"
    (is "?L = ?R")
  proof (rule set_eqI)
    fix x
    have "x \<in> ?L \<longleftrightarrow> (\<exists>s \<in> set (ListSubscriptionsByScope ''poll'' i d). \<exists>r.
        recipient_of source g event actor d s = Some r \<and> r_user r = x)"
      by (auto simp: resolveRecipients_def set_map_filter image_iff)
    also have "\<dots> \<longleftrightarrow> (\<exists>s \<in> set (ListSubscriptionsByScope ''poll'' i d). x = FormatInt (s_user s) \<and>
        IsOrgMember g (s_user s) d \<and> GetUser (s_user s) d \<noteq> None \<and> FormatInt (s_user s) \<noteq> actor \<and>
        wants_mail event d s)"
      by (intro bex_cong refl) (auto simp: recipient_of_Some)
    also have "\<dots> \<longleftrightarrow> x \<in> ?R"
      unfolding wants_mail_def ListSubscriptionsByScope_def by auto
    finally show "x \<in> ?L \<longleftrightarrow> x \<in> ?R" .
  qed
qed

lemma sample_subs_ok: "tuniq s_key (db_subs sample_db)" "\<forall>s \<in> set (db_subs sample_db). in_int64 (s_user s)"
  by code_simp+

lemma resolveRecipients_exact_witness:
  "distinct (map r_user (resolveRecipients None 1 ''p1'' ''poll.closed'' [] sample_db)) \<and>
   FormatInt 7 \<in> r_user ` set (resolveRecipients None 1 ''p1'' ''poll.closed'' [] sample_db)"
proof -
  have "sample_sub 7 \<in> set (db_subs sample_db)" "s_scope_type (sample_sub 7) = ''poll''"
    "s_scope_id (sample_sub 7) = ''p1''" "s_user (sample_sub 7) = 7"
    by (simp_all add: sample_db_def sample_sub_def)
  moreover have "IsOrgMember 1 7 sample_db" "GetUser 7 sample_db \<noteq> None" "FormatInt 7 \<noteq> []"
    "ch_email (resolveChannels ''poll.closed'' (s_channels (sample_sub 7))
       (Option.bind (GetNotificationPref 7 sample_db) id))"
    by code_simp+
  ultimately have "\<exists>s. FormatInt 7 = FormatInt (s_user s) \<and> s \<in> set (db_subs sample_db) \<and>
      s_scope_type s = ''poll'' \<and> s_scope_id s = ''p1'' \<and> IsOrgMember 1 (s_user s) sample_db \<and>
      GetUser (s_user s) sample_db \<noteq> None \<and> FormatInt (s_user s) \<noteq> [] \<and>
      ch_email (resolveChannels ''poll.closed'' (s_channels s)
        (Option.bind (GetNotificationPref (s_user s) sample_db) id))"
    by (intro exI [of _ "sample_sub 7"]) simp
  then show ?thesis
    using resolveRecipients_exact [OF sample_subs_ok, of None 1 "''p1''" "''poll.closed''" "[]"] by simp
qed

end
