(* ===== verification/PollView.thy ===== *)
theory PollView
  imports Notify
begin

text \<open>
  What a reader of a poll gets: the tally of \<^verbatim>\<open>internal/polls/scoring.go\<close>, the view of
  \<^verbatim>\<open>view_builder.go\<close> with the shapes of \<^verbatim>\<open>viewmodel.go\<close>, and the roster export of \<^verbatim>\<open>roster.go\<close>. A Go map
  keyed by id is a HOL map. \<open>labelText\<close> stands for \<^verbatim>\<open>optionLabelText\<close>, the localized label of an
  option, which belongs to the rendering of mail.
\<close>

subsection \<open>Scores\<close>

record OptionScore =
  sc_yes :: int
  sc_ifneedbe :: int
  sc_no :: int
  sc_score :: int

definition zero_score :: OptionScore where
  "zero_score = \<lparr> sc_yes = 0, sc_ifneedbe = 0, sc_no = 0, sc_score = 0 \<rparr>"

definition answerPoints :: "string \<Rightarrow> int" where
  "answerPoints answer = (if answer = ''yes'' then 2 else if answer = ''ifneedbe'' then 1 else 0)"

definition count_answer :: "string \<Rightarrow> OptionScore \<Rightarrow> OptionScore" where
  "count_answer answer e =
     (let e' = (if answer = ''yes'' then e\<lparr> sc_yes := sc_yes e + 1 \<rparr>
                else if answer = ''ifneedbe'' then e\<lparr> sc_ifneedbe := sc_ifneedbe e + 1 \<rparr>
                else if answer = ''no'' then e\<lparr> sc_no := sc_no e + 1 \<rparr>
                else e)
      in e'\<lparr> sc_score := sc_score e' + answerPoints answer \<rparr>)"

definition score_vote :: "string \<times> string \<Rightarrow> (string \<rightharpoonup> OptionScore) \<Rightarrow> (string \<rightharpoonup> OptionScore)" where
  "score_vote = (\<lambda>(optionID, answer) result.
     case result optionID of None \<Rightarrow> result
     | Some e \<Rightarrow> result(optionID \<mapsto> count_answer answer e))"

definition scoreOptions :: "string list \<Rightarrow> (string \<times> string) list \<Rightarrow> (string \<rightharpoonup> OptionScore)" where
  "scoreOptions optionIDs votes =
     fold score_vote votes (fold (\<lambda>i m. m(i \<mapsto> zero_score)) optionIDs Map.empty)"

definition score_at :: "(string \<rightharpoonup> OptionScore) \<Rightarrow> string \<Rightarrow> int" where
  "score_at scores i = (case scores i of None \<Rightarrow> 0 | Some e \<Rightarrow> sc_score e)"

definition better :: "(string \<rightharpoonup> OptionScore) \<Rightarrow> string \<Rightarrow> string option \<times> int \<Rightarrow> string option \<times> int" where
  "better scores i = (\<lambda>(bestID, bestScore).
     if bestScore < score_at scores i then (Some i, score_at scores i) else (bestID, bestScore))"

definition bestOptionID :: "string list \<Rightarrow> (string \<rightharpoonup> OptionScore) \<Rightarrow> string option" where
  "bestOptionID orderedOptionIDs scores = fst (fold (better scores) orderedOptionIDs (None, 0))"

subsection \<open>The view\<close>

record PollOptionView =
  ov_id :: string
  ov_position :: int
  ov_kind :: string
  ov_start_at :: "string option"
  ov_end_at :: "string option"
  ov_label :: "string option"
  ov_capacity :: "int option"

record ParticipantView =
  pv_id :: string
  pv_name :: string
  pv_user :: "string option"
  pv_has_email :: bool
  pv_votes :: "string \<rightharpoonup> string"
  pv_created_at :: string

record CommentView =
  cv_id :: string
  cv_author_name :: string
  cv_body :: string
  cv_created_at :: string
  cv_user :: "string option"
  cv_participant :: "string option"

record ClaimView =
  cl_count :: nat
  cl_capacity :: "int option"
  cl_full :: bool

record NotificationsView =
  nv_channels :: "NotificationGrid option"
  nv_defaults :: "NotificationGrid option"
  nv_following :: bool

record PollSettingsView =
  sv_require_email :: bool
  sv_allow_comments :: bool
  sv_allow_ifneedbe :: bool
  sv_signup_max_claims :: int

record PollView =
  view_id :: string
  view_type :: string
  view_title :: string
  view_description :: "string option"
  view_location :: "string option"
  view_timezone :: string
  view_status :: string
  view_deadline_at :: "string option"
  view_finalized_option :: "string option"
  view_created_at :: string
  view_settings :: PollSettingsView
  view_notifications :: "NotificationsView option"
  view_owner_name :: string
  view_is_owner :: bool
  view_options :: "PollOptionView list"
  view_participants :: "ParticipantView list"
  view_comments :: "CommentView list"
  view_scores :: "string \<rightharpoonup> OptionScore"
  view_best_option :: "string option"
  view_claims :: "string \<rightharpoonup> ClaimView"

definition optionToView :: "PollOption \<Rightarrow> PollOptionView" where
  "optionToView po =
     (let view = \<lparr> ov_id = o_id po, ov_position = o_position po, ov_kind = o_kind po,
                   ov_start_at = None, ov_end_at = None, ov_label = o_label po,
                   ov_capacity = o_capacity po \<rparr>
      in if o_kind po = ''date'' \<and> o_start_at po \<noteq> None
         then view\<lparr> ov_start_at := map_option formatDateOnly (o_start_at po) \<rparr>
         else view\<lparr> ov_start_at := map_option formatISO (o_start_at po),
                    ov_end_at := map_option formatISO (o_end_at po) \<rparr>)"

definition votes_of :: "string \<Rightarrow> Vote list \<Rightarrow> (string \<rightharpoonup> string)" where
  "votes_of pid votes =
     fold (\<lambda>v m. if v_participant v = pid then m(v_option v \<mapsto> v_answer v) else m) votes Map.empty"

definition participantToView :: "Vote list \<Rightarrow> Participant \<Rightarrow> ParticipantView" where
  "participantToView votes p =
     \<lparr> pv_id = pa_id p, pv_name = pa_name p, pv_user = map_option FormatInt (pa_user p),
       pv_has_email = (case pa_email p of None \<Rightarrow> False | Some e \<Rightarrow> e \<noteq> []),
       pv_votes = votes_of (pa_id p) votes, pv_created_at = formatISO (pa_created_at p) \<rparr>"

definition commentToView :: "Comment \<Rightarrow> CommentView" where
  "commentToView c =
     \<lparr> cv_id = c_id c, cv_author_name = c_author_name c, cv_body = c_body c,
       cv_created_at = formatISO (c_created_at c), cv_user = map_option FormatInt (c_user c),
       cv_participant = c_participant c \<rparr>"

definition claim_view :: "Vote list \<Rightarrow> PollOption \<Rightarrow> ClaimView" where
  "claim_view votes po =
     (let count = tcount (\<lambda>v. v_option v = o_id po \<and> v_answer v = ''yes'') votes
      in \<lparr> cl_count = count, cl_capacity = o_capacity po,
           cl_full = (case o_capacity po of None \<Rightarrow> False | Some c \<Rightarrow> c \<le> int count) \<rparr>)"

definition viewer_member :: "int \<Rightarrow> string \<Rightarrow> db \<Rightarrow> int option" where
  "viewer_member g viewerUserID d =
     (case ParseInt viewerUserID of
        None \<Rightarrow> None
      | Some u \<Rightarrow> if viewerUserID \<noteq> [] \<and> IsOrgMember g u d then Some u else None)"

definition notifications_view :: "string \<Rightarrow> int \<Rightarrow> db \<Rightarrow> NotificationsView" where
  "notifications_view pollID u d =
     (let sub = GetSubscription ''poll'' pollID u d
      in \<lparr> nv_channels = Option.bind sub s_channels,
           nv_defaults = Option.bind (GetNotificationPref u d) id,
           nv_following = (sub \<noteq> None) \<rparr>)"

definition buildView :: "Poll \<Rightarrow> string \<Rightarrow> PollView poll_tx" where
  "buildView poll viewerUserID =
     tx (lookup_or (ErrDb ''no rows'') (GetOrganizationName (p_org poll))) (\<lambda>orgName.
     reads (\<lambda>d.
       let optionRows = ListOptionsByPoll (p_id poll) d;
           voteRows = ListVotesByPoll (p_id poll) d;
           optionIDs = map o_id optionRows;
           isSignup = (p_type poll = ''signup'');
           scores = (if isSignup then Map.empty
                     else scoreOptions optionIDs (map (\<lambda>v. (v_option v, v_answer v)) voteRows));
           isMember = viewer_member (p_org poll) viewerUserID d
       in \<lparr> view_id = p_id poll, view_type = p_type poll, view_title = p_title poll,
            view_description = p_description poll, view_location = p_location poll,
            view_timezone = p_timezone poll, view_status = p_status poll,
            view_deadline_at = map_option formatISO (p_deadline_at poll),
            view_finalized_option = p_finalized_option poll,
            view_created_at = formatISO (p_created_at poll),
            view_settings = \<lparr> sv_require_email = p_require_email poll,
              sv_allow_comments = p_allow_comments poll, sv_allow_ifneedbe = p_allow_ifneedbe poll,
              sv_signup_max_claims = p_signup_max_claims poll \<rparr>,
            view_notifications = map_option (\<lambda>u. notifications_view (p_id poll) u d) isMember,
            view_owner_name = orgName,
            view_is_owner = (isMember \<noteq> None \<and> canManagePoll (p_org poll) (p_created_by poll) viewerUserID d),
            view_options = map optionToView optionRows,
            view_participants = map (participantToView voteRows) (ListParticipantsByPoll (p_id poll) d),
            view_comments = map commentToView (ListCommentsByPoll (p_id poll) d),
            view_scores = scores,
            view_best_option = (if isSignup then None else bestOptionID optionIDs scores),
            view_claims = fold (\<lambda>po m. m(o_id po \<mapsto> claim_view voteRows po)) optionRows Map.empty \<rparr>))"

subsection \<open>The roster export\<close>

definition rosterBOM :: string where
  "rosterBOM = [CHR 0xEF, CHR 0xBB, CHR 0xBF]"

definition rosterFormulaPrefix :: "string \<Rightarrow> bool" where
  "rosterFormulaPrefix s \<longleftrightarrow> s \<noteq> [] \<and> hd s \<in> {CHR ''='', CHR ''+'', CHR ''-'', CHR ''@'', CHR 0x09, CHR 0x0D}"

definition rosterQuoteNeeded :: "string \<Rightarrow> bool" where
  "rosterQuoteNeeded s \<longleftrightarrow> (\<exists>c \<in> set s. c \<in> {CHR '','', CHR 0x22, CHR 0x0D, CHR 0x0A})"

definition defuse :: "string \<Rightarrow> string" where
  "defuse raw = (if rosterFormulaPrefix raw then CHR 0x27 # raw else raw)"

definition double_quotes :: "string \<Rightarrow> string" where
  "double_quotes s = concat (map (\<lambda>c. if c = CHR 0x22 then [c, c] else [c]) s)"

definition rosterCSVField :: "string \<Rightarrow> string" where
  "rosterCSVField raw =
     (let v = defuse raw
      in if rosterQuoteNeeded v then [CHR 0x22] @ double_quotes v @ [CHR 0x22] else v)"

definition rosterCSVRow :: "string list \<Rightarrow> string" where
  "rosterCSVRow fs = Join [CHR '',''] (map rosterCSVField fs)"

definition crlf :: string where "crlf = [CHR 0x0D, CHR 0x0A]"

definition roster_option_rows ::
  "string \<Rightarrow> Vote list \<Rightarrow> Participant list \<Rightarrow> PollOption \<Rightarrow> string list list" where
  "roster_option_rows slotLabel votes participants po =
     (let capacity = (case o_capacity po of None \<Rightarrow> [] | Some c \<Rightarrow> FormatInt c);
          claimantIDs = map v_participant (filter (\<lambda>v. v_answer v = ''yes'' \<and> v_option v = o_id po) votes);
          claimed = FormatInt (int (length claimantIDs))
      in if claimantIDs = [] then [[slotLabel, capacity, claimed, [], []]]
         else map (\<lambda>pid. case tget pa_id pid participants of
                     Some p \<Rightarrow> [slotLabel, capacity, claimed, pa_name p,
                                (case pa_email p of None \<Rightarrow> [] | Some e \<Rightarrow> e)]
                   | None \<Rightarrow> [slotLabel, capacity, claimed, [], []]) claimantIDs)"

definition roster_rows :: "(PollOption \<Rightarrow> string \<Rightarrow> string \<Rightarrow> string) \<Rightarrow> Poll \<Rightarrow> string \<Rightarrow> db \<Rightarrow> string list list" where
  "roster_rows labelText poll locale d =
     [''slot'', ''capacity'', ''claimed'', ''participant'', ''email'']
     # concat (map (\<lambda>po. roster_option_rows (labelText po locale (p_timezone poll))
          (ListVotesByPoll (p_id poll) d) (ListParticipantsByPoll (p_id poll) d) po)
        (ListOptionsByPoll (p_id poll) d))"

definition BuildRosterCSV ::
  "(PollOption \<Rightarrow> string \<Rightarrow> string \<Rightarrow> string) \<Rightarrow> string \<Rightarrow> string \<Rightarrow> string poll_tx" where
  "BuildRosterCSV labelText pollID locale =
     tx (lookup_or ErrNotFound (GetPoll pollID)) (\<lambda>poll.
     tx (ensure (p_type poll = ''signup'') ErrNotSignup) (\<lambda>_.
     reads (\<lambda>d. rosterBOM @ Join crlf (map rosterCSVRow (roster_rows labelText poll locale d)) @ crlf)))"

subsection \<open>The tally\<close>

definition tally :: "(string \<times> string) list \<Rightarrow> string \<Rightarrow> OptionScore" where
  "tally votes i =
     (let n = (\<lambda>a. int (tcount (\<lambda>v. v = (i, a)) votes))
      in \<lparr> sc_yes = n ''yes'', sc_ifneedbe = n ''ifneedbe'', sc_no = n ''no'',
           sc_score = 2 * n ''yes'' + n ''ifneedbe'' \<rparr>)"

lemma fold_score_vote:
  "fold score_vote votes m i =
     map_option (\<lambda>e. let t = tally votes i in
        \<lparr> sc_yes = sc_yes e + sc_yes t, sc_ifneedbe = sc_ifneedbe e + sc_ifneedbe t,
          sc_no = sc_no e + sc_no t, sc_score = sc_score e + sc_score t \<rparr>) (m i)"
proof (induction votes arbitrary: m)
  case Nil
  then show ?case by (cases "m i") (simp_all add: tally_def Let_def)
next
  case (Cons v votes)
  obtain j a where v: "v = (j, a)" by (cases v)
  show ?case
  proof (cases "m j")
    case None
    then have st: "score_vote v m = m" by (simp add: v score_vote_def)
    from None show ?thesis
      unfolding fold_simps st Cons.IH by (cases "i = j") (simp_all add: v tally_def Let_def)
  next
    case (Some e)
    then have st: "score_vote v m = m(j \<mapsto> count_answer a e)" by (simp add: v score_vote_def)
    from Some show ?thesis
      unfolding fold_simps st Cons.IH
      by (cases "i = j") (simp_all add: v tally_def Let_def count_answer_def answerPoints_def)
  qed
qed

lemma init_scores: "fold (\<lambda>i m. m(i \<mapsto> zero_score)) ids m j = (if j \<in> set ids then Some zero_score else m j)"
  by (induction ids arbitrary: m) auto

text \<open>C35: The ranked tally is the right one. For every option of the poll, in any number of votes and
  whatever strings they carry, \<open>scoreOptions\<close> counts exactly the yes, if-need-be and no answers
  given to that option and scores two points per yes and one per if-need-be; votes for options that
  are not listed are ignored and no entry appears for them.\<close>

theorem scoreOptions_tally:
  "scoreOptions ids votes i =
     (if i \<in> set ids
      then Some \<lparr> sc_yes = int (tcount (\<lambda>v. v = (i, ''yes'')) votes),
                  sc_ifneedbe = int (tcount (\<lambda>v. v = (i, ''ifneedbe'')) votes),
                  sc_no = int (tcount (\<lambda>v. v = (i, ''no'')) votes),
                  sc_score = 2 * int (tcount (\<lambda>v. v = (i, ''yes'')) votes)
                           + int (tcount (\<lambda>v. v = (i, ''ifneedbe'')) votes) \<rparr>
      else None)"
  unfolding scoreOptions_def fold_score_vote init_scores
  by (simp add: zero_score_def tally_def Let_def)

lemma fold_better:
  assumes "fold (better scores) ids (b, n) = (b', n')" and "b = None \<longrightarrow> n = 0"
  shows "n \<le> n' \<and> (\<forall>i \<in> set ids. score_at scores i \<le> n') \<and>
    ((b' = b \<and> n' = n) \<or>
     (\<exists>as i bs. ids = as @ i # bs \<and> b' = Some i \<and> n' = score_at scores i \<and> n < n' \<and>
        (\<forall>a \<in> set as. score_at scores a < n')))"
  using assms
proof (induction ids arbitrary: b n)
  case (Cons x xs)
  show ?case
  proof (cases "n < score_at scores x")
    case True
    then have "better scores x (b, n) = (Some x, score_at scores x)" by (simp add: better_def)
    with Cons.prems(1) have "fold (better scores) xs (Some x, score_at scores x) = (b', n')" by simp
    note IH = Cons.IH [OF this]
    have all: "n \<le> n' \<and> (\<forall>i \<in> set (x # xs). score_at scores i \<le> n')" using IH True by auto
    have "\<exists>as i bs. x # xs = as @ i # bs \<and> b' = Some i \<and> n' = score_at scores i \<and> n < n' \<and>
        (\<forall>a \<in> set as. score_at scores a < n')"
    proof (cases "b' = Some x \<and> n' = score_at scores x")
      case eq: True
      show ?thesis by (rule exI [of _ "[]"], rule exI [of _ x], rule exI [of _ xs]) (simp add: eq True)
    next
      case False
      with IH obtain as i bs where "xs = as @ i # bs" "b' = Some i" "n' = score_at scores i"
        "score_at scores x < n'" "\<forall>a \<in> set as. score_at scores a < n'" by auto
      then show ?thesis
        using True by (intro exI [of _ "x # as"] exI [of _ i] exI [of _ bs]) simp
    qed
    with all show ?thesis by blast
  next
    case False
    then have "better scores x (b, n) = (b, n)" by (simp add: better_def)
    with Cons.prems(1) have "fold (better scores) xs (b, n) = (b', n')" by simp
    note IH = Cons.IH [OF this Cons.prems(2)]
    have all: "n \<le> n' \<and> (\<forall>i \<in> set (x # xs). score_at scores i \<le> n')" using IH False by auto
    show ?thesis
    proof (cases "b' = b \<and> n' = n")
      case True
      with all show ?thesis by blast
    next
      case neq: False
      with IH obtain as i bs where "xs = as @ i # bs" "b' = Some i" "n' = score_at scores i"
        "n < n'" "\<forall>a \<in> set as. score_at scores a < n'" by auto
      then have "x # xs = (x # as) @ i # bs \<and> b' = Some i \<and> n' = score_at scores i \<and> n < n' \<and>
          (\<forall>a \<in> set (x # as). score_at scores a < n')" using False by simp
      with all show ?thesis by blast
    qed
  qed
qed simp

text \<open>The suggested best option is the first of the options, in their display order, that reaches
  the highest score, and there is none exactly when no option scores above zero.\<close>

lemma bestOptionID_first_max:
  "(bestOptionID ids scores = None \<longleftrightarrow> (\<forall>i \<in> set ids. score_at scores i \<le> 0)) \<and>
   (\<forall>best. bestOptionID ids scores = Some best \<longrightarrow>
      0 < score_at scores best \<and> (\<forall>i \<in> set ids. score_at scores i \<le> score_at scores best) \<and>
      (\<exists>as bs. ids = as @ best # bs \<and> (\<forall>a \<in> set as. score_at scores a < score_at scores best)))"
proof -
  obtain b n where f: "fold (better scores) ids (None, 0) = (b, n)" by (cases "fold (better scores) ids (None, 0)")
  then have best: "bestOptionID ids scores = b" by (simp add: bestOptionID_def)
  have s: "0 \<le> n" "\<forall>i \<in> set ids. score_at scores i \<le> n"
    "(b = None \<and> n = 0) \<or> (\<exists>as i bs. ids = as @ i # bs \<and> b = Some i \<and> n = score_at scores i \<and> 0 < n \<and>
        (\<forall>a \<in> set as. score_at scores a < n))"
    using fold_better [OF f] by simp_all
  show ?thesis
  proof (cases b)
    case None
    with s show ?thesis by (simp add: best)
  next
    case (Some i)
    with s(3) obtain as bs where i: "ids = as @ i # bs" "n = score_at scores i" "0 < n"
      "\<forall>a \<in> set as. score_at scores a < n" by auto
    then have "i \<in> set ids" by simp
    then have "\<not> (\<forall>j \<in> set ids. score_at scores j \<le> 0)" using i(2,3) by force
    with i s(2) Some show ?thesis unfolding best by auto
  qed
qed

definition demo_scores :: "string \<rightharpoonup> OptionScore" where
  "demo_scores = scoreOptions [''a'', ''b''] [(''b'', ''yes''), (''a'', ''ifneedbe''), (''a'', ''ifneedbe'')]"

lemma bestOptionID_first_max_witness:
  "bestOptionID [''a'', ''b''] demo_scores = Some ''a'' \<and> 0 < score_at demo_scores ''a''"
proof -
  have "bestOptionID [''a'', ''b''] demo_scores = Some ''a''" by code_simp
  with bestOptionID_first_max [of "[''a'', ''b'']" demo_scores] show ?thesis by blast
qed

end
