(* ===== verification/Polls.thy ===== *)
theory Polls
  imports PollView
begin

text \<open>
  The life of a poll: \<^verbatim>\<open>internal/polls/service.go\<close>. Each method is one transaction over the
  database; what the code takes from outside is an argument: \<open>now\<close> (one reading of the clock per
  call), \<open>lower\<close> (\<^verbatim>\<open>strings.ToLower\<close>), \<open>source\<close> (the user-locale lookup). The counters and the
  creator's subscription, written right after the commit and never failing the call, come last in the
  transaction.
\<close>

subsection \<open>Columns of an option\<close>

definition int32 :: "int \<Rightarrow> int" where
  "int32 n = (n + 2 ^ 31) mod 2 ^ 32 - 2 ^ 31"

definition optionalTrimmedString :: "string option \<Rightarrow> string option" where
  "optionalTrimmedString s = map_option TrimSpace s"

record optionColumns =
  oc_kind :: string
  oc_start_at :: "instant option"
  oc_end_at :: "instant option"
  oc_label :: "string option"
  oc_capacity :: "int option"

definition option_capacity :: "OptionInput \<Rightarrow> string \<Rightarrow> int option \<Rightarrow> int option" where
  "option_capacity opt pollType fallbackCapacity =
     (if pollType = ''signup'' then
        (if oi_capacity_set opt then map_option int32 (oi_capacity opt) else fallbackCapacity)
      else None)"

definition pollOptionColumns :: "OptionInput \<Rightarrow> string \<Rightarrow> int option \<Rightarrow> poll_error + optionColumns" where
  "pollOptionColumns opt pollType fallbackCapacity =
     (let capacity = option_capacity opt pollType fallbackCapacity;
          cols = (\<lambda>kind startAt endAt label. \<lparr> oc_kind = kind, oc_start_at = startAt, oc_end_at = endAt,
                    oc_label = label, oc_capacity = capacity \<rparr>)
      in if oi_kind opt = ''date'' then
           rbind (of_option (ErrDb ''polls: invalid date option'') (parseDateOnly (oi_date opt)))
             (\<lambda>t. Inr (cols ''date'' (Some t) None None))
         else if oi_kind opt = ''datetime'' then
           rbind (of_option (ErrDb ''polls: invalid datetime option startAt'') (parseISODateTime (oi_start_at opt)))
             (\<lambda>start. case oi_end_at opt of
                None \<Rightarrow> Inr (cols ''datetime'' (Some start) None None)
              | Some e \<Rightarrow>
                  if e = [] then Inr (cols ''datetime'' (Some start) None None)
                  else rbind (of_option (ErrDb ''polls: invalid datetime option endAt'') (parseISODateTime e))
                         (\<lambda>t. Inr (cols ''datetime'' (Some start) (Some t) None)))
         else Inr (cols ''text'' None None (Some (oi_label opt))))"

definition option_row :: "string \<Rightarrow> string \<Rightarrow> nat \<Rightarrow> optionColumns \<Rightarrow> PollOption" where
  "option_row oid pollID position cols =
     \<lparr> o_id = oid, o_poll = pollID, o_position = int32 (int position), o_kind = oc_kind cols,
       o_start_at = oc_start_at cols, o_end_at = oc_end_at cols, o_label = oc_label cols,
       o_capacity = oc_capacity cols \<rparr>"

subsection \<open>Creating and reading\<close>

definition StatsPollsCreated :: string where "StatsPollsCreated = ''pollsCreated''"
definition StatsPollsFinalized :: string where "StatsPollsFinalized = ''pollsFinalized''"

definition deadline_of :: "string option \<Rightarrow> poll_error + instant option" where
  "deadline_of dl =
     (case dl of
        None \<Rightarrow> Inr None
      | Some s \<Rightarrow>
          (case parseISODateTime s of
             None \<Rightarrow> Inl (newValidationError ''deadlineAt'' ''deadlineAt must be an ISO 8601 UTC datetime'')
           | Some t \<Rightarrow> Inr (Some t)))"

definition or_default :: "'a \<Rightarrow> 'a option \<Rightarrow> 'a" where
  "or_default x v = (case v of None \<Rightarrow> x | Some y \<Rightarrow> y)"

definition new_poll ::
  "string \<Rightarrow> int \<Rightarrow> int \<Rightarrow> CreatePollInput \<Rightarrow> instant option \<Rightarrow> instant \<Rightarrow> Poll" where
  "new_poll pollID g u i deadlineAt now =
     \<lparr> p_id = pollID, p_org = g, p_created_by = Some u, p_type = ci_type i,
       p_title = TrimSpace (ci_title i), p_description = optionalTrimmedString (ci_description i),
       p_location = optionalTrimmedString (ci_location i), p_timezone = ci_timezone i,
       p_status = ''open'', p_deadline_at = deadlineAt, p_finalized_option = None,
       p_require_email = or_default False (ci_require_email i),
       p_allow_comments = or_default True (ci_allow_comments i),
       p_allow_ifneedbe = (if ci_type i = ''signup'' then False else or_default True (ci_allow_ifneedbe i)),
       p_signup_max_claims = int32 (or_default 1 (ci_signup_max_claims i)),
       p_created_at = now, p_updated_at = now, p_deleted_at = None, p_suspended_at = None \<rparr>"

fun insert_options :: "string \<Rightarrow> string \<Rightarrow> nat \<Rightarrow> OptionInput list \<Rightarrow> unit poll_tx" where
  "insert_options pollType pollID i [] = ret ()"
| "insert_options pollType pollID i (opt # opts) =
     tx (of_result (pollOptionColumns opt pollType (Some 1))) (\<lambda>cols.
     tx NewID (\<lambda>oid.
     tx (InsertPollOption (option_row oid pollID i cols)) (\<lambda>_.
     insert_options pollType pollID (Suc i) opts)))"

definition Create ::
  "(string \<Rightarrow> string) \<Rightarrow> string \<Rightarrow> string \<Rightarrow> CreatePollInput \<Rightarrow> instant \<Rightarrow> PollView poll_tx" where
  "Create lower orgID userID i now =
     tx (of_result (CreatePollInput_Validate lower i)) (\<lambda>_.
     tx (lookup_or ErrForbidden (\<lambda>_. ParseInt orgID)) (\<lambda>g.
     tx (lookup_or ErrForbidden (\<lambda>_. ParseInt userID)) (\<lambda>u.
     tx (of_result (deadline_of (ci_deadline_at i))) (\<lambda>deadlineAt.
     tx NewID (\<lambda>pollID.
     let poll = new_poll pollID g u i deadlineAt now in
     tx (InsertPoll poll) (\<lambda>_.
     tx (insert_options (ci_type i) pollID 0 (ci_options i)) (\<lambda>_.
     tx (if deadlineAt = None then ret () else armDeadline pollID deadlineAt now) (\<lambda>_.
     tx (buildView poll userID) (\<lambda>view.
     tx (writes (recordStats [(StatsPollsCreated, 1)])) (\<lambda>_.
     tx (writes (ensureCreatorSubscriptionBestEffort pollID (p_created_by poll) now)) (\<lambda>_.
     ret view)))))))))))"

definition GetView :: "string \<Rightarrow> Viewer \<Rightarrow> PollView option poll_tx" where
  "GetView pollID viewer d =
     (case GetPoll pollID d of
        None \<Rightarrow> Inr (None, d)
      | Some poll \<Rightarrow> tx (buildView poll (vw_user viewer)) (\<lambda>v. ret (Some v)) d)"

record PollSummary =
  sm_id :: string
  sm_title :: string
  sm_type :: string
  sm_status :: string
  sm_deadline_at :: "string option"
  sm_participants :: nat
  sm_claims :: nat
  sm_created_at :: string
  sm_updated_at :: string

definition ListMine :: "string \<Rightarrow> PollSummary list poll_tx" where
  "ListMine orgID =
     tx (lookup_or ErrForbidden (\<lambda>_. ParseInt orgID)) (\<lambda>g.
     reads (\<lambda>d. map (\<lambda>r. let p = ps_poll r in
        \<lparr> sm_id = p_id p, sm_title = p_title p, sm_type = p_type p, sm_status = p_status p,
          sm_deadline_at = map_option formatISO (p_deadline_at p),
          sm_participants = ps_participants r, sm_claims = ps_claims r,
          sm_created_at = formatISO (p_created_at p), sm_updated_at = formatISO (p_updated_at p) \<rparr>)
       (ListPollSummariesByOrg g d)))"

subsection \<open>Editing\<close>

definition entity :: "string \<Rightarrow> json" where
  "entity e = JObj [(''entity'', JStr e)]"

definition emit_changed :: "string \<Rightarrow> string \<Rightarrow> unit poll_tx" where
  "emit_changed pollID e = Emit (poll_room pollID) ''poll.changed'' (entity e)"

definition merged_poll :: "Poll \<Rightarrow> UpdatePollInput \<Rightarrow> instant option \<Rightarrow> instant \<Rightarrow> Poll" where
  "merged_poll poll i deadlineAt now =
     poll\<lparr> p_title := (case ui_title i of None \<Rightarrow> p_title poll | Some t \<Rightarrow> TrimSpace t),
       p_description := (if ui_description i = None then p_description poll
                         else optionalTrimmedString (ui_description i)),
       p_location := (if ui_location i = None then p_location poll
                      else optionalTrimmedString (ui_location i)),
       p_timezone := or_default (p_timezone poll) (ui_timezone i),
       p_deadline_at := (if ui_deadline_set i then deadlineAt else p_deadline_at poll),
       p_require_email := or_default (p_require_email poll) (ui_require_email i),
       p_allow_comments := or_default (p_allow_comments poll) (ui_allow_comments i),
       p_allow_ifneedbe := or_default (p_allow_ifneedbe poll) (ui_allow_ifneedbe i),
       p_signup_max_claims := (case ui_signup_max_claims i of
          None \<Rightarrow> p_signup_max_claims poll | Some n \<Rightarrow> int32 n),
       p_updated_at := now \<rparr>"

definition known_option :: "PollOption list \<Rightarrow> string \<Rightarrow> PollOption option" where
  "known_option existing oid = (if oid = [] then None else tget o_id oid existing)"

definition yes_count :: "string \<Rightarrow> Vote list \<Rightarrow> nat" where
  "yes_count oid votes = tcount (\<lambda>v. v_option v = oid \<and> v_answer v = ''yes'') votes"

definition new_capacity :: "OptionInput \<Rightarrow> PollOption \<Rightarrow> int option" where
  "new_capacity opt ex =
     (if oi_capacity_set opt then map_option int32 (oi_capacity opt) else o_capacity ex)"

definition below_claims :: "PollOption list \<Rightarrow> Vote list \<Rightarrow> OptionInput \<Rightarrow> bool" where
  "below_claims existing votes opt \<longleftrightarrow>
     (case known_option existing (oi_id opt) of
        None \<Rightarrow> False
      | Some ex \<Rightarrow> (case new_capacity opt ex of
                      None \<Rightarrow> False
                    | Some c \<Rightarrow> c < int (yes_count (oi_id opt) votes)))"

fun write_options ::
  "PollOption list \<Rightarrow> string \<Rightarrow> string \<Rightarrow> nat \<Rightarrow> OptionInput list \<Rightarrow> string list poll_tx" where
  "write_options existing pollType pollID i [] = ret []"
| "write_options existing pollType pollID i (opt # opts) =
     (case known_option existing (oi_id opt) of
        Some ex \<Rightarrow>
          tx (of_result (pollOptionColumns opt pollType (o_capacity ex))) (\<lambda>cols.
          tx (UpdatePollOption (oi_id opt) (option_row (oi_id opt) pollID i cols)) (\<lambda>_.
          tx (write_options existing pollType pollID (Suc i) opts) (\<lambda>keep. ret (oi_id opt # keep))))
      | None \<Rightarrow>
          tx NewID (\<lambda>oid.
          tx (of_result (pollOptionColumns opt pollType (Some 1))) (\<lambda>cols.
          tx (InsertPollOption (option_row oid pollID i cols)) (\<lambda>_.
          tx (write_options existing pollType pollID (Suc i) opts) (\<lambda>keep. ret (oid # keep))))))"

definition replaceOptions :: "string \<Rightarrow> string \<Rightarrow> OptionInput list \<Rightarrow> unit poll_tx" where
  "replaceOptions pollID pollType options =
     tx (reads (ListOptionsByPoll pollID)) (\<lambda>existing.
     tx (if pollType = ''signup'' then
           tx (reads (ListVotesByPoll pollID)) (\<lambda>votes.
           ensure (\<not> (\<exists>opt \<in> set options. below_claims existing votes opt)) ErrCapacityBelowClaims)
         else ret ()) (\<lambda>_.
     tx (write_options existing pollType pollID 0 options) (\<lambda>keep.
     for_each (\<lambda>ex. if o_id ex \<in> set keep then ret () else DeletePollOption (o_id ex)) existing)))"

definition Update ::
  "(string \<Rightarrow> string) \<Rightarrow> string \<Rightarrow> string \<Rightarrow> UpdatePollInput \<Rightarrow> instant \<Rightarrow> PollView poll_tx" where
  "Update lower pollID orgID i now =
     tx (of_result (UpdatePollInput_Validate lower i)) (\<lambda>_.
     tx (requireOrgPoll pollID orgID) (\<lambda>poll.
     tx (ensure (\<not> (p_status poll = ''finalized'' \<and> ui_options i \<noteq> None)) ErrPollFinalized) (\<lambda>_.
     tx (of_result (if ui_deadline_set i then deadline_of (ui_deadline_at i) else Inr None)) (\<lambda>deadlineAt.
     let merged = merged_poll poll i deadlineAt now in
     tx (UpdatePollScalars pollID merged) (\<lambda>_.
     tx (case ui_options i of None \<Rightarrow> ret () | Some opts \<Rightarrow> replaceOptions pollID (p_type poll) opts) (\<lambda>_.
     tx (if ui_deadline_set i then armDeadline pollID (p_deadline_at merged) now else ret ()) (\<lambda>_.
     tx (emit_changed pollID ''poll'') (\<lambda>_.
     buildView merged []))))))))"

definition SetStatus :: "string \<Rightarrow> string \<Rightarrow> string \<Rightarrow> instant \<Rightarrow> unit poll_tx" where
  "SetStatus pollID orgID status now =
     tx (ensure (status = ''open'' \<or> status = ''closed'')
           (newValidationError ''status'' ''status must be one of open, closed'')) (\<lambda>_.
     tx (requireOrgPoll pollID orgID) (\<lambda>poll.
     tx (ensure (p_status poll \<noteq> ''finalized'') ErrPollFinalized) (\<lambda>_.
     tx (SetPollStatus pollID status now) (\<lambda>_.
     emit_changed pollID ''poll''))))"

subsection \<open>Deciding\<close>

text \<open>
  \<open>mail_participants\<close> and \<open>mail_subscribers\<close> are the two loops of \<open>FinalizeWithCount\<close>; each returns what
  it has seen and how many mails it queued.
\<close>

fun mail_participants ::
  "(string \<Rightarrow> string) \<Rightarrow> string \<Rightarrow> instant \<Rightarrow> Participant list \<Rightarrow> string list \<Rightarrow> nat \<Rightarrow> (string list \<times> nat) poll_tx"
where
  "mail_participants lower pollID now [] seenEmail sent = ret (seenEmail, sent)"
| "mail_participants lower pollID now (p # ps) seenEmail sent =
     (case pa_email p of
        None \<Rightarrow> mail_participants lower pollID now ps seenEmail sent
      | Some e \<Rightarrow>
          if lower e \<in> set seenEmail then mail_participants lower pollID now ps seenEmail sent
          else tx (enqueueMailPoll (mail_to_participant pollID ''finalized'' (pa_id p)) now) (\<lambda>_.
               mail_participants lower pollID now ps (lower e # seenEmail) (Suc sent)))"

definition mail_owner ::
  "(string \<Rightarrow> string) \<Rightarrow> Poll \<Rightarrow> instant \<Rightarrow> string list \<Rightarrow> nat \<Rightarrow> (string list \<times> nat) poll_tx" where
  "mail_owner lower poll now seenEmail sent d =
     (case Option.bind (p_created_by poll) (\<lambda>u. GetUser u d) of
        None \<Rightarrow> Inr (([], sent), d)
      | Some owner \<Rightarrow>
          (let ownerID = FormatInt (u_id owner)
           in if lower (u_email owner) \<in> set seenEmail then Inr (([ownerID], sent), d)
              else tx (enqueueMailPoll (mail_to_user (p_id poll) ''finalized'' ownerID []) now)
                     (\<lambda>_. ret ([ownerID], Suc sent)) d))"

fun mail_subscribers ::
  "string \<Rightarrow> instant \<Rightarrow> Recipient list \<Rightarrow> string list \<Rightarrow> nat \<Rightarrow> nat poll_tx" where
  "mail_subscribers pollID now [] seenUserID sent = ret sent"
| "mail_subscribers pollID now (r # rs) seenUserID sent =
     (if r_user r \<in> set seenUserID then mail_subscribers pollID now rs seenUserID sent
      else tx (enqueueMailPoll (mail_to_user pollID ''finalized'' (r_user r) []) now) (\<lambda>_.
           mail_subscribers pollID now rs (r_user r # seenUserID) (Suc sent)))"

definition FinalizeWithCount ::
  "(string \<Rightarrow> string) \<Rightarrow> (string \<Rightarrow> string) option \<Rightarrow> string \<Rightarrow> string \<Rightarrow> string \<Rightarrow> string \<Rightarrow> instant \<Rightarrow> nat poll_tx"
where
  "FinalizeWithCount lower source pollID orgID optionID actorUserID now =
     tx (requireOrgPoll pollID orgID) (\<lambda>poll.
     tx (ensure (p_type poll \<noteq> ''signup'')
           (newValidationError ''type'' ''signup polls cannot be finalized'')) (\<lambda>_.
     tx (ensure (p_status poll \<noteq> ''finalized'') ErrConflict) (\<lambda>_.
     tx (reads (ListOptionsByPoll pollID)) (\<lambda>options.
     tx (ensure (\<exists>po \<in> set options. o_id po = optionID) ErrNotFound) (\<lambda>_.
     tx (FinalizePoll pollID optionID ''finalized'' now) (\<lambda>_.
     tx (emit_changed pollID ''poll'') (\<lambda>_.
     tx (cancel_job ''poll.deadline'' (poll_room pollID)) (\<lambda>_.
     tx (cancel_job ''poll.reminder'' (poll_room pollID)) (\<lambda>_.
     tx (reads (ListParticipantsByPoll pollID)) (\<lambda>participants.
     tx (mail_participants lower pollID now participants [] 0) (\<lambda>(seenEmail, sent).
     tx (mail_owner lower poll now seenEmail sent) (\<lambda>(seenUserID, sent).
     tx (reads (resolveRecipients source (p_org poll) pollID ''poll.finalized'' actorUserID)) (\<lambda>recipients.
     tx (mail_subscribers pollID now recipients seenUserID sent) (\<lambda>sent.
     tx (writes (recordStats [(StatsPollsFinalized, 1)])) (\<lambda>_.
     ret sent)))))))))))))))"

definition Finalize ::
  "(string \<Rightarrow> string) \<Rightarrow> (string \<Rightarrow> string) option \<Rightarrow> string \<Rightarrow> string \<Rightarrow> string \<Rightarrow> string \<Rightarrow> instant \<Rightarrow> unit poll_tx"
where
  "Finalize lower source pollID orgID optionID actorUserID now =
     tx (FinalizeWithCount lower source pollID orgID optionID actorUserID now) (\<lambda>_. ret ())"

definition Delete :: "string \<Rightarrow> string \<Rightarrow> instant \<Rightarrow> unit poll_tx" where
  "Delete pollID orgID now =
     tx (requireOrgPoll pollID orgID) (\<lambda>_.
     tx (SoftDeletePoll pollID now) (\<lambda>_.
     tx (DeleteSubscriptionsByScope ''poll'' pollID) (\<lambda>_.
     tx (emit_changed pollID ''poll'') (\<lambda>_.
     tx (cancel_job ''poll.deadline'' (poll_room pollID)) (\<lambda>_.
     cancel_job ''poll.reminder'' (poll_room pollID))))))"

definition CloseExpired :: "string \<Rightarrow> instant \<Rightarrow> bool poll_tx" where
  "CloseExpired pollID now d =
     (case GetPoll pollID d of
        None \<Rightarrow> Inr (False, d)
      | Some poll \<Rightarrow>
          (if p_status poll \<noteq> ''open'' \<or> (case p_deadline_at poll of None \<Rightarrow> True | Some t \<Rightarrow> now < t)
           then Inr (False, d)
           else tx (SetPollStatus pollID ''closed'' now) (\<lambda>_.
                tx (emit_changed pollID ''poll'') (\<lambda>_. ret True)) d))"

subsection \<open>Copying\<close>

definition copy_poll :: "string \<Rightarrow> int \<Rightarrow> int \<Rightarrow> Poll \<Rightarrow> instant \<Rightarrow> Poll" where
  "copy_poll newID g u original now =
     \<lparr> p_id = newID, p_org = g, p_created_by = Some u, p_type = p_type original,
       p_title = p_title original @ '' (copy)'', p_description = p_description original,
       p_location = p_location original, p_timezone = p_timezone original, p_status = ''open'',
       p_deadline_at = None, p_finalized_option = None, p_require_email = p_require_email original,
       p_allow_comments = p_allow_comments original, p_allow_ifneedbe = p_allow_ifneedbe original,
       p_signup_max_claims = p_signup_max_claims original, p_created_at = now, p_updated_at = now,
       p_deleted_at = None, p_suspended_at = None \<rparr>"

definition Duplicate :: "string \<Rightarrow> string \<Rightarrow> string \<Rightarrow> instant \<Rightarrow> PollView poll_tx" where
  "Duplicate pollID orgID userID now =
     tx (lookup_or ErrForbidden (\<lambda>_. ParseInt orgID)) (\<lambda>g.
     tx (lookup_or ErrForbidden (\<lambda>_. ParseInt userID)) (\<lambda>u.
     tx (requireOrgPoll pollID orgID) (\<lambda>original.
     tx (reads (ListOptionsByPoll pollID)) (\<lambda>options.
     tx NewID (\<lambda>newID.
     let copy = copy_poll newID g u original now in
     tx (InsertPoll copy) (\<lambda>_.
     tx (for_each (\<lambda>po. tx NewID (\<lambda>oid. InsertPollOption (po\<lparr> o_id := oid, o_poll := newID \<rparr>))) options) (\<lambda>_.
     tx (buildView copy userID) (\<lambda>view.
     tx (writes (recordStats [(StatsPollsCreated, 1)])) (\<lambda>_.
     tx (writes (ensureCreatorSubscriptionBestEffort newID (p_created_by copy) now)) (\<lambda>_.
     tx (writes (copyNotificationOverrideBestEffort pollID newID u now)) (\<lambda>_.
     ret view)))))))))))"

end
