(* ===== verification/Participants.thy ===== *)
theory Participants
  imports Polls
begin

text \<open>
  Answers, comments and participants: \<^verbatim>\<open>internal/polls/participants.go\<close>, with the guard of
  \<^verbatim>\<open>handlers.go\<close> that keeps plain votes away from sign-up sheets. A map of answers is the list of its
  entries in the order the loop visits them.
\<close>

record ParticipantInput =
  pi_name_set :: bool
  pi_name :: string
  pi_email :: "string option"
  pi_answers :: "(string \<times> string) list"
  pi_locale :: "string option"

record ParticipantResult =
  pres_id :: string
  pres_guest :: bool

record CommentInput =
  cin_author :: string
  cin_body :: string

definition StatsResponsesYes :: string where "StatsResponsesYes = ''responsesYes''"

definition StatsFieldForAnswer :: "string \<Rightarrow> string option" where
  "StatsFieldForAnswer answer =
     (if answer = ''yes'' then Some StatsResponsesYes
      else if answer = ''ifneedbe'' then Some ''responsesIfNeedBe''
      else if answer = ''no'' then Some ''responsesNo''
      else None)"

definition tallyAnswerStats :: "(string \<times> string) list \<Rightarrow> (string \<times> int) list" where
  "tallyAnswerStats answers =
     List.map_filter (\<lambda>(_, a). map_option (\<lambda>f. (f, 1)) (StatsFieldForAnswer a)) answers"

definition user_column :: "string \<Rightarrow> int option poll_tx" where
  "user_column userID =
     (if userID = [] then ret None
      else tx (lookup_or ErrForbidden (\<lambda>_. ParseInt userID)) (\<lambda>u. ret (Some u)))"

definition cast_votes :: "string \<Rightarrow> (string \<times> string) list \<Rightarrow> unit poll_tx" where
  "cast_votes pid answers =
     for_each (\<lambda>(oid, a). UpsertVote \<lparr> v_participant = pid, v_option = oid, v_answer = a \<rparr>) answers"

definition new_participant ::
  "string \<Rightarrow> string \<Rightarrow> string \<Rightarrow> string \<Rightarrow> int option \<Rightarrow> string option \<Rightarrow> instant \<Rightarrow> Participant" where
  "new_participant pid pollID name email u loc now =
     \<lparr> pa_id = pid, pa_poll = pollID, pa_name = name,
       pa_email = (if email = [] then None else Some email), pa_user = u, pa_locale = loc,
       pa_created_at = now, pa_updated_at = now \<rparr>"

definition AddParticipant ::
  "string \<Rightarrow> ParticipantInput \<Rightarrow> Viewer \<Rightarrow> instant \<Rightarrow> ParticipantResult poll_tx" where
  "AddParticipant pollID i viewer now =
     tx (requireOpenPollTx pollID) (\<lambda>poll.
     let trimmedEmail = trimmed_or_empty (pi_email i) in
     tx (ensure (\<not> (p_require_email poll \<and> trimmedEmail = [])) ErrEmailRequired) (\<lambda>_.
     tx (reads (ListParticipantsByPoll pollID)) (\<lambda>existing.
     tx (ensure (length existing < LimitParticipants) ErrLimitReached) (\<lambda>_.
     tx (validateAnswersTx pollID (pi_answers i) (p_allow_ifneedbe poll)) (\<lambda>_.
     tx NewID (\<lambda>pid.
     tx (user_column (vw_user viewer)) (\<lambda>u.
     tx (InsertParticipant (new_participant pid pollID (pi_name i) trimmedEmail u (pi_locale i) now)) (\<lambda>_.
     tx (cast_votes pid (pi_answers i)) (\<lambda>_.
     tx (emit_changed pollID ''participant'') (\<lambda>_.
     tx (writes (recordStats (tallyAnswerStats (pi_answers i)))) (\<lambda>_.
     ret \<lparr> pres_id = pid, pres_guest = (vw_user viewer = []) \<rparr>)))))))))))"

definition UpdateParticipant ::
  "string \<Rightarrow> string \<Rightarrow> ParticipantInput \<Rightarrow> Viewer \<Rightarrow> instant \<Rightarrow> unit poll_tx" where
  "UpdateParticipant pollID participantID i viewer now =
     tx (requireParticipantInPollTx pollID participantID) (\<lambda>participant.
     tx (requireOpenPollTx pollID) (\<lambda>poll.
     tx (reads (canManagePoll (p_org poll) (p_created_by poll) (vw_user viewer))) (\<lambda>canManage.
     tx (ensure (participantAuthorized participant viewer canManage) ErrForbidden) (\<lambda>_.
     tx (validateAnswersTx pollID (pi_answers i) (p_allow_ifneedbe poll)) (\<lambda>_.
     tx (UpdateParticipantName participantID
           (if pi_name_set i then pi_name i else pa_name participant) now) (\<lambda>_.
     tx (DeleteVotesByParticipant participantID) (\<lambda>_.
     tx (cast_votes participantID (pi_answers i)) (\<lambda>_.
     tx (emit_changed pollID ''vote'') (\<lambda>_.
     writes (recordStats (tallyAnswerStats (pi_answers i))))))))))))"

definition RemoveParticipant :: "string \<Rightarrow> string \<Rightarrow> Viewer \<Rightarrow> unit poll_tx" where
  "RemoveParticipant pollID participantID viewer =
     tx (requireParticipantInPollTx pollID participantID) (\<lambda>participant.
     tx (lookup_or ErrNotFound (GetPoll pollID)) (\<lambda>poll.
     tx (reads (canManagePoll (p_org poll) (p_created_by poll) (vw_user viewer))) (\<lambda>canManage.
     tx (ensure (canManage \<or> p_status poll = ''open'') ErrPollClosed) (\<lambda>_.
     tx (ensure (participantAuthorized participant viewer canManage) ErrForbidden) (\<lambda>_.
     tx (DeleteParticipant participantID) (\<lambda>_.
     emit_changed pollID ''participant''))))))"

definition comment_participant :: "string \<Rightarrow> Viewer \<Rightarrow> db \<Rightarrow> string option" where
  "comment_participant pollID viewer d =
     (if vw_guest viewer = [] then None
      else case GetParticipant (vw_guest viewer) d of
             None \<Rightarrow> None
           | Some p \<Rightarrow> if pa_poll p = pollID then Some (pa_id p) else None)"

definition AddComment :: "string \<Rightarrow> CommentInput \<Rightarrow> Viewer \<Rightarrow> instant \<Rightarrow> Comment poll_tx" where
  "AddComment pollID i viewer now =
     tx (lookup_or ErrNotFound (GetPoll pollID)) (\<lambda>poll.
     tx (ensure (p_allow_comments poll) ErrForbidden) (\<lambda>_.
     tx (reads (comment_participant pollID viewer)) (\<lambda>participant.
     tx (user_column (vw_user viewer)) (\<lambda>u.
     tx NewID (\<lambda>cid.
     let c = \<lparr> c_id = cid, c_poll = pollID, c_author_name = cin_author i, c_participant = participant,
               c_user = u, c_body = cin_body i, c_created_at = now, c_deleted_at = None \<rparr> in
     tx (InsertComment c) (\<lambda>_.
     tx (emit_changed pollID ''comment'') (\<lambda>_.
     ret c)))))))"

definition DeleteComment :: "string \<Rightarrow> string \<Rightarrow> Viewer \<Rightarrow> instant \<Rightarrow> unit poll_tx" where
  "DeleteComment pollID commentID viewer now =
     tx (lookup_or ErrNotFound (GetComment commentID)) (\<lambda>comment.
     tx (ensure (c_poll comment = pollID) ErrNotFound) (\<lambda>_.
     tx (lookup_or ErrNotFound (GetPoll pollID)) (\<lambda>poll.
     tx (reads (canManagePoll (p_org poll) (p_created_by poll) (vw_user viewer))) (\<lambda>canManage.
     tx (ensure (canManage \<or> own_user (vw_user viewer) (c_user comment)) ErrForbidden) (\<lambda>_.
     tx (SoftDeleteComment commentID pollID now) (\<lambda>_.
     emit_changed pollID ''comment''))))))"

subsection \<open>The handlers in front of them\<close>

definition requireNotSignupPollHTTP :: "string \<Rightarrow> unit poll_tx" where
  "requireNotSignupPollHTTP pollID =
     tx (lookup_or ErrNotFound (GetPoll pollID)) (\<lambda>poll.
     ensure (p_type poll \<noteq> ''signup'')
       (newValidationError ''type'' ''signup polls only accept votes via claim''))"

definition bestEffortParticipantName :: "string \<Rightarrow> db \<Rightarrow> string" where
  "bestEffortParticipantName pid d =
     (if pid = [] then [] else case GetParticipant pid d of None \<Rightarrow> [] | Some p \<Rightarrow> pa_name p)"

end
