(* ===== verification/Claims.thy ===== *)
theory Claims
  imports Participants
begin

text \<open>
  Sign-up sheets: \<^verbatim>\<open>internal/polls/claims.go\<close> and the routing of \<^verbatim>\<open>handleUnclaim\<close>. A claim is a
  \<^verbatim>\<open>yes\<close> vote. Every method is one step: the code takes the row lock of the option (and of an existing
  participant) before it reads the counts it decides on, so two claims of one option serialize.
\<close>

record ClaimInput =
  cli_participant :: string
  cli_name :: string
  cli_email :: "string option"
  cli_locale :: "string option"

record ClaimResult =
  cr_participant :: string
  cr_created :: bool
  cr_guest :: bool
  cr_claimed :: "string list"
  cr_changed :: bool

record preparedParticipant =
  pp_id :: string
  pp_name :: string
  pp_email :: "string option"
  pp_locale :: "string option"

definition prepareNewParticipant ::
  "string \<Rightarrow> Poll \<Rightarrow> string \<Rightarrow> string option \<Rightarrow> string option \<Rightarrow> preparedParticipant poll_tx" where
  "prepareNewParticipant pollID poll name email loc =
     (let trimmedName = TrimSpace name; trimmedEmail = trimmed_or_empty email in
      tx (ensure (trimmedName \<noteq> []) (newValidationError ''name'' ''name is required'')) (\<lambda>_.
      tx (ensure (\<not> (p_require_email poll \<and> trimmedEmail = [])) ErrEmailRequired) (\<lambda>_.
      tx (reads (ListParticipantsByPoll pollID)) (\<lambda>existing.
      tx (ensure (length existing < LimitParticipants) ErrLimitReached) (\<lambda>_.
      tx NewID (\<lambda>pid.
      ret \<lparr> pp_id = pid, pp_name = trimmedName,
            pp_email = (if trimmedEmail = [] then None else Some trimmedEmail), pp_locale = loc \<rparr>))))))"

definition requireSignupPollTx :: "string \<Rightarrow> bool \<Rightarrow> Poll poll_tx" where
  "requireSignupPollTx pollID allowClosed =
     tx (lookup_or ErrNotFound (GetPoll pollID)) (\<lambda>poll.
     tx (ensure (p_type poll = ''signup'')
           (newValidationError ''type'' ''poll must be a sign-up sheet'')) (\<lambda>_.
     tx (ensure (allowClosed \<or> p_status poll = ''open'') ErrPollClosed) (\<lambda>_. ret poll)))"

text \<open>
  The claimant: an existing participant with whether it is a guest, or a new one, prepared and not
  yet written.
\<close>

datatype claimant = Existing string bool | Fresh preparedParticipant bool

fun claimant_id :: "claimant \<Rightarrow> string" where
  "claimant_id (Existing pid _) = pid"
| "claimant_id (Fresh p _) = pp_id p"

definition resolveClaimant :: "string \<Rightarrow> Poll \<Rightarrow> ClaimInput \<Rightarrow> Viewer \<Rightarrow> claimant poll_tx" where
  "resolveClaimant pollID poll i viewer =
     (if cli_participant i \<noteq> [] then
        tx (lookup_or ErrNotFound (GetParticipant (cli_participant i))) (\<lambda>participant.
        tx (ensure (pa_poll participant = pollID) ErrNotFound) (\<lambda>_.
        tx (reads (canManagePoll (p_org poll) (p_created_by poll) (vw_user viewer))) (\<lambda>canManage.
        tx (ensure (participantAuthorized participant viewer canManage) ErrForbidden) (\<lambda>_.
        ret (Existing (pa_id participant) (pa_user participant = None))))))
      else if vw_user viewer \<noteq> [] then
        tx (lookup_or ErrForbidden (\<lambda>_. ParseInt (vw_user viewer))) (\<lambda>u.
        tx (reads (GetParticipantByPollAndUser pollID u)) (\<lambda>existing.
        case existing of
          Some p \<Rightarrow> ret (Existing (pa_id p) False)
        | None \<Rightarrow>
            tx (prepareNewParticipant pollID poll (cli_name i) (cli_email i) (cli_locale i))
              (\<lambda>p. ret (Fresh p False))))
      else
        tx (prepareNewParticipant pollID poll (cli_name i) (cli_email i) (cli_locale i))
          (\<lambda>p. ret (Fresh p True)))"

definition insert_claimant :: "string \<Rightarrow> Viewer \<Rightarrow> instant \<Rightarrow> claimant \<Rightarrow> unit poll_tx" where
  "insert_claimant pollID viewer now c =
     (case c of
        Existing _ _ \<Rightarrow> ret ()
      | Fresh p isGuest \<Rightarrow> InsertParticipant
          \<lparr> pa_id = pp_id p, pa_poll = pollID, pa_name = pp_name p, pa_email = pp_email p,
            pa_user = (if isGuest then None else ParseInt (vw_user viewer)), pa_locale = pp_locale p,
            pa_created_at = now, pa_updated_at = now \<rparr>)"

definition lock_claimant :: "claimant \<Rightarrow> unit poll_tx" where
  "lock_claimant c =
     (case c of
        Existing pid _ \<Rightarrow> tx (lookup_or (ErrDb ''no rows'') (GetParticipantForUpdate pid)) (\<lambda>_. ret ())
      | Fresh _ _ \<Rightarrow> ret ())"

fun claim_result :: "claimant \<Rightarrow> string list \<Rightarrow> bool \<Rightarrow> ClaimResult" where
  "claim_result (Existing pid g) claimed changed =
     \<lparr> cr_participant = pid, cr_created = False, cr_guest = g, cr_claimed = claimed, cr_changed = changed \<rparr>"
| "claim_result (Fresh p g) claimed changed =
     \<lparr> cr_participant = pp_id p, cr_created = True, cr_guest = g, cr_claimed = claimed, cr_changed = changed \<rparr>"

definition capacity_left :: "PollOption \<Rightarrow> db \<Rightarrow> bool" where
  "capacity_left opt d \<longleftrightarrow>
     (case o_capacity opt of
        None \<Rightarrow> True
      | Some c \<Rightarrow> int (CountYesVotesForOption (o_id opt) d) < c)"

definition Claim ::
  "string \<Rightarrow> string \<Rightarrow> ClaimInput \<Rightarrow> Viewer \<Rightarrow> instant \<Rightarrow> ClaimResult poll_tx" where
  "Claim pollID optionID i viewer now =
     tx (requireSignupPollTx pollID False) (\<lambda>poll.
     tx (lookup_or ErrNotFound (GetPollOptionForUpdate optionID)) (\<lambda>opt.
     tx (ensure (o_poll opt = pollID) ErrNotFound) (\<lambda>_.
     tx (resolveClaimant pollID poll i viewer) (\<lambda>c.
     tx (lock_claimant c) (\<lambda>_.
     tx (reads (ListVotesByParticipant (claimant_id c))) (\<lambda>existingVotes.
     let claimed = map v_option existingVotes; already = (optionID \<in> set claimed) in
     tx (ensure (already \<or> int (length claimed) < p_signup_max_claims poll) ErrClaimLimitReached) (\<lambda>_.
     tx (reads (capacity_left opt)) (\<lambda>left.
     tx (ensure (already \<or> left) ErrCapacityFull) (\<lambda>_.
     if already then ret (claim_result c claimed False)
     else
       tx (insert_claimant pollID viewer now c) (\<lambda>_.
       tx (UpsertVote \<lparr> v_participant = claimant_id c, v_option = optionID, v_answer = ''yes'' \<rparr>) (\<lambda>_.
       tx (emit_changed pollID ''vote'') (\<lambda>_.
       tx (enqueueMailPoll (mail_to_participant pollID ''claim_confirmation'' (claimant_id c)) now) (\<lambda>_.
       tx (writes (recordStats [(StatsResponsesYes, 1)])) (\<lambda>_.
       ret (claim_result c (claimed @ [optionID]) True)))))))))))))))"

definition unclaim_target :: "string \<Rightarrow> string \<Rightarrow> Viewer \<Rightarrow> bool \<Rightarrow> string poll_tx" where
  "unclaim_target pollID targetParticipantID viewer canManage =
     (if targetParticipantID \<noteq> [] then
        tx (ensure canManage ErrForbidden) (\<lambda>_.
        tx (lookup_or ErrNotFound (GetParticipant targetParticipantID)) (\<lambda>target.
        tx (ensure (pa_poll target = pollID) ErrNotFound) (\<lambda>_. ret (pa_id target))))
      else if vw_guest viewer \<noteq> [] then ret (vw_guest viewer)
      else if vw_user viewer \<noteq> [] then
        tx (lookup_or ErrForbidden (\<lambda>_. ParseInt (vw_user viewer))) (\<lambda>u.
        tx (lookup_or ErrNotFound (GetParticipantByPollAndUser pollID u)) (\<lambda>p. ret (pa_id p)))
      else raise ErrForbidden)"

definition unclaim :: "string \<Rightarrow> string \<Rightarrow> string \<Rightarrow> Viewer \<Rightarrow> instant \<Rightarrow> unit poll_tx" where
  "unclaim pollID optionID targetParticipantID viewer now =
     tx (lookup_or ErrNotFound (GetPoll pollID)) (\<lambda>poll.
     tx (ensure (p_type poll = ''signup'')
           (newValidationError ''type'' ''poll must be a sign-up sheet'')) (\<lambda>_.
     tx (reads (canManagePoll (p_org poll) (p_created_by poll) (vw_user viewer))) (\<lambda>canManage.
     tx (unclaim_target pollID targetParticipantID viewer canManage) (\<lambda>pid.
     tx (ensure (canManage \<or> p_status poll = ''open'') ErrPollClosed) (\<lambda>_.
     tx (DeleteVote pid optionID) (\<lambda>_.
     tx (emit_changed pollID ''vote'') (\<lambda>_.
     enqueueMailPoll (mail_to_participant pollID ''claim_confirmation'' pid) now)))))))"

definition Unclaim :: "string \<Rightarrow> string \<Rightarrow> Viewer \<Rightarrow> instant \<Rightarrow> unit poll_tx" where
  "Unclaim pollID optionID viewer now = unclaim pollID optionID [] viewer now"

definition UnclaimFor :: "string \<Rightarrow> string \<Rightarrow> string \<Rightarrow> Viewer \<Rightarrow> instant \<Rightarrow> unit poll_tx" where
  "UnclaimFor pollID optionID targetParticipantID viewer now =
     (if targetParticipantID = [] then raise ErrForbidden
      else unclaim pollID optionID targetParticipantID viewer now)"

definition SignupFull :: "string \<Rightarrow> db \<Rightarrow> bool" where
  "SignupFull pollID d =
     (let options = ListOptionsByPoll pollID d; votes = ListVotesByPoll pollID d
      in if options = [] then False
         else if \<exists>po \<in> set options. o_capacity po = None then False
         else \<not> (\<exists>po \<in> set options. case o_capacity po of None \<Rightarrow> False
                     | Some c \<Rightarrow> int (yes_count (o_id po) votes) < c))"

definition selfParticipantID :: "string \<Rightarrow> Viewer \<Rightarrow> db \<Rightarrow> string" where
  "selfParticipantID pollID viewer d =
     (if vw_guest viewer \<noteq> [] then vw_guest viewer
      else if vw_user viewer = [] then []
      else case ParseInt (vw_user viewer) of
             None \<Rightarrow> []
           | Some u \<Rightarrow> (case GetParticipantByPollAndUser pollID u d of None \<Rightarrow> [] | Some p \<Rightarrow> pa_id p))"

definition resolveUnclaimActorName :: "string \<Rightarrow> string \<Rightarrow> Viewer \<Rightarrow> db \<Rightarrow> string" where
  "resolveUnclaimActorName pollID target viewer d =
     (if target \<noteq> [] then bestEffortParticipantName target d
      else bestEffortParticipantName (selfParticipantID pollID viewer d) d)"

end
