(* ===== verification/Digest.thy ===== *)
theory Digest
  imports Claims
begin

text \<open>
  The poll's jobs: \<^verbatim>\<open>internal/polls/timers.go\<close>. The deadline and reminder jobs, and the debounced digest,
  whose accumulator is the payload of the poll's pending \<^verbatim>\<open>poll.digest\<close> row. Payloads are the JSON the
  code writes; the decoders follow \<^verbatim>\<open>encoding/json\<close>: an absent or null field is its zero value, a
  field of another type is an error. Both digest operations hold the poll's advisory lock for their
  whole transaction, so each is one step.
\<close>

subsection \<open>Payloads\<close>

definition json_of_digest :: "string \<Rightarrow> DigestItem list \<Rightarrow> json" where
  "json_of_digest pollID items = JObj [(''pollId'', JStr pollID), (''items'', JArr (map json_of_item items))]"

definition field_str :: "(string \<times> json) list \<Rightarrow> string \<Rightarrow> string option" where
  "field_str fs k = (case map_of fs k of
      None \<Rightarrow> Some [] | Some JNull \<Rightarrow> Some [] | Some (JStr s) \<Rightarrow> Some s | Some _ \<Rightarrow> None)"

fun decode_item :: "json \<Rightarrow> DigestItem option" where
  "decode_item (JObj fs) =
     Option.bind (field_str fs ''event'') (\<lambda>e. Option.bind (field_str fs ''name'') (\<lambda>n.
     Option.bind (field_str fs ''actorUserId'') (\<lambda>a.
     Some \<lparr> di_event = e, di_name = n, di_actor = a \<rparr>)))"
| "decode_item JNull = Some \<lparr> di_event = [], di_name = [], di_actor = [] \<rparr>"
| "decode_item _ = None"

definition decode_items :: "(string \<times> json) list \<Rightarrow> DigestItem list option" where
  "decode_items fs = (case map_of fs ''items'' of
      None \<Rightarrow> Some [] | Some JNull \<Rightarrow> Some [] | Some (JArr xs) \<Rightarrow> those (map decode_item xs) | Some _ \<Rightarrow> None)"

fun decode_digest :: "json \<Rightarrow> (string \<times> DigestItem list) option" where
  "decode_digest (JObj fs) =
     Option.bind (field_str fs ''pollId'') (\<lambda>p. Option.bind (decode_items fs) (\<lambda>xs. Some (p, xs)))"
| "decode_digest JNull = Some ([], [])"
| "decode_digest _ = None"

definition digest_items :: "job \<Rightarrow> DigestItem list option" where
  "digest_items j = (case job_payload j of None \<Rightarrow> Some [] | Some v \<Rightarrow> map_option snd (decode_digest v))"

fun decode_pollID :: "json \<Rightarrow> string option" where
  "decode_pollID (JObj fs) = field_str fs ''pollId''"
| "decode_pollID JNull = Some []"
| "decode_pollID _ = None"

subsection \<open>Queueing an item\<close>

definition EnqueueDigestItem :: "string \<Rightarrow> DigestItem \<Rightarrow> instant \<Rightarrow> unit poll_tx" where
  "EnqueueDigestItem pollID item now =
     tx (ensure (isDigestEvent (di_event item)) (ErrDb ''polls: not a digest-batched event'')) (\<lambda>_.
     tx (reads (\<lambda>d. pending ''poll.digest'' (poll_room pollID) (db_jobs d))) (\<lambda>row.
     tx (lookup_or (ErrDb ''polls: decode poll.digest payload'')
           (\<lambda>_. case row of None \<Rightarrow> Some [] | Some j \<Rightarrow> digest_items j)) (\<lambda>items.
     schedule_job
       \<lparr> si_kind = ''poll.digest'', si_room = Some (poll_room pollID),
         si_run_at = (case row of
            None \<Rightarrow> now + digestDelay
          | Some j \<Rightarrow> if items = [] then now + digestDelay else job_run_at j),
         si_payload = Some (json_of_digest pollID (items @ [item])), si_max_attempts = 0 \<rparr>)))"

definition enqueueDigestBestEffort :: "string \<Rightarrow> DigestItem \<Rightarrow> instant \<Rightarrow> db \<Rightarrow> db" where
  "enqueueDigestBestEffort pollID item now d = commit d (EnqueueDigestItem pollID item now d)"

subsection \<open>Sending a digest\<close>

fun add_to_bucket ::
  "string \<Rightarrow> DigestItem \<Rightarrow> (string \<times> DigestItem list) list \<Rightarrow> (string \<times> DigestItem list) list" where
  "add_to_bucket uid item [] = [(uid, [item])]"
| "add_to_bucket uid item ((u, xs) # bs) =
     (if u = uid then (u, xs @ [item]) # bs else (u, xs) # add_to_bucket uid item bs)"

definition bucket_item ::
  "(string \<Rightarrow> Recipient list) \<Rightarrow> DigestItem \<Rightarrow> (string \<times> DigestItem list) list \<Rightarrow> (string \<times> DigestItem list) list"
where
  "bucket_item perEvent item bs =
     fold (\<lambda>r bs. if r_user r = di_actor item then bs else add_to_bucket (r_user r) item bs)
       (perEvent (di_event item)) bs"

definition digest_buckets ::
  "(string \<Rightarrow> Recipient list) \<Rightarrow> DigestItem list \<Rightarrow> (string \<times> DigestItem list) list" where
  "digest_buckets perEvent items = fold (bucket_item perEvent) items []"

definition fanOutDigestItems ::
  "(string \<Rightarrow> string) option \<Rightarrow> string \<Rightarrow> DigestItem list \<Rightarrow> instant \<Rightarrow> unit poll_tx" where
  "fanOutDigestItems source pollID items now d =
     (case GetPoll pollID d of
        None \<Rightarrow> Inr ((), d)
      | Some poll \<Rightarrow>
          (if items = [] then Inr ((), d)
           else for_each (\<lambda>(uid, xs). enqueueMailPoll (mail_to_user pollID ''digest'' uid xs) now)
                  (digest_buckets (\<lambda>event. resolveRecipients source (p_org poll) pollID event [] d) items) d))"

definition processDigestJob ::
  "(string \<Rightarrow> string) option \<Rightarrow> string \<Rightarrow> string \<Rightarrow> DigestItem list \<Rightarrow> instant \<Rightarrow> unit poll_tx" where
  "processDigestJob source jobID pollID items now d =
     (if \<exists>j \<in> set (db_jobs d). job_id j = jobID \<and> job_kind j = ''poll.digest'' then
        tx (writes (\<lambda>d. d\<lparr> db_jobs := tupd (\<lambda>j. job_id j = jobID \<and> job_kind j = ''poll.digest'')
              (\<lambda>j. j\<lparr> job_payload := Some (json_of_digest pollID []) \<rparr>) (db_jobs d) \<rparr>))
          (\<lambda>_. fanOutDigestItems source pollID items now) d
      else Inr ((), d))"

subsection \<open>Deadline and reminder\<close>

definition suspendedDeadlineRecheck :: duration where "suspendedDeadlineRecheck = Hour"

definition deferDeadlineIfSuspended :: "string \<Rightarrow> instant \<Rightarrow> bool poll_tx" where
  "deferDeadlineIfSuspended pollID now =
     tx (reads (PollSuspended pollID)) (\<lambda>suspended.
     if \<not> suspended then ret False
     else tx (schedule_job (timer_input ''poll.deadline'' pollID (now + suspendedDeadlineRecheck)))
            (\<lambda>_. ret True))"

definition mail_event ::
  "(string \<Rightarrow> string) option \<Rightarrow> string \<Rightarrow> string \<Rightarrow> string \<Rightarrow> instant \<Rightarrow> unit poll_tx" where
  "mail_event source pollID event template now d =
     (case GetPoll pollID d of
        None \<Rightarrow> Inr ((), d)
      | Some poll \<Rightarrow>
          for_each (\<lambda>r. enqueueMailPoll (mail_to_user pollID template (r_user r) []) now)
            (resolveRecipients source (p_org poll) pollID event [] d) d)"

definition handleDeadlineJob :: "(string \<Rightarrow> string) option \<Rightarrow> string \<Rightarrow> instant \<Rightarrow> unit poll_tx" where
  "handleDeadlineJob source pollID now =
     tx (CloseExpired pollID now) (\<lambda>changed.
     if \<not> changed then ret () else mail_event source pollID ''poll.closed'' ''closed'' now)"

definition handleReminderJob :: "(string \<Rightarrow> string) option \<Rightarrow> string \<Rightarrow> instant \<Rightarrow> unit poll_tx" where
  "handleReminderJob source pollID now =
     mail_event source pollID ''deadline.approaching'' ''deadline.approaching'' now"

text \<open>
  The four registered handlers; \<open>send\<close> is the mail half of \<^verbatim>\<open>mail:poll\<close>, which leaves the database alone.
\<close>

definition poll_job :: "(string \<Rightarrow> string) option \<Rightarrow> (json \<Rightarrow> bool) \<Rightarrow> job \<Rightarrow> instant \<Rightarrow> unit poll_tx" where
  "poll_job source send j now =
     (let payload = job_payload j;
          pollID = lookup_or (ErrDb ''polls: decode payload'') (\<lambda>_. Option.bind payload decode_pollID)
      in if job_kind j = ''poll.deadline'' then
           tx pollID (\<lambda>i. tx (deferDeadlineIfSuspended i now) (\<lambda>deferred.
             if deferred then ret () else handleDeadlineJob source i now))
         else if job_kind j = ''poll.reminder'' then tx pollID (\<lambda>i. handleReminderJob source i now)
         else if job_kind j = ''poll.digest'' then
           tx (lookup_or (ErrDb ''polls: decode poll.digest payload'') (\<lambda>_. Option.bind payload decode_digest))
             (\<lambda>(i, items). processDigestJob source (job_id j) i items now)
         else if job_kind j = ''mail:poll'' then 
           tx (lookup_or (ErrDb ''polls: decode mail:poll payload'') (\<lambda>_. payload))
             (\<lambda>v. ensure (send v) (ErrDb ''mail:poll''))
         else raise (ErrDb ''no handler registered''))"

subsection \<open>The lines of a digest mail\<close>

record DigestLine =
  dl_event :: string
  dl_names :: "string list"
  dl_count :: nat

definition add_name :: "string \<Rightarrow> string list \<Rightarrow> string list" where
  "add_name n ns = (if n \<noteq> [] \<and> n \<notin> set ns then ns @ [n] else ns)"

fun add_line :: "DigestItem \<Rightarrow> DigestLine list \<Rightarrow> DigestLine list" where
  "add_line item [] = [\<lparr> dl_event = di_event item, dl_names = add_name (di_name item) [], dl_count = 1 \<rparr>]"
| "add_line item (l # ls) =
     (if dl_event l = di_event item
      then l\<lparr> dl_names := add_name (di_name item) (dl_names l), dl_count := dl_count l + 1 \<rparr> # ls
      else l # add_line item ls)"

definition buildDigestLines :: "DigestItem list \<Rightarrow> DigestLine list" where
  "buildDigestLines items = fold add_line items []"

subsection \<open>The payload reads back\<close>

lemma field_str_cases:
  "map_of fs k = None \<Longrightarrow> field_str fs k = Some []"
  "map_of fs k = Some (JStr s) \<Longrightarrow> field_str fs k = Some s"
  by (simp_all add: field_str_def)

lemma decode_json_of_item: "decode_item (json_of_item i) = Some i"
  by (cases i) (auto simp: json_of_item_def omitempty_def field_str_def)

lemma those_Some: "(\<And>x. x \<in> set xs \<Longrightarrow> f (g x) = Some x) \<Longrightarrow> those (map f (map g xs)) = Some xs"
  by (induction xs) auto

lemma decode_digest_payload: "decode_digest (json_of_digest pollID items) = Some (pollID, items)"
proof -
  have "those (map decode_item (map json_of_item items)) = Some items"
    by (rule those_Some) (rule decode_json_of_item)
  then show ?thesis by (simp add: json_of_digest_def decode_items_def field_str_def)
qed

text \<open>The digest accumulator survives its own storage: the JSON payload of a digest row decodes to
  exactly the poll and the items that were put in, empty names and actors included.\<close>

lemma digest_payload_roundtrip: "decode_digest (json_of_digest pollID items) = Some (pollID, items)"
  by (rule decode_digest_payload)

subsection \<open>Who gets which items\<close>

definition bucket_at :: "string \<Rightarrow> (string \<times> DigestItem list) list \<Rightarrow> DigestItem list" where
  "bucket_at uid bs = (case map_of bs uid of None \<Rightarrow> [] | Some xs \<Rightarrow> xs)"

definition buckets_ok :: "(string \<times> DigestItem list) list \<Rightarrow> bool" where
  "buckets_ok bs \<longleftrightarrow> distinct (map fst bs) \<and> (\<forall>(_, xs) \<in> set bs. xs \<noteq> [])"

lemma add_to_bucket_keys: "fst ` set (add_to_bucket uid item bs) = insert uid (fst ` set bs)"
  by (induction uid item bs rule: add_to_bucket.induct) auto

lemma buckets_ok_Cons: "buckets_ok ((u, xs) # bs) \<longleftrightarrow> u \<notin> fst ` set bs \<and> xs \<noteq> [] \<and> buckets_ok bs"
  by (auto simp: buckets_ok_def)

lemma buckets_ok_Nil: "buckets_ok []"
  by (simp add: buckets_ok_def)

lemma add_to_bucket_ok: "buckets_ok bs \<Longrightarrow> buckets_ok (add_to_bucket uid item bs)"
  by (induction uid item bs rule: add_to_bucket.induct)
     (auto simp: buckets_ok_Cons add_to_bucket_keys buckets_ok_Nil)

lemma bucket_at_simps:
  "bucket_at u [] = []" "bucket_at u ((a, xs) # bs) = (if u = a then xs else bucket_at u bs)"
  by (simp_all add: bucket_at_def)

lemma bucket_at_add:
  "bucket_at u (add_to_bucket uid item bs) = bucket_at u bs @ (if u = uid then [item] else [])"
  by (induction uid item bs rule: add_to_bucket.induct) (auto simp: bucket_at_simps)

definition receives :: "(string \<Rightarrow> Recipient list) \<Rightarrow> string \<Rightarrow> DigestItem \<Rightarrow> bool" where
  "receives perEvent uid item \<longleftrightarrow> uid \<in> r_user ` set (perEvent (di_event item)) \<and> uid \<noteq> di_actor item"

lemma bucket_item_spec:
  assumes "buckets_ok bs" and "distinct (map r_user rs)"
  shows "buckets_ok (fold (\<lambda>r bs. if r_user r = di_actor item then bs else add_to_bucket (r_user r) item bs) rs bs) \<and>
    bucket_at u (fold (\<lambda>r bs. if r_user r = di_actor item then bs else add_to_bucket (r_user r) item bs) rs bs) =
      bucket_at u bs @ (if u \<in> r_user ` set rs \<and> u \<noteq> di_actor item then [item] else [])"
  using assms
proof (induction rs arbitrary: bs)
  case (Cons r rs)
  then show ?case
    using Cons.IH [of "if r_user r = di_actor item then bs else add_to_bucket (r_user r) item bs"]
    by (auto simp: bucket_at_add add_to_bucket_ok split: if_splits)
qed simp

lemma digest_buckets_spec:
  assumes "\<forall>e. distinct (map r_user (perEvent e))" and "buckets_ok bs"
  shows "buckets_ok (fold (bucket_item perEvent) items bs) \<and>
    bucket_at u (fold (bucket_item perEvent) items bs) = bucket_at u bs @ filter (receives perEvent u) items"
  using assms(2)
proof (induction items arbitrary: bs)
  case (Cons item items)
  have "buckets_ok (bucket_item perEvent item bs)"
    "bucket_at u (bucket_item perEvent item bs) = bucket_at u bs @ (if receives perEvent u item then [item] else [])"
    using bucket_item_spec [OF Cons.prems, of "perEvent (di_event item)" item u] assms(1)
    by (auto simp: bucket_item_def receives_def)
  with Cons.IH show ?case by auto
qed simp

text \<open>A digest reaches each recipient with exactly the items meant for them: one mail per user, never
  an empty one, holding in order the queued items whose event the user receives and did not cause.\<close>

lemma digest_fan_out_exact:
  assumes "\<forall>e. distinct (map r_user (perEvent e))"
  shows "distinct (map fst (digest_buckets perEvent items)) \<and>
    (\<forall>uid xs. (uid, xs) \<in> set (digest_buckets perEvent items) \<longleftrightarrow>
      xs \<noteq> [] \<and>
      xs = filter (\<lambda>i. uid \<in> r_user ` set (perEvent (di_event i)) \<and> uid \<noteq> di_actor i) items)"
proof -
  let ?B = "digest_buckets perEvent items"
  have empty: "buckets_ok []" by (simp add: buckets_ok_def)
  note spec = digest_buckets_spec [OF assms empty, of items, folded digest_buckets_def]
  have at: "bucket_at uid ?B = filter (receives perEvent uid) items" for uid
    using spec [of uid] by (simp add: bucket_at_def)
  have d: "distinct (map fst ?B)" and ne: "(uid, xs) \<in> set ?B \<Longrightarrow> xs \<noteq> []" for uid xs
    using spec by (auto simp: buckets_ok_def)
  have "(uid, xs) \<in> set ?B \<longleftrightarrow> xs \<noteq> [] \<and> xs = bucket_at uid ?B" for uid xs
  proof
    assume m: "(uid, xs) \<in> set ?B"
    then have "map_of ?B uid = Some xs" using d by simp
    with ne [OF m] show "xs \<noteq> [] \<and> xs = bucket_at uid ?B" by (simp add: bucket_at_def)
  next
    assume "xs \<noteq> [] \<and> xs = bucket_at uid ?B"
    then have "map_of ?B uid = Some xs" by (simp add: bucket_at_def split: option.splits)
    then show "(uid, xs) \<in> set ?B" by (rule map_of_SomeD)
  qed
  with d show ?thesis unfolding at receives_def by blast
qed

definition demo_recipients :: "string \<Rightarrow> Recipient list" where
  "demo_recipients e =
     [\<lparr> r_user = ''7'', r_email = ''a@x.no'', r_name = ''A'', r_locale = ''en'' \<rparr>,
      \<lparr> r_user = ''8'', r_email = ''b@x.no'', r_name = ''B'', r_locale = ''en'' \<rparr>]"

definition demo_items :: "DigestItem list" where
  "demo_items = [\<lparr> di_event = ''comment.created'', di_name = ''B'', di_actor = ''8'' \<rparr>,
     \<lparr> di_event = ''response.created'', di_name = ''Guest'', di_actor = [] \<rparr>]"

lemma digest_fan_out_exact_witness:
  "distinct (map fst (digest_buckets demo_recipients demo_items)) \<and>
   (''7'', demo_items) \<in> set (digest_buckets demo_recipients demo_items) \<and>
   (''8'', tl demo_items) \<in> set (digest_buckets demo_recipients demo_items)"
proof -
  have "\<forall>e. distinct (map r_user (demo_recipients e))" by (simp add: demo_recipients_def)
  note spec = digest_fan_out_exact [OF this, of demo_items]
  have "demo_items = filter (\<lambda>i. ''7'' \<in> r_user ` set (demo_recipients (di_event i)) \<and> ''7'' \<noteq> di_actor i) demo_items"
    "tl demo_items = filter (\<lambda>i. ''8'' \<in> r_user ` set (demo_recipients (di_event i)) \<and> ''8'' \<noteq> di_actor i) demo_items"
    "demo_items \<noteq> []" "tl demo_items \<noteq> []"
    by (simp_all add: demo_items_def demo_recipients_def)
  with spec show ?thesis by blast
qed

end
