(* ===== verification/Tokens.thy ===== *)
theory Tokens
  imports PlainText
begin

text \<open>
  The three signed credentials: guest edit tokens (\<^verbatim>\<open>internal/auth/guest.go\<close>), unsubscribe links
  (\<^verbatim>\<open>internal/mailer/unsubscribe.go\<close>) and booking manage tokens (\<^verbatim>\<open>internal/bookings/bookings.go\<close>). The keyed
  hash \<open>mac secret message\<close> and the lower-casing of addresses are parameters; the encodings are written out
  byte by byte.
\<close>

section \<open>Encodings\<close>

abbreviation byte :: "char \<Rightarrow> nat" where "byte c \<equiv> of_char c"

lemma byte_less [simp]: "byte c < 256"
  by (metis mod_less_divisor of_char_mod_256 zero_less_numeral)

lemma char_of_byte [simp]: "char_of (byte c) = c"
  by simp

subsection \<open>Hexadecimal\<close>

definition hex_char :: "nat \<Rightarrow> char" where
  "hex_char n = (if n < 10 then char_of (48 + n) else char_of (87 + n))"

definition hex_val :: "char \<Rightarrow> nat option" where
  "hex_val c = (let n = byte c in
     if 48 \<le> n \<and> n \<le> 57 then Some (n - 48)
     else if 97 \<le> n \<and> n \<le> 102 then Some (n - 87)
     else if 65 \<le> n \<and> n \<le> 70 then Some (n - 55) else None)"

definition EncodeHex :: "string \<Rightarrow> string" where
  "EncodeHex s = concat (map (\<lambda>c. [hex_char (byte c div 16), hex_char (byte c mod 16)]) s)"

fun DecodeHex :: "string \<Rightarrow> string option" where
  "DecodeHex [] = Some []"
| "DecodeHex [c] = None"
| "DecodeHex (a # b # s) =
     (case (hex_val a, hex_val b) of
        (Some x, Some y) \<Rightarrow> map_option (Cons (char_of (16 * x + y))) (DecodeHex s)
      | _ \<Rightarrow> None)"

lemma hex_val_char: "n < 16 \<Longrightarrow> hex_val (hex_char n) = Some n"
  by (auto simp: hex_val_def hex_char_def Let_def)

lemma DecodeHex_Encode [simp]: "DecodeHex (EncodeHex s) = Some s"
proof (induction s)
  case (Cons c s)
  have "byte c div 16 < 16" "byte c mod 16 < 16" using less_mult_imp_div_less [of "byte c" 16 16] by auto
  then show ?case using Cons by (simp add: EncodeHex_def hex_val_char)
qed (simp add: EncodeHex_def)

subsection \<open>Unpadded URL-safe base64\<close>

definition b64_char :: "nat \<Rightarrow> char" where
  "b64_char n = (if n < 26 then char_of (65 + n) else if n < 52 then char_of (71 + n)
     else if n < 62 then char_of (n - 4) else if n = 62 then CHR ''-'' else CHR ''_'')"

definition b64_val :: "char \<Rightarrow> nat option" where
  "b64_val c = (let n = byte c in
     if 65 \<le> n \<and> n \<le> 90 then Some (n - 65) else if 97 \<le> n \<and> n \<le> 122 then Some (n - 71)
     else if 48 \<le> n \<and> n \<le> 57 then Some (n + 4) else if n = 45 then Some 62
     else if n = 95 then Some 63 else None)"

fun EncodeToString :: "string \<Rightarrow> string" where
  "EncodeToString (a # b # c # s) =
     [b64_char (byte a div 4), b64_char (byte a mod 4 * 16 + byte b div 16),
      b64_char (byte b mod 16 * 4 + byte c div 64), b64_char (byte c mod 64)] @ EncodeToString s"
| "EncodeToString [a, b] =
     [b64_char (byte a div 4), b64_char (byte a mod 4 * 16 + byte b div 16), b64_char (byte b mod 16 * 4)]"
| "EncodeToString [a] = [b64_char (byte a div 4), b64_char (byte a mod 4 * 16)]"
| "EncodeToString [] = []"

text \<open>The decoder skips line ends and does not look at the unused bits of a last, short group.\<close>

fun decode_groups :: "nat list \<Rightarrow> string option" where
  "decode_groups (w # x # y # z # r) =
     map_option (\<lambda>s. char_of (w * 4 + x div 16) # char_of (x mod 16 * 16 + y div 4) # char_of (y mod 4 * 64 + z) # s)
       (decode_groups r)"
| "decode_groups [w, x, y] = Some [char_of (w * 4 + x div 16), char_of (x mod 16 * 16 + y div 4)]"
| "decode_groups [w, x] = Some [char_of (w * 4 + x div 16)]"
| "decode_groups [w] = None"
| "decode_groups [] = Some []"

definition DecodeString :: "string \<Rightarrow> string option" where
  "DecodeString s = Option.bind (those (map b64_val (filter (\<lambda>c. c \<noteq> CHR 0x0A \<and> c \<noteq> CHR 0x0D) s))) decode_groups"

lemma b64_val_char: "n < 64 \<Longrightarrow> b64_val (b64_char n) = Some n"
  by (auto simp: b64_val_def b64_char_def Let_def)

lemma b64_char_line: "n < 64 \<Longrightarrow> b64_char n \<noteq> CHR 0x0A \<and> b64_char n \<noteq> CHR 0x0D"
  using b64_val_char [of n] by (auto simp: b64_val_def)

lemma b64_char_dot: "n < 64 \<Longrightarrow> b64_char n \<noteq> CHR ''.''"
  using b64_val_char [of n] by (auto simp: b64_val_def)

fun sextets :: "string \<Rightarrow> nat list" where
  "sextets (a # b # c # s) = [byte a div 4, byte a mod 4 * 16 + byte b div 16,
      byte b mod 16 * 4 + byte c div 64, byte c mod 64] @ sextets s"
| "sextets [a, b] = [byte a div 4, byte a mod 4 * 16 + byte b div 16, byte b mod 16 * 4]"
| "sextets [a] = [byte a div 4, byte a mod 4 * 16]"
| "sextets [] = []"

lemma EncodeToString_sextets: "EncodeToString s = map b64_char (sextets s)"
  by (induction s rule: EncodeToString.induct) simp_all

lemma sextets_less: "n \<in> set (sextets s) \<Longrightarrow> n < 64"
proof (induction s rule: sextets.induct)
  case (1 a b c s)
  have "byte a div 4 < 64" "byte b div 16 < 16" "byte c div 64 < 4"
    using byte_less [of a] byte_less [of b] byte_less [of c] by (simp_all add: less_mult_imp_div_less)
  then show ?case using 1 by auto
next
  case (2 a b)
  have "byte a div 4 < 64" "byte b div 16 < 16"
    using byte_less [of a] byte_less [of b] by (simp_all add: less_mult_imp_div_less)
  then show ?case using 2 by auto
next
  case (3 a)
  have "byte a div 4 < 64" using byte_less [of a] by (simp add: less_mult_imp_div_less)
  then show ?case using 3 by auto
qed simp

lemma pack: "y < k \<Longrightarrow> (x * k + y) div k = (x::nat)" "y < k \<Longrightarrow> (x * k + y) mod k = y"
  by simp_all

lemma decode_sextets: "decode_groups (sextets s) = Some s"
proof (induction s rule: sextets.induct)
  case (1 a b c s)
  have lt: "byte b div 16 < 16" "byte c div 64 < 4"
    using less_mult_imp_div_less [of "byte b" 16 16] less_mult_imp_div_less [of "byte c" 4 64] by simp_all
  have "byte a div 4 * 4 + (byte a mod 4 * 16 + byte b div 16) div 16 = byte a"
    "(byte a mod 4 * 16 + byte b div 16) mod 16 * 16 + (byte b mod 16 * 4 + byte c div 64) div 4 = byte b"
    "(byte b mod 16 * 4 + byte c div 64) mod 4 * 64 + byte c mod 64 = byte c"
    unfolding pack [OF lt(1)] pack [OF lt(2)] by (rule div_mult_mod_eq)+
  with 1 show ?case by simp
next
  case (2 a b)
  have lt: "byte b div 16 < 16" using less_mult_imp_div_less [of "byte b" 16 16] by simp
  have "byte a div 4 * 4 + (byte a mod 4 * 16 + byte b div 16) div 16 = byte a"
    "(byte a mod 4 * 16 + byte b div 16) mod 16 * 16 + byte b mod 16 * 4 div 4 = byte b"
    unfolding pack [OF lt] nonzero_mult_div_cancel_right [OF zero_neq_numeral [symmetric]] by (rule div_mult_mod_eq)+
  then show ?case by simp
next
  case (3 a)
  have "byte a div 4 * 4 + byte a mod 4 * 16 div 16 = byte a"
    unfolding nonzero_mult_div_cancel_right [OF zero_neq_numeral [symmetric]] by (rule div_mult_mod_eq)
  then show ?case by simp
qed simp

lemma those_map_Some: "those (map Some xs) = Some xs"
  by (induction xs) auto

lemma DecodeString_Encode [simp]: "DecodeString (EncodeToString s) = Some s"
proof -
  have "filter (\<lambda>c. c \<noteq> CHR 0x0A \<and> c \<noteq> CHR 0x0D) (EncodeToString s) = EncodeToString s"
    unfolding EncodeToString_sextets filter_id_conv using b64_char_line sextets_less by auto
  moreover have "map b64_val (EncodeToString s) = map Some (sextets s)"
    unfolding EncodeToString_sextets using b64_val_char sextets_less by simp
  ultimately show ?thesis unfolding DecodeString_def by (simp only: those_map_Some Option.bind.bind_lunit decode_sextets)
qed

lemma EncodeToString_no_dot: "CHR ''.'' \<notin> set (EncodeToString s)"
  unfolding EncodeToString_sextets using b64_char_dot sextets_less by fastforce

lemma EncodeToString_Nil: "EncodeToString s = [] \<longleftrightarrow> s = []"
  by (cases s rule: EncodeToString.cases) simp_all


section \<open>Signed credentials\<close>

text \<open>What the handlers rely on when they act for the identity a credential names.\<close>

locale credential =
  fixes mint :: "'i \<Rightarrow> string" and verify :: "string \<Rightarrow> 'i option" and issued :: "'i \<Rightarrow> bool"
  assumes verify_mint: "issued i \<Longrightarrow> verify (mint i) = Some i"
begin

lemma scoped: "issued i \<Longrightarrow> verify (mint i) = Some j \<Longrightarrow> j = i"
  by (simp add: verify_mint)

lemma mint_inj: "issued i \<Longrightarrow> issued j \<Longrightarrow> mint i = mint j \<Longrightarrow> i = j"
  using verify_mint by (metis option.inject)

end

subsection \<open>Guest edit tokens\<close>

definition MintGuestToken :: "(string \<Rightarrow> string \<Rightarrow> string) \<Rightarrow> string \<Rightarrow> string \<Rightarrow> string" where
  "MintGuestToken mac secret participantID = participantID @ ''.'' @ EncodeHex (mac secret participantID)"

definition VerifyGuestToken :: "(string \<Rightarrow> string \<Rightarrow> string) \<Rightarrow> string \<Rightarrow> string \<Rightarrow> string option" where
  "VerifyGuestToken mac secret token =
     (case Cut CHR ''.'' token of
        None \<Rightarrow> None
      | Some (i, sigHex) \<Rightarrow>
          if i = [] \<or> sigHex = [] then None
          else (case DecodeHex sigHex of
                  None \<Rightarrow> None
                | Some sig \<Rightarrow> if sig = mac secret i then Some i else None))"

definition guest_id :: "(string \<Rightarrow> string \<Rightarrow> string) \<Rightarrow> string \<Rightarrow> string \<Rightarrow> bool" where
  "guest_id mac secret i \<longleftrightarrow> i \<noteq> [] \<and> CHR ''.'' \<notin> set i \<and> mac secret i \<noteq> []"

lemma EncodeHex_Nil: "EncodeHex s = [] \<longleftrightarrow> s = []"
  by (cases s) (simp_all add: EncodeHex_def)

interpretation guest_token: credential "MintGuestToken mac secret" "VerifyGuestToken mac secret" "guest_id mac secret"
  for mac :: "string \<Rightarrow> string \<Rightarrow> string" and secret :: string
  by unfold_locales (simp add: MintGuestToken_def VerifyGuestToken_def guest_id_def Cut_append EncodeHex_Nil)

text \<open>A guest token speaks for one participant and nobody else. The server accepts a token for an id exactly
  when it is that id, which has no dot, followed by a dot and a hexadecimal spelling of the keyed hash of that
  same id; in particular the token minted for an id (non-empty, without dots) is accepted, for that id only.\<close>

lemma guest_token_exact:
  "(VerifyGuestToken mac secret token = Some i \<longleftrightarrow>
      i \<noteq> [] \<and> CHR ''.'' \<notin> set i \<and> (\<exists>h. token = i @ ''.'' @ h \<and> h \<noteq> [] \<and> DecodeHex h = Some (mac secret i))) \<and>
   (guest_id mac secret j \<longrightarrow> VerifyGuestToken mac secret (MintGuestToken mac secret j) = Some j)"
proof -
  have "VerifyGuestToken mac secret token = Some i \<longleftrightarrow>
      (\<exists>h. Cut CHR ''.'' token = Some (i, h) \<and> i \<noteq> [] \<and> h \<noteq> [] \<and> DecodeHex h = Some (mac secret i))"
    by (auto simp: VerifyGuestToken_def split: option.splits if_splits prod.splits)
  also have "\<dots> \<longleftrightarrow> i \<noteq> [] \<and> CHR ''.'' \<notin> set i \<and>
      (\<exists>h. token = i @ ''.'' @ h \<and> h \<noteq> [] \<and> DecodeHex h = Some (mac secret i))"
    using Cut_Some [of "CHR ''.''" token i] Cut_append [of "CHR ''.''" i] by auto
  finally show ?thesis using guest_token.verify_mint by blast
qed

definition demo_mac :: "string \<Rightarrow> string \<Rightarrow> string" where
  "demo_mac secret message = secret @ rev message"

lemma guest_token_exact_witness:
  "VerifyGuestToken demo_mac ''k'' (MintGuestToken demo_mac ''k'' ''p1'') = Some ''p1'' \<and>
   VerifyGuestToken demo_mac ''k'' ''p1.00'' \<noteq> Some ''p1''"
proof -
  have "guest_id demo_mac ''k'' ''p1''" by (simp add: guest_id_def demo_mac_def)
  with guest_token_exact [of demo_mac "''k''" "''p1.00''" "''p1''" "''p1''"] show ?thesis
    by (auto simp: demo_mac_def hex_val_def)
qed

subsection \<open>Unsubscribe links\<close>

definition NormalizeEmail :: "(string \<Rightarrow> string) \<Rightarrow> string \<Rightarrow> string" where
  "NormalizeEmail lower email = lower (TrimSpace email)"

definition UnsubscribeToken ::
  "(string \<Rightarrow> string \<Rightarrow> string) \<Rightarrow> (string \<Rightarrow> string) \<Rightarrow> string \<Rightarrow> string \<Rightarrow> string" where
  "UnsubscribeToken mac lower secret email =
     (let addr = NormalizeEmail lower email
      in EncodeToString addr @ ''.'' @ EncodeToString (mac secret addr))"

definition ParseUnsubscribeToken ::
  "(string \<Rightarrow> string \<Rightarrow> string) \<Rightarrow> (string \<Rightarrow> string) \<Rightarrow> string \<Rightarrow> string \<Rightarrow> string option" where
  "ParseUnsubscribeToken mac lower secret token =
     (case Cut CHR ''.'' token of
        None \<Rightarrow> None
      | Some (payload, sig) \<Rightarrow>
          if payload = [] \<or> sig = [] then None
          else (case (DecodeString payload, DecodeString sig) of
                  (Some addr, Some gotMAC) \<Rightarrow>
                    if gotMAC \<noteq> mac secret addr then None
                    else if addr \<noteq> NormalizeEmail lower addr then None
                    else Some addr
                | _ \<Rightarrow> None))"

definition mail_address :: "(string \<Rightarrow> string \<Rightarrow> string) \<Rightarrow> (string \<Rightarrow> string) \<Rightarrow> string \<Rightarrow> string \<Rightarrow> bool" where
  "mail_address mac lower secret a \<longleftrightarrow> a \<noteq> [] \<and> NormalizeEmail lower a = a \<and> mac secret a \<noteq> []"

interpretation unsubscribe_link: credential "UnsubscribeToken mac lower secret" "ParseUnsubscribeToken mac lower secret"
    "mail_address mac lower secret"
  for mac :: "string \<Rightarrow> string \<Rightarrow> string" and lower :: "string \<Rightarrow> string" and secret :: string
  by unfold_locales (simp add: UnsubscribeToken_def ParseUnsubscribeToken_def mail_address_def Let_def Cut_append
      EncodeToString_no_dot EncodeToString_Nil)

text \<open>C40: An unsubscribe link names one mailbox. The link made for any spelling of an address whose normal form is
  stable and not empty is read back as that normal form; every accepted link names a normalised address and
  carries the keyed hash of that address.\<close>

theorem unsubscribe_roundtrip:
  assumes "mail_address mac lower secret (NormalizeEmail lower email)"
  shows "ParseUnsubscribeToken mac lower secret (UnsubscribeToken mac lower secret email) = Some (NormalizeEmail lower email) \<and>
    (ParseUnsubscribeToken mac lower secret token = Some a \<longleftrightarrow>
      NormalizeEmail lower a = a \<and>
      (\<exists>p s. token = p @ ''.'' @ s \<and> CHR ''.'' \<notin> set p \<and> p \<noteq> [] \<and> s \<noteq> [] \<and>
         DecodeString p = Some a \<and> DecodeString s = Some (mac secret a)))"
proof
  have "UnsubscribeToken mac lower secret email = UnsubscribeToken mac lower secret (NormalizeEmail lower email)"
    using assms by (simp add: UnsubscribeToken_def mail_address_def)
  then show "ParseUnsubscribeToken mac lower secret (UnsubscribeToken mac lower secret email) = Some (NormalizeEmail lower email)"
    using unsubscribe_link.verify_mint [OF assms] by simp
next
  have "ParseUnsubscribeToken mac lower secret token = Some a \<longleftrightarrow> NormalizeEmail lower a = a \<and>
      (\<exists>p s. Cut CHR ''.'' token = Some (p, s) \<and> p \<noteq> [] \<and> s \<noteq> [] \<and>
         DecodeString p = Some a \<and> DecodeString s = Some (mac secret a))"
    by (auto simp: ParseUnsubscribeToken_def split: option.splits if_splits prod.splits)
  also have "\<dots> \<longleftrightarrow> NormalizeEmail lower a = a \<and>
      (\<exists>p s. token = p @ ''.'' @ s \<and> CHR ''.'' \<notin> set p \<and> p \<noteq> [] \<and> s \<noteq> [] \<and>
         DecodeString p = Some a \<and> DecodeString s = Some (mac secret a))"
    using Cut_Some [of "CHR ''.''" token] Cut_append [of "CHR ''.''"] by (metis append_Cons append_Nil)
  finally show "ParseUnsubscribeToken mac lower secret token = Some a \<longleftrightarrow> NormalizeEmail lower a = a \<and>
      (\<exists>p s. token = p @ ''.'' @ s \<and> CHR ''.'' \<notin> set p \<and> p \<noteq> [] \<and> s \<noteq> [] \<and>
         DecodeString p = Some a \<and> DecodeString s = Some (mac secret a))" .
qed

lemma unsubscribe_roundtrip_witness:
  "ParseUnsubscribeToken demo_mac id ''k'' (UnsubscribeToken demo_mac id ''k'' ''a@b.c'') = Some ''a@b.c''"
proof -
  have norm: "NormalizeEmail id ''a@b.c'' = ''a@b.c''" by (simp add: NormalizeEmail_def TrimSpace_plain printable_def)
  then have "mail_address demo_mac id ''k'' (NormalizeEmail id ''a@b.c'')" by (simp add: mail_address_def demo_mac_def)
  from unsubscribe_roundtrip [OF this] norm show ?thesis by simp
qed

subsection \<open>Manage tokens\<close>

definition manageToken :: "(string \<Rightarrow> string \<Rightarrow> string) \<Rightarrow> string \<Rightarrow> string \<Rightarrow> string" where
  "manageToken mac secret bookingID = EncodeToString (mac secret (''booking-manage:'' @ bookingID))"

definition verifyManageToken :: "(string \<Rightarrow> string \<Rightarrow> string) \<Rightarrow> string \<Rightarrow> string \<Rightarrow> string \<Rightarrow> bool" where
  "verifyManageToken mac secret bookingID token \<longleftrightarrow>
     \<not> (secret = [] \<or> token = []) \<and> manageToken mac secret bookingID = token"

lemma verifyManageToken_unique:
  assumes "verifyManageToken mac secret i token" and "verifyManageToken mac secret j token"
  shows "mac secret (''booking-manage:'' @ i) = mac secret (''booking-manage:'' @ j)"
proof -
  have "manageToken mac secret i = manageToken mac secret j" using assms by (simp add: verifyManageToken_def)
  then have "DecodeString (manageToken mac secret i) = DecodeString (manageToken mac secret j)" by simp
  then show ?thesis by (simp add: manageToken_def)
qed

end
