(* ===== verification/Mailer.thy ===== *)
theory Mailer
  imports Complex_Main Availability Ics Digest Tokens
begin

text \<open>
  The mailer (\<^verbatim>\<open>internal/mailer\<close>) and the unsubscribe endpoints (\<^verbatim>\<open>internal/httpserver/unsubscribe.go\<close>): dates in
  the recipient's language, the message catalog lookup, the suppression list and the one function that sends.
  The template engine, the address syntax check and the SMTP connection are parameters; so are the catalog,
  lower-casing, the keyed hash and the reading of a decimal fraction.
\<close>

section \<open>Languages and dates\<close>

definition SupportedMailLocales :: "string list" where "SupportedMailLocales = [''en'', ''nb'']"

definition IsSupportedLocale :: "string \<Rightarrow> bool" where
  "IsSupportedLocale locale \<longleftrightarrow> list_ex (\<lambda>l. l = locale) SupportedMailLocales"

definition o_slash :: string where "o_slash = [CHR 0xC3, CHR 0xB8]"
definition en_dash :: string where "en_dash = [CHR 0xE2, CHR 0x80, CHR 0x93]"

definition nbWeekdays :: "string list" where
  "nbWeekdays = [''s'' @ o_slash @ ''n.'', ''man.'', ''tir.'', ''ons.'', ''tor.'', ''fre.'', ''l'' @ o_slash @ ''r.'']"

definition nbMonths :: "string list" where
  "nbMonths = [''jan.'', ''feb.'', ''mar.'', ''apr.'', ''mai'', ''jun.'', ''jul.'', ''aug.'', ''sep.'', ''okt.'', ''nov.'', ''des.'']"

text \<open>The short names of Go's layouts.\<close>

definition enWeekdays :: "string list" where
  "enWeekdays = [''Sun'', ''Mon'', ''Tue'', ''Wed'', ''Thu'', ''Fri'', ''Sat'']"

definition enMonths :: "string list" where
  "enMonths = [''Jan'', ''Feb'', ''Mar'', ''Apr'', ''May'', ''Jun'', ''Jul'', ''Aug'', ''Sep'', ''Oct'', ''Nov'', ''Dec'']"

definition FormatDate :: "string \<Rightarrow> instant \<Rightarrow> location \<Rightarrow> string" where
  "FormatDate locale t loc =
     (let n = local_day loc t; (y, m, d) = civil_from_days n; w = nat (weekday n); k = nat (m - 1)
      in if locale = ''nb'' then nbWeekdays ! w @ '' '' @ FormatInt d @ ''. '' @ nbMonths ! k
         else enWeekdays ! w @ '' '' @ FormatInt d @ '' '' @ enMonths ! k)"

text \<open>The layout \<^verbatim>\<open>15:04\<close>.\<close>

definition clock_text :: "instant \<Rightarrow> location \<Rightarrow> string" where
  "clock_text t loc = (let (hh, mm, ss, ns) = clock_of (t + offset_at loc t) in digits 2 hh @ '':'' @ digits 2 mm)"

definition FormatDateTime :: "string \<Rightarrow> instant \<Rightarrow> location \<Rightarrow> string" where
  "FormatDateTime locale t loc = FormatDate locale t loc @ '', '' @ clock_text t loc"

definition FormatTimeRange :: "instant \<Rightarrow> instant \<Rightarrow> location \<Rightarrow> string" where
  "FormatTimeRange start end' loc = clock_text start loc @ en_dash @ clock_text end' loc"

definition location_or_UTC :: "(string \<Rightarrow> location option) \<Rightarrow> string \<Rightarrow> location" where
  "location_or_UTC tzdb name = (case tzdb name of None \<Rightarrow> fixed_zone 0 | Some loc \<Rightarrow> loc)"

section \<open>The request's language\<close>

fun split_at :: "char list \<Rightarrow> string \<Rightarrow> string option" where
  "split_at cs [] = None"
| "split_at cs (c # s) = (if c \<in> set cs then Some [] else map_option (Cons c) (split_at cs s))"

definition matchLocale :: "(string \<Rightarrow> string) \<Rightarrow> string \<Rightarrow> string option" where
  "matchLocale lower tag0 =
     (let tag = lower (TrimSpace tag0)
      in if tag = [] then None
         else let base = (case split_at [CHR ''-'', CHR ''_''] tag of Some (c # p) \<Rightarrow> c # p | _ \<Rightarrow> tag)
              in find (\<lambda>s. s = tag \<or> s = base) SupportedMailLocales)"

function Split :: "char \<Rightarrow> string \<Rightarrow> string list" where
  "Split sep s = (case Cut sep s of None \<Rightarrow> [s] | Some (a, b) \<Rightarrow> a # Split sep b)"
  by pat_completeness auto
termination
  by (relation "measure (\<lambda>(sep, s). length s)") (auto dest!: Cut_Some)

text \<open>The weight of an entry: 1, or the last \<open>q=\<close> parameter that reads as a number.\<close>

definition quality :: "(string \<Rightarrow> real option) \<Rightarrow> string list \<Rightarrow> real" where
  "quality parse_float ps = fold (\<lambda>p0 q. let p = TrimSpace p0
     in if take 2 p = ''q='' then (case parse_float (drop 2 p) of Some v \<Rightarrow> v | None \<Rightarrow> q) else q) ps 1"

definition parseAcceptLanguage :: "(string \<Rightarrow> real option) \<Rightarrow> string \<Rightarrow> string list" where
  "parseAcceptLanguage parse_float header =
     map fst (sort_key (\<lambda>(tag, q). - q)
       (concat (map (\<lambda>part. let parts = Split CHR '';'' (TrimSpace part);
                               tag = TrimSpace (hd parts); q = quality parse_float (tl parts)
                           in if tag = [] \<or> tag = ''*'' \<or> q \<le> 0 then [] else [(tag, q)])
         (Split CHR '','' header))))"

definition RequestLocale ::
  "(string \<Rightarrow> string) \<Rightarrow> (string \<Rightarrow> real option) \<Rightarrow> string option \<Rightarrow> string \<Rightarrow> string" where
  "RequestLocale lower parse_float cookie header =
     (case Option.bind cookie (matchLocale lower) of
        Some l \<Rightarrow> l
      | None \<Rightarrow> (case List.map_filter (matchLocale lower) (parseAcceptLanguage parse_float header) of
          l # _ \<Rightarrow> l | [] \<Rightarrow> hd SupportedMailLocales))"

section \<open>Message texts\<close>

function ReplaceAll :: "string \<Rightarrow> string \<Rightarrow> string \<Rightarrow> string" where
  "ReplaceAll old new s =
     (if s = [] \<or> old = [] then s
      else if take (length old) s = old then new @ ReplaceAll old new (drop (length old) s)
      else hd s # ReplaceAll old new (tl s))"
  by pat_completeness auto
termination
  by (relation "measure (\<lambda>(old, new, s). length s)") (auto simp: neq_Nil_conv)

declare ReplaceAll.simps [simp del] Split.simps [simp del]

definition replacePlaceholder :: "string \<Rightarrow> string \<Rightarrow> string \<Rightarrow> string" where
  "replacePlaceholder msg name value = ReplaceAll (''{'' @ name @ ''}'') value msg"

text \<open>A catalog maps a language and a key to a message; a missing message is the empty string.\<close>

type_synonym catalog = "string \<Rightarrow> string \<Rightarrow> string option"

definition translate :: "catalog \<Rightarrow> string \<Rightarrow> string \<Rightarrow> (string \<times> string) list \<Rightarrow> string" where
  "translate cat locale key kvs =
     fold (\<lambda>(name, value) msg. replacePlaceholder msg name value) kvs
       (case cat locale key of Some m \<Rightarrow> m | None \<Rightarrow> (case cat ''en'' key of Some m \<Rightarrow> m | None \<Rightarrow> []))"

definition notificationKeys :: "(string \<times> string \<times> string \<times> string) list" where
  "notificationKeys =
     [(''deadline.approaching'', ''email_notification_deadline_subject'', ''email_notification_deadline_body'', ''title''),
      (''poll.finalized'', ''email_notification_finalized_subject'', ''email_notification_finalized_body'', ''title''),
      (''booking.created'', ''email_notification_booking_created_subject'', ''email_notification_booking_created_body'', ''detail''),
      (''booking.cancelled'', ''email_notification_booking_cancelled_subject'', ''email_notification_booking_cancelled_body'', ''detail''),
      (''booking.rescheduled'', ''email_notification_booking_rescheduled_subject'', ''email_notification_booking_rescheduled_body'', ''detail'')]"

definition notifSubject :: "catalog \<Rightarrow> string \<Rightarrow> string \<Rightarrow> string \<Rightarrow> string" where
  "notifSubject cat locale event title =
     (case map_of notificationKeys event of
        None \<Rightarrow> [] | Some (subjectKey, _, _) \<Rightarrow> translate cat locale subjectKey [(''title'', title)])"

definition notifBody :: "catalog \<Rightarrow> string \<Rightarrow> string \<Rightarrow> string \<Rightarrow> string \<Rightarrow> string" where
  "notifBody cat locale event title detail =
     (case map_of notificationKeys event of
        None \<Rightarrow> []
      | Some (_, bodyKey, bodyArg) \<Rightarrow>
          if bodyArg = ''detail'' then translate cat locale bodyKey [(''detail'', detail)]
          else translate cat locale bodyKey [(''title'', title)])"

definition digestLineLabel :: "catalog \<Rightarrow> string \<Rightarrow> string \<Rightarrow> int \<Rightarrow> string" where
  "digestLineLabel cat locale event count =
     (case map_of [(''response.created'', ''email_digest_line_response_created''),
         (''response.updated'', ''email_digest_line_response_updated''),
         (''response.withdrawn'', ''email_digest_line_response_withdrawn''),
         (''comment.created'', ''email_digest_line_comment_created''),
         (''signup.full'', ''email_digest_line_signup_full'')] event of
        None \<Rightarrow> [] | Some key \<Rightarrow> translate cat locale key [(''count'', FormatInt count)])"

definition bookingCancelledBody :: "catalog \<Rightarrow> string \<Rightarrow> string \<Rightarrow> string \<Rightarrow> string \<Rightarrow> string \<Rightarrow> string" where
  "bookingCancelledBody cat locale cancelledBy name visitor when =
     (if cancelledBy = ''you'' then
        translate cat locale ''email_booking_cancelled_body_you'' [(''name'', name), (''when'', when)]
      else if cancelledBy = ''organiser'' then
        translate cat locale ''email_booking_cancelled_body_organiser'' [(''name'', name), (''when'', when)]
      else
        translate cat locale ''email_booking_cancelled_body_visitor''
          [(''name'', name), (''visitor'', visitor), (''when'', when)])"

section \<open>Messages\<close>

record Attachment =
  at_filename :: string
  at_type :: string
  at_content :: string

datatype mail_value = MText string | MTexts "string list" | MLines "DigestLine list"

record Message =
  ms_to :: string
  ms_to_name :: string
  ms_template :: string
  ms_data :: "(string \<times> mail_value) list"
  ms_attachments :: "Attachment list"

definition notificationTemplates :: "(string \<times> bool) list" where
  "notificationTemplates =
     [(''verify_email'', False), (''reset_password'', False), (''org_invite'', False), (''claim_confirmation'', False),
      (''booking_confirmed'', False), (''booking_cancelled'', False), (''booking_rescheduled'', False),
      (''booking_sync_failed'', False), (''finalized'', True), (''closed'', True), (''digest'', True),
      (''notification'', True), (''booking_reminder'', True), (''booking_organiser_notice'', True),
      (''booking_rescheduled_organiser'', True)]"

definition IsNotificationTemplate :: "string \<Rightarrow> bool" where
  "IsNotificationTemplate name \<longleftrightarrow> (case map_of notificationTemplates name of Some b \<Rightarrow> b | None \<Rightarrow> False)"

section \<open>The suppression list\<close>

record suppression =
  su_email :: string
  su_source :: string
  su_created_at :: instant

definition IsSuppressed :: "(string \<Rightarrow> string) \<Rightarrow> string \<Rightarrow> suppression list \<Rightarrow> bool" where
  "IsSuppressed lower email t \<longleftrightarrow> tget su_email (NormalizeEmail lower email) t \<noteq> None"

definition Suppress :: "(string \<Rightarrow> string) \<Rightarrow> string \<Rightarrow> string \<Rightarrow> instant \<Rightarrow> suppression list \<Rightarrow> suppression list" where
  "Suppress lower email source now t =
     (let addr = NormalizeEmail lower email
      in if tget su_email addr t = None
         then t @ [\<lparr> su_email = addr, su_source = source, su_created_at = now \<rparr>]
         else tupd (\<lambda>s. su_email s = addr) (\<lambda>s. s\<lparr> su_source := source \<rparr>) t)"

definition Resubscribe :: "(string \<Rightarrow> string) \<Rightarrow> string \<Rightarrow> suppression list \<Rightarrow> suppression list" where
  "Resubscribe lower email t = tdel (\<lambda>s. su_email s = NormalizeEmail lower email) t"

section \<open>Sending\<close>

record mailer =
  ml_from_name :: string
  ml_from_email :: string
  ml_app_url :: string
  ml_secret :: string
  ml_store :: bool

record Rendered =
  rd_subject :: string
  rd_html :: string
  rd_text :: string

record envelope =
  ev_from_name :: string
  ev_from :: string
  ev_to_name :: string
  ev_to :: string
  ev_subject :: string
  ev_text :: string
  ev_html :: string
  ev_unsubscribe :: string
  ev_one_click :: bool
  ev_attachments :: "Attachment list"

text \<open>What surrounds the mailer: the templates, the address parser, the one-click header's check of its URL, the
  delivery (\<open>None\<close> when it succeeds) and the texts of the catalog.\<close>

record transport =
  tr_render :: "string \<Rightarrow> (string \<times> mail_value) list \<Rightarrow> Rendered option"
  tr_address :: "string \<Rightarrow> string \<Rightarrow> bool"
  tr_one_click :: "string \<Rightarrow> bool"
  tr_deliver :: "envelope \<Rightarrow> string option"
  tr_catalog :: catalog

fun data_text :: "string \<Rightarrow> (string \<times> mail_value) list \<Rightarrow> string" where
  "data_text k d = (case map_of d k of Some (MText s) \<Rightarrow> s | _ \<Rightarrow> [])"

definition trim_newlines :: "string \<Rightarrow> string" where
  "trim_newlines s = rev (dropWhile (\<lambda>c. c = LF) (rev s))"

text \<open>The outcome: an error, or the envelope handed to the server, \<open>None\<close> when the recipient has unsubscribed.\<close>

definition Send ::
  "(string \<Rightarrow> string \<Rightarrow> string) \<Rightarrow> (string \<Rightarrow> string) \<Rightarrow> transport \<Rightarrow> mailer \<Rightarrow> suppression list \<Rightarrow> Message \<Rightarrow>
   string + envelope option" where
  "Send mac lower tr m t msg =
     (let notify = IsNotificationTemplate (ms_template msg);
          token = UnsubscribeToken mac lower (ml_secret m) (ms_to msg);
          unsubscribeURL = (if notify then ml_app_url m @ ''/unsubscribe?token='' @ token else []);
          oneClickURL = (if notify then ml_app_url m @ ''/api/v1/unsubscribe?token='' @ token else []);
          data = [(''UnsubscribeURL'', MText unsubscribeURL), (''AppURL'', MText (ml_app_url m))] @ ms_data msg
      in if notify \<and> ml_store m \<and> IsSuppressed lower (ms_to msg) t then Inr None
         else (case tr_render tr (ms_template msg) data of
            None \<Rightarrow> Inl ''mailer: render''
          | Some rendered \<Rightarrow>
              if \<not> tr_address tr (ml_from_name m) (ml_from_email m) then Inl ''mailer: from address''
              else if \<not> tr_address tr (ms_to_name msg) (ms_to msg) then Inl ''mailer: invalid recipient address''
              else
                let text = (if unsubscribeURL = [] then rd_text rendered
                            else trim_newlines (rd_text rendered) @ [LF, LF] @
                              translate (tr_catalog tr) (data_text ''Locale'' data) ''email_unsubscribe'' [] @ '' '' @
                              unsubscribeURL @ [LF]);
                    e = \<lparr> ev_from_name = ml_from_name m, ev_from = ml_from_email m, ev_to_name = ms_to_name msg,
                          ev_to = ms_to msg, ev_subject = rd_subject rendered, ev_text = text, ev_html = rd_html rendered,
                          ev_unsubscribe = oneClickURL, ev_one_click = (oneClickURL \<noteq> [] \<and> tr_one_click tr oneClickURL),
                          ev_attachments = ms_attachments msg \<rparr>
                in (case tr_deliver tr e of Some err \<Rightarrow> Inl err | None \<Rightarrow> Inr (Some e))))"

section \<open>The unsubscribe endpoints\<close>

datatype unsubscribe_reply = BadLink | Unsubscribed string | Subscribed string | SeeOther string

text \<open>The address an accepted link names; a link for the empty address counts as none.\<close>

definition unsubscribeAddress ::
  "(string \<Rightarrow> string \<Rightarrow> string) \<Rightarrow> (string \<Rightarrow> string) \<Rightarrow> string \<Rightarrow> string \<Rightarrow> string" where
  "unsubscribeAddress mac lower secret token =
     (case ParseUnsubscribeToken mac lower secret token of None \<Rightarrow> [] | Some email \<Rightarrow> email)"

definition handleUnsubscribe ::
  "(string \<Rightarrow> string \<Rightarrow> string) \<Rightarrow> (string \<Rightarrow> string) \<Rightarrow> string \<Rightarrow> string \<Rightarrow> string \<Rightarrow> instant \<Rightarrow> suppression list \<Rightarrow>
   unsubscribe_reply \<times> suppression list" where
  "handleUnsubscribe mac lower secret token via now t =
     (let email = unsubscribeAddress mac lower secret token
      in if email = [] then (BadLink, t)
         else (Unsubscribed email, Suppress lower email (if via = ''web'' then ''link'' else ''one-click'') now t))"

definition handleResubscribe ::
  "(string \<Rightarrow> string \<Rightarrow> string) \<Rightarrow> (string \<Rightarrow> string) \<Rightarrow> string \<Rightarrow> string \<Rightarrow> suppression list \<Rightarrow>
   unsubscribe_reply \<times> suppression list" where
  "handleResubscribe mac lower secret token t =
     (let email = unsubscribeAddress mac lower secret token
      in if email = [] then (BadLink, t) else (Subscribed email, Resubscribe lower email t))"

definition handleUnsubscribeGet ::
  "(string \<Rightarrow> string \<Rightarrow> string) \<Rightarrow> (string \<Rightarrow> string) \<Rightarrow> (string \<Rightarrow> string) \<Rightarrow> string \<Rightarrow> string \<Rightarrow> unsubscribe_reply" where
  "handleUnsubscribeGet mac lower escape secret token =
     (if unsubscribeAddress mac lower secret token = [] then BadLink
      else SeeOther (''/unsubscribe?token='' @ escape token))"

end
