(* ===== verification/BookStore.thy ===== *)
theory BookStore
  imports PollSchemas Availability
begin

text \<open>
  The tables the bookings package reads and writes (\<^verbatim>\<open>internal/bookings/queries\<close>), with one definition per query,
  and its errors. It is the same database as \<open>db\<close> seen through the package's own generated models; jobs and
  room events go to the same queues.
\<close>

section \<open>Rows\<close>

record BookingPage =
  bp_id :: string
  bp_org :: int
  bp_created_by :: "int option"
  bp_member_user :: "int option"
  bp_slug :: string
  bp_title :: string
  bp_description :: "string option"
  bp_location :: "string option"
  bp_timezone :: string
  bp_slot_duration :: int
  bp_buffer_before :: int
  bp_buffer_after :: int
  bp_min_notice :: int
  bp_max_days_ahead :: int
  bp_availability :: ranges_map
  bp_date_overrides :: "ranges_map option"
  bp_google_sync :: bool
  bp_reminders :: bool
  bp_status :: string
  bp_created_at :: instant
  bp_updated_at :: instant
  bp_deleted_at :: "instant option"
  bp_suspended_at :: "instant option"

record Booking =
  bk_id :: string
  bk_page :: string
  bk_start_at :: instant
  bk_end_at :: instant
  bk_visitor_name :: string
  bk_visitor_email :: string
  bk_visitor_note :: "string option"
  bk_visitor_locale :: "string option"
  bk_visitor_timezone :: string
  bk_status :: string
  bk_cancelled_by :: "string option"
  bk_google_event :: "string option"
  bk_created_at :: instant
  bk_updated_at :: instant

record Organization =
  og_id :: int
  og_slug :: string
  og_name :: string

record bdb =
  b_pages :: "BookingPage list"
  b_bookings :: "Booking list"
  b_users :: "User list"
  b_orgs :: "Organization list"
  b_members :: "OrganizationMember list"
  b_jobs :: "job list"
  b_events :: "Event list"
  b_event_seq :: int
  b_fresh :: "nat \<Rightarrow> string"
  b_next :: nat

text \<open>\<open>Never\<close> is not an error of the code: it marks a call that would not return.\<close>

datatype booking_error =
    BForbidden
  | BNotFound
  | BConflict
  | BSlugTaken
  | BHandleTaken
  | BSlotTaken
  | BPagePaused
  | BBookingPast
  | BInvalidToken
  | BValidation fields
  | BDb string
  | BNever

type_synonym 'a book_tx = "(bdb, booking_error, 'a) tx"

definition booking_id :: "string book_tx" where
  "booking_id d = Inr (b_fresh d (b_next d), d\<lparr> b_next := b_next d + 1 \<rparr>)"

section \<open>Pages\<close>

definition live_page :: "BookingPage \<Rightarrow> bool" where
  "live_page p \<longleftrightarrow> bp_deleted_at p = None \<and> bp_suspended_at p = None"

text \<open>The index \<open>booking_pages_org_slug_uidx\<close> covers the pages that are not deleted, suspended ones included.\<close>

definition slug_taken :: "string \<Rightarrow> int \<Rightarrow> string \<Rightarrow> bdb \<Rightarrow> bool" where
  "slug_taken i g slug d \<longleftrightarrow>
     list_ex (\<lambda>p. bp_id p \<noteq> i \<and> bp_deleted_at p = None \<and> bp_org p = g \<and> bp_slug p = slug) (b_pages d)"

definition known_user :: "int option \<Rightarrow> bdb \<Rightarrow> bool" where
  "known_user u d \<longleftrightarrow> (case u of None \<Rightarrow> True | Some i \<Rightarrow> tget u_id i (b_users d) \<noteq> None)"

definition InsertBookingPage :: "BookingPage \<Rightarrow> unit book_tx" where
  "InsertBookingPage p d =
     (if tget bp_id (bp_id p) (b_pages d) \<noteq> None then Inl (BDb ''booking_pages_pkey'')
      else if slug_taken (bp_id p) (bp_org p) (bp_slug p) d then Inl BSlugTaken
      else if tget og_id (bp_org p) (b_orgs d) = None then Inl (BDb ''fk_booking_pages_organization_id'')
      else if \<not> known_user (bp_created_by p) d then Inl (BDb ''fk_booking_pages_created_by'')
      else if \<not> known_user (bp_member_user p) d then Inl (BDb ''fk_booking_pages_member_user_id'')
      else Inr ((), d\<lparr> b_pages := b_pages d @ [p] \<rparr>))"

definition GetBookingPage :: "string \<Rightarrow> bdb \<Rightarrow> BookingPage option" where
  "GetBookingPage i d = find (\<lambda>p. bp_id p = i \<and> live_page p) (b_pages d)"

text \<open>The row lock of the \<open>FOR UPDATE\<close> variants orders transactions; what they read is the same.\<close>

definition GetBookingPageForUpdate :: "string \<Rightarrow> bdb \<Rightarrow> BookingPage option" where
  "GetBookingPageForUpdate i d = GetBookingPage i d"

definition GetBookingPageByOrgSlug :: "int \<Rightarrow> string \<Rightarrow> bdb \<Rightarrow> BookingPage option" where
  "GetBookingPageByOrgSlug g slug d = find (\<lambda>p. bp_org p = g \<and> bp_slug p = slug \<and> live_page p) (b_pages d)"

definition GetBookingPageByOrgSlugForUpdate :: "int \<Rightarrow> string \<Rightarrow> bdb \<Rightarrow> BookingPage option" where
  "GetBookingPageByOrgSlugForUpdate g slug d = GetBookingPageByOrgSlug g slug d"

definition BookingPageSuspended :: "int \<Rightarrow> string \<Rightarrow> bdb \<Rightarrow> bool" where
  "BookingPageSuspended g slug d \<longleftrightarrow>
     list_ex (\<lambda>p. bp_org p = g \<and> bp_slug p = slug \<and> bp_deleted_at p = None \<and> bp_suspended_at p \<noteq> None) (b_pages d)"

definition UpdateBookingPage :: "string \<Rightarrow> BookingPage \<Rightarrow> unit book_tx" where
  "UpdateBookingPage i arg d =
     (case tget bp_id i (b_pages d) of
        None \<Rightarrow> Inr ((), d)
      | Some old \<Rightarrow>
          if bp_deleted_at old = None \<and> slug_taken i (bp_org old) (bp_slug arg) d then Inl BSlugTaken
          else Inr ((), d\<lparr> b_pages := tupd (\<lambda>p. bp_id p = i) (\<lambda>p. p\<lparr>
            bp_slug := bp_slug arg, bp_title := bp_title arg, bp_description := bp_description arg,
            bp_location := bp_location arg, bp_timezone := bp_timezone arg, bp_slot_duration := bp_slot_duration arg,
            bp_buffer_before := bp_buffer_before arg, bp_buffer_after := bp_buffer_after arg,
            bp_min_notice := bp_min_notice arg, bp_max_days_ahead := bp_max_days_ahead arg,
            bp_availability := bp_availability arg, bp_date_overrides := bp_date_overrides arg,
            bp_google_sync := bp_google_sync arg, bp_reminders := bp_reminders arg, bp_status := bp_status arg,
            bp_updated_at := bp_updated_at arg \<rparr>) (b_pages d) \<rparr>))"

definition SoftDeleteBookingPage :: "string \<Rightarrow> instant \<Rightarrow> unit book_tx" where
  "SoftDeleteBookingPage i now = writes (\<lambda>d. d\<lparr> b_pages :=
     tupd (\<lambda>p. bp_id p = i) (\<lambda>p. p\<lparr> bp_deleted_at := Some now, bp_updated_at := now \<rparr>) (b_pages d) \<rparr>)"

definition DisableGoogleSyncForMember :: "int \<Rightarrow> instant \<Rightarrow> unit book_tx" where
  "DisableGoogleSyncForMember u now = writes (\<lambda>d. d\<lparr> b_pages :=
     tupd (\<lambda>p. bp_member_user p = Some u) (\<lambda>p. p\<lparr> bp_google_sync := False, bp_updated_at := now \<rparr>) (b_pages d) \<rparr>)"

section \<open>Organizations and members\<close>

definition GetOrganizationBySlug :: "string \<Rightarrow> bdb \<Rightarrow> Organization option" where
  "GetOrganizationBySlug slug d = find (\<lambda>g. og_slug g = slug) (b_orgs d)"

definition GetOrganization :: "int \<Rightarrow> bdb \<Rightarrow> Organization option" where
  "GetOrganization g d = tget og_id g (b_orgs d)"

definition UpdateOrganizationSlug :: "int \<Rightarrow> string \<Rightarrow> unit book_tx" where
  "UpdateOrganizationSlug g slug d =
     (if list_ex (\<lambda>o'. og_id o' \<noteq> g \<and> og_slug o' = slug) (b_orgs d) \<and> tget og_id g (b_orgs d) \<noteq> None
      then Inl BHandleTaken
      else Inr ((), d\<lparr> b_orgs := tupd (\<lambda>o'. og_id o' = g) (\<lambda>o'. o'\<lparr> og_slug := slug \<rparr>) (b_orgs d) \<rparr>))"

definition BookUser :: "int \<Rightarrow> bdb \<Rightarrow> User option" where
  "BookUser u d = tget u_id u (b_users d)"

definition member_with :: "(string \<Rightarrow> bool) \<Rightarrow> int \<Rightarrow> int \<Rightarrow> bdb \<Rightarrow> bool" where
  "member_with q g u d \<longleftrightarrow> list_ex (\<lambda>m. m_org m = g \<and> m_user m = u \<and> list_ex q (m_roles m)) (b_members d)"

definition BookIsOrgMember :: "int \<Rightarrow> int \<Rightarrow> bdb \<Rightarrow> bool" where
  "BookIsOrgMember g u d \<longleftrightarrow> list_ex (\<lambda>m. m_org m = g \<and> m_user m = u) (b_members d)"

definition BookMemberHasManagingRole :: "int \<Rightarrow> int \<Rightarrow> bdb \<Rightarrow> bool" where
  "BookMemberHasManagingRole g u d \<longleftrightarrow> member_with (\<lambda>r. r = ''owner'' \<or> r = ''admin'') g u d"

definition MemberHasOwnerRole :: "int \<Rightarrow> int \<Rightarrow> bdb \<Rightarrow> bool" where
  "MemberHasOwnerRole g u d \<longleftrightarrow> member_with (\<lambda>r. r = ''owner'') g u d"

section \<open>Bookings\<close>

definition InsertBooking :: "Booking \<Rightarrow> unit book_tx" where
  "InsertBooking b d =
     (if tget bp_id (bk_page b) (b_pages d) = None then Inl (BDb ''fk_bookings_page_id'')
      else (case tins bk_id b (b_bookings d) of
              None \<Rightarrow> Inl (BDb ''bookings_pkey'')
            | Some t \<Rightarrow> Inr ((), d\<lparr> b_bookings := t \<rparr>)))"

definition GetBooking :: "string \<Rightarrow> bdb \<Rightarrow> Booking option" where
  "GetBooking i d = tget bk_id i (b_bookings d)"

definition GetBookingForUpdate :: "string \<Rightarrow> bdb \<Rightarrow> Booking option" where
  "GetBookingForUpdate i d = GetBooking i d"

definition in_span :: "instant \<Rightarrow> instant \<Rightarrow> Booking \<Rightarrow> bool" where
  "in_span from to b \<longleftrightarrow> bk_start_at b < to \<and> from < bk_end_at b"

definition ListConfirmedBookingsInRange :: "string \<Rightarrow> instant \<Rightarrow> instant \<Rightarrow> bdb \<Rightarrow> Booking list" where
  "ListConfirmedBookingsInRange i from to d =
     sort_key bk_start_at (filter (\<lambda>b. bk_page b = i \<and> bk_status b = ''confirmed'' \<and> in_span from to b) (b_bookings d))"

definition ListBookingsInRange :: "string \<Rightarrow> instant \<Rightarrow> instant \<Rightarrow> bdb \<Rightarrow> Booking list" where
  "ListBookingsInRange i from to d =
     sort_key bk_start_at (filter (\<lambda>b. bk_page b = i \<and> in_span from to b) (b_bookings d))"

definition UpdateBookingStatus :: "string \<Rightarrow> string \<Rightarrow> string option \<Rightarrow> instant \<Rightarrow> unit book_tx" where
  "UpdateBookingStatus i status by now = writes (\<lambda>d. d\<lparr> b_bookings := tupd (\<lambda>b. bk_id b = i)
     (\<lambda>b. b\<lparr> bk_status := status, bk_cancelled_by := by, bk_updated_at := now \<rparr>) (b_bookings d) \<rparr>)"

definition UpdateBookingSchedule :: "string \<Rightarrow> instant \<Rightarrow> instant \<Rightarrow> instant \<Rightarrow> unit book_tx" where
  "UpdateBookingSchedule i start end' now = writes (\<lambda>d. d\<lparr> b_bookings := tupd (\<lambda>b. bk_id b = i)
     (\<lambda>b. b\<lparr> bk_start_at := start, bk_end_at := end', bk_updated_at := now \<rparr>) (b_bookings d) \<rparr>)"

text \<open>Pages of an organization, newest first, with the confirmed bookings still to come.\<close>

definition ListBookingPageSummariesByOrg :: "instant \<Rightarrow> int \<Rightarrow> bdb \<Rightarrow> (BookingPage \<times> nat) list" where
  "ListBookingPageSummariesByOrg start g d =
     map (\<lambda>p. (p, tcount (\<lambda>b. bk_page b = bp_id p \<and> bk_status b = ''confirmed'' \<and> start \<le> bk_start_at b) (b_bookings d)))
       (sort_key (\<lambda>p. - bp_created_at p) (filter (\<lambda>p. bp_org p = g \<and> live_page p) (b_pages d)))"

section \<open>Jobs and room events\<close>

definition book_schedule :: "ScheduleInput \<Rightarrow> unit book_tx" where
  "book_schedule i = tx booking_id (\<lambda>nid. writes (\<lambda>d. d\<lparr> b_jobs := Schedule nid i (b_jobs d) \<rparr>))"

definition book_cancel_job :: "string \<Rightarrow> string \<Rightarrow> unit book_tx" where
  "book_cancel_job kind room = writes (\<lambda>d. d\<lparr> b_jobs := Cancel kind room (b_jobs d) \<rparr>)"

definition booking_room :: "string \<Rightarrow> string" where
  "booking_room i = ''booking:'' @ i"

definition page_changed :: "string \<Rightarrow> unit book_tx" where
  "page_changed pageID = writes (\<lambda>d. (let i = b_event_seq d + 1
     in d\<lparr> b_event_seq := i, b_events := b_events d @
            [\<lparr> ev_id = i, ev_room = booking_room pageID, ev_type = ''page.changed'', ev_data = JNull \<rparr>] \<rparr>))"

end
