(* ===== verification/BookSchemas.thy ===== *)
theory BookSchemas
  imports BookStore PlainText "HOL-Library.List_Lexorder"
begin

text \<open>
  \<^verbatim>\<open>internal/bookings/schemas.go\<close>: the shape of a page and of a booking request. The zone database and the mail
  address parser are parameters: \<open>tzdb\<close> says which zone names load, \<open>parse_address\<close> what
  \<^verbatim>\<open>mail.ParseAddress\<close> reads out of a string.
\<close>

section \<open>Limits and patterns\<close>

definition LimitRangesPerDay :: nat where "LimitRangesPerDay = 20"
definition LimitOverrideDays :: nat where "LimitOverrideDays = 366"
definition LimitSlotDurMin :: int where "LimitSlotDurMin = 15"
definition LimitSlotDurMax :: int where "LimitSlotDurMax = 480"
definition LimitBufferMax :: int where "LimitBufferMax = 120"
definition LimitMinNoticeMax :: int where "LimitMinNoticeMax = 10080"
definition LimitMaxDaysAheadHi :: int where "LimitMaxDaysAheadHi = 365"
definition LimitPublicWindowDays :: int where "LimitPublicWindowDays = 62"

lemmas book_limits = LimitRangesPerDay_def LimitOverrideDays_def LimitSlotDurMin_def LimitSlotDurMax_def
  LimitBufferMax_def LimitMinNoticeMax_def LimitMaxDaysAheadHi_def LimitPublicWindowDays_def

definition lower_alnum :: "char \<Rightarrow> bool" where
  "lower_alnum c \<longleftrightarrow> digit_val c \<noteq> None \<or> (97 \<le> (of_char c :: nat) \<and> of_char c \<le> (122 :: nat))"

definition handleSlugRegexp :: "string \<Rightarrow> bool" where
  "handleSlugRegexp s \<longleftrightarrow> 3 \<le> length s \<and> length s \<le> 30 \<and> lower_alnum (hd s) \<and> lower_alnum (last s) \<and>
     list_all (\<lambda>c. lower_alnum c \<or> c = CHR ''-'') s"

fun hhmmRegexp :: "string \<Rightarrow> bool" where
  "hhmmRegexp [a, b, c, d, e] \<longleftrightarrow>
     (a \<in> set ''01'' \<and> digit_val b \<noteq> None \<or> a = CHR ''2'' \<and> b \<in> set ''0123'') \<and> c = CHR '':'' \<and>
     [d, e] \<in> set [''00'', ''15'', ''30'', ''45'']"
| "hhmmRegexp _ \<longleftrightarrow> False"

definition weekdayKeyRegexp :: "string \<Rightarrow> bool" where
  "weekdayKeyRegexp s \<longleftrightarrow> s \<in> set [''0'', ''1'', ''2'', ''3'', ''4'', ''5'', ''6'']"

text \<open>\<open>dateKeyRegexp\<close> is the pattern of \<open>dateOnlyRegexp\<close>.\<close>

definition dateKeyRegexp :: "string \<Rightarrow> bool" where
  "dateKeyRegexp s \<longleftrightarrow> dateOnlyRegexp s"

definition toMinutes :: "string \<Rightarrow> int" where
  "toMinutes hhmm = (case scan_hhmm hhmm of (n, h, m) \<Rightarrow> h * 60 + m)"

section \<open>Day ranges\<close>

fun range_shapes :: "string \<Rightarrow> nat \<Rightarrow> TimeRange list \<Rightarrow> fields \<Rightarrow> fields" where
  "range_shapes prefix i [] fs = fs"
| "range_shapes prefix i (r # rs) fs =
     (let key = prefix @ ''.'' @ FormatInt (int i)
      in range_shapes prefix (Suc i) rs
           (if \<not> hhmmRegexp (tr_start r) \<or> \<not> hhmmRegexp (tr_end r)
            then set_field key ''must be HH:mm on a 15-minute grid'' fs
            else field_if (toMinutes (tr_end r) \<le> toMinutes (tr_start r)) (key @ ''.end'') ''start must be before end'' fs))"

fun range_order :: "string \<Rightarrow> nat \<Rightarrow> TimeRange list \<Rightarrow> fields \<Rightarrow> fields" where
  "range_order prefix i (prev # cur # rs) fs =
     (let key = prefix @ ''.'' @ FormatInt (int i)
      in range_order prefix (Suc i) (cur # rs)
           (if toMinutes (tr_start cur) < toMinutes (tr_start prev) then set_field key ''ranges must be sorted'' fs
            else field_if (toMinutes (tr_start cur) < toMinutes (tr_end prev)) key ''ranges must not overlap'' fs))"
| "range_order prefix i _ fs = fs"

definition validateDayRanges :: "string \<Rightarrow> TimeRange list \<Rightarrow> fields \<Rightarrow> fields" where
  "validateDayRanges prefix ranges fs =
     range_order prefix 1 ranges (range_shapes prefix 0 ranges
       (field_if (LimitRangesPerDay < length ranges) prefix ''at most 20 ranges per day allowed'' fs))"

fun day_entries :: "string \<Rightarrow> (string \<Rightarrow> bool) \<Rightarrow> string \<Rightarrow> ranges_map \<Rightarrow> fields \<Rightarrow> fields" where
  "day_entries name keyPattern keyMsg [] fs = fs"
| "day_entries name keyPattern keyMsg ((k, ranges) # m) fs =
     day_entries name keyPattern keyMsg m
       (if \<not> keyPattern k then set_field name keyMsg fs
        else validateDayRanges (name @ ''.'' @ k) ranges fs)"

text \<open>The keys are visited in sorted order; a byte string is ordered by its code points.\<close>

definition by_key :: "ranges_map \<Rightarrow> ranges_map" where
  "by_key m = sort_key (\<lambda>e. map (of_char :: char \<Rightarrow> nat) (fst e)) m"

definition validateDayRangesMap ::
  "string \<Rightarrow> (string \<Rightarrow> bool) \<Rightarrow> string \<Rightarrow> ranges_map \<Rightarrow> nat \<Rightarrow> fields \<Rightarrow> fields" where
  "validateDayRangesMap name keyPattern keyMsg m maxKeys fs =
     day_entries name keyPattern keyMsg (by_key m)
       (field_if (0 < maxKeys \<and> maxKeys < length m) name
          (''at most '' @ FormatInt (int maxKeys) @ '' entries allowed'') fs)"

definition validateTimezone :: "(string \<Rightarrow> location option) \<Rightarrow> string \<Rightarrow> string" where
  "validateTimezone tzdb tz =
     (if length tz < 1 \<or> 64 < length tz then ''timezone must be 1-64 characters''
      else if tzdb tz = None then ''invalid IANA timezone'' else [])"

definition quoted :: "string \<Rightarrow> string" where
  "quoted s = [CHR 0x27] @ s @ [CHR 0x27]"

section \<open>A page\<close>

record PageInput =
  pg_slug :: string
  pg_title :: string
  pg_description :: "string option"
  pg_location :: "string option"
  pg_timezone :: string
  pg_slot_duration :: int
  pg_buffer_before :: int
  pg_buffer_after :: int
  pg_min_notice :: int
  pg_max_days_ahead :: int
  pg_availability :: "ranges_map option"
  pg_date_overrides :: "ranges_map option"
  pg_google_sync :: bool
  pg_reminders :: bool
  pg_status :: string

definition between_msg :: "string \<Rightarrow> int \<Rightarrow> int \<Rightarrow> int \<Rightarrow> fields \<Rightarrow> fields" where
  "between_msg name lo hi x fs = field_if (x < lo \<or> hi < x) name
     (name @ '' must be between '' @ FormatInt lo @ '' and '' @ FormatInt hi) fs"

definition longer_than :: "nat \<Rightarrow> string option \<Rightarrow> bool" where
  "longer_than n s \<longleftrightarrow> (case s of None \<Rightarrow> False | Some x \<Rightarrow> n < length (TrimSpace x))"

definition page_texts :: "PageInput \<Rightarrow> fields \<Rightarrow> fields" where
  "page_texts i fs =
     (let title = TrimSpace (pg_title i);
          fs1 = field_if (\<not> handleSlugRegexp (pg_slug i) \<or> length (pg_slug i) < 3 \<or> 30 < length (pg_slug i)) ''slug''
                  ''slug must be lowercase letters, digits and hyphens, 3-30 characters'' fs;
          fs2 = (if title = [] then set_field ''title'' ''title is required'' fs1
                 else field_if (200 < length title) ''title'' ''title must be at most 200 characters'' fs1);
          fs3 = field_if (longer_than 2000 (pg_description i)) ''description'' ''description must be at most 2000 characters'' fs2
      in field_if (longer_than 500 (pg_location i)) ''location'' ''location must be at most 500 characters'' fs3)"

definition page_numbers :: "PageInput \<Rightarrow> fields \<Rightarrow> fields" where
  "page_numbers i fs =
     between_msg ''maxDaysAhead'' 1 LimitMaxDaysAheadHi (pg_max_days_ahead i)
    (between_msg ''minNoticeMin'' 0 LimitMinNoticeMax (pg_min_notice i)
    (between_msg ''bufferAfterMin'' 0 LimitBufferMax (pg_buffer_after i)
    (between_msg ''bufferBeforeMin'' 0 LimitBufferMax (pg_buffer_before i)
    (between_msg ''slotDurationMin'' LimitSlotDurMin LimitSlotDurMax (pg_slot_duration i) fs))))"

definition page_days :: "PageInput \<Rightarrow> fields \<Rightarrow> fields" where
  "page_days i fs =
     (let fs1 = (case pg_availability i of
            None \<Rightarrow> set_field ''availability'' ''availability is required'' fs
          | Some m \<Rightarrow> validateDayRangesMap ''availability'' weekdayKeyRegexp (''Weekday keys must be '' @ quoted ''0'' @ ''..'' @ quoted ''6'') m 0 fs)
      in case pg_date_overrides i of
           None \<Rightarrow> fs1
         | Some m \<Rightarrow> validateDayRangesMap ''dateOverrides'' dateKeyRegexp (''Override keys must be '' @ quoted ''YYYY-MM-DD'') m
                       LimitOverrideDays fs1)"

definition PageInput_fields :: "(string \<Rightarrow> location option) \<Rightarrow> PageInput \<Rightarrow> fields" where
  "PageInput_fields tzdb i =
     (let tzmsg = validateTimezone tzdb (pg_timezone i)
      in field_if (pg_status i \<noteq> [] \<and> pg_status i \<noteq> ''active'' \<and> pg_status i \<noteq> ''paused'') ''status''
           ''status must be one of active, paused''
         (page_days i (page_numbers i (field_if (tzmsg \<noteq> []) ''timezone'' tzmsg (page_texts i [])))))"

definition PageInput_Validate :: "(string \<Rightarrow> location option) \<Rightarrow> PageInput \<Rightarrow> booking_error + unit" where
  "PageInput_Validate tzdb i = (let fs = PageInput_fields tzdb i in if fs \<noteq> [] then Inl (BValidation fs) else Inr ())"

section \<open>A booking request\<close>

record BookInput =
  in_start_at :: instant
  in_name :: string
  in_email :: string
  in_note :: "string option"
  in_locale :: "string option"
  in_timezone :: string
  in_busy :: "Interval list"

definition SupportedLocales :: "string list" where "SupportedLocales = [''en'', ''nb'']"

definition validateEmail :: "(string \<Rightarrow> string option) \<Rightarrow> string \<Rightarrow> bool" where
  "validateEmail parse_address email \<longleftrightarrow>
     email \<noteq> [] \<and> length email \<le> 254 \<and> parse_address email = Some email"

definition BookInput_fields :: "(string \<Rightarrow> location option) \<Rightarrow> (string \<Rightarrow> string option) \<Rightarrow> BookInput \<Rightarrow> fields" where
  "BookInput_fields tzdb parse_address i =
     (let name = TrimSpace (in_name i); tzmsg = validateTimezone tzdb (in_timezone i);
          fs1 = (if name = [] then set_field ''name'' ''name is required'' []
                 else field_if (80 < length name) ''name'' ''name must be at most 80 characters'' []);
          fs2 = field_if (\<not> validateEmail parse_address (in_email i)) ''email'' ''must be a valid email address'' fs1;
          fs3 = field_if (longer_than 1000 (in_note i)) ''note'' ''note must be at most 1000 characters'' fs2;
          fs4 = field_if (case in_locale i of None \<Rightarrow> False | Some l \<Rightarrow> l \<notin> set SupportedLocales) ''locale''
                  ''locale must be one of en, nb'' fs3
      in field_if (tzmsg \<noteq> []) ''timezone'' tzmsg fs4)"

definition BookInput_Validate ::
  "(string \<Rightarrow> location option) \<Rightarrow> (string \<Rightarrow> string option) \<Rightarrow> BookInput \<Rightarrow> booking_error + unit" where
  "BookInput_Validate tzdb parse_address i =
     (let fs = BookInput_fields tzdb parse_address i in if fs \<noteq> [] then Inl (BValidation fs) else Inr ())"

definition validateHandle :: "string \<Rightarrow> booking_error + unit" where
  "validateHandle handle =
     (if handleSlugRegexp handle then Inr ()
      else Inl (BValidation [(''handle'', ''handle must be lowercase letters, digits and hyphens, 3-30 characters'')]))"


section \<open>Clock times\<close>

lemma digit_val_Some: "digit_val c = Some d \<longleftrightarrow> of_char c = d + (48::nat) \<and> d < 10"
  by (auto simp: digit_val_def Let_def)

lemma digit_printable: "digit_val c = Some d \<Longrightarrow> printable c"
  by (simp add: digit_val_Some printable_def)

lemma scan_int2_digits:
  assumes "digit_val a = Some d" and "digit_val b = Some e"
  shows "scan_int2 (a # b # s) = Some (int (10 * d + e), s)"
proof -
  have "strip_any blanks (a # b # s) = None"
    using white_space_endsD(1) digit_printable [OF assms(1)] unfolding blanks_def
    by (intro strip_any_None) auto
  moreover have "a \<noteq> CHR ''-''" "a \<noteq> CHR ''+''" using assms(1) by (auto simp: digit_val_def)
  ultimately show ?thesis
    using assms by (simp add: scan_int2_def trim_left_id scan_digits_def numeral_2_eq_2)
qed

lemma hhmm_scan:
  assumes "hhmmRegexp s"
  obtains h m where "scan_hhmm s = (2, h, m)" and "0 \<le> h" and "h \<le> 23" and "m \<in> {0, 15, 30, 45}"
proof -
  from assms obtain a b d e where s: "s = [a, b, CHR '':'', d, e]" and hour: "a \<in> set ''01'' \<and> digit_val b \<noteq> None \<or> a = CHR ''2'' \<and> b \<in> set ''0123''"
    and minute: "[d, e] \<in> set [''00'', ''15'', ''30'', ''45'']" by (cases s rule: hhmmRegexp.cases) auto
  have digits: "digit_val CHR ''0'' = Some 0" "digit_val CHR ''1'' = Some 1" "digit_val CHR ''2'' = Some 2"
    "digit_val CHR ''3'' = Some 3" "digit_val CHR ''4'' = Some 4" "digit_val CHR ''5'' = Some 5"
    by (simp_all add: digit_val_Some)
  obtain x y where xy: "digit_val a = Some x" "digit_val b = Some y" "10 * x + y \<le> 23"
    using hour digits by (auto simp: digit_val_Some)
  obtain u v where uv: "digit_val d = Some u" "digit_val e = Some v" "int (10 * u + v) \<in> {0, 15, 30, 45}"
    using minute digits by auto
  have "scan_hhmm s = (2, int (10 * x + y), int (10 * u + v))"
    using scan_int2_digits [OF xy(1,2)] scan_int2_digits [OF uv(1,2)] by (simp add: s scan_hhmm_def)
  with xy(3) uv(3) show thesis by (intro that) auto
qed

lemma hhmm_clock: "hhmmRegexp s \<Longrightarrow> scan_hhmm s = (2, toMinutes s div 60, toMinutes s mod 60) \<and> 0 \<le> toMinutes s \<and> toMinutes s < 1440"
  by (erule hhmm_scan) (auto simp: toMinutes_def)

section \<open>What a valid page satisfies\<close>

definition range_ok :: "TimeRange \<Rightarrow> bool" where
  "range_ok r \<longleftrightarrow> hhmmRegexp (tr_start r) \<and> hhmmRegexp (tr_end r) \<and> toMinutes (tr_start r) < toMinutes (tr_end r)"

definition day_ok :: "TimeRange list \<Rightarrow> bool" where
  "day_ok rs \<longleftrightarrow> length rs \<le> 20 \<and> list_all range_ok rs \<and>
     sorted_wrt (\<lambda>r r'. toMinutes (tr_end r) \<le> toMinutes (tr_start r')) rs"

lemma range_shapes_Nil: "range_shapes p i rs fs = [] \<longleftrightarrow> fs = [] \<and> list_all range_ok rs"
  by (induction rs arbitrary: i fs) (auto simp: Let_def range_ok_def not_le)

lemma range_order_fields: "range_order p i rs fs = [] \<Longrightarrow> fs = []"
  by (induction p i rs fs rule: range_order.induct) (auto simp: Let_def split: if_splits)

lemma range_order_Nil:
  "list_all range_ok rs \<Longrightarrow> range_order p i rs fs = [] \<longleftrightarrow>
     fs = [] \<and> sorted_wrt (\<lambda>r r'. toMinutes (tr_end r) \<le> toMinutes (tr_start r')) rs"
proof (induction p i rs fs rule: range_order.induct)
  case (1 p i prev cur rs fs)
  let ?fs = "if toMinutes (tr_start cur) < toMinutes (tr_start prev)
    then set_field (p @ ''.'' @ FormatInt (int i)) ''ranges must be sorted'' fs
    else field_if (toMinutes (tr_start cur) < toMinutes (tr_end prev)) (p @ ''.'' @ FormatInt (int i)) ''ranges must not overlap'' fs"
  have lt: "toMinutes (tr_start prev) < toMinutes (tr_end prev)" "toMinutes (tr_start cur) < toMinutes (tr_end cur)"
    using "1.prems" by (simp_all add: range_ok_def)
  have "?fs = [] \<longleftrightarrow> fs = [] \<and> toMinutes (tr_end prev) \<le> toMinutes (tr_start cur)" using lt(1) by auto
  moreover have "range_order p (Suc i) (cur # rs) ?fs = [] \<longleftrightarrow>
      ?fs = [] \<and> sorted_wrt (\<lambda>r r'. toMinutes (tr_end r) \<le> toMinutes (tr_start r')) (cur # rs)"
    using "1.IH" [OF refl] "1.prems" by simp
  ultimately show ?case using lt(2) by (auto simp: Let_def)
qed auto

lemma validateDayRanges_Nil: "validateDayRanges p rs fs = [] \<longleftrightarrow> fs = [] \<and> day_ok rs"
  by (cases "list_all range_ok rs")
    (auto simp: validateDayRanges_def range_order_Nil range_shapes_Nil day_ok_def LimitRangesPerDay_def not_less dest!: range_order_fields)


lemma day_entries_Nil:
  "day_entries name pat msg m fs = [] \<longleftrightarrow> fs = [] \<and> list_all (\<lambda>(k, rs). pat k \<and> day_ok rs) m"
proof (induction m arbitrary: fs)
  case (Cons e m)
  then show ?case by (cases e) (simp add: validateDayRanges_Nil)
qed simp

lemma list_all_by_key: "list_all q (by_key m) \<longleftrightarrow> list_all q m"
  by (simp add: by_key_def list_all_iff)

lemma validateDayRangesMap_Nil:
  "validateDayRangesMap name pat msg m k fs = [] \<longleftrightarrow>
   fs = [] \<and> (k = 0 \<or> length m \<le> k) \<and> list_all (\<lambda>(k, rs). pat k \<and> day_ok rs) m"
  unfolding validateDayRangesMap_def day_entries_Nil list_all_by_key field_if_Nil by (cases "k = 0") (simp_all add: not_less conj_ac)

lemma validateTimezone_Nil: "validateTimezone tzdb tz = [] \<longleftrightarrow> 1 \<le> length tz \<and> length tz \<le> 64 \<and> tzdb tz \<noteq> None"
  by (cases tz) (auto simp: validateTimezone_def not_less)

lemma between_msg_Nil: "between_msg name lo hi x fs = [] \<longleftrightarrow> fs = [] \<and> lo \<le> x \<and> x \<le> hi"
  by (auto simp: between_msg_def)

lemma page_numbers_Nil: "page_numbers i fs = [] \<longleftrightarrow> fs = [] \<and> pg_slot_duration i \<in> {15..480} \<and> pg_buffer_before i \<in> {0..120} \<and>
      pg_buffer_after i \<in> {0..120} \<and> pg_min_notice i \<in> {0..10080} \<and> pg_max_days_ahead i \<in> {1..365}"
  unfolding page_numbers_def between_msg_Nil book_limits by simp

lemma page_texts_Nil:
  "page_texts i fs = [] \<longleftrightarrow> fs = [] \<and> handleSlugRegexp (pg_slug i) \<and>
     TrimSpace (pg_title i) \<noteq> [] \<and> length (TrimSpace (pg_title i)) \<le> 200 \<and>
     \<not> longer_than 2000 (pg_description i) \<and> \<not> longer_than 500 (pg_location i)"
  by (auto simp: page_texts_def Let_def handleSlugRegexp_def)

lemma page_days_Nil:
  "page_days i fs = [] \<longleftrightarrow> fs = [] \<and>
     (\<exists>m. pg_availability i = Some m \<and> list_all (\<lambda>(k, rs). weekdayKeyRegexp k \<and> day_ok rs) m) \<and>
     (case pg_date_overrides i of None \<Rightarrow> True
      | Some m \<Rightarrow> length m \<le> 366 \<and> list_all (\<lambda>(k, rs). dateKeyRegexp k \<and> day_ok rs) m)"
  by (auto simp: page_days_def validateDayRangesMap_Nil LimitOverrideDays_def Let_def split: option.split)

lemma PageInput_fields_Nil:
  "PageInput_fields tzdb i = [] \<longleftrightarrow>
     handleSlugRegexp (pg_slug i) \<and> TrimSpace (pg_title i) \<noteq> [] \<and> length (TrimSpace (pg_title i)) \<le> 200 \<and>
     \<not> longer_than 2000 (pg_description i) \<and> \<not> longer_than 500 (pg_location i) \<and>
     1 \<le> length (pg_timezone i) \<and> length (pg_timezone i) \<le> 64 \<and> tzdb (pg_timezone i) \<noteq> None \<and>
     pg_slot_duration i \<in> {15..480} \<and> pg_buffer_before i \<in> {0..120} \<and> pg_buffer_after i \<in> {0..120} \<and>
     pg_min_notice i \<in> {0..10080} \<and> pg_max_days_ahead i \<in> {1..365} \<and>
     (\<exists>m. pg_availability i = Some m \<and> list_all (\<lambda>(k, rs). weekdayKeyRegexp k \<and> day_ok rs) m) \<and>
     (case pg_date_overrides i of None \<Rightarrow> True
      | Some m \<Rightarrow> length m \<le> 366 \<and> list_all (\<lambda>(k, rs). dateKeyRegexp k \<and> day_ok rs) m) \<and>
     pg_status i \<in> {[], ''active'', ''paused''}"
proof -
  have "PageInput_fields tzdb i = [] \<longleftrightarrow> \<not> (pg_status i \<noteq> [] \<and> pg_status i \<noteq> ''active'' \<and> pg_status i \<noteq> ''paused'') \<and>
      page_days i (page_numbers i (field_if (validateTimezone tzdb (pg_timezone i) \<noteq> []) ''timezone''
        (validateTimezone tzdb (pg_timezone i)) (page_texts i []))) = []"
    unfolding PageInput_fields_def Let_def field_if_Nil ..
  then show ?thesis
    unfolding page_days_Nil page_numbers_Nil field_if_Nil validateTimezone_Nil page_texts_Nil by blast
qed

lemma PageInput_Validate_fields: "PageInput_Validate tzdb i = Inr () \<longleftrightarrow> PageInput_fields tzdb i = []"
  by (simp add: PageInput_Validate_def Let_def)


end
