(* ===== verification/Accounts.thy ===== *)
theory Accounts
  imports Mailer BookSchemas
begin

text \<open>
  Accounts (\<^verbatim>\<open>internal/auth\<close>): the tables of the authentication library the server reads and writes itself, profiles,
  the password re-check, deleting an account with its organizations, and the slugs of personal organizations.
\<close>

section \<open>Tables\<close>

record AUser =
  au_id :: int
  au_email :: string
  au_password :: "string option"
  au_verified_at :: "instant option"
  au_first_name :: "string option"
  au_last_name :: "string option"
  au_created_at :: instant

record AOrg =
  ao_id :: int
  ao_name :: string
  ao_slug :: string

record AMember =
  am_id :: int
  am_org :: int
  am_user :: int
  am_created_at :: instant

record AMemberRole =
  ar_member :: int
  ar_org :: int
  ar_role :: string

record ASession =
  as_token :: string
  as_user :: int
  as_active :: "int option"

record AContent =
  ct_id :: string
  ct_org :: int
  ct_created_by :: "int option"
  ct_member_user :: "int option"
  ct_title :: string
  ct_type :: "string option"
  ct_slug :: string
  ct_created_at :: instant
  ct_deleted_at :: "instant option"
  ct_suspended_at :: "instant option"

record AuditRow =
  al_id :: string
  al_actor :: "int option"
  al_actor_email :: string
  al_action :: string
  al_target_type :: string
  al_target_id :: "string option"
  al_reason :: "string option"
  al_created_at :: instant

text \<open>\<open>a_accounts\<close> holds the users of the linked provider accounts, \<open>a_ensured\<close> the in-process cache of users known to
  have an organization. Polls and booking pages appear with the columns this code reads.\<close>

record adb =
  a_users :: "AUser list"
  a_locales :: "(int \<times> string) list"
  a_orgs :: "AOrg list"
  a_members :: "AMember list"
  a_roles :: "AMemberRole list"
  a_sessions :: "ASession list"
  a_accounts :: "int list"
  a_locked :: "(int \<times> string option) list"
  a_staff :: "int list"
  a_polls :: "AContent list"
  a_pages :: "AContent list"
  a_audit :: "AuditRow list"
  a_jobs :: "job list"
  a_fresh :: "nat \<Rightarrow> string"
  a_next :: nat
  a_ensured :: "int list"

datatype account_error =
    ErrNoSuchUser
  | ProfileValidationError string string
  | ErrPasswordRequired
  | ErrPasswordMismatch
  | ErrAccountForbidden
  | ErrAccountUnauthenticated
  | ErrSelfTarget
  | ErrContentNotFound
  | ErrContentUnchanged
  | AccountDb string

type_synonym 'a account_tx = "(adb, account_error, 'a) tx"

section \<open>Deleting a user\<close>

definition owner_rows :: "AMember \<Rightarrow> adb \<Rightarrow> AMemberRole list" where
  "owner_rows m d = filter (\<lambda>r. ar_member r = am_id m \<and> ar_role r = ''owner'') (a_roles d)"

text \<open>The organizations whose membership of \<open>uid\<close> has an owner row, one per row of the join.\<close>

definition owned_orgs :: "int \<Rightarrow> adb \<Rightarrow> int list" where
  "owned_orgs uid d = concat (map (\<lambda>m. map (\<lambda>_. am_org m) (owner_rows m d)) (filter (\<lambda>m. am_user m = uid) (a_members d)))"

definition other_owner :: "int \<Rightarrow> int \<Rightarrow> adb \<Rightarrow> bool" where
  "other_owner g uid d \<longleftrightarrow> list_ex (\<lambda>m. am_org m = g \<and> am_user m \<noteq> uid \<and> owner_rows m d \<noteq> []) (a_members d)"

text \<open>\<open>ORDER BY created_at LIMIT 1\<close>; of memberships created at the same instant the first in the table is taken.\<close>

definition oldest_other_member :: "int \<Rightarrow> int \<Rightarrow> adb \<Rightarrow> AMember option" where
  "oldest_other_member g uid d =
     (case sort_key am_created_at (filter (\<lambda>m. am_org m = g \<and> am_user m \<noteq> uid) (a_members d)) of
        [] \<Rightarrow> None | m # _ \<Rightarrow> Some m)"

definition promote :: "int \<Rightarrow> int \<Rightarrow> adb \<Rightarrow> adb" where
  "promote g mid d =
     (if list_ex (\<lambda>r. ar_member r = mid \<and> ar_role r = ''owner'') (a_roles d) then d
      else d\<lparr> a_roles := a_roles d @ [\<lparr> ar_member = mid, ar_org = g, ar_role = ''owner'' \<rparr>] \<rparr>)"

text \<open>Deleting an organization takes its memberships, their roles, its polls and its booking pages along.\<close>

definition delete_org :: "int \<Rightarrow> adb \<Rightarrow> adb" where
  "delete_org g d = (let gone = map am_id (filter (\<lambda>m. am_org m = g) (a_members d)) in d\<lparr>
     a_orgs := tdel (\<lambda>x. ao_id x = g) (a_orgs d), a_members := tdel (\<lambda>m. am_org m = g) (a_members d),
     a_roles := tdel (\<lambda>r. ar_org r = g \<or> ar_member r \<in> set gone) (a_roles d),
     a_polls := tdel (\<lambda>c. ct_org c = g) (a_polls d), a_pages := tdel (\<lambda>c. ct_org c = g) (a_pages d) \<rparr>)"

definition cascade_org :: "int \<Rightarrow> int \<Rightarrow> adb \<Rightarrow> adb" where
  "cascade_org uid g d =
     (if other_owner g uid d then d
      else case oldest_other_member g uid d of
             Some m \<Rightarrow> promote g (am_id m) d
           | None \<Rightarrow> delete_org g d)"

definition cascadeOrphanedOwnerOrganizations :: "int \<Rightarrow> adb \<Rightarrow> adb" where
  "cascadeOrphanedOwnerOrganizations uid d = fold (cascade_org uid) (owned_orgs uid d) d"

text \<open>\<open>DELETE FROM users\<close>: refused while sessions or provider accounts refer to the user; memberships with their roles,
  the locale, the lock and the staff flag go along, references from content and from the audit log become null.\<close>

definition null_user :: "int \<Rightarrow> int option \<Rightarrow> int option" where
  "null_user uid u = (if u = Some uid then None else u)"

definition delete_user_row :: "int \<Rightarrow> unit account_tx" where
  "delete_user_row uid d =
     (if list_ex (\<lambda>s. as_user s = uid) (a_sessions d) \<or> uid \<in> set (a_accounts d) then Inl (AccountDb ''foreign_key_violation'')
      else if tget au_id uid (a_users d) = None then Inl ErrNoSuchUser
      else (let gone = map am_id (filter (\<lambda>m. am_user m = uid) (a_members d));
                forget = map (\<lambda>c. c\<lparr> ct_created_by := null_user uid (ct_created_by c), ct_member_user := null_user uid (ct_member_user c) \<rparr>)
            in Inr ((), d\<lparr>
              a_users := tdel (\<lambda>u. au_id u = uid) (a_users d), a_members := tdel (\<lambda>m. am_user m = uid) (a_members d),
              a_roles := tdel (\<lambda>r. ar_member r \<in> set gone) (a_roles d), a_locales := tdel (\<lambda>p. fst p = uid) (a_locales d),
              a_locked := tdel (\<lambda>p. fst p = uid) (a_locked d), a_staff := tdel (\<lambda>u. u = uid) (a_staff d),
              a_polls := forget (a_polls d), a_pages := forget (a_pages d),
              a_audit := map (\<lambda>r. r\<lparr> al_actor := null_user uid (al_actor r) \<rparr>) (a_audit d) \<rparr>)))"

definition CascadeDeleteUser :: "string \<Rightarrow> unit account_tx" where
  "CascadeDeleteUser userID =
     tx (lookup_or ErrNoSuchUser (\<lambda>_. ParseInt userID)) (\<lambda>uid.
     tx (writes (cascadeOrphanedOwnerOrganizations uid)) (\<lambda>_.
     tx (writes (\<lambda>d. d\<lparr> a_sessions := tdel (\<lambda>s. as_user s = uid) (a_sessions d) \<rparr>)) (\<lambda>_.
     tx (writes (\<lambda>d. d\<lparr> a_accounts := tdel (\<lambda>u. u = uid) (a_accounts d) \<rparr>)) (\<lambda>_.
     delete_user_row uid))))"

text \<open>The caller's own account. Revoking the sessions beforehand is best effort, \<open>revoke\<close> is the library's answer;
  the transaction clears them anyway. The cache forgets the user after the commit.\<close>

definition DeleteOwnAccount :: "(string \<Rightarrow> adb \<Rightarrow> adb) \<Rightarrow> string \<Rightarrow> unit account_tx" where
  "DeleteOwnAccount revoke userID d =
     (case CascadeDeleteUser userID (revoke userID d) of
        Inl e \<Rightarrow> Inl e
      | Inr (u, d') \<Rightarrow> Inr ((), d'\<lparr> a_ensured := tdel (\<lambda>u. Some u = ParseInt userID) (a_ensured d') \<rparr>))"

definition CheckOwnPassword :: "(string \<Rightarrow> string \<Rightarrow> string + bool) \<Rightarrow> string \<Rightarrow> string \<Rightarrow> unit account_tx" where
  "CheckOwnPassword compare_password userID password =
     tx (lookup_or ErrNoSuchUser (\<lambda>_. ParseInt userID)) (\<lambda>uid.
     tx (lookup_or ErrNoSuchUser (\<lambda>d. tget au_id uid (a_users d))) (\<lambda>u.
     case au_password u of
       None \<Rightarrow> ret ()
     | Some hash \<Rightarrow>
         if hash = [] then ret ()
         else tx (ensure (password \<noteq> []) ErrPasswordRequired) (\<lambda>_.
              case compare_password password hash of
                Inl e \<Rightarrow> raise (AccountDb e)
              | Inr ok \<Rightarrow> ensure ok ErrPasswordMismatch)))"

section \<open>Profiles\<close>

definition maxProfileNameRunes :: nat where "maxProfileNameRunes = 80"

definition nameFromEmail :: "string \<Rightarrow> string" where
  "nameFromEmail email =
     (case Cut (CHR ''@'') email of Some (before, _) \<Rightarrow> if before \<noteq> [] then before else email | None \<Rightarrow> email)"

definition DisplayName :: "string \<Rightarrow> string \<Rightarrow> string \<Rightarrow> string" where
  "DisplayName firstName lastName email =
     (let name = TrimSpace (TrimSpace firstName @ '' '' @ TrimSpace lastName) in if name \<noteq> [] then name else nameFromEmail email)"

definition normalizeLocale :: "string \<Rightarrow> string" where
  "normalizeLocale l = (if IsSupportedLocale l then l else ''en'')"

text \<open>\<open>Fields\<close> splits around runs of white space. The encodings of white space start with a byte that is no
  continuation byte, so going byte by byte finds the same breaks as going rune by rune.\<close>

definition flush :: "string \<Rightarrow> string list" where
  "flush w = (if w = [] then [] else [w])"

function fields_from :: "string \<Rightarrow> string \<Rightarrow> string list" where
  "fields_from w [] = flush w"
| "fields_from w (c # cs) =
     (case strip_any white_space (c # cs) of
        Some t \<Rightarrow> flush w @ fields_from [] t
      | None \<Rightarrow> fields_from (w @ [c]) cs)"
  by pat_completeness auto
termination
  by (relation "measure (\<lambda>(w, s). length s)") (auto dest: strip_any_shorter)

definition Fields :: "string \<Rightarrow> string list" where
  "Fields s = fields_from [] s"

definition normalizeProfileName :: "string \<Rightarrow> string \<times> bool" where
  "normalizeProfileName name = (let trimmed = Join '' '' (Fields name)
     in (trimmed, trimmed \<noteq> [] \<and> length (runes trimmed) \<le> maxProfileNameRunes))"

definition splitName :: "string \<Rightarrow> string \<times> string" where
  "splitName name = (case Cut (CHR '' '') name of Some (a, b) \<Rightarrow> (a, b) | None \<Rightarrow> (name, []))"

record Profile =
  pf_user :: string
  pf_name :: string
  pf_locale :: string
  pf_verified :: bool

definition or_empty :: "string option \<Rightarrow> string" where
  "or_empty s = (case s of None \<Rightarrow> [] | Some x \<Rightarrow> x)"

definition profile_of :: "AUser \<Rightarrow> adb \<Rightarrow> Profile" where
  "profile_of u d = \<lparr> pf_user = FormatInt (au_id u),
     pf_name = DisplayName (or_empty (au_first_name u)) (or_empty (au_last_name u)) (au_email u),
     pf_locale = normalizeLocale (case map_of (a_locales d) (au_id u) of None \<Rightarrow> ''en'' | Some l \<Rightarrow> l),
     pf_verified = (au_verified_at u \<noteq> None) \<rparr>"

definition GetProfile :: "string \<Rightarrow> Profile account_tx" where
  "GetProfile userID =
     tx (lookup_or ErrNoSuchUser (\<lambda>_. ParseInt userID)) (\<lambda>uid.
     tx (lookup_or ErrNoSuchUser (\<lambda>d. tget au_id uid (a_users d))) (\<lambda>u.
     reads (profile_of u)))"

definition profileByEmail :: "(string \<Rightarrow> string) \<Rightarrow> string \<Rightarrow> Profile account_tx" where
  "profileByEmail normal email =
     tx (lookup_or ErrNoSuchUser (\<lambda>d. tget au_email (normal email) (a_users d))) (\<lambda>u. reads (profile_of u))"

definition set_name :: "int \<Rightarrow> string \<Rightarrow> unit account_tx" where
  "set_name uid name =
     tx (ensure (fst (normalizeProfileName name) \<noteq> []) (ProfileValidationError ''name'' ''name is required'')) (\<lambda>_.
     tx (ensure (snd (normalizeProfileName name)) (ProfileValidationError ''name'' ''name must be at most 80 characters'')) (\<lambda>_. ret ()))"

text \<open>Both parts are checked before anything is written.\<close>

definition SetProfile :: "string \<Rightarrow> string option \<Rightarrow> string option \<Rightarrow> unit account_tx" where
  "SetProfile userID name locale =
     tx (lookup_or ErrNoSuchUser (\<lambda>_. ParseInt userID)) (\<lambda>uid.
     tx (case name of None \<Rightarrow> ret () | Some n \<Rightarrow> set_name uid n) (\<lambda>_.
     tx (case locale of None \<Rightarrow> ret () | Some l \<Rightarrow> ensure (IsSupportedLocale l)
           (ProfileValidationError ''locale'' (''locale must be one of '' @ Join '', '' SupportedMailLocales))) (\<lambda>_.
     tx (case name of None \<Rightarrow> ret ()
         | Some n \<Rightarrow> (let (first, last) = splitName (fst (normalizeProfileName n)) in
             tx (lookup_or ErrNoSuchUser (\<lambda>d. tget au_id uid (a_users d))) (\<lambda>_.
             writes (\<lambda>d. d\<lparr> a_users := tupd (\<lambda>u. au_id u = uid) (\<lambda>u. u\<lparr> au_first_name := Some first,
               au_last_name := (if last = [] then None else Some last) \<rparr>) (a_users d) \<rparr>)))) (\<lambda>_.
     case locale of None \<Rightarrow> ret ()
     | Some l \<Rightarrow>
         tx (lookup_or ErrNoSuchUser (\<lambda>d. tget au_id uid (a_users d))) (\<lambda>_.
         writes (\<lambda>d. d\<lparr> a_locales := (uid, l) # tdel (\<lambda>p. fst p = uid) (a_locales d) \<rparr>))))))"

definition LocaleFor :: "string \<Rightarrow> adb \<Rightarrow> string" where
  "LocaleFor userID d = (case GetProfile userID d of Inl _ \<Rightarrow> ''en'' | Inr (p, _) \<Rightarrow> pf_locale p)"

definition MarkEmailVerified :: "(string \<Rightarrow> string) \<Rightarrow> string \<Rightarrow> instant \<Rightarrow> unit account_tx" where
  "MarkEmailVerified normal email now =
     tx (lookup_or ErrNoSuchUser (\<lambda>d. tget au_email (normal email) (a_users d))) (\<lambda>_.
     writes (\<lambda>d. d\<lparr> a_users := tupd (\<lambda>u. au_email u = normal email)
       (\<lambda>u. u\<lparr> au_verified_at := Some (case au_verified_at u of None \<Rightarrow> now | Some t \<Rightarrow> t) \<rparr>) (a_users d) \<rparr>))"

definition MakeStaff :: "(string \<Rightarrow> string) \<Rightarrow> string \<Rightarrow> unit account_tx" where
  "MakeStaff normal email =
     tx (lookup_or (AccountDb ''auth: no user with email'') (\<lambda>d. tget au_email (normal email) (a_users d))) (\<lambda>u.
     writes (\<lambda>d. if au_id u \<in> set (a_staff d) then d else d\<lparr> a_staff := a_staff d @ [au_id u] \<rparr>))"

record OrgSummary =
  os_id :: string
  os_name :: string
  os_slug :: string
  os_active :: bool

text \<open>Ordered by name, then id; the order of names is the database's collation.\<close>

definition ListUserOrganizations :: "(string \<Rightarrow> nat) \<Rightarrow> string \<Rightarrow> string \<Rightarrow> OrgSummary list account_tx" where
  "ListUserOrganizations collate userID activeOrg =
     tx (lookup_or ErrNoSuchUser (\<lambda>_. ParseInt userID)) (\<lambda>uid.
     reads (\<lambda>d. map (\<lambda>x. \<lparr> os_id = FormatInt (ao_id x), os_name = ao_name x, os_slug = ao_slug x,
         os_active = (FormatInt (ao_id x) = activeOrg) \<rparr>)
       (sort_key (\<lambda>x. collate (ao_name x)) (sort_key ao_id (List.map_filter (\<lambda>m. tget ao_id (am_org m) (a_orgs d))
         (filter (\<lambda>m. am_user m = uid) (a_members d)))))))"

section \<open>Personal organizations\<close>

text \<open>Runs of anything but letters and digits become one hyphen; a rune of several bytes is such a run.\<close>

fun slug_runs :: "bool \<Rightarrow> string \<Rightarrow> string" where
  "slug_runs lastHyphen [] = []"
| "slug_runs lastHyphen (c # cs) =
     (if lower_alnum c then c # slug_runs False cs
      else if lastHyphen then slug_runs True cs
      else CHR ''-'' # slug_runs True cs)"

definition trim_hyphens :: "string \<Rightarrow> string" where
  "trim_hyphens s = rev (dropWhile (\<lambda>c. c = CHR ''-'') (rev (dropWhile (\<lambda>c. c = CHR ''-'') s)))"

definition maxOrgSlugLen :: nat where "maxOrgSlugLen = 30"

definition ValidateOrgSlug :: "string \<Rightarrow> bool" where
  "ValidateOrgSlug slug \<longleftrightarrow> handleSlugRegexp slug"

definition personalOrgSlug :: "(string \<Rightarrow> string) \<Rightarrow> string \<Rightarrow> string \<Rightarrow> string" where
  "personalOrgSlug lower email userID =
     (let normalized = slug_runs False (lower (nameFromEmail email));
          maxLocal = max 1 (maxOrgSlugLen - 1 - length userID);
          trimmed = trim_hyphens (take maxLocal normalized)
      in (if trimmed = [] then take maxLocal ''org'' else trimmed) @ ''-'' @ userID)"

end
