(* ===== verification/Deletion.thy ===== *)
theory Deletion
  imports Accounts
begin

text \<open>
  What deleting an account leaves behind: organizations keep an owner, nobody else loses a membership, and nothing
  refers to the user any more.
\<close>

section \<open>The tables' constraints\<close>

definition accounts_ok :: "adb \<Rightarrow> bool" where
  "accounts_ok d \<longleftrightarrow> tuniq au_id (a_users d) \<and> tuniq am_id (a_members d) \<and> tuniq (\<lambda>m. (am_org m, am_user m)) (a_members d) \<and>
     (\<forall>r \<in> set (a_roles d). \<exists>m \<in> set (a_members d). am_id m = ar_member r \<and> am_org m = ar_org r)"

lemma accounts_okD:
  assumes "accounts_ok d"
  shows "m \<in> set (a_members d) \<Longrightarrow> m' \<in> set (a_members d) \<Longrightarrow> am_id m = am_id m' \<Longrightarrow> m = m'"
    and "m \<in> set (a_members d) \<Longrightarrow> m' \<in> set (a_members d) \<Longrightarrow> am_org m = am_org m' \<Longrightarrow> am_user m = am_user m' \<Longrightarrow> m = m'"
    and "r \<in> set (a_roles d) \<Longrightarrow> \<exists>m \<in> set (a_members d). am_id m = ar_member r \<and> am_org m = ar_org r"
    and "tuniq au_id (a_users d)"
  using assms tuniq_inj [of am_id "a_members d" m m'] tuniq_inj [of "\<lambda>m. (am_org m, am_user m)" "a_members d" m m']
  by (auto simp: accounts_ok_def)

definition has_owner :: "int \<Rightarrow> adb \<Rightarrow> bool" where
  "has_owner g d \<longleftrightarrow> (\<exists>m \<in> set (a_members d). am_org m = g \<and> (\<exists>r \<in> set (a_roles d). ar_member r = am_id m \<and> ar_role r = ''owner''))"

definition owns :: "int \<Rightarrow> int \<Rightarrow> adb \<Rightarrow> bool" where
  "owns uid g d \<longleftrightarrow> (\<exists>m \<in> set (a_members d). am_org m = g \<and> am_user m = uid \<and>
     (\<exists>r \<in> set (a_roles d). ar_member r = am_id m \<and> ar_role r = ''owner''))"

definition only_member :: "int \<Rightarrow> int \<Rightarrow> adb \<Rightarrow> bool" where
  "only_member uid g d \<longleftrightarrow> (\<forall>m \<in> set (a_members d). am_org m = g \<longrightarrow> am_user m = uid)"

lemma owner_rows_iff: "owner_rows m d \<noteq> [] \<longleftrightarrow> (\<exists>r \<in> set (a_roles d). ar_member r = am_id m \<and> ar_role r = ''owner'')"
  by (auto simp: owner_rows_def filter_empty_conv)

lemma other_owner_iff: "other_owner g uid d \<longleftrightarrow> (\<exists>u. u \<noteq> uid \<and> owns u g d)"
  by (auto simp: other_owner_def owns_def list_ex_iff owner_rows_iff)

lemma has_owner_iff: "has_owner g d \<longleftrightarrow> (\<exists>u. owns u g d)"
  by (auto simp: has_owner_def owns_def)

lemma set_owned_orgs: "set (owned_orgs uid d) = {g. owns uid g d}"
  by (force simp: owned_orgs_def owns_def owner_rows_def)

lemma sorted_first: "sort_key f xs = y # ys \<Longrightarrow> y \<in> set xs"
  by (metis list.set_intros(1) set_sort)

lemma sorted_empty: "sort_key f xs = [] \<longleftrightarrow> xs = []"
  by (metis length_0_conv length_sort)

lemma oldest_None: "oldest_other_member g uid d = None \<longleftrightarrow> only_member uid g d"
proof (cases "sort_key am_created_at (filter (\<lambda>m. am_org m = g \<and> am_user m \<noteq> uid) (a_members d))")
  case Nil
  then have "\<forall>m \<in> set (a_members d). \<not> (am_org m = g \<and> am_user m \<noteq> uid)" by (simp add: sorted_empty filter_empty_conv)
  with Nil show ?thesis by (auto simp: oldest_other_member_def only_member_def)
next
  case (Cons y ys)
  with sorted_first [OF Cons] show ?thesis by (auto simp: oldest_other_member_def only_member_def)
qed

lemma oldest_Some:
  assumes "oldest_other_member g uid d = Some m"
  shows "m \<in> set (a_members d) \<and> am_org m = g \<and> am_user m \<noteq> uid"
proof (cases "sort_key am_created_at (filter (\<lambda>m. am_org m = g \<and> am_user m \<noteq> uid) (a_members d))")
  case (Cons y ys)
  with sorted_first [OF Cons] assms show ?thesis by (simp add: oldest_other_member_def)
qed (use assms in \<open>simp add: oldest_other_member_def\<close>)

section \<open>The organizations\<close>

definition lost :: "int \<Rightarrow> int set \<Rightarrow> adb \<Rightarrow> int \<Rightarrow> bool" where
  "lost uid S d g \<longleftrightarrow> g \<in> S \<and> only_member uid g d"

definition promotions :: "int \<Rightarrow> int set \<Rightarrow> adb \<Rightarrow> AMemberRole set" where
  "promotions uid S d = {\<lparr> ar_member = am_id m, ar_org = g, ar_role = ''owner'' \<rparr> | m g.
     g \<in> S \<and> \<not> other_owner g uid d \<and> oldest_other_member g uid d = Some m}"

definition same_rest :: "adb \<Rightarrow> adb \<Rightarrow> bool" where
  "same_rest d d' \<longleftrightarrow> a_users d' = a_users d \<and> a_locales d' = a_locales d \<and> a_sessions d' = a_sessions d \<and>
     a_accounts d' = a_accounts d \<and> a_locked d' = a_locked d \<and> a_staff d' = a_staff d \<and> a_audit d' = a_audit d"

definition cascaded :: "int \<Rightarrow> int set \<Rightarrow> adb \<Rightarrow> adb \<Rightarrow> bool" where
  "cascaded uid S d d' \<longleftrightarrow> a_orgs d' = tdel (\<lambda>x. lost uid S d (ao_id x)) (a_orgs d) \<and>
     a_members d' = tdel (\<lambda>m. lost uid S d (am_org m)) (a_members d) \<and>
     a_polls d' = tdel (\<lambda>c. lost uid S d (ct_org c)) (a_polls d) \<and> a_pages d' = tdel (\<lambda>c. lost uid S d (ct_org c)) (a_pages d) \<and>
     set (a_roles d') = {r \<in> set (a_roles d). \<not> lost uid S d (ar_org r)} \<union> promotions uid S d \<and>
     same_rest d d'"

lemma cascaded_refl: "cascaded uid {} d d"
  by (simp add: cascaded_def lost_def promotions_def tdel_def same_rest_def)

lemma cascaded_oldest: "cascaded uid S d d' \<Longrightarrow> oldest_other_member g uid d' = oldest_other_member g uid d"
  by (auto simp: cascaded_def oldest_other_member_def tdel_def lost_def only_member_def intro!: arg_cong [where f = "case_list None (\<lambda>m _. Some m)"]
      arg_cong [where f = "sort_key am_created_at"] filter_cong)

lemma cascadedD:
  assumes "cascaded uid S d d'"
  shows "m \<in> set (a_members d') \<longleftrightarrow> m \<in> set (a_members d) \<and> \<not> lost uid S d (am_org m)"
    and "r \<in> set (a_roles d') \<longleftrightarrow> r \<in> set (a_roles d) \<and> \<not> lost uid S d (ar_org r) \<or> r \<in> promotions uid S d"
  using assms by (auto simp: cascaded_def)

lemma owns_promoted:
  assumes "accounts_ok d" and "cascaded uid S d d'" and "u \<noteq> uid"
  shows "owns u g d' \<longleftrightarrow> owns u g d \<or>
    g \<in> S \<and> \<not> other_owner g uid d \<and> (\<exists>m. oldest_other_member g uid d = Some m \<and> am_user m = u)"
proof
  assume "owns u g d'"
  then obtain m r where m: "m \<in> set (a_members d)" "am_org m = g" "am_user m = u"
      and r: "r \<in> set (a_roles d')" "ar_member r = am_id m" "ar_role r = ''owner''"
    by (auto simp: owns_def cascadedD(1) [OF assms(2)])
  show "owns u g d \<or> g \<in> S \<and> \<not> other_owner g uid d \<and> (\<exists>m. oldest_other_member g uid d = Some m \<and> am_user m = u)"
  proof (cases "r \<in> promotions uid S d")
    case True
    then obtain m' g' where p: "g' \<in> S" "\<not> other_owner g' uid d" "oldest_other_member g' uid d = Some m'" "am_id m' = am_id m"
      using r(2) by (auto simp: promotions_def)
    then have "m' = m" using accounts_okD(1) [OF assms(1)] oldest_Some [OF p(3)] m(1) by metis
    then show ?thesis using p oldest_Some [OF p(3)] m by auto
  next
    case False
    then show ?thesis using m r cascadedD(2) [OF assms(2)] by (auto simp: owns_def)
  qed
next
  assume r: "owns u g d \<or> g \<in> S \<and> \<not> other_owner g uid d \<and> (\<exists>m. oldest_other_member g uid d = Some m \<and> am_user m = u)"
  have kept: "m \<in> set (a_members d')" "\<not> lost uid S d g" if "m \<in> set (a_members d)" "am_org m = g" "am_user m = u" for m
    using that assms(3) by (auto simp: cascadedD(1) [OF assms(2)] lost_def only_member_def)
  show "owns u g d'"
  proof (cases "owns u g d")
    case True
    then obtain m r where m: "m \<in> set (a_members d)" "am_org m = g" "am_user m = u" "r \<in> set (a_roles d)" "ar_member r = am_id m"
        "ar_role r = ''owner''" by (auto simp: owns_def)
    have "ar_org r = g" using accounts_okD(3) [OF assms(1) m(4)] accounts_okD(1) [OF assms(1)] m(1,2,5) by metis
    then have "r \<in> set (a_roles d')" using m(4) kept(2) [OF m(1-3)] by (simp add: cascadedD(2) [OF assms(2)])
    then show ?thesis using kept(1) [OF m(1-3)] m unfolding owns_def by blast
  next
    case False
    with r obtain m where m: "g \<in> S" "\<not> other_owner g uid d" "oldest_other_member g uid d = Some m" "am_user m = u" by blast
    let ?r = "\<lparr> ar_member = am_id m, ar_org = g, ar_role = ''owner'' \<rparr>"
    have "?r \<in> set (a_roles d')" using m by (auto simp: cascadedD(2) [OF assms(2)] promotions_def)
    moreover have "m \<in> set (a_members d')" using kept(1) oldest_Some [OF m(3)] m(4) by blast
    ultimately show ?thesis using oldest_Some [OF m(3)] m(4) unfolding owns_def by (intro bexI [of _ m] conjI bexI [of _ ?r]) auto
  qed
qed

lemma lost_insert: "lost uid (insert g S) d x \<longleftrightarrow> lost uid S d x \<or> x = g \<and> only_member uid g d"
  by (auto simp: lost_def)

lemma promotions_insert: "promotions uid (insert g S) d = promotions uid S d \<union>
    (if other_owner g uid d then {} else
      (case oldest_other_member g uid d of None \<Rightarrow> {} | Some m \<Rightarrow> {\<lparr> ar_member = am_id m, ar_org = g, ar_role = ''owner'' \<rparr>}))"
  by (auto simp: promotions_def split: option.splits)

lemma cascaded_same: "cascaded uid S d d' \<Longrightarrow> \<not> only_member uid g d \<Longrightarrow> promotions uid (insert g S) d = promotions uid S d \<Longrightarrow>
    cascaded uid (insert g S) d d'"
  by (auto simp: cascaded_def lost_insert)

lemma cascade_step:
  assumes ok: "accounts_ok d" and c: "cascaded uid S d d'"
  shows "cascaded uid (insert g S) d (cascade_org uid g d')"
proof (cases "other_owner g uid d'")
  case True
  then obtain u where u: "u \<noteq> uid" "owns u g d'" by (auto simp: other_owner_iff)
  from u(2) have p: "owns u g d \<or> g \<in> S \<and> \<not> other_owner g uid d \<and> (\<exists>m. oldest_other_member g uid d = Some m \<and> am_user m = u)"
    by (simp add: owns_promoted [OF ok c u(1)])
  then have "\<not> only_member uid g d" using u(1) oldest_Some by (fastforce simp: only_member_def owns_def)
  moreover have "promotions uid (insert g S) d = promotions uid S d"
    using p u(1) by (auto simp: promotions_insert promotions_def other_owner_iff split: option.splits)
  ultimately show ?thesis using cascaded_same [OF c] True by (simp add: cascade_org_def)
next
  case False
  have none: "\<not> other_owner g uid d" using False by (auto simp: other_owner_iff owns_promoted [OF ok c])
  show ?thesis
  proof (cases "oldest_other_member g uid d")
    case (Some m)
    let ?r = "\<lparr> ar_member = am_id m, ar_org = g, ar_role = ''owner'' \<rparr>"
    have m: "m \<in> set (a_members d)" "am_org m = g" "am_user m \<noteq> uid" using oldest_Some [OF Some] by auto
    then have keep: "\<not> only_member uid g d" "m \<in> set (a_members d')"
      by (auto simp: only_member_def cascadedD(1) [OF c] lost_def)
    have "\<not> list_ex (\<lambda>r. ar_member r = am_id m \<and> ar_role r = ''owner'') (a_roles d')"
      using False keep(2) m(2,3) by (auto simp: other_owner_iff owns_def list_ex_iff)
    then have "cascade_org uid g d' = d'\<lparr> a_roles := a_roles d' @ [?r] \<rparr>"
      using False Some by (simp add: cascade_org_def cascaded_oldest [OF c] promote_def)
    moreover have "cascaded uid (insert g S) d (d'\<lparr> a_roles := a_roles d' @ [?r] \<rparr>)"
      using c keep(1) none Some unfolding cascaded_def lost_insert promotions_insert same_rest_def by (auto simp: Un_commute)
    ultimately show ?thesis by simp
  next
    case None
    then have only: "only_member uid g d" by (simp add: oldest_None)
    have run: "cascade_org uid g d' = delete_org g d'" using False None by (simp add: cascade_org_def cascaded_oldest [OF c])
    have prom: "promotions uid (insert g S) d = promotions uid S d" using None by (auto simp: promotions_insert)
    have drop: "tdel p (tdel q t) = tdel (\<lambda>x. q x \<or> p x) t" for p q and t :: "'r list"
      by (auto simp: tdel_def)
    have not_g: "ar_org r \<noteq> g \<and> ar_member r \<notin> am_id ` {m \<in> set (a_members d'). am_org m = g}" if "r \<in> promotions uid S d" for r
    proof -
      from that obtain m g' where p: "r = \<lparr> ar_member = am_id m, ar_org = g', ar_role = ''owner'' \<rparr>" "oldest_other_member g' uid d = Some m"
        by (auto simp: promotions_def)
      have "g' \<noteq> g" using only oldest_Some [OF p(2)] by (auto simp: only_member_def)
      moreover have "am_id m' \<noteq> am_id m" if "m' \<in> set (a_members d')" "am_org m' = g" for m'
        using accounts_okD(1) [OF ok, of m' m] that oldest_Some [OF p(2)] \<open>g' \<noteq> g\<close> by (auto simp: cascadedD(1) [OF c])
      ultimately show ?thesis using p(1) by auto metis
    qed
    have old: "ar_member r \<in> am_id ` {m \<in> set (a_members d'). am_org m = g} \<Longrightarrow> ar_org r = g" if "r \<in> set (a_roles d)" for r
      using accounts_okD(1,3) [OF ok] that by (auto simp: cascadedD(1) [OF c]) metis
    have roles: "set (tdel (\<lambda>r. ar_org r = g \<or> ar_member r \<in> am_id ` {m \<in> set (a_members d'). am_org m = g}) (a_roles d')) =
        {r \<in> set (a_roles d). \<not> lost uid (insert g S) d (ar_org r)} \<union> promotions uid (insert g S) d"
      unfolding prom lost_insert using only not_g old by (auto simp: cascadedD(2) [OF c])
    show ?thesis
      unfolding run
      using c only roles unfolding cascaded_def delete_org_def Let_def lost_insert same_rest_def
      by (auto simp: drop)
  qed
qed

lemma cascade_all:
  assumes "accounts_ok d" and "cascaded uid S d d'"
  shows "cascaded uid (S \<union> set gs) d (fold (cascade_org uid) gs d')"
  using assms(2)
proof (induction gs arbitrary: S d')
  case (Cons g gs)
  from Cons.IH [OF cascade_step [OF assms(1) Cons.prems]] show ?case by simp
qed simp

section \<open>The account\<close>

definition forget_user :: "int \<Rightarrow> AContent \<Rightarrow> AContent" where
  "forget_user uid c = c\<lparr> ct_created_by := null_user uid (ct_created_by c), ct_member_user := null_user uid (ct_member_user c) \<rparr>"

text \<open>\<open>dissolved\<close>: the organizations that go with the user.\<close>

definition dissolved :: "int \<Rightarrow> int \<Rightarrow> adb \<Rightarrow> bool" where
  "dissolved uid g d \<longleftrightarrow> owns uid g d \<and> only_member uid g d"

lemma lost_owned: "lost uid (set (owned_orgs uid d)) d g \<longleftrightarrow> dissolved uid g d"
  by (simp add: lost_def set_owned_orgs dissolved_def)

lemma dissolved_alone: "m \<in> set (a_members d) \<Longrightarrow> am_user m \<noteq> uid \<Longrightarrow> \<not> dissolved uid (am_org m) d"
  by (auto simp: dissolved_def only_member_def)

lemma CascadeDeleteUser_run:
  assumes "accounts_ok d" and "ParseInt userID = Some uid" and "tget au_id uid (a_users d) \<noteq> None"
  shows "\<exists>d1 d'. cascaded uid (set (owned_orgs uid d)) d d1 \<and> CascadeDeleteUser userID d = Inr ((), d') \<and>
    a_users d' = tdel (\<lambda>u. au_id u = uid) (a_users d) \<and> a_orgs d' = a_orgs d1 \<and>
    a_members d' = tdel (\<lambda>m. am_user m = uid) (a_members d1) \<and>
    a_roles d' = tdel (\<lambda>r. ar_member r \<in> am_id ` {m \<in> set (a_members d1). am_user m = uid}) (a_roles d1) \<and>
    a_sessions d' = tdel (\<lambda>s. as_user s = uid) (a_sessions d) \<and> a_accounts d' = tdel (\<lambda>u. u = uid) (a_accounts d) \<and>
    a_locales d' = tdel (\<lambda>p. fst p = uid) (a_locales d) \<and> a_locked d' = tdel (\<lambda>p. fst p = uid) (a_locked d) \<and>
    a_staff d' = tdel (\<lambda>u. u = uid) (a_staff d) \<and> a_polls d' = map (forget_user uid) (a_polls d1) \<and>
    a_pages d' = map (forget_user uid) (a_pages d1) \<and>
    a_audit d' = map (\<lambda>r. r\<lparr> al_actor := null_user uid (al_actor r) \<rparr>) (a_audit d)"
proof -
  define d1 where "d1 = cascadeOrphanedOwnerOrganizations uid d"
  have c: "cascaded uid (set (owned_orgs uid d)) d d1"
    using cascade_all [OF assms(1) cascaded_refl, of uid "owned_orgs uid d"]
    by (simp add: d1_def cascadeOrphanedOwnerOrganizations_def)
  then have rest: "same_rest d d1" by (simp add: cascaded_def)
  have "\<exists>d'. CascadeDeleteUser userID d = Inr ((), d') \<and>
    a_users d' = tdel (\<lambda>u. au_id u = uid) (a_users d1) \<and> a_orgs d' = a_orgs d1 \<and>
    a_members d' = tdel (\<lambda>m. am_user m = uid) (a_members d1) \<and>
    a_roles d' = tdel (\<lambda>r. ar_member r \<in> am_id ` {m \<in> set (a_members d1). am_user m = uid}) (a_roles d1) \<and>
    a_sessions d' = tdel (\<lambda>s. as_user s = uid) (a_sessions d1) \<and> a_accounts d' = tdel (\<lambda>u. u = uid) (a_accounts d1) \<and>
    a_locales d' = tdel (\<lambda>p. fst p = uid) (a_locales d1) \<and> a_locked d' = tdel (\<lambda>p. fst p = uid) (a_locked d1) \<and>
    a_staff d' = tdel (\<lambda>u. u = uid) (a_staff d1) \<and> a_polls d' = map (forget_user uid) (a_polls d1) \<and>
    a_pages d' = map (forget_user uid) (a_pages d1) \<and>
    a_audit d' = map (\<lambda>r. r\<lparr> al_actor := null_user uid (al_actor r) \<rparr>) (a_audit d1)"
    using assms(2,3) rest
    by (simp add: CascadeDeleteUser_def exec_simps d1_def [symmetric] delete_user_row_def Let_def same_rest_def list_ex_iff
        forget_user_def [abs_def])
  then show ?thesis using c rest unfolding same_rest_def by auto
qed

text \<open>C18: Deleting an account does exactly this, whoever asks for it. For a user that exists the call succeeds.
  Organizations the user owned as their only member go, with their content; every other organization stays with all
  other memberships. The owners of an organization afterwards are its other owners, or, when the user was the only
  owner, the member that joined first, so an organization that had an owner and keeps a member keeps an owner.
  Content of surviving organizations stays and forgets its creator, and no session, provider account, lock or staff
  flag of the user remains.\<close>

theorem account_deletion_exact:
  assumes "accounts_ok d" and "ParseInt userID = Some uid" and "tget au_id uid (a_users d) \<noteq> None"
  shows "\<exists>d'. CascadeDeleteUser userID d = Inr ((), d') \<and>
    a_users d' = tdel (\<lambda>u. au_id u = uid) (a_users d) \<and> a_members d' = tdel (\<lambda>m. am_user m = uid) (a_members d) \<and>
    a_orgs d' = tdel (\<lambda>x. dissolved uid (ao_id x) d) (a_orgs d) \<and>
    (\<forall>u g. owns u g d' \<longleftrightarrow> u \<noteq> uid \<and> (owns u g d \<or> owns uid g d \<and> \<not> other_owner g uid d \<and>
       map_option am_user (oldest_other_member g uid d) = Some u)) \<and>
    (\<forall>g. has_owner g d' \<longleftrightarrow> has_owner g d \<and> \<not> only_member uid g d) \<and>
    a_polls d' = map (forget_user uid) (tdel (\<lambda>c. dissolved uid (ct_org c) d) (a_polls d)) \<and>
    a_pages d' = map (forget_user uid) (tdel (\<lambda>c. dissolved uid (ct_org c) d) (a_pages d)) \<and>
    a_sessions d' = tdel (\<lambda>s. as_user s = uid) (a_sessions d) \<and> a_accounts d' = tdel (\<lambda>u. u = uid) (a_accounts d) \<and>
    a_locked d' = tdel (\<lambda>p. fst p = uid) (a_locked d) \<and> a_staff d' = tdel (\<lambda>u. u = uid) (a_staff d)"
proof -
  obtain d1 d' where c: "cascaded uid (set (owned_orgs uid d)) d d1" and run: "CascadeDeleteUser userID d = Inr ((), d')"
    and after: "a_users d' = tdel (\<lambda>u. au_id u = uid) (a_users d)" "a_orgs d' = a_orgs d1"
      "a_members d' = tdel (\<lambda>m. am_user m = uid) (a_members d1)"
      "a_roles d' = tdel (\<lambda>r. ar_member r \<in> am_id ` {m \<in> set (a_members d1). am_user m = uid}) (a_roles d1)"
      "a_sessions d' = tdel (\<lambda>s. as_user s = uid) (a_sessions d)" "a_accounts d' = tdel (\<lambda>u. u = uid) (a_accounts d)"
      "a_locked d' = tdel (\<lambda>p. fst p = uid) (a_locked d)" "a_staff d' = tdel (\<lambda>u. u = uid) (a_staff d)"
      "a_polls d' = map (forget_user uid) (a_polls d1)" "a_pages d' = map (forget_user uid) (a_pages d1)"
    using CascadeDeleteUser_run [OF assms] by blast
  have members: "a_members d' = tdel (\<lambda>m. am_user m = uid) (a_members d)"
    using c dissolved_alone unfolding after(3) cascaded_def lost_owned by (auto simp: tdel_def intro!: filter_cong)
  have owners1: "owns u g d1 \<longleftrightarrow> owns u g d \<or> owns uid g d \<and> \<not> other_owner g uid d \<and>
       map_option am_user (oldest_other_member g uid d) = Some u" if "u \<noteq> uid" for u g
    unfolding owns_promoted [OF assms(1) c that] set_owned_orgs by auto
  have owners: "owns u g d' \<longleftrightarrow> u \<noteq> uid \<and> owns u g d1" for u g
  proof -
    define G where "G = am_id ` {m \<in> set (a_members d1). am_user m = uid}"
    have kept: "am_id m \<notin> G" if m: "m \<in> set (a_members d1)" "am_user m \<noteq> uid" for m
    proof
      assume "am_id m \<in> G"
      then obtain m' where m': "m' \<in> set (a_members d1)" "am_user m' = uid" "am_id m = am_id m'" by (auto simp: G_def)
      then have "m = m'" using accounts_okD(1) [OF assms(1), of m m'] m(1) by (simp add: cascadedD(1) [OF c])
      then show False using m(2) m'(2) by simp
    qed
    have gone: "r \<in> set (a_roles d') \<longleftrightarrow> r \<in> set (a_roles d1) \<and> ar_member r \<notin> G" "m \<in> set (a_members d') \<longleftrightarrow> m \<in> set (a_members d1) \<and> am_user m \<noteq> uid"
      for r m unfolding after(3,4) G_def by auto
    show ?thesis
    proof
      assume "owns u g d'"
      then show "u \<noteq> uid \<and> owns u g d1" unfolding owns_def Bex_def gone by blast
    next
      assume o': "u \<noteq> uid \<and> owns u g d1"
      then obtain m r where m: "m \<in> set (a_members d1)" "am_org m = g" "am_user m = u" "r \<in> set (a_roles d1)"
          "ar_member r = am_id m" "ar_role r = ''owner''" by (auto simp: owns_def)
      have "m \<in> set (a_members d')" "r \<in> set (a_roles d')" using m o' kept [of m] by (simp_all add: gone)
      then show "owns u g d'" unfolding owns_def using m by blast
    qed
  qed
  have keeps: "has_owner g d' \<longleftrightarrow> has_owner g d \<and> \<not> only_member uid g d" for g
  proof -
    have alone: "only_member uid g d \<Longrightarrow> owns u g d \<Longrightarrow> u = uid" for u by (auto simp: only_member_def owns_def)
    show ?thesis
    proof (cases "only_member uid g d")
      case True
      then have "oldest_other_member g uid d = None" by (simp add: oldest_None)
      then show ?thesis using True alone owners owners1 by (auto simp: has_owner_iff)
    next
      case False
      then obtain m where m: "oldest_other_member g uid d = Some m" "am_user m \<noteq> uid"
        using oldest_None [of g uid d] oldest_Some [of g uid d] by fastforce
      show ?thesis
      proof (cases "other_owner g uid d")
        case True
        then show ?thesis using False owners owners1 by (auto simp: has_owner_iff other_owner_iff)
      next
        case noother: False
        have "owns (am_user m) g d1 \<longleftrightarrow> owns uid g d" using owners1 [OF m(2)] m noother by (auto simp: other_owner_iff)
        moreover have "has_owner g d \<longleftrightarrow> owns uid g d" using noother by (auto simp: has_owner_iff other_owner_iff)
        moreover have "owns u g d1 \<Longrightarrow> u \<noteq> uid \<Longrightarrow> owns uid g d" for u using owners1 noother by (auto simp: other_owner_iff)
        ultimately show ?thesis using False owners m(2) by (auto simp: has_owner_iff)
      qed
    qed
  qed
  have tables: "a_orgs d' = tdel (\<lambda>x. dissolved uid (ao_id x) d) (a_orgs d)"
    "a_polls d' = map (forget_user uid) (tdel (\<lambda>c. dissolved uid (ct_org c) d) (a_polls d))"
    "a_pages d' = map (forget_user uid) (tdel (\<lambda>c. dissolved uid (ct_org c) d) (a_pages d))"
    using c unfolding cascaded_def lost_owned after(2,9,10) by simp_all
  have "owns u g d' \<longleftrightarrow> u \<noteq> uid \<and> (owns u g d \<or> owns uid g d \<and> \<not> other_owner g uid d \<and>
       map_option am_user (oldest_other_member g uid d) = Some u)" for u g
    using owners owners1 by metis
  then show ?thesis using run after(1,5-8) members keeps tables by blast
qed

text \<open>Ada (7) owns two organizations; in the second she has a colleague (8). Her account goes with the first
  organization, and the colleague now owns the second.\<close>

definition demo_accounts :: adb where
  "demo_accounts = \<lparr>
     a_users = [\<lparr> au_id = 7, au_email = ''a@x'', au_password = None, au_verified_at = None, au_first_name = None, au_last_name = None,
         au_created_at = 0 \<rparr>,
       \<lparr> au_id = 8, au_email = ''b@x'', au_password = None, au_verified_at = None, au_first_name = None, au_last_name = None,
         au_created_at = 1 \<rparr>],
     a_locales = [], a_orgs = [\<lparr> ao_id = 1, ao_name = ''one'', ao_slug = ''a-7'' \<rparr>, \<lparr> ao_id = 2, ao_name = ''two'', ao_slug = ''two'' \<rparr>],
     a_members = [\<lparr> am_id = 10, am_org = 1, am_user = 7, am_created_at = 0 \<rparr>, \<lparr> am_id = 11, am_org = 2, am_user = 7, am_created_at = 1 \<rparr>,
       \<lparr> am_id = 12, am_org = 2, am_user = 8, am_created_at = 2 \<rparr>],
     a_roles = [\<lparr> ar_member = 10, ar_org = 1, ar_role = ''owner'' \<rparr>, \<lparr> ar_member = 11, ar_org = 2, ar_role = ''owner'' \<rparr>],
     a_sessions = [\<lparr> as_token = ''s'', as_user = 7, as_active = Some 1 \<rparr>], a_accounts = [7], a_locked = [], a_staff = [8],
     a_polls = [], a_pages = [], a_audit = [], a_jobs = [], a_fresh = (\<lambda>n. replicate (Suc n) CHR ''a''), a_next = 0, a_ensured = [] \<rparr>"

lemma demo_accounts_ok: "accounts_ok demo_accounts"
  by (simp add: accounts_ok_def demo_accounts_def tuniq_def)

lemma account_deletion_exact_witness:
  "\<exists>d'. CascadeDeleteUser ''7'' demo_accounts = Inr ((), d') \<and> map ao_id (a_orgs d') = [2] \<and> owns 8 2 d' \<and> a_sessions d' = []"
proof -
  have num: "ParseInt ''7'' = Some 7" by (simp add: ParseInt_def parse_nat_def digit_val_def in_int64_def)
  have user: "tget au_id 7 (a_users demo_accounts) \<noteq> None" by (simp add: demo_accounts_def tget_def)
  show ?thesis
    using account_deletion_exact [OF demo_accounts_ok num user]
  proof (elim exE conjE, goal_cases)
    case (1 d')
    have "map ao_id (a_orgs d') = [2]"
      unfolding 1(4) by (simp add: demo_accounts_def tdel_def dissolved_def owns_def only_member_def)
    moreover have "owns 8 2 d'"
      unfolding 1(5) [rule_format] by (simp add: demo_accounts_def owns_def other_owner_def owner_rows_def oldest_other_member_def)
    moreover have "a_sessions d' = []" unfolding 1(9) by (simp add: demo_accounts_def tdel_def)
    ultimately show ?case using 1(1) by (intro exI [of _ d'] conjI)
  qed
qed

end
