(* ===== verification/Sessions.thy ===== *)
theory Sessions
  imports Deletion
begin

text \<open>
  Who makes a request (\<^verbatim>\<open>internal/auth/session.go\<close>, \<^verbatim>\<open>internal/routekey\<close>): resolving the session cookie, the gates in
  front of the handlers, and the guard around the authentication library's own routes. The library (Limen) is a
  parameter: a record of its calls on the same tables.
\<close>

section \<open>Route keys\<close>

text \<open>\<open>path.Clean\<close>: the segments are read left to right onto a stack.\<close>

fun split_slash :: "string \<Rightarrow> string list" where
  "split_slash [] = [[]]"
| "split_slash (c # cs) =
     (if c = CHR ''/'' then [] # split_slash cs
      else (case split_slash cs of [] \<Rightarrow> [[c]] | w # ws \<Rightarrow> (c # w) # ws))"

definition push_segment :: "bool \<Rightarrow> string \<Rightarrow> string list \<Rightarrow> string list" where
  "push_segment rooted w st =
     (if w = [] \<or> w = ''.'' then st
      else if w = ''..'' then
        (case st of
           [] \<Rightarrow> if rooted then [] else [w]
         | t # ts \<Rightarrow> if t = ''..'' then w # st else ts)
      else w # st)"

definition path_clean :: "string \<Rightarrow> string" where
  "path_clean p =
     (if p = [] then ''.''
      else (let rooted = (hd p = CHR ''/'');
                segs = rev (fold (push_segment rooted) (split_slash p) [])
            in if rooted then CHR ''/'' # Join ''/'' segs else if segs = [] then ''.'' else Join ''/'' segs))"

definition trim_slash :: "string \<Rightarrow> string" where
  "trim_slash p = (if p \<noteq> [] \<and> last p = CHR ''/'' then butlast p else p)"

definition Clean :: "string \<Rightarrow> string" where
  "Clean p = path_clean (trim_slash p)"

definition routekey_Of :: "string \<Rightarrow> string \<Rightarrow> string" where
  "routekey_Of method path = method @ '' '' @ Clean path"

section \<open>The authentication library\<close>

record valid_session =
  vs_user :: int
  vs_email :: string
  vs_verified :: bool
  vs_token :: "string option"
  vs_refreshed :: "string option"

datatype member_answer = IsMember | NotMember | MemberCheckFailed
datatype create_answer = OrgCreated | OrgSlugExists | OrgCreateFailed

text \<open>Each field is one call. \<open>li_active\<close> answers \<open>None\<close> on an error; \<open>li_set_active\<close> answers \<open>None\<close> on an error and
  otherwise the cookie to send, if any.\<close>

record limen =
  li_session :: "string option \<Rightarrow> adb \<Rightarrow> valid_session option"
  li_active :: "string \<Rightarrow> adb \<Rightarrow> int option option"
  li_check_member :: "int + string \<Rightarrow> int + string \<Rightarrow> adb \<Rightarrow> member_answer"
  li_count_orgs :: "int \<Rightarrow> adb \<Rightarrow> nat option"
  li_create_org :: "int \<Rightarrow> string \<Rightarrow> string \<Rightarrow> adb \<Rightarrow> create_answer \<times> adb"
  li_get_org :: "int \<Rightarrow> adb \<Rightarrow> int option"
  li_set_active :: "string \<Rightarrow> int \<Rightarrow> adb \<Rightarrow> string option option \<times> adb"
  li_switch :: "string \<Rightarrow> int \<Rightarrow> adb \<Rightarrow> string option option \<times> adb"
  li_revoke :: "string \<Rightarrow> adb \<Rightarrow> adb"

section \<open>Personal organizations\<close>

definition createPersonalOrgIfMissing :: "limen \<Rightarrow> (string \<Rightarrow> string) \<Rightarrow> int \<Rightarrow> string \<Rightarrow> adb \<Rightarrow> bool \<times> adb" where
  "createPersonalOrgIfMissing li lower uid email d =
     (case li_count_orgs li uid d of
        None \<Rightarrow> (False, d)
      | Some n \<Rightarrow>
          if 0 < n then (True, d)
          else (case li_create_org li uid (nameFromEmail email) (personalOrgSlug lower email (FormatInt uid)) d of
                  (OrgCreateFailed, d') \<Rightarrow> (False, d')
                | (_, d') \<Rightarrow> (True, d')))"

definition ensurePersonalOrgOnce :: "limen \<Rightarrow> (string \<Rightarrow> string) \<Rightarrow> int \<Rightarrow> string \<Rightarrow> adb \<Rightarrow> adb" where
  "ensurePersonalOrgOnce li lower uid email d =
     (if uid \<in> set (a_ensured d) then d
      else (case createPersonalOrgIfMissing li lower uid email d of
              (True, d') \<Rightarrow> d'\<lparr> a_ensured := uid # a_ensured d' \<rparr>
            | (False, d') \<Rightarrow> d'))"

definition oldestMembership :: "limen \<Rightarrow> int \<Rightarrow> adb \<Rightarrow> int option" where
  "oldestMembership li uid d =
     (case sort_key am_created_at (sort_key am_id (filter (\<lambda>m. am_user m = uid) (a_members d))) of
        [] \<Rightarrow> None
      | m # _ \<Rightarrow> li_get_org li (am_org m) d)"

definition membershipDangling :: "limen \<Rightarrow> int \<Rightarrow> int \<Rightarrow> adb \<Rightarrow> bool" where
  "membershipDangling li g uid d \<longleftrightarrow> li_check_member li (Inl g) (Inl uid) d = NotMember"

section \<open>Resolving a session\<close>

record AuthSession =
  ss_user :: string
  ss_email :: string
  ss_org :: string
  ss_staff :: bool
  ss_verified :: bool

definition isUserLocked :: "int \<Rightarrow> adb \<Rightarrow> bool" where
  "isUserLocked uid d \<longleftrightarrow> uid \<in> fst ` set (a_locked d)"

text \<open>Choosing the organization of a session that has none, or one the user left: the oldest membership, looked for
  once more after the cache forgot the user.\<close>

definition default_org :: "limen \<Rightarrow> (string \<Rightarrow> string) \<Rightarrow> int \<Rightarrow> string \<Rightarrow> adb \<Rightarrow> int option \<times> adb" where
  "default_org li lower uid email d =
     (case oldestMembership li uid d of
        Some g \<Rightarrow> (Some g, d)
      | None \<Rightarrow> (let d' = ensurePersonalOrgOnce li lower uid email (d\<lparr> a_ensured := tdel (\<lambda>u. u = uid) (a_ensured d) \<rparr>)
                in (oldestMembership li uid d', d')))"

definition pick_org ::
  "limen \<Rightarrow> (string \<Rightarrow> string) \<Rightarrow> valid_session \<Rightarrow> string \<Rightarrow> AuthSession \<Rightarrow> string list \<Rightarrow> adb \<Rightarrow>
   AuthSession option \<times> string list \<times> adb" where
  "pick_org li lower v tok sess cookies d =
     (case default_org li lower (vs_user v) (vs_email v) d of
        (None, d') \<Rightarrow> (Some sess, cookies, d')
      | (Some g, d') \<Rightarrow>
          (case li_set_active li tok g d' of
             (None, d'') \<Rightarrow> (Some sess, cookies, d'')
           | (Some c, d'') \<Rightarrow>
               (Some (sess\<lparr> ss_org := FormatInt g \<rparr>), cookies @ (case c of None \<Rightarrow> [] | Some x \<Rightarrow> [x]), d'')))"

text \<open>\<open>db_ok\<close>: whether the query for the lock and the staff flag succeeds. The result is the session, the cookies to
  send, and the tables afterwards.\<close>

definition resolveSession ::
  "limen \<Rightarrow> (string \<Rightarrow> string) \<Rightarrow> bool \<Rightarrow> string option \<Rightarrow> adb \<Rightarrow> AuthSession option \<times> string list \<times> adb" where
  "resolveSession li lower db_ok cookie d =
     (case li_session li cookie d of
        None \<Rightarrow> (None, [], d)
      | Some v \<Rightarrow>
          if \<not> db_ok \<or> isUserLocked (vs_user v) d then (None, [], d)
          else
            (let cookies = (case vs_refreshed v of None \<Rightarrow> [] | Some c \<Rightarrow> [c]);
                 sess = \<lparr> ss_user = FormatInt (vs_user v), ss_email = vs_email v, ss_org = [],
                          ss_staff = (vs_user v \<in> set (a_staff d)), ss_verified = vs_verified v \<rparr>;
                 d = ensurePersonalOrgOnce li lower (vs_user v) (vs_email v) d
             in case vs_token v of
                  None \<Rightarrow> (Some sess, cookies, d)
                | Some tok \<Rightarrow>
                    (case li_active li tok d of
                       None \<Rightarrow> (Some sess, cookies, d)
                     | Some active \<Rightarrow>
                         (case active of
                            Some g \<Rightarrow>
                              if \<not> membershipDangling li g (vs_user v) d then (Some (sess\<lparr> ss_org := FormatInt g \<rparr>), cookies, d)
                              else pick_org li lower v tok sess cookies d
                          | None \<Rightarrow> pick_org li lower v tok sess cookies d))))"

section \<open>Gates\<close>

datatype gate_answer = Through AuthSession | Refused nat string

definition RequireSession :: "AuthSession option \<Rightarrow> gate_answer" where
  "RequireSession sess =
     (case sess of
        None \<Rightarrow> Refused 401 ''unauthenticated''
      | Some s \<Rightarrow> if \<not> ss_verified s then Refused 403 ''email_unverified'' else Through s)"

definition RequireSessionAllowUnverified :: "AuthSession option \<Rightarrow> gate_answer" where
  "RequireSessionAllowUnverified sess =
     (case sess of None \<Rightarrow> Refused 401 ''unauthenticated'' | Some s \<Rightarrow> Through s)"

definition RequireStaff :: "AuthSession option \<Rightarrow> gate_answer" where
  "RequireStaff sess =
     (case sess of
        None \<Rightarrow> Refused 401 ''unauthenticated''
      | Some s \<Rightarrow>
          if \<not> ss_verified s then Refused 403 ''email_unverified''
          else if \<not> ss_staff s then Refused 403 ''forbidden'' else Through s)"

definition RequireOrgSession :: "AuthSession option \<Rightarrow> gate_answer" where
  "RequireOrgSession sess =
     (case RequireSession sess of
        Refused n c \<Rightarrow> Refused n c
      | Through s \<Rightarrow> if ss_org s = [] then Refused 403 ''no_active_org'' else Through s)"

definition parseLimenID :: "string \<Rightarrow> int + string" where
  "parseLimenID i = (case ParseInt i of Some n \<Rightarrow> Inl n | None \<Rightarrow> Inr i)"

definition RequireOrgMember :: "limen \<Rightarrow> string \<Rightarrow> AuthSession option \<Rightarrow> adb \<Rightarrow> account_error + AuthSession" where
  "RequireOrgMember li orgID sess d =
     (case sess of
        None \<Rightarrow> Inl ErrAccountUnauthenticated
      | Some s \<Rightarrow>
          (case li_check_member li (parseLimenID orgID) (parseLimenID (ss_user s)) d of
             IsMember \<Rightarrow> Inr s
           | NotMember \<Rightarrow> Inl ErrAccountForbidden
           | MemberCheckFailed \<Rightarrow> Inl (AccountDb ''auth: internal error'')))"

definition SwitchOrganization ::
  "limen \<Rightarrow> string option \<Rightarrow> string \<Rightarrow> adb \<Rightarrow> account_error + string option \<times> adb" where
  "SwitchOrganization li cookie orgID d =
     (case li_session li cookie d of
        None \<Rightarrow> Inl ErrAccountUnauthenticated
      | Some v \<Rightarrow>
          (case vs_token v of
             None \<Rightarrow> Inl ErrAccountUnauthenticated
           | Some tok \<Rightarrow>
               (case ParseInt orgID of
                  None \<Rightarrow> Inl ErrAccountForbidden
                | Some g \<Rightarrow>
                    (case li_check_member li (Inl g) (Inl (vs_user v)) d of
                       NotMember \<Rightarrow> Inl ErrAccountForbidden
                     | MemberCheckFailed \<Rightarrow> Inl (AccountDb ''auth: internal error'')
                     | IsMember \<Rightarrow>
                         (case li_switch li tok g d of
                            (None, d') \<Rightarrow> Inl (AccountDb ''auth: internal error'')
                          | (Some c, d') \<Rightarrow> Inr (c, d'))))))"

section \<open>The guard around the library's own routes\<close>

datatype guard_answer = PassOn | GuardRefuses nat string

definition authMountSignoutMethodAndPath :: string where
  "authMountSignoutMethodAndPath = ''POST /api/v1/auth/signout''"

definition authMountUnverifiedAllowed :: "string list" where
  "authMountUnverifiedAllowed =
     [''GET /api/v1/auth/me'', ''POST /api/v1/auth/verify-email'', ''POST /api/v1/auth/email-verifications'',
      ''POST /api/v1/auth/signin/credential'', ''POST /api/v1/auth/signup/credential'',
      ''POST /api/v1/auth/passwords/request-reset'', ''POST /api/v1/auth/passwords/reset'']"

definition authMountOrgDeletePrefix :: string where
  "authMountOrgDeletePrefix = ''DELETE /api/v1/auth/organizations/''"

definition isOrganizationDeleteRoute :: "string \<Rightarrow> bool" where
  "isOrganizationDeleteRoute route \<longleftrightarrow>
     (let n = length authMountOrgDeletePrefix; i = drop n route
      in take n route = authMountOrgDeletePrefix \<and> i \<noteq> [] \<and> CHR ''/'' \<notin> set i)"

definition AuthMountGuard :: "limen \<Rightarrow> bool \<Rightarrow> string \<Rightarrow> string \<Rightarrow> string option \<Rightarrow> adb \<Rightarrow> guard_answer" where
  "AuthMountGuard li db_ok method path cookie d =
     (let route = routekey_Of method path
      in if route = authMountSignoutMethodAndPath then PassOn
         else if isOrganizationDeleteRoute route then GuardRefuses 403 ''forbidden''
         else (case li_session li cookie d of
            None \<Rightarrow> PassOn
          | Some v \<Rightarrow>
              if \<not> db_ok \<or> isUserLocked (vs_user v) d then GuardRefuses 403 ''forbidden''
              else if \<not> vs_verified v \<and> route \<notin> set authMountUnverifiedAllowed then GuardRefuses 403 ''email_unverified''
              else PassOn))"

end
