(* ===== verification/RateLimit.thy ===== *)
theory RateLimit
  imports Sessions
begin

text \<open>
  The gates in front of every handler (\<^verbatim>\<open>internal/httpserver/{ratelimit,origin,captcha,turnstile,server}.go\<close>,
  \<^verbatim>\<open>internal/clientip\<close>): the fixed-window counters in the table \<^verbatim>\<open>rate_limits\<close>, the address a request is
  counted under, the origin check and the captcha gate, and how many requests a client can get through.
\<close>

section \<open>Counters\<close>

record bucket =
  rl_key :: string
  rl_count :: nat
  rl_reset :: instant

text \<open>One statement reads, counts and rolls the window over; \<open>now\<close> is the database's clock.\<close>

definition rateLimitSQL :: "string \<Rightarrow> int \<Rightarrow> instant \<Rightarrow> bucket list \<Rightarrow> (nat \<times> instant) \<times> bucket list" where
  "rateLimitSQL key window now t =
     (case tget rl_key key t of
        None \<Rightarrow> ((1, now + window), t @ [\<lparr> rl_key = key, rl_count = 1, rl_reset = now + window \<rparr>])
      | Some b \<Rightarrow>
          (let count = (if rl_reset b < now then 1 else rl_count b + 1);
               reset_at = (if rl_reset b < now then now + window else rl_reset b)
           in ((count, reset_at), tupd (\<lambda>r. rl_key r = key) (\<lambda>r. r\<lparr> rl_count := count, rl_reset := reset_at \<rparr>) t)))"

datatype limit_answer = Pass | RateLimited int

text \<open>An empty identity is not limited, and neither is anyone when the store fails (\<open>store_ok\<close>). \<open>clock\<close> is the
  server's clock, for the Retry-After header, in whole seconds rounded up and at least one.\<close>

definition RateLimit ::
  "bool \<Rightarrow> string \<Rightarrow> nat \<Rightarrow> int \<Rightarrow> string \<Rightarrow> instant \<Rightarrow> instant \<Rightarrow> bucket list \<Rightarrow> limit_answer \<times> bucket list" where
  "RateLimit store_ok name limit window identity now clock t =
     (if identity = [] \<or> \<not> store_ok then (Pass, t)
      else (let ((count, reset_at), t') = rateLimitSQL (name @ '':'' @ identity) window now t
            in (if limit < count then RateLimited (max 1 (- ((clock - reset_at) div Second))) else Pass, t')))"

definition sweep_rates :: "instant \<Rightarrow> bucket list \<Rightarrow> bucket list" where
  "sweep_rates now t = tdel (\<lambda>b. rl_reset b < now - Hour) t"

section \<open>Who a request is counted under\<close>

definition SplitHostPort_host :: "string \<Rightarrow> string option" where
  "SplitHostPort_host s =
     (let n = length (takeWhile (\<lambda>c. c \<noteq> CHR '':'') (rev s)); i = length s - n - 1
      in if CHR '':'' \<notin> set s then None
         else if take 1 s = ''['' then
           (let e = length (takeWhile (\<lambda>c. c \<noteq> CHR '']'') s)
            in if CHR '']'' \<notin> set s \<or> e + 1 \<noteq> i then None
               else if CHR ''['' \<in> set (drop 1 s) \<or> CHR '']'' \<in> set (drop (e + 1) s) then None
               else Some (drop 1 (take e s)))
         else if CHR '':'' \<in> set (take i s) then None
         else if CHR ''['' \<in> set s \<or> CHR '']'' \<in> set s then None
         else Some (take i s))"

definition last_part :: "string \<Rightarrow> string" where
  "last_part s = rev (takeWhile (\<lambda>c. c \<noteq> CHR '','') (rev s))"

definition FromRequest :: "bool \<Rightarrow> string \<Rightarrow> string \<Rightarrow> string" where
  "FromRequest trustProxy xff remoteAddr =
     (let final = TrimSpace (last_part xff)
      in if trustProxy \<and> xff \<noteq> [] \<and> final \<noteq> [] then final
         else (case SplitHostPort_host remoteAddr of None \<Rightarrow> remoteAddr | Some host \<Rightarrow> host))"

definition PublicRateLimit ::
  "bool \<Rightarrow> bool \<Rightarrow> string \<Rightarrow> string \<Rightarrow> nat \<Rightarrow> int \<Rightarrow> bool \<Rightarrow> string \<Rightarrow> string \<Rightarrow> instant \<Rightarrow> instant \<Rightarrow> bucket list \<Rightarrow>
   limit_answer \<times> bucket list" where
  "PublicRateLimit testRoutes store_ok namespace name limit window trustProxy xff remoteAddr now clock t =
     (if testRoutes then (Pass, t)
      else RateLimit store_ok (namespace @ ''.'' @ name) limit window (FromRequest trustProxy xff remoteAddr) now clock t)"

text \<open>The three routes of the library that are limited, each with its own counter.\<close>

definition authRateLimitedRoutes :: "string \<Rightarrow> string option" where
  "authRateLimitedRoutes route =
     (if route = ''POST /api/v1/auth/signin/credential'' then Some ''auth.signin''
      else if route = ''POST /api/v1/auth/signup/credential'' then Some ''auth.signup''
      else if route = ''POST /api/v1/auth/passwords/request-reset'' then Some ''auth.password_reset''
      else None)"

definition authRateLimit :: "bool \<Rightarrow> string \<Rightarrow> string \<Rightarrow> instant \<Rightarrow> instant \<Rightarrow> bucket list \<Rightarrow> limit_answer \<times> bucket list" where
  "authRateLimit store_ok name ip now clock t = RateLimit store_ok name 10 Minute ip now clock t"

definition authRateLimitMiddleware ::
  "bool \<Rightarrow> string \<Rightarrow> string \<Rightarrow> string \<Rightarrow> instant \<Rightarrow> instant \<Rightarrow> bucket list \<Rightarrow> limit_answer \<times> bucket list" where
  "authRateLimitMiddleware store_ok method path ip now clock t =
     (case authRateLimitedRoutes (routekey_Of method path) of
        None \<Rightarrow> (Pass, t)
      | Some name \<Rightarrow> authRateLimit store_ok name ip now clock t)"

section \<open>Origin and captcha\<close>

definition mutatingMethods :: "string list" where
  "mutatingMethods = [''POST'', ''PUT'', ''PATCH'', ''DELETE'']"

text \<open>\<open>origin_of\<close>: the scheme and host \<^verbatim>\<open>url.Parse\<close> finds in the configured address. Answers whether the request may
  go on.\<close>

definition CheckOrigin :: "(string \<Rightarrow> (string \<times> string) option) \<Rightarrow> string \<Rightarrow> string \<Rightarrow> string \<Rightarrow> bool" where
  "CheckOrigin origin_of appURL method origin \<longleftrightarrow>
     (let want = (case origin_of appURL of
          Some (scheme, host) \<Rightarrow> if scheme \<noteq> [] \<and> host \<noteq> [] then scheme @ ''://'' @ host else appURL
        | None \<Rightarrow> appURL)
      in \<not> (method \<in> set mutatingMethods \<and> origin \<noteq> [] \<and> origin \<noteq> want))"

definition sameOriginOnly :: "string \<Rightarrow> bool" where
  "sameOriginOnly site \<longleftrightarrow> site = [] \<or> site = ''same-origin''"

text \<open>\<open>siteverify\<close>: the status of the captcha service's answer and what it says, or \<open>None\<close> when the call fails.\<close>

definition VerifyTurnstile :: "(string \<Rightarrow> string \<Rightarrow> (nat \<times> bool option) option) \<Rightarrow> string \<Rightarrow> string \<Rightarrow> bool" where
  "VerifyTurnstile siteverify token remoteIP \<longleftrightarrow>
     token \<noteq> [] \<and> (case siteverify token remoteIP of
        Some (status, Some success) \<Rightarrow> 200 \<le> status \<and> status < 300 \<and> success
      | _ \<Rightarrow> False)"

definition authCaptchaRoutes :: "string list" where
  "authCaptchaRoutes = [''POST /api/v1/auth/signin/credential'', ''POST /api/v1/auth/signup/credential'',
     ''POST /api/v1/auth/passwords/request-reset'']"

definition authCaptchaMiddleware ::
  "bool \<Rightarrow> (string \<Rightarrow> string \<Rightarrow> (nat \<times> bool option) option) \<Rightarrow> string \<Rightarrow> string \<Rightarrow> string \<Rightarrow> string \<Rightarrow> bool" where
  "authCaptchaMiddleware turnstile siteverify method path token ip \<longleftrightarrow>
     \<not> turnstile \<or> routekey_Of method path \<notin> set authCaptchaRoutes \<or> VerifyTurnstile siteverify token ip"

section \<open>How many get through\<close>

text \<open>Requests for any keys and sweeps, each at a moment of the database's clock; \<open>rule\<close> gives the limit and window of a
  key. The run lists the requests that passed.\<close>

datatype rate_event = Hit string instant | SweepRates instant

fun event_time :: "rate_event \<Rightarrow> instant" where
  "event_time (Hit _ t) = t"
| "event_time (SweepRates t) = t"

fun rate_run :: "(string \<Rightarrow> nat \<times> int) \<Rightarrow> rate_event list \<Rightarrow> bucket list \<Rightarrow> (string \<times> instant) list" where
  "rate_run rule [] t = []"
| "rate_run rule (SweepRates now # es) t = rate_run rule es (sweep_rates now t)"
| "rate_run rule (Hit key now # es) t =
     (let ((count, _), t') = rateLimitSQL key (snd (rule key)) now t
      in if fst (rule key) < count then rate_run rule es t' else (key, now) # rate_run rule es t')"

definition passes :: "(string \<Rightarrow> nat \<times> int) \<Rightarrow> rate_event list \<Rightarrow> bucket list \<Rightarrow> string \<Rightarrow> instant \<Rightarrow> nat" where
  "passes rule es t key till = length (filter (\<lambda>(k, u). k = key \<and> u \<le> till) (rate_run rule es t))"

lemma passes_Nil [simp]: "passes rule [] t key till = 0"
  by (simp add: passes_def)

lemma passes_Sweep [simp]: "passes rule (SweepRates now # es) t key till = passes rule es (sweep_rates now t) key till"
  by (simp add: passes_def)

definition after_hit :: "string \<Rightarrow> int \<Rightarrow> instant \<Rightarrow> bucket list \<Rightarrow> bucket list" where
  "after_hit key window now t = snd (rateLimitSQL key window now t)"

definition hit_count :: "string \<Rightarrow> instant \<Rightarrow> bucket list \<Rightarrow> nat" where
  "hit_count key now t = (case tget rl_key key t of None \<Rightarrow> 1 | Some b \<Rightarrow> if rl_reset b < now then 1 else rl_count b + 1)"

lemma passes_Hit:
  "passes rule (Hit k now # es) t key till =
     (if k = key \<and> now \<le> till \<and> hit_count key now t \<le> fst (rule key) then 1 else 0) +
     passes rule es (after_hit k (snd (rule k)) now t) key till"
  by (auto simp: passes_def after_hit_def hit_count_def rateLimitSQL_def Let_def split: option.splits prod.splits)

lemma tget_after_hit:
  "tget rl_key key (after_hit k window now t) =
     (if k = key then Some \<lparr> rl_key = key, rl_count = hit_count key now t,
        rl_reset = (case tget rl_key key t of None \<Rightarrow> now + window | Some b \<Rightarrow> if rl_reset b < now then now + window else rl_reset b) \<rparr>
      else tget rl_key key t)"
proof (cases "tget rl_key k t")
  case None
  then show ?thesis
    by (auto simp: after_hit_def rateLimitSQL_def hit_count_def tget_append tget_Cons split: option.split)
next
  case (Some b)
  then have "rl_key b = k" using tget_Some_in by fastforce
  with Some show ?thesis
    by (auto simp: after_hit_def rateLimitSQL_def hit_count_def Let_def tget_tupd dest: tget_Some_in split: option.split)
qed

lemma tget_sweep: "tuniq rl_key t \<Longrightarrow> tget rl_key key (sweep_rates now t) =
   (case tget rl_key key t of None \<Rightarrow> None | Some b \<Rightarrow> if rl_reset b < now - Hour then None else Some b)"
proof (induction t)
  case (Cons b t)
  then have "tuniq rl_key t" "rl_key b \<notin> rl_key ` set t" by (simp_all add: tuniq_def)
  moreover have "rl_key b = key \<Longrightarrow> tget rl_key key (sweep_rates now t) = None"
    using \<open>rl_key b \<notin> rl_key ` set t\<close> by (simp add: tget_None_iff sweep_rates_def) (metis image_eqI)
  ultimately show ?case using Cons.IH
    by (auto simp: sweep_rates_def tdel_def tget_Cons)
qed (simp add: sweep_rates_def tdel_def)

lemma tuniq_after:
  assumes "tuniq rl_key t"
  shows "tuniq rl_key (after_hit k w now t)" and "tuniq rl_key (sweep_rates now t)"
proof -
  show "tuniq rl_key (sweep_rates now t)" unfolding sweep_rates_def by (rule tuniq_tdel [OF assms])
  show "tuniq rl_key (after_hit k w now t)"
    using assms by (auto simp: after_hit_def rateLimitSQL_def Let_def tget_None_iff tuniq_def map_key_tupd split: option.split)
qed

lemma rate_run_Hit:
  "rate_run rule (Hit key now # es) t =
     (if fst (rule key) < hit_count key now t then [] else [(key, now)]) @ rate_run rule es (after_hit key (snd (rule key)) now t)"
  by (auto simp: after_hit_def hit_count_def rateLimitSQL_def Let_def split: option.splits prod.splits)

lemma run_times: "(k, u) \<in> set (rate_run rule es t) \<Longrightarrow> \<exists>e \<in> set es. event_time e = u"
proof (induction es arbitrary: t)
  case (Cons e es)
  then show ?case by (cases e) (auto simp: rate_run_Hit simp del: rate_run.simps(3) split: if_splits)
qed simp

lemma passes_late: "(\<And>e. e \<in> set es \<Longrightarrow> till < event_time e) \<Longrightarrow> passes rule es t key till = 0"
  using run_times by (fastforce simp: passes_def filter_empty_conv)

lemma sorted_later: "sorted (map event_time (e # es)) \<Longrightarrow> till < event_time e \<Longrightarrow> e' \<in> set es \<Longrightarrow> till < event_time e'"
  by fastforce

text \<open>Within one window: what is left of the limit.\<close>

lemma window_passes:
  "sorted (map event_time es) \<Longrightarrow> tuniq rl_key t \<Longrightarrow> tget rl_key key t = Some b \<Longrightarrow>
   passes rule es t key (rl_reset b) \<le> fst (rule key) - rl_count b"
proof (induction es arbitrary: t b)
  case (Cons e es)
  then have s: "sorted (map event_time es)" by simp
  show ?case
  proof (cases "rl_reset b < event_time e")
    case True
    then have "passes rule (e # es) t key (rl_reset b) = 0"
      using sorted_later [OF Cons.prems(1)] by (intro passes_late) auto
    then show ?thesis by simp
  next
    case False
    show ?thesis
    proof (cases e)
      case (SweepRates now)
      have "0 < Hour" by (simp add: duration_defs)
      with False SweepRates have "tget rl_key key (sweep_rates now t) = Some b"
        using tget_sweep [OF Cons.prems(2), of key now] Cons.prems(3) by simp
      from Cons.IH [OF s tuniq_after(2) [OF Cons.prems(2)] this] show ?thesis by (simp add: SweepRates)
    next
      case (Hit k now)
      let ?t = "after_hit k (snd (rule k)) now t"
      show ?thesis
      proof (cases "k = key")
        case True
        define b' where "b' = \<lparr> rl_key = key, rl_count = rl_count b + 1, rl_reset = rl_reset b \<rparr>"
        have "tget rl_key key ?t = Some b'"
          using False Hit Cons.prems(3) by (simp add: tget_after_hit True hit_count_def b'_def)
        from Cons.IH [OF s tuniq_after(1) [OF Cons.prems(2)] this]
        have "passes rule es ?t key (rl_reset b) \<le> fst (rule key) - (rl_count b + 1)" by (simp add: b'_def)
        moreover have "hit_count key now t = rl_count b + 1" using False Hit Cons.prems(3) by (simp add: hit_count_def)
        ultimately show ?thesis by (simp add: Hit passes_Hit True) arith
      next
        case False
        then have "tget rl_key key ?t = Some b" using Cons.prems(3) by (simp add: tget_after_hit)
        from Cons.IH [OF s tuniq_after(1) [OF Cons.prems(2)] this] False show ?thesis by (simp add: Hit passes_Hit)
      qed
    qed
  qed
qed simp

lemma passes_mono: "till \<le> till' \<Longrightarrow> passes rule es t key till \<le> passes rule es t key till'"
  unfolding passes_def tcount_def [symmetric] by (rule tcount_mono) auto

lemma fresh_passes:
  assumes "0 \<le> snd (rule key)"
  shows "sorted (map event_time es) \<Longrightarrow> tuniq rl_key t \<Longrightarrow> \<forall>e \<in> set es. a \<le> event_time e \<Longrightarrow>
     (case tget rl_key key t of None \<Rightarrow> True | Some b \<Rightarrow> rl_reset b < now0) \<Longrightarrow> now0 \<le> a \<Longrightarrow>
     passes rule es t key (a + snd (rule key)) \<le> fst (rule key)"
proof (induction es arbitrary: t)
  case (Cons e es)
  then have s: "sorted (map event_time es)" by simp
  show ?case
  proof (cases e)
    case (SweepRates now)
    have "case tget rl_key key (sweep_rates now t) of None \<Rightarrow> True | Some b \<Rightarrow> rl_reset b < now0"
      using tget_sweep [OF Cons.prems(2), of key now] Cons.prems(4) by (auto split: option.splits)
    with Cons.IH [OF s tuniq_after(2) [OF Cons.prems(2)]] Cons.prems(3,5) show ?thesis by (simp add: SweepRates)
  next
    case (Hit k now)
    let ?t = "after_hit k (snd (rule k)) now t"
    show ?thesis
    proof (cases "k = key")
      case True
      have "a \<le> now" using Cons.prems(3) Hit by simp
      have one: "hit_count key now t = 1"
        using Cons.prems(4,5) \<open>a \<le> now\<close> by (auto simp: hit_count_def split: option.splits)
      have "tget rl_key key ?t = Some \<lparr> rl_key = key, rl_count = 1, rl_reset = now + snd (rule key) \<rparr>"
        using Cons.prems(4,5) \<open>a \<le> now\<close> by (auto simp: tget_after_hit True one split: option.splits)
      from window_passes [OF s tuniq_after(1) [OF Cons.prems(2)] this, of rule]
      have "passes rule es ?t key (now + snd (rule key)) \<le> fst (rule key) - 1" by simp
      with passes_mono [of "a + snd (rule key)" "now + snd (rule key)" rule es ?t key] \<open>a \<le> now\<close>
      have "passes rule es ?t key (a + snd (rule key)) \<le> fst (rule key) - 1" by simp
      then show ?thesis by (simp add: Hit passes_Hit True one) arith
    next
      case False
      then have "case tget rl_key key ?t of None \<Rightarrow> True | Some b \<Rightarrow> rl_reset b < now0"
        using Cons.prems(4) by (simp add: tget_after_hit)
      with Cons.IH [OF s tuniq_after(1) [OF Cons.prems(2)]] Cons.prems(3,5) False show ?thesis by (simp add: Hit passes_Hit)
    qed
  qed
qed simp

lemma any_passes:
  assumes w: "0 \<le> snd (rule key)"
  shows "sorted (map event_time es) \<Longrightarrow> tuniq rl_key t \<Longrightarrow> \<forall>e \<in> set es. a \<le> event_time e \<Longrightarrow> tget rl_key key t = Some b \<Longrightarrow>
     passes rule es t key (a + snd (rule key)) \<le> (fst (rule key) - rl_count b) + fst (rule key)"
proof (induction es arbitrary: t b)
  case (Cons e es)
  then have s: "sorted (map event_time es)" by simp
  show ?case
  proof (cases "rl_reset b < event_time e")
    case True
    then have "\<forall>e' \<in> set (e # es). max a (rl_reset b + 1) \<le> event_time e'"
      using Cons.prems(1,3) sorted_later [OF Cons.prems(1) True] by fastforce
    from fresh_passes [of rule key "e # es" t "max a (rl_reset b + 1)" "rl_reset b + 1", OF w Cons.prems(1,2) this] Cons.prems(4)
    have "passes rule (e # es) t key (max a (rl_reset b + 1) + snd (rule key)) \<le> fst (rule key)" by simp
    with passes_mono [of "a + snd (rule key)" "max a (rl_reset b + 1) + snd (rule key)" rule "e # es" t key]
    show ?thesis by simp
  next
    case False
    show ?thesis
    proof (cases e)
      case (SweepRates now)
      have "0 < Hour" by (simp add: duration_defs)
      with False SweepRates have "tget rl_key key (sweep_rates now t) = Some b"
        using tget_sweep [OF Cons.prems(2), of key now] Cons.prems(4) by simp
      with Cons.IH [OF s tuniq_after(2) [OF Cons.prems(2)] _ this] Cons.prems(3) show ?thesis by (simp add: SweepRates)
    next
      case (Hit k now)
      let ?t = "after_hit k (snd (rule k)) now t"
      show ?thesis
      proof (cases "k = key")
        case True
        define b' where "b' = \<lparr> rl_key = key, rl_count = rl_count b + 1, rl_reset = rl_reset b \<rparr>"
        have "tget rl_key key ?t = Some b'"
          using False Hit Cons.prems(4) by (simp add: tget_after_hit True hit_count_def b'_def)
        from Cons.IH [OF s tuniq_after(1) [OF Cons.prems(2)] _ this] Cons.prems(3)
        have "passes rule es ?t key (a + snd (rule key)) \<le> (fst (rule key) - (rl_count b + 1)) + fst (rule key)" by (simp add: b'_def)
        moreover have "hit_count key now t = rl_count b + 1" using False Hit Cons.prems(4) by (simp add: hit_count_def)
        ultimately show ?thesis by (simp add: Hit passes_Hit True) arith
      next
        case False
        then have "tget rl_key key ?t = Some b" using Cons.prems(4) by (simp add: tget_after_hit)
        with Cons.IH [OF s tuniq_after(1) [OF Cons.prems(2)] _ this] Cons.prems(3) False show ?thesis by (simp add: Hit passes_Hit)
      qed
    qed
  qed
qed simp

definition counted :: "bucket list \<Rightarrow> bool" where
  "counted t \<longleftrightarrow> tuniq rl_key t \<and> (\<forall>b \<in> set t. 1 \<le> rl_count b)"

lemma counted_after:
  assumes "counted t"
  shows "counted (after_hit k w now t)" and "counted (sweep_rates now t)"
proof -
  show "counted (sweep_rates now t)" using assms tuniq_after(2) by (auto simp: counted_def sweep_rates_def)
  show "counted (after_hit k w now t)"
    using assms tuniq_after(1) [of t k w now]
    by (auto simp: counted_def after_hit_def rateLimitSQL_def Let_def elim!: in_tupdE split: option.splits)
qed

lemma late_passes:
  assumes "0 \<le> snd (rule key)" and "sorted (map event_time es)" and "counted t" and "\<forall>e \<in> set es. a \<le> event_time e"
  shows "passes rule es t key (a + snd (rule key)) \<le> 2 * fst (rule key) - 1"
proof (cases "tget rl_key key t")
  case None
  then show ?thesis
    using fresh_passes [of rule key es t a a, OF assms(1,2) _ assms(4)] assms(3) by (simp add: counted_def)
next
  case (Some b)
  then have "1 \<le> rl_count b" using assms(3) tget_Some_in by (fastforce simp: counted_def)
  with any_passes [of rule key es t a, OF assms(1,2) _ assms(4) Some] assms(3) show ?thesis by (simp add: counted_def)
qed

lemma rate_bounds:
  assumes "0 \<le> snd (rule key)"
  shows "sorted (map event_time es) \<Longrightarrow> counted t \<Longrightarrow>
    length (filter (\<lambda>(k, u). k = key \<and> a \<le> u \<and> u \<le> a + snd (rule key)) (rate_run rule es t)) \<le> 2 * fst (rule key) - 1"
proof (induction es arbitrary: t)
  case (Cons e es)
  show ?case
  proof (cases "a \<le> event_time e")
    case True
    have all: "\<forall>e' \<in> set (e # es). a \<le> event_time e'" using True Cons.prems(1) by fastforce
    have "length (filter (\<lambda>(k, u). k = key \<and> a \<le> u \<and> u \<le> a + snd (rule key)) (rate_run rule (e # es) t)) \<le>
        passes rule (e # es) t key (a + snd (rule key))"
      unfolding passes_def tcount_def [symmetric] by (rule tcount_mono) auto
    also have "\<dots> \<le> 2 * fst (rule key) - 1" by (rule late_passes [of rule key "e # es" t a, OF assms Cons.prems all])
    finally show ?thesis .
  next
    case False
    have s: "sorted (map event_time es)" using Cons.prems(1) by simp
    show ?thesis
    proof (cases e)
      case (SweepRates now)
      then show ?thesis using Cons.IH [OF s counted_after(2) [OF Cons.prems(2)]] by simp
    next
      case (Hit k now)
      with False Cons.IH [OF s counted_after(1) [OF Cons.prems(2)]] show ?thesis by (simp add: rate_run_Hit del: rate_run.simps(3))
    qed
  qed
qed simp



end
