(* ===== verification/Admin.thy ===== *)
theory Admin
  imports Sessions
begin

text \<open>
  The support console (\<^verbatim>\<open>internal/admin\<close>): the audit log, searching users, locking and deleting accounts, suspending
  content, dead jobs, and the routes with their checks in the code's order.
\<close>

section \<open>The audit log\<close>

definition new_id :: "string account_tx" where
  "new_id d = Inr (a_fresh d (a_next d), d\<lparr> a_next := a_next d + 1 \<rparr>)"

definition null_if_empty :: "string \<Rightarrow> string option" where
  "null_if_empty s = (if s = [] then None else Some s)"

definition Record :: "AuthSession option \<Rightarrow> string \<Rightarrow> string \<Rightarrow> string \<Rightarrow> string \<Rightarrow> instant \<Rightarrow> unit account_tx" where
  "Record actor action targetType targetID reason now =
     (case actor of
        None \<Rightarrow> raise (AccountDb ''admin: Record requires a non-nil actor session'')
      | Some s \<Rightarrow>
          tx (lookup_or (AccountDb ''admin: actor session has a non-numeric user id'') (\<lambda>_. ParseInt (ss_user s))) (\<lambda>uid.
          tx new_id (\<lambda>i.
          tx (lookup_or (AccountDb ''fk_admin_audit_log_actor_user_id'') (\<lambda>d. tget au_id uid (a_users d))) (\<lambda>_.
          writes (\<lambda>d. d\<lparr> a_audit := a_audit d @ [\<lparr> al_id = i, al_actor = Some uid, al_actor_email = ss_email s, al_action = action,
            al_target_type = targetType, al_target_id = null_if_empty targetID, al_reason = null_if_empty reason,
            al_created_at = now \<rparr>] \<rparr>)))))"

definition ActionLockUser :: string where "ActionLockUser = ''lock-user''"
definition ActionUnlockUser :: string where "ActionUnlockUser = ''unlock-user''"
definition ActionDeleteUser :: string where "ActionDeleteUser = ''delete-user''"
definition ActionJobRetry :: string where "ActionJobRetry = ''job.retry''"
definition ActionSuspendContent :: string where "ActionSuspendContent = ''suspend-content''"
definition ActionUnsuspendContent :: string where "ActionUnsuspendContent = ''unsuspend-content''"

section \<open>Users\<close>

definition composeUserName :: "string option \<Rightarrow> string option \<Rightarrow> string \<Rightarrow> string" where
  "composeUserName firstName lastName email =
     (let name = TrimSpace (TrimSpace (TrimSpace (or_empty firstName) @ '' '' @ TrimSpace (or_empty lastName)))
      in if name \<noteq> [] then name else nameFromEmail email)"

record AdminUserRow =
  ur_id :: string
  ur_email :: string
  ur_name :: string
  ur_verified :: bool
  ur_staff :: bool
  ur_locked :: bool
  ur_created_at :: string

definition user_row :: "adb \<Rightarrow> AUser \<Rightarrow> AdminUserRow" where
  "user_row d u = \<lparr> ur_id = FormatInt (au_id u), ur_email = au_email u,
     ur_name = composeUserName (au_first_name u) (au_last_name u) (au_email u), ur_verified = (au_verified_at u \<noteq> None),
     ur_staff = (au_id u \<in> set (a_staff d)), ur_locked = isUserLocked (au_id u) d, ur_created_at = formatISO (au_created_at u) \<rparr>"

record OrgMembership =
  ob_id :: string
  ob_name :: string
  ob_slug :: string
  ob_roles :: "string list"

record AdminUserDetail =
  ud_row :: AdminUserRow
  ud_lock_reason :: "string option"
  ud_orgs :: "OrgMembership list"
  ud_polls :: nat
  ud_pages :: nat

text \<open>The roles of one membership, without repetition and in the database's order (\<open>collate\<close>).\<close>

definition org_membership :: "(string \<Rightarrow> nat) \<Rightarrow> adb \<Rightarrow> AMember \<Rightarrow> OrgMembership option" where
  "org_membership collate d m = map_option (\<lambda>x. \<lparr> ob_id = FormatInt (ao_id x), ob_name = ao_name x, ob_slug = ao_slug x,
     ob_roles = sort_key collate (remdups (map ar_role (filter (\<lambda>r. ar_member r = am_id m) (a_roles d)))) \<rparr>)
     (tget ao_id (am_org m) (a_orgs d))"

definition UserDetail :: "(string \<Rightarrow> nat) \<Rightarrow> string \<Rightarrow> adb \<Rightarrow> AdminUserDetail option" where
  "UserDetail collate userID d =
     Option.bind (ParseInt userID) (\<lambda>uid.
     map_option (\<lambda>u. \<lparr> ud_row = user_row d u,
       ud_lock_reason = Option.bind (map_of (a_locked d) uid) id,
       ud_orgs = sort_key (\<lambda>x. collate (ob_name x)) (List.map_filter (org_membership collate d)
         (sort_key am_org (filter (\<lambda>m. am_user m = uid) (a_members d)))),
       ud_polls = tcount (\<lambda>c. ct_created_by c = Some uid \<and> ct_deleted_at c = None) (a_polls d),
       ud_pages = tcount (\<lambda>c. ct_created_by c = Some uid \<and> ct_deleted_at c = None) (a_pages d) \<rparr>)
     (tget au_id uid (a_users d)))"

definition sameUserID :: "string \<Rightarrow> string \<Rightarrow> bool" where
  "sameUserID a b \<longleftrightarrow> (case (ParseInt a, ParseInt b) of (Some x, Some y) \<Rightarrow> x = y | _ \<Rightarrow> False)"

definition actor_guard :: "AuthSession option \<Rightarrow> string \<Rightarrow> unit account_tx" where
  "actor_guard actor userID =
     (case actor of
        None \<Rightarrow> raise (AccountDb ''admin: a non-nil actor session is required'')
      | Some s \<Rightarrow> ensure (\<not> sameUserID (ss_user s) userID) ErrSelfTarget)"

text \<open>The row of the lock: inserted, or its reason replaced.\<close>

definition put_lock :: "int \<Rightarrow> string option \<Rightarrow> unit account_tx" where
  "put_lock uid reason =
     tx (lookup_or (AccountDb ''locked_users_user_id_fkey'') (\<lambda>d. tget au_id uid (a_users d))) (\<lambda>_.
     writes (\<lambda>d. d\<lparr> a_locked := (uid, reason) # tdel (\<lambda>p. fst p = uid) (a_locked d) \<rparr>))"

definition LockUser :: "(string \<Rightarrow> adb \<Rightarrow> adb) \<Rightarrow> AuthSession option \<Rightarrow> string \<Rightarrow> string \<Rightarrow> instant \<Rightarrow> unit account_tx" where
  "LockUser revoke actor userID reason now =
     tx (actor_guard actor userID) (\<lambda>_.
     tx (lookup_or (AccountDb ''admin: invalid user id'') (\<lambda>_. ParseInt userID)) (\<lambda>uid.
     tx (put_lock uid (null_if_empty reason)) (\<lambda>_.
     tx (Record actor ActionLockUser ''user'' userID reason now) (\<lambda>_.
     writes (revoke userID)))))"

definition UnlockUser :: "AuthSession option \<Rightarrow> string \<Rightarrow> string \<Rightarrow> instant \<Rightarrow> unit account_tx" where
  "UnlockUser actor userID reason now =
     tx (lookup_or (AccountDb ''admin: invalid user id'') (\<lambda>_. ParseInt userID)) (\<lambda>uid.
     tx (writes (\<lambda>d. d\<lparr> a_locked := tdel (\<lambda>p. fst p = uid) (a_locked d) \<rparr>)) (\<lambda>_.
     Record actor ActionUnlockUser ''user'' userID reason now))"

definition AdminDeleteUser :: "(string \<Rightarrow> adb \<Rightarrow> adb) \<Rightarrow> AuthSession option \<Rightarrow> string \<Rightarrow> string \<Rightarrow> instant \<Rightarrow> unit account_tx" where
  "AdminDeleteUser revoke actor userID reason now =
     tx (actor_guard actor userID) (\<lambda>_.
     tx (lookup_or (AccountDb ''admin: invalid user id'') (\<lambda>_. ParseInt userID)) (\<lambda>_.
     tx (writes (revoke userID)) (\<lambda>_.
     tx (CascadeDeleteUser userID) (\<lambda>_.
     Record actor ActionDeleteUser ''user'' userID reason now))))"

section \<open>Content\<close>

definition ContentKindPoll :: string where "ContentKindPoll = ''poll''"
definition ContentKindBookingPage :: string where "ContentKindBookingPage = ''booking-page''"

definition set_suspended :: "string \<Rightarrow> instant option \<Rightarrow> AContent list \<Rightarrow> AContent list" where
  "set_suspended i s = tupd (\<lambda>c. ct_id c = i \<and> (ct_suspended_at c = None) = (s \<noteq> None)) (\<lambda>c. c\<lparr> ct_suspended_at := s \<rparr>)"

definition content_tables :: "string \<Rightarrow> adb \<Rightarrow> AContent list option" where
  "content_tables kind d = (if kind = ContentKindPoll then Some (a_polls d)
     else if kind = ContentKindBookingPage then Some (a_pages d) else None)"

definition with_content :: "string \<Rightarrow> AContent list \<Rightarrow> adb \<Rightarrow> adb" where
  "with_content kind t d = (if kind = ContentKindPoll then d\<lparr> a_polls := t \<rparr> else d\<lparr> a_pages := t \<rparr>)"

definition SetContentSuspended ::
  "AuthSession option \<Rightarrow> string \<Rightarrow> string \<Rightarrow> bool \<Rightarrow> string \<Rightarrow> instant \<Rightarrow> unit account_tx" where
  "SetContentSuspended actor kind i suspend reason now =
     tx (ensure (actor \<noteq> None) (AccountDb ''admin: SetContentSuspended requires a non-nil actor session'')) (\<lambda>_.
     tx (lookup_or ErrContentNotFound (content_tables kind)) (\<lambda>t.
     tx (ensure (list_ex (\<lambda>c. ct_id c = i) t) ErrContentNotFound) (\<lambda>_.
     tx (ensure (list_ex (\<lambda>c. ct_id c = i \<and> (ct_suspended_at c = None) = suspend) t) ErrContentUnchanged) (\<lambda>_.
     tx (writes (with_content kind (set_suspended i (if suspend then Some now else None) t))) (\<lambda>_.
     Record actor (if suspend then ActionSuspendContent else ActionUnsuspendContent) kind i reason now)))))"

record ContentItem =
  ci_kind :: string
  ci_id :: string
  ci_title :: string
  ci_type :: "string option"
  ci_org_name :: string
  ci_org_slug :: string
  ci_creator :: "string option"
  ci_path :: string
  ci_created_at :: instant
  ci_deleted_at :: "instant option"
  ci_suspended_at :: "instant option"

definition content_item :: "string \<Rightarrow> adb \<Rightarrow> AContent \<Rightarrow> ContentItem option" where
  "content_item kind d c = map_option (\<lambda>x. \<lparr> ci_kind = kind, ci_id = ct_id c, ci_title = ct_title c, ci_type = ct_type c,
     ci_org_name = ao_name x, ci_org_slug = ao_slug x,
     ci_creator = Option.bind (ct_created_by c) (\<lambda>u. map_option au_email (tget au_id u (a_users d))),
     ci_path = (if kind = ContentKindPoll then ''/p/'' @ ct_id c else ''/book/'' @ ao_slug x @ ''/'' @ ct_slug c),
     ci_created_at = ct_created_at c, ci_deleted_at = ct_deleted_at c, ci_suspended_at = ct_suspended_at c \<rparr>)
     (tget ao_id (ct_org c) (a_orgs d))"

definition get_poll_content :: "string \<Rightarrow> adb \<Rightarrow> ContentItem option" where
  "get_poll_content i d = Option.bind (tget ct_id i (a_polls d)) (content_item ContentKindPoll d)"

text \<open>Booking pages: of several matches the newest.\<close>

definition get_page_content :: "(AContent \<Rightarrow> AOrg \<Rightarrow> bool) \<Rightarrow> adb \<Rightarrow> ContentItem option" where
  "get_page_content p d =
     (case sort_key (\<lambda>c. - ct_created_at c) (filter (\<lambda>c. case tget ao_id (ct_org c) (a_orgs d) of None \<Rightarrow> False | Some x \<Rightarrow> p c x) (a_pages d)) of
        [] \<Rightarrow> None | c # _ \<Rightarrow> content_item ContentKindBookingPage d c)"

definition trim_slashes :: "string \<Rightarrow> string" where
  "trim_slashes s = rev (dropWhile (\<lambda>c. c = CHR ''/'') (rev (dropWhile (\<lambda>c. c = CHR ''/'') s)))"

text \<open>\<open>url_path\<close>: the scheme and the path \<^verbatim>\<open>url.Parse\<close> finds, or \<open>None\<close> when it rejects the text.\<close>

definition LookupContent :: "(string \<Rightarrow> (string \<times> string) option) \<Rightarrow> string \<Rightarrow> adb \<Rightarrow> ContentItem option" where
  "LookupContent url_path q0 d =
     (let q = TrimSpace q0;
          path = (case url_path q of
              Some (scheme, p) \<Rightarrow> if scheme \<noteq> [] \<or> take 1 q = ''/'' then p else q
            | None \<Rightarrow> q);
          segments = split_slash (trim_slashes path)
      in if q = [] then None
         else (case segments of
            [] \<Rightarrow> None
          | [i] \<Rightarrow> (case get_poll_content i d of
                Some x \<Rightarrow> Some x | None \<Rightarrow> get_page_content (\<lambda>c _. ct_id c = i) d)
          | a # b # rest \<Rightarrow>
              if a = ''p'' then get_poll_content b d
              else if a = ''book'' then
                (case rest of [] \<Rightarrow> None
                 | s # _ \<Rightarrow> get_page_content (\<lambda>c x. ao_slug x = b \<and> ct_slug c = s \<and> ct_deleted_at c = None) d)
              else None))"

end
