(* ===== verification/Cursors.thy ===== *)
theory Cursors
  imports Admin
begin

text \<open>
  The opaque cursors of the support console's lists (\<^verbatim>\<open>encodeCursor\<close>, \<^verbatim>\<open>decodeCursor\<close> of
  \<^verbatim>\<open>internal/admin/audit.go\<close> and their siblings in \<^verbatim>\<open>users.go\<close>): an instant to the nanosecond and an id, in
  unpadded base64. Reading an instant back is the parameter \<open>parse_time\<close>; the law assumed of it is that it reads
  what \<open>parseISODateTime\<close> reads.
\<close>

section \<open>RFC 3339 with nanoseconds\<close>

definition strip_zeros :: "string \<Rightarrow> string" where
  "strip_zeros s = rev (dropWhile (\<lambda>c. c = CHR ''0'') (rev s))"

text \<open>The fraction loses its trailing zeros, and the dot with them when nothing is left.\<close>

definition fraction :: "nat \<Rightarrow> string" where
  "fraction ns = (let ds = strip_zeros (digits 9 ns) in if ds = [] then [] else CHR ''.'' # ds)"

definition FormatRFC3339Nano :: "instant \<Rightarrow> string" where
  "FormatRFC3339Nano t = (let (hh, mm, ss, ns) = clock_of t
     in formatDate (day_of t) @ ''T'' @ digits 2 hh @ '':'' @ digits 2 mm @ '':'' @ digits 2 ss @ fraction (nat ns) @ ''Z'')"

lemma strip_zeros_split: "\<exists>k. s = strip_zeros s @ replicate k CHR ''0''"
proof (induction s rule: rev_induct)
  case (snoc c s)
  then obtain k where k: "s = strip_zeros s @ replicate k CHR ''0''" by blast
  show ?case
  proof (cases "c = CHR ''0''")
    case True
    then have "strip_zeros (s @ [c]) = strip_zeros s" by (simp add: strip_zeros_def)
    with k True have "s @ [c] = strip_zeros (s @ [c]) @ replicate (Suc k) CHR ''0''"
      by (metis append.assoc replicate_Suc replicate_append_same)
    then show ?thesis by blast
  next
    case False
    then have "s @ [c] = strip_zeros (s @ [c]) @ replicate 0 CHR ''0''" by (simp add: strip_zeros_def)
    then show ?thesis by blast
  qed
qed (simp add: strip_zeros_def)

lemma parse_frac_digits:
  "parse_digits acc s = Some n \<Longrightarrow> length s \<le> w \<Longrightarrow> digit_val z = None \<Longrightarrow>
   \<exists>v. n = acc * 10 ^ length s + v \<and> parse_frac w (s @ z # r) = (int v * 10 ^ (w - length s), z # r)"
proof (induction s arbitrary: acc w)
  case (Cons c s)
  then obtain d where d: "digit_val c = Some d" by (cases "digit_val c") simp_all
  from Cons.prems obtain w' where w: "w = Suc w'" by (cases w) simp_all
  from Cons.prems d w have "parse_digits (10 * acc + d) s = Some n" "length s \<le> w'" by simp_all
  from Cons.IH [OF this Cons.prems(3)] obtain v where v: "n = (10 * acc + d) * 10 ^ length s + v"
    "parse_frac w' (s @ z # r) = (int v * 10 ^ (w' - length s), z # r)" by blast
  have "n = acc * 10 ^ length (c # s) + (d * 10 ^ length s + v)" by (simp add: v(1) algebra_simps)
  moreover have "10 ^ w' = (10::int) ^ length s * 10 ^ (w' - length s)"
    using \<open>length s \<le> w'\<close> by (simp add: power_add [symmetric])
  then have "parse_frac w ((c # s) @ z # r) = (int (d * 10 ^ length s + v) * 10 ^ (w - length (c # s)), z # r)"
    by (simp add: w d v(2) algebra_simps)
  ultimately show ?case by blast
qed simp

lemma parse_digits_zeros: "parse_digits acc (replicate k CHR ''0'') = Some (acc * 10 ^ k)"
  by (induction k arbitrary: acc) (simp_all add: digit_val_def algebra_simps)

lemma fraction_parses:
  assumes "n < 10 ^ 9"
  shows "(case fraction n @ ''Z'' of c # cs \<Rightarrow> (if c = CHR ''.'' then parse_frac 9 cs else (0, fraction n @ ''Z''))
      | [] \<Rightarrow> (0, fraction n @ ''Z'')) = (int n, ''Z'')"
proof -
  define xs where "xs = strip_zeros (digits 9 n)"
  obtain k where k: "digits 9 n = xs @ replicate k CHR ''0''" using strip_zeros_split unfolding xs_def by blast
  have len: "9 = length xs + k" using arg_cong [OF k, of length] by simp
  have "parse_digits 0 (xs @ replicate k CHR ''0'') = Some n"
    using parse_digits_digits [OF assms, of 0] by (simp del: digits.simps add: k)
  then obtain m where m: "parse_digits 0 xs = Some m" "n = m * 10 ^ k"
    by (auto simp: parse_digits_append parse_digits_zeros split: option.splits)
  have z: "digit_val CHR ''Z'' = None" by (simp add: digit_val_def)
  from parse_frac_digits [OF m(1) _ z, of 9 "[]"] len have "parse_frac 9 (xs @ ''Z'') = (int m * 10 ^ (9 - length xs), ''Z'')"
    by auto
  moreover have "9 - length xs = k" using len by simp
  ultimately have "parse_frac 9 (xs @ ''Z'') = (int n, ''Z'')" using m(2) by simp
  moreover have "fraction n = (if xs = [] then [] else CHR ''.'' # xs)" by (simp add: fraction_def xs_def Let_def)
  moreover have "xs = [] \<Longrightarrow> n = 0" using m by simp
  ultimately show ?thesis by (cases "xs = []") simp_all
qed

lemma parse_FormatRFC3339Nano:
  assumes "four_digit_day (day_of t)"
  shows "parseISODateTime (FormatRFC3339Nano t) = Some t"
proof -
  obtain hh mm ss ns where c: "clock_of t = (hh, mm, ss, ns)" by (metis prod_cases4)
  note r = clock_ranges [OF c]
  have n: "nat ns < 10 ^ 9" using r(4,5) by (simp add: duration_defs nat_less_iff)
  have w: "hh < 10 ^ 2" "mm < 10 ^ 2" "ss < 10 ^ 2" using r by simp_all
  have iso: "FormatRFC3339Nano t = formatDate (day_of t) @ ''T'' @ digits 2 hh @ '':'' @ digits 2 mm @ '':'' @
      digits 2 ss @ fraction (nat ns) @ ''Z''"
    by (simp add: FormatRFC3339Nano_def c)
  have "parseISODateTime (FormatRFC3339Nano t) = Some (day_of t * day_ns + int hh * Hour + int mm * Minute
      + int ss * Second + int (nat ns))"
    unfolding iso parseISODateTime_def
    using r(1-3) w
    by (simp add: parse_date_prefix_formatDate [OF assms] field_digits lit_append [of "''T''", simplified]
        lit_append [of "'':''", simplified] fraction_parses [OF n] del: digits.simps)
  also have "\<dots> = Some t"
    using r(4,6) by (simp add: day_of_def) (metis add.assoc div_mult_mod_eq)
  finally show ?thesis .
qed

section \<open>Cursors\<close>

definition encodeCursor :: "instant \<Rightarrow> string \<Rightarrow> string" where
  "encodeCursor createdAt i = EncodeToString (FormatRFC3339Nano createdAt @ ''|'' @ i)"

definition decodeCursor :: "(string \<Rightarrow> instant option) \<Rightarrow> string \<Rightarrow> (instant \<times> string) option" where
  "decodeCursor parse_time cursor =
     Option.bind (DecodeString cursor) (\<lambda>raw.
     Option.bind (Cut (CHR ''|'') raw) (\<lambda>(a, b).
     Option.bind (parse_time a) (\<lambda>t. Some (t, b))))"

definition encodeUserCursor :: "instant \<Rightarrow> string \<Rightarrow> string" where
  "encodeUserCursor createdAt i = EncodeToString (FormatRFC3339Nano createdAt @ ''|'' @ i)"

definition decodeUserCursor :: "(string \<Rightarrow> instant option) \<Rightarrow> string \<Rightarrow> (instant \<times> int) option" where
  "decodeUserCursor parse_time cursor =
     Option.bind (DecodeString cursor) (\<lambda>raw.
     Option.bind (Cut (CHR ''|'') raw) (\<lambda>(a, b).
     Option.bind (parse_time a) (\<lambda>t.
     Option.bind (ParseInt b) (\<lambda>i. Some (t, i)))))"

definition reads_iso :: "(string \<Rightarrow> instant option) \<Rightarrow> bool" where
  "reads_iso parse_time \<longleftrightarrow> (\<forall>s t. parseISODateTime s = Some t \<longrightarrow> parse_time s = Some t)"

lemma set_digits: "c \<in> set (digits w n) \<Longrightarrow> digit_val c \<noteq> None"
  by (induction w arbitrary: n) (auto simp: digit_val_digit_char)

lemma set_format_nat: "c \<in> set (format_nat n) \<Longrightarrow> digit_val c \<noteq> None"
  using format_nat_digits by (fastforce simp: digit_val_digit_char)

lemma set_appendInt: "c \<in> set (appendInt x w) \<Longrightarrow> digit_val c \<noteq> None \<or> c = CHR ''-''"
  by (auto simp: appendInt_def Let_def dest: set_digits set_format_nat split: if_splits)

lemma set_strip_zeros: "set (strip_zeros s) \<subseteq> set s"
  unfolding strip_zeros_def by (metis set_dropWhileD set_rev subsetI)

lemma bar_free: "CHR ''|'' \<notin> set (FormatRFC3339Nano t)"
proof -
  have bar: "digit_val CHR ''|'' = None" by (simp add: digit_val_def)
  have d: "CHR ''|'' \<notin> set (digits w n)" for w n using set_digits [of "CHR ''|''" w n] bar by auto
  moreover have "CHR ''|'' \<notin> set (appendInt x w)" for x w using set_appendInt [of "CHR ''|''" x w] bar by auto
  moreover have "CHR ''|'' \<notin> set (fraction n)" for n
    using set_strip_zeros [of "digits 9 n"] d [of 9 n] by (auto simp: fraction_def Let_def)
  ultimately show ?thesis
    by (simp add: FormatRFC3339Nano_def formatDate_def Let_def del: digits.simps split: prod.split)
qed

lemma decode_encode:
  assumes "reads_iso parse_time" and "four_digit_day (day_of t)"
  shows "decodeCursor parse_time (encodeCursor t i) = Some (t, i)"
    and "in_int64 n \<Longrightarrow> decodeUserCursor parse_time (encodeUserCursor t (FormatInt n)) = Some (t, n)"
proof -
  have "parse_time (FormatRFC3339Nano t) = Some t"
    using assms(1) parse_FormatRFC3339Nano [OF assms(2)] by (simp add: reads_iso_def)
  then show "decodeCursor parse_time (encodeCursor t i) = Some (t, i)"
    "in_int64 n \<Longrightarrow> decodeUserCursor parse_time (encodeUserCursor t (FormatInt n)) = Some (t, n)"
    by (simp_all add: decodeCursor_def encodeCursor_def decodeUserCursor_def encodeUserCursor_def Cut_append [OF bar_free]
        ParseInt_FormatInt)
qed

lemma Encode_nonempty: "s \<noteq> [] \<Longrightarrow> EncodeToString s \<noteq> []"
  by (cases s rule: EncodeToString.cases) auto

lemma cursor_nonempty: "encodeCursor t i \<noteq> []" "encodeUserCursor t i \<noteq> []"
  by (simp_all add: encodeCursor_def encodeUserCursor_def Encode_nonempty)

end
