(* ===== verification/Keyset.thy ===== *)
theory Keyset
  imports Main
begin

text \<open>
  Listing a table newest first in pages, by the key of the last row seen: the query both lists of the support
  console make (\<^verbatim>\<open>internal/admin/audit.go\<close>, \<^verbatim>\<open>internal/admin/users.go\<close>), and what a client that follows the
  cursors gets to see while rows keep arriving.
\<close>

definition older :: "('r \<Rightarrow> 'k::linorder) \<Rightarrow> 'k option \<Rightarrow> 'r list \<Rightarrow> 'r list" where
  "older key c rows = filter (\<lambda>r. case c of None \<Rightarrow> True | Some k \<Rightarrow> key r < k) rows"

definition newest_first :: "('r \<Rightarrow> 'k::linorder) \<Rightarrow> 'r list \<Rightarrow> 'r list" where
  "newest_first key rows = rev (sort_key key rows)"

text \<open>One row more than the page holds is fetched; only when it is there is a cursor handed out.\<close>

definition keyset_page ::
  "('r \<Rightarrow> 'k::linorder) \<Rightarrow> ('r \<Rightarrow> string) \<Rightarrow> nat \<Rightarrow> 'k option \<Rightarrow> 'r list \<Rightarrow> 'r list \<times> string" where
  "keyset_page key cur lim c rows =
     (let got = take (lim + 1) (newest_first key (older key c rows))
      in if lim < length got then (take lim got, cur (got ! (lim - 1))) else (got, []))"

text \<open>Following the cursors, one state of the table per request.\<close>

fun walk :: "('d \<Rightarrow> string \<Rightarrow> 'e + 'v list \<times> string) \<Rightarrow> 'd list \<Rightarrow> string \<Rightarrow> 'v list option" where
  "walk fetch [] c = None"
| "walk fetch (d # ds) c =
     (case fetch d c of
        Inl _ \<Rightarrow> None
      | Inr (vs, next) \<Rightarrow> if next = [] then Some vs else map_option (append vs) (walk fetch ds next))"

lemma newest_first_below:
  assumes "newest_first key rows = A @ r # C" and "inj_on key (set rows)" and "distinct rows"
  shows "newest_first key (filter (\<lambda>x. key x < key r) rows) = C"
proof -
  have "distinct (map key (sort_key key rows))" using assms(2,3) by (simp add: distinct_map)
  then have "sorted_wrt (<) (map key (sort_key key rows))" by (simp add: strict_sorted_iff)
  then have s: "sorted_wrt (\<lambda>x y. y < x) (map key (A @ r # C))"
    unfolding assms(1) [symmetric] newest_first_def by (simp add: rev_map [symmetric] sorted_wrt_rev)
  have "newest_first key (filter (\<lambda>x. key x < key r) rows) = filter (\<lambda>x. key x < key r) (A @ r # C)"
    unfolding assms(1) [symmetric] newest_first_def by (simp add: filter_sort [symmetric] rev_filter)
  also have "\<dots> = C"
    using s by (auto simp: sorted_wrt_append filter_empty_conv filter_id_conv dest: order.asym)
  finally show ?thesis .
qed

locale keyset_listing =
  fixes key :: "'r \<Rightarrow> 'k::linorder"
    and cur :: "'r \<Rightarrow> string"
    and rows :: "'d \<Rightarrow> 'r list"
    and view :: "'d \<Rightarrow> 'r \<Rightarrow> 'v"
    and ident :: "'v \<Rightarrow> 'i"
    and rid :: "'r \<Rightarrow> 'i"
    and lim :: nat
    and ok :: "'r \<Rightarrow> bool"
    and fetch :: "'d \<Rightarrow> string \<Rightarrow> 'e + 'v list \<times> string"
  assumes lim: "0 < lim"
    and cur: "cur r \<noteq> []"
    and first: "fetch d [] = Inr (apfst (map (view d)) (keyset_page key cur lim None (rows d)))"
    and "next": "ok r \<Longrightarrow> fetch d (cur r) = Inr (apfst (map (view d)) (keyset_page key cur lim (Some (key r)) (rows d)))"
    and ident: "ident (view d r) = rid r"
begin

text \<open>\<open>d\<close> holds the rows of \<open>d0\<close> and newer ones.\<close>

definition later :: "'d \<Rightarrow> 'd \<Rightarrow> bool" where
  "later d0 d \<longleftrightarrow> (\<exists>new. rows d = rows d0 @ new \<and> (\<forall>n \<in> set new. \<forall>r \<in> set (rows d0). key r < key n))"

lemma map_ident: "map ident (map (view d) xs) = map rid xs"
  by (simp add: ident)

lemma walk_page:
  assumes fetched: "fetch d c = Inr (apfst (map (view d)) (keyset_page key cur lim k (rows d)))"
    and page: "newest_first key (older key k (rows d)) = C"
    and rest: "lim < length C \<Longrightarrow> \<exists>vs. walk fetch ds (cur (C ! (lim - 1))) = Some vs \<and> map ident vs = map rid (drop lim C)"
  shows "\<exists>vs. walk fetch (d # ds) c = Some vs \<and> map ident vs = map rid C"
proof (cases "lim < length C")
  case True
  from rest [OF this] obtain vs where vs: "walk fetch ds (cur (C ! (lim - 1))) = Some vs" "map ident vs = map rid (drop lim C)"
    by blast
  have "keyset_page key cur lim k (rows d) = (take lim C, cur (C ! (lim - 1)))"
    using True lim by (simp add: keyset_page_def page Let_def)
  then have "walk fetch (d # ds) c = Some (map (view d) (take lim C) @ vs)"
    using fetched vs(1) by (simp add: cur)
  moreover have "map ident (map (view d) (take lim C) @ vs) = map rid C"
    using vs(2) by (metis append_take_drop_id map_append map_ident)
  ultimately show ?thesis by blast
next
  case False
  then have "keyset_page key cur lim k (rows d) = (C, [])" by (simp add: keyset_page_def page Let_def)
  then show ?thesis using fetched map_ident [of d C] by simp
qed

lemma walk_from:
  assumes unique: "inj_on key (set (rows d0))" "distinct (rows d0)" and ok: "\<forall>r \<in> set (rows d0). ok r"
  shows "newest_first key (rows d0) = A @ r # C \<Longrightarrow> \<forall>d \<in> set ds. later d0 d \<Longrightarrow> length C \<le> length ds \<Longrightarrow> C \<noteq> [] \<Longrightarrow>
    \<exists>vs. walk fetch ds (cur r) = Some vs \<and> map ident vs = map rid C"
proof (induction ds arbitrary: A r C)
  case (Cons d ds)
  have "r \<in> set (newest_first key (rows d0))" using Cons.prems(1) by simp
  then have r: "r \<in> set (rows d0)" by (simp add: newest_first_def)
  from Cons.prems(2) obtain new where new: "rows d = rows d0 @ new" "\<forall>n \<in> set new. \<forall>r \<in> set (rows d0). key r < key n"
    by (auto simp: later_def)
  have "filter (\<lambda>x. key x < key r) new = []" using new(2) r by (auto simp: filter_empty_conv dest: order.asym)
  then have "older key (Some (key r)) (rows d) = filter (\<lambda>x. key x < key r) (rows d0)" by (simp add: older_def new(1))
  then have page: "newest_first key (older key (Some (key r)) (rows d)) = C"
    using newest_first_below [OF Cons.prems(1) unique] by simp
  show ?case
  proof (rule walk_page [OF "next" page])
    show "ok r" using ok r by blast
    assume long: "lim < length C"
    define r' where "r' = C ! (lim - 1)"
    have "C = take (lim - 1) C @ r' # drop lim C"
      using id_take_nth_drop [of "lim - 1" C] long lim by (simp add: r'_def)
    then have split: "newest_first key (rows d0) = (A @ r # take (lim - 1) C) @ r' # drop lim C"
      using Cons.prems(1) by simp
    show "\<exists>vs. walk fetch ds (cur (C ! (lim - 1))) = Some vs \<and> map ident vs = map rid (drop lim C)"
      unfolding r'_def [symmetric]
      by (rule Cons.IH [OF split]) (use Cons.prems long lim in auto)
  qed
qed simp

lemma walk_complete:
  assumes "inj_on key (set (rows d))" "distinct (rows d)" "\<forall>r \<in> set (rows d). ok r"
    and "\<forall>d' \<in> set ds. later d d'" "length (rows d) \<le> length ds"
  shows "\<exists>vs. walk fetch (d # ds) [] = Some vs \<and> map ident vs = map rid (newest_first key (rows d))"
proof (rule walk_page [OF first])
  define C where "C = newest_first key (rows d)"
  have len: "length C = length (rows d)" by (simp add: C_def newest_first_def)
  show "newest_first key (older key None (rows d)) = newest_first key (rows d)" by (simp add: older_def)
  assume "lim < length (newest_first key (rows d))"
  then have long: "lim < length C" by (simp add: C_def)
  have "C = take (lim - 1) C @ C ! (lim - 1) # drop lim C"
    using id_take_nth_drop [of "lim - 1" C] long lim by simp
  then have split: "newest_first key (rows d) = take (lim - 1) C @ C ! (lim - 1) # drop lim C" by (simp add: C_def)
  show "\<exists>vs. walk fetch ds (cur (newest_first key (rows d) ! (lim - 1))) = Some vs \<and>
      map ident vs = map rid (drop lim (newest_first key (rows d)))"
    unfolding C_def [symmetric] by (rule walk_from [OF assms(1-3) split]) (use assms(4,5) long len in auto)
qed

end

end
