(* ===== verification/AdminLists.thy ===== *)
theory AdminLists
  imports Cursors Keyset "HOL-Library.Product_Lexorder"
begin

text \<open>
  The two lists of the support console: the audit log (\<^verbatim>\<open>List\<close>, \<^verbatim>\<open>CountAuditLog\<close> of
  \<^verbatim>\<open>internal/admin/audit.go\<close>) and the user search (\<^verbatim>\<open>SearchUsers\<close>, \<^verbatim>\<open>CountUsers\<close> of
  \<^verbatim>\<open>internal/admin/users.go\<close>), with the proof that following the cursors misses nothing and repeats nothing.
  How the database orders ids that are text (\<open>collate\<close>) and folds case for \<^verbatim>\<open>ILIKE\<close> (\<open>fold_case\<close>) are
  parameters.
\<close>

section \<open>The audit log\<close>

record AuditEntry =
  ae_id :: string
  ae_actor :: "string option"
  ae_actor_email :: string
  ae_action :: string
  ae_target_type :: string
  ae_target_id :: "string option"
  ae_reason :: "string option"
  ae_created_at :: string

record AuditFilter =
  af_action :: string
  af_actor_email :: string
  af_target_type :: string
  af_target_id :: string
  af_cursor :: string
  af_limit :: int

definition defaultListLimit :: nat where "defaultListLimit = 100"
definition maxListLimit :: nat where "maxListLimit = 200"

definition clamp_limit :: "nat \<Rightarrow> nat \<Rightarrow> int \<Rightarrow> nat" where
  "clamp_limit dflt most limit = (if limit \<le> 0 then dflt else if int most < limit then most else nat limit)"

definition auditWhereConditions :: "AuditFilter \<Rightarrow> AuditRow \<Rightarrow> bool" where
  "auditWhereConditions f r \<longleftrightarrow>
     (af_action f = [] \<or> al_action r = af_action f) \<and>
     (af_actor_email f = [] \<or> al_actor_email r = af_actor_email f) \<and>
     (af_target_type f = [] \<or> al_target_type r = af_target_type f) \<and>
     (af_target_id f = [] \<or> al_target_id r = Some (af_target_id f))"

definition audit_entry :: "AuditRow \<Rightarrow> AuditEntry" where
  "audit_entry r = \<lparr> ae_id = al_id r, ae_actor = map_option FormatInt (al_actor r), ae_actor_email = al_actor_email r,
     ae_action = al_action r, ae_target_type = al_target_type r, ae_target_id = al_target_id r, ae_reason = al_reason r,
     ae_created_at = formatISO (al_created_at r) \<rparr>"

definition audit_key :: "(string \<Rightarrow> nat) \<Rightarrow> AuditRow \<Rightarrow> instant \<times> nat" where
  "audit_key collate r = (al_created_at r, collate (al_id r))"

definition audit_cursor :: "AuditRow \<Rightarrow> string" where
  "audit_cursor r = encodeCursor (al_created_at r) (al_id r)"

definition List ::
  "(string \<Rightarrow> instant option) \<Rightarrow> (string \<Rightarrow> nat) \<Rightarrow> AuditFilter \<Rightarrow> adb \<Rightarrow> account_error + AuditEntry list \<times> string" where
  "List parse_time collate f d =
     (let limit = clamp_limit defaultListLimit maxListLimit (af_limit f);
          page = (\<lambda>c. Inr (apfst (map audit_entry)
            (keyset_page (audit_key collate) audit_cursor limit c (filter (auditWhereConditions f) (a_audit d)))))
      in if af_cursor f = [] then page None
         else (case decodeCursor parse_time (af_cursor f) of
                 None \<Rightarrow> Inl (AccountDb ''admin: invalid audit cursor'')
               | Some (t, i) \<Rightarrow> page (Some (t, collate i))))"

definition CountAuditLog :: "AuditFilter \<Rightarrow> adb \<Rightarrow> nat" where
  "CountAuditLog f d = tcount (auditWhereConditions f) (a_audit d)"

section \<open>Searching users\<close>

text \<open>\<^verbatim>\<open>LIKE\<close>: a percent sign stands for any text, an underscore for one character, a backslash takes the next
  character as it is.\<close>

fun like :: "string list \<Rightarrow> string list \<Rightarrow> bool" where
  "like [] s \<longleftrightarrow> s = []"
| "like (p # ps) s \<longleftrightarrow>
     (if p = ''%'' then like ps s \<or> (case s of [] \<Rightarrow> False | _ # t \<Rightarrow> like (p # ps) t)
      else if p = ''_'' then (case s of [] \<Rightarrow> False | _ # t \<Rightarrow> like ps t)
      else if p = [CHR 0x5C] then
        (case (ps, s) of (q # qs, c # t) \<Rightarrow> c = q \<and> like qs t | _ \<Rightarrow> False)
      else (case s of [] \<Rightarrow> False | c # t \<Rightarrow> c = p \<and> like ps t))"

definition ILIKE :: "(string \<Rightarrow> string) \<Rightarrow> string \<Rightarrow> string \<Rightarrow> bool" where
  "ILIKE fold_case s pattern = like (runes (fold_case pattern)) (runes (fold_case s))"

record UserFilter =
  uf_query :: string
  uf_cursor :: string
  uf_limit :: int

definition defaultUserListLimit :: nat where "defaultUserListLimit = 50"
definition maxUserListLimit :: nat where "maxUserListLimit = 200"

definition userWhereConditions :: "(string \<Rightarrow> string) \<Rightarrow> UserFilter \<Rightarrow> AUser \<Rightarrow> bool" where
  "userWhereConditions fold_case f u \<longleftrightarrow>
     (let q = TrimSpace (uf_query f); term = ''%'' @ q @ ''%''
      in q = [] \<or> ILIKE fold_case (au_email u) term \<or>
         ILIKE fold_case (or_empty (au_first_name u) @ '' '' @ or_empty (au_last_name u)) term)"

definition user_key :: "AUser \<Rightarrow> instant \<times> int" where
  "user_key u = (au_created_at u, au_id u)"

definition user_cursor :: "AUser \<Rightarrow> string" where
  "user_cursor u = encodeUserCursor (au_created_at u) (FormatInt (au_id u))"

definition SearchUsers ::
  "(string \<Rightarrow> instant option) \<Rightarrow> (string \<Rightarrow> string) \<Rightarrow> UserFilter \<Rightarrow> adb \<Rightarrow> account_error + AdminUserRow list \<times> string" where
  "SearchUsers parse_time fold_case f d =
     (let limit = clamp_limit defaultUserListLimit maxUserListLimit (uf_limit f);
          page = (\<lambda>c. Inr (apfst (map (user_row d))
            (keyset_page user_key user_cursor limit c (filter (userWhereConditions fold_case f) (a_users d)))))
      in if uf_cursor f = [] then page None
         else (case decodeUserCursor parse_time (uf_cursor f) of
                 None \<Rightarrow> Inl (AccountDb ''admin: invalid user cursor'')
               | Some (t, i) \<Rightarrow> page (Some (t, i))))"

definition CountUsers :: "(string \<Rightarrow> string) \<Rightarrow> UserFilter \<Rightarrow> adb \<Rightarrow> nat" where
  "CountUsers fold_case f d = tcount (userWhereConditions fold_case f) (a_users d)"

section \<open>Following the cursors\<close>

lemma clamp_pos: "0 < dflt \<Longrightarrow> 0 < most \<Longrightarrow> 0 < clamp_limit dflt most n"
  by (auto simp: clamp_limit_def)

definition audit_page ::
  "(string \<Rightarrow> instant option) \<Rightarrow> (string \<Rightarrow> nat) \<Rightarrow> AuditFilter \<Rightarrow> adb \<Rightarrow> string \<Rightarrow> account_error + AuditEntry list \<times> string" where
  "audit_page parse_time collate f d c = List parse_time collate (f\<lparr> af_cursor := c \<rparr>) d"

definition user_page ::
  "(string \<Rightarrow> instant option) \<Rightarrow> (string \<Rightarrow> string) \<Rightarrow> UserFilter \<Rightarrow> adb \<Rightarrow> string \<Rightarrow> account_error + AdminUserRow list \<times> string" where
  "user_page parse_time fold_case f d c = SearchUsers parse_time fold_case (f\<lparr> uf_cursor := c \<rparr>) d"

interpretation audit_list: keyset_listing
  "audit_key collate" audit_cursor "\<lambda>d. filter (auditWhereConditions f) (a_audit d)" "\<lambda>_. audit_entry" ae_id al_id
  "clamp_limit defaultListLimit maxListLimit (af_limit f)"
  "\<lambda>r. reads_iso parse_time \<and> four_digit_day (day_of (al_created_at r))" "audit_page parse_time collate f"
proof
  fix d :: adb and r :: AuditRow
  have w: "auditWhereConditions (f\<lparr> af_cursor := c \<rparr>) = auditWhereConditions f" for c
    by (rule ext) (simp add: auditWhereConditions_def)
  show "0 < clamp_limit defaultListLimit maxListLimit (af_limit f)"
    by (rule clamp_pos) (simp_all add: defaultListLimit_def maxListLimit_def)
  show "audit_cursor r \<noteq> []" by (simp add: audit_cursor_def cursor_nonempty)
  show "audit_page parse_time collate f d [] = Inr (apfst (map audit_entry) (keyset_page (audit_key collate) audit_cursor
      (clamp_limit defaultListLimit maxListLimit (af_limit f)) None (filter (auditWhereConditions f) (a_audit d))))"
    by (simp add: audit_page_def List_def w)
  show "audit_page parse_time collate f d (audit_cursor r) = Inr (apfst (map audit_entry) (keyset_page (audit_key collate)
      audit_cursor (clamp_limit defaultListLimit maxListLimit (af_limit f)) (Some (audit_key collate r))
      (filter (auditWhereConditions f) (a_audit d))))" if ok: "reads_iso parse_time \<and> four_digit_day (day_of (al_created_at r))"
    using cursor_nonempty [of "al_created_at r" "al_id r"]
      decode_encode(1) [OF conjunct1 [OF ok] conjunct2 [OF ok], of "al_id r"]
    by (simp add: audit_page_def List_def w audit_cursor_def audit_key_def)
  show "ae_id (audit_entry r) = al_id r" by (simp add: audit_entry_def)
qed

interpretation user_list: keyset_listing
  user_key user_cursor "\<lambda>d. filter (userWhereConditions fold_case f) (a_users d)" user_row ur_id "\<lambda>u. FormatInt (au_id u)"
  "clamp_limit defaultUserListLimit maxUserListLimit (uf_limit f)"
  "\<lambda>u. reads_iso parse_time \<and> four_digit_day (day_of (au_created_at u)) \<and> in_int64 (au_id u)" "user_page parse_time fold_case f"
proof
  fix d :: adb and u :: AUser
  have w: "userWhereConditions fold_case (f\<lparr> uf_cursor := c \<rparr>) = userWhereConditions fold_case f" for c
    by (rule ext) (simp add: userWhereConditions_def)
  show "0 < clamp_limit defaultUserListLimit maxUserListLimit (uf_limit f)"
    by (rule clamp_pos) (simp_all add: defaultUserListLimit_def maxUserListLimit_def)
  show "user_cursor u \<noteq> []" by (simp add: user_cursor_def cursor_nonempty)
  show "user_page parse_time fold_case f d [] = Inr (apfst (map (user_row d)) (keyset_page user_key user_cursor
      (clamp_limit defaultUserListLimit maxUserListLimit (uf_limit f)) None (filter (userWhereConditions fold_case f) (a_users d))))"
    by (simp add: user_page_def SearchUsers_def w)
  show "user_page parse_time fold_case f d (user_cursor u) = Inr (apfst (map (user_row d)) (keyset_page user_key
      user_cursor (clamp_limit defaultUserListLimit maxUserListLimit (uf_limit f)) (Some (user_key u))
      (filter (userWhereConditions fold_case f) (a_users d))))"
    if ok: "reads_iso parse_time \<and> four_digit_day (day_of (au_created_at u)) \<and> in_int64 (au_id u)"
    using cursor_nonempty(2) [of "au_created_at u" "FormatInt (au_id u)"]
      decode_encode(2) [OF conjunct1 [OF ok] conjunct1 [OF conjunct2 [OF ok]] conjunct2 [OF conjunct2 [OF ok]]]
    by (simp add: user_page_def SearchUsers_def w user_cursor_def user_key_def)
  show "ur_id (user_row d u) = FormatInt (au_id u)" by (simp add: user_row_def)
qed

lemma tuniq_distinct: "tuniq key t \<Longrightarrow> distinct t"
  unfolding tuniq_def by (simp add: distinct_map)

text \<open>C15: A staff member who follows the cursors of the audit log, with any filter and page size, sees every matching
  entry there was at the start exactly once, newest first, and as many as the total says - although new entries may arrive
  between any two requests - in at most one request more than there are entries.\<close>

theorem audit_pages_complete:
  assumes "reads_iso parse_time" and "tuniq al_id (a_audit d)" and "inj_on collate (al_id ` set (a_audit d))"
    and "\<forall>r \<in> set (a_audit d). four_digit_day (day_of (al_created_at r))"
    and "\<forall>d' \<in> set ds. \<exists>new. a_audit d' = a_audit d @ new \<and>
           (\<forall>n \<in> set new. \<forall>r \<in> set (a_audit d). al_created_at r < al_created_at n)"
    and "CountAuditLog f d \<le> length ds"
  shows "\<exists>es. walk (audit_page parse_time collate f) (d # ds) [] = Some es \<and> length es = CountAuditLog f d \<and>
     map ae_id es = map al_id (newest_first (audit_key collate) (filter (auditWhereConditions f) (a_audit d)))"
proof -
  let ?rows = "filter (auditWhereConditions f) (a_audit d)"
  have "inj_on (audit_key collate) (set (a_audit d))"
    using assms(3) tuniq_inj [OF assms(2)] by (auto simp: inj_on_def audit_key_def)
  then have unique: "inj_on (audit_key collate) (set ?rows)" by (rule inj_on_subset) auto
  have later: "\<forall>d' \<in> set ds. audit_list.later collate f d d'"
    using assms(5) by (fastforce simp: audit_list.later_def audit_key_def)
  have "\<exists>es. walk (audit_page parse_time collate f) (d # ds) [] = Some es \<and>
      map ae_id es = map al_id (newest_first (audit_key collate) ?rows)"
    by (rule audit_list.walk_complete [OF unique _ _ later])
      (use assms(1,4,6) tuniq_distinct [OF assms(2)] in \<open>auto simp: CountAuditLog_def tcount_def\<close>)
  then obtain es where es: "walk (audit_page parse_time collate f) (d # ds) [] = Some es"
    "map ae_id es = map al_id (newest_first (audit_key collate) ?rows)" by blast
  have "length es = length (newest_first (audit_key collate) ?rows)" using arg_cong [OF es(2), of length] by simp
  then have "length es = CountAuditLog f d" by (simp add: newest_first_def CountAuditLog_def tcount_def)
  with es show ?thesis by blast
qed

lemma reads_iso_self: "reads_iso parseISODateTime"
  by (simp add: reads_iso_def)

definition demo_audit_row :: "string \<Rightarrow> instant \<Rightarrow> AuditRow" where
  "demo_audit_row i t = \<lparr> al_id = i, al_actor = Some 1, al_actor_email = ''staff@example.com'', al_action = ActionLockUser,
     al_target_type = ''user'', al_target_id = Some ''2'', al_reason = Some ''spam'', al_created_at = t \<rparr>"

definition demo_audit :: adb where
  "demo_audit = demo_accounts\<lparr> a_audit := [demo_audit_row ''a'' 0, demo_audit_row ''bb'' Hour, demo_audit_row ''ccc'' Hour] \<rparr>"

definition demo_audit_later :: adb where
  "demo_audit_later = demo_audit\<lparr> a_audit := a_audit demo_audit @ [demo_audit_row ''d'' (2 * Hour)] \<rparr>"

definition demo_audit_filter :: AuditFilter where
  "demo_audit_filter = \<lparr> af_action = ActionLockUser, af_actor_email = [], af_target_type = [], af_target_id = [],
     af_cursor = [], af_limit = 1 \<rparr>"

lemma audit_pages_complete_witness:
  "\<exists>es. walk (audit_page parseISODateTime length demo_audit_filter) [demo_audit, demo_audit_later, demo_audit_later, demo_audit_later] [] =
     Some es \<and> map ae_id es = [''ccc'', ''bb'', ''a'']"
proof -
  have days: "four_digit_day (day_of 0)" "four_digit_day (day_of Hour)"
    by (simp_all add: four_digit_day_def day_of_def duration_defs)
  have rows: "a_audit demo_audit = [demo_audit_row ''a'' 0, demo_audit_row ''bb'' Hour, demo_audit_row ''ccc'' Hour]"
    by (simp add: demo_audit_def)
  have times: "map al_created_at (a_audit demo_audit) = [0, Hour, Hour]" by (simp add: rows demo_audit_row_def)
  have all: "filter (auditWhereConditions demo_audit_filter) (a_audit demo_audit) = a_audit demo_audit"
    by (simp add: rows auditWhereConditions_def demo_audit_filter_def demo_audit_row_def)
  have "0 < Hour" by (simp add: duration_defs)
  have sorted: "map al_id (newest_first (audit_key length) (a_audit demo_audit)) = [''ccc'', ''bb'', ''a'']"
    using \<open>0 < Hour\<close> by (simp add: rows newest_first_def audit_key_def demo_audit_row_def)
  have "\<exists>es. walk (audit_page parseISODateTime length demo_audit_filter) (demo_audit # [demo_audit_later, demo_audit_later, demo_audit_later]) [] =
      Some es \<and> length es = CountAuditLog demo_audit_filter demo_audit \<and>
      map ae_id es = map al_id (newest_first (audit_key length) (filter (auditWhereConditions demo_audit_filter) (a_audit demo_audit)))"
  proof (rule audit_pages_complete [OF reads_iso_self])
    show "tuniq al_id (a_audit demo_audit)" by (simp add: rows tuniq_def demo_audit_row_def)
    show "inj_on length (al_id ` set (a_audit demo_audit))" by (simp add: rows demo_audit_row_def)
    show "\<forall>r \<in> set (a_audit demo_audit). four_digit_day (day_of (al_created_at r))"
      using days by (simp add: rows demo_audit_row_def)
    show "\<forall>d' \<in> set [demo_audit_later, demo_audit_later, demo_audit_later]. \<exists>new. a_audit d' = a_audit demo_audit @ new \<and>
        (\<forall>n \<in> set new. \<forall>r \<in> set (a_audit demo_audit). al_created_at r < al_created_at n)"
    proof
      fix d' assume "d' \<in> set [demo_audit_later, demo_audit_later, demo_audit_later]"
      then have d': "a_audit d' = a_audit demo_audit @ [demo_audit_row ''d'' (2 * Hour)]"
        by (auto simp: demo_audit_later_def)
      have "\<forall>t \<in> set (map al_created_at (a_audit demo_audit)). t < 2 * Hour" unfolding times by (simp add: duration_defs)
      then have "\<forall>r \<in> set (a_audit demo_audit). al_created_at r < 2 * Hour" by simp
      moreover have "al_created_at (demo_audit_row ''d'' (2 * Hour)) = 2 * Hour" by (simp only: demo_audit_row_def AuditRow.simps)
      ultimately have "\<forall>n \<in> set [demo_audit_row ''d'' (2 * Hour)]. \<forall>r \<in> set (a_audit demo_audit). al_created_at r < al_created_at n"
        by (simp only: list.set ball_simps simp_thms)
      with d' show "\<exists>new. a_audit d' = a_audit demo_audit @ new \<and>
          (\<forall>n \<in> set new. \<forall>r \<in> set (a_audit demo_audit). al_created_at r < al_created_at n)" by blast
    qed
    show "CountAuditLog demo_audit_filter demo_audit \<le> length [demo_audit_later, demo_audit_later, demo_audit_later]"
      unfolding CountAuditLog_def tcount_def all by (simp add: rows)
  qed
  then show ?thesis unfolding all sorted by (elim exE conjE) (intro exI conjI)
qed

lemma user_pages_complete:
  assumes "reads_iso parse_time" and "tuniq au_id (a_users d)"
    and "\<forall>u \<in> set (a_users d). four_digit_day (day_of (au_created_at u)) \<and> in_int64 (au_id u)"
    and "\<forall>d' \<in> set ds. \<exists>new. a_users d' = a_users d @ new \<and>
           (\<forall>n \<in> set new. \<forall>u \<in> set (a_users d). au_created_at u < au_created_at n)"
    and "CountUsers fold_case f d \<le> length ds"
  shows "\<exists>us. walk (user_page parse_time fold_case f) (d # ds) [] = Some us \<and>
     map ur_id us = map (\<lambda>u. FormatInt (au_id u)) (newest_first user_key (filter (userWhereConditions fold_case f) (a_users d)))"
proof -
  have "inj_on user_key (set (a_users d))"
    using tuniq_inj [OF assms(2)] by (auto simp: inj_on_def user_key_def)
  then have unique: "inj_on user_key (set (filter (userWhereConditions fold_case f) (a_users d)))"
    by (rule inj_on_subset) auto
  have later: "\<forall>d' \<in> set ds. user_list.later fold_case f d d'"
    using assms(4) by (fastforce simp: user_list.later_def user_key_def)
  show ?thesis
    by (rule user_list.walk_complete [OF unique _ _ later])
      (use assms(1,3,5) tuniq_distinct [OF assms(2)] in \<open>auto simp: CountUsers_def tcount_def\<close>)
qed

text \<open>An underscore in the search text is a wildcard: the search for \<^verbatim>\<open>a_b\<close> also finds \<^verbatim>\<open>axb\<close>.\<close>

lemma search_underscore: "ILIKE id ''axb@example.com'' (''%'' @ ''a_b'' @ ''%'')"
  by code_simp

end
