(* ===== verification/AdminRoutes.thy ===== *)
theory AdminRoutes
  imports AdminLists
begin

text \<open>
  The routes of the support console (\<^verbatim>\<open>internal/admin/handlers.go\<close>, \<^verbatim>\<open>internal/admin/stats.go\<close>): each handler
  with its checks in the code's order behind the staff gate, and the trail the mutating ones leave. The decoded body is
  an argument, so malformed JSON is outside. Revoking sessions (\<open>revoke\<close>) is a call into the authentication library; when a
  deletion fails after it, that revocation stays in the code and is not shown here.
\<close>

section \<open>Statistics\<close>

record Count =
  cn_total :: nat
  cn_last7 :: nat
  cn_last30 :: nat

definition growthCount :: "instant \<Rightarrow> ('r \<Rightarrow> instant) \<Rightarrow> ('r \<Rightarrow> bool) \<Rightarrow> 'r list \<Rightarrow> Count" where
  "growthCount now created_at where_extra rows = \<lparr> cn_total = tcount where_extra rows,
     cn_last7 = tcount (\<lambda>r. where_extra r \<and> now - 7 * 24 * Hour \<le> created_at r) rows,
     cn_last30 = tcount (\<lambda>r. where_extra r \<and> now - 30 * 24 * Hour \<le> created_at r) rows \<rparr>"

text \<open>The tables the dashboard counts, in the columns it reads: creation times of organizations, participants and
  bookings, the polls with their status.\<close>

record stats_input =
  sx_orgs :: "instant list"
  sx_polls :: "(AContent \<times> string) list"
  sx_participants :: "instant list"
  sx_bookings :: "instant list"

record DashboardStats =
  ds_users :: Count
  ds_orgs :: Count
  ds_polls :: Count
  ds_finalized :: nat
  ds_signups :: Count
  ds_participants :: Count
  ds_pages :: Count
  ds_bookings :: Count
  ds_mail_depth :: nat
  ds_failed :: nat

definition Stats :: "stats_input \<Rightarrow> instant \<Rightarrow> adb \<Rightarrow> DashboardStats" where
  "Stats x now d = \<lparr>
     ds_users = growthCount now au_created_at (\<lambda>_. True) (a_users d),
     ds_orgs = growthCount now id (\<lambda>_. True) (sx_orgs x),
     ds_polls = growthCount now (ct_created_at \<circ> fst) (\<lambda>(c, _). ct_deleted_at c = None \<and> ct_type c \<noteq> Some ''signup'') (sx_polls x),
     ds_finalized = tcount (\<lambda>(c, status). ct_deleted_at c = None \<and> status = ''finalized'') (sx_polls x),
     ds_signups = growthCount now (ct_created_at \<circ> fst) (\<lambda>(c, _). ct_deleted_at c = None \<and> ct_type c = Some ''signup'') (sx_polls x),
     ds_participants = growthCount now id (\<lambda>_. True) (sx_participants x),
     ds_pages = growthCount now ct_created_at (\<lambda>c. ct_deleted_at c = None) (a_pages d),
     ds_bookings = growthCount now id (\<lambda>_. True) (sx_bookings x),
     ds_mail_depth = tcount (\<lambda>j. take 5 (job_kind j) = ''mail:'' \<and> job_attempts j < job_max_attempts j) (a_jobs d),
     ds_failed = tcount dead_job (a_jobs d) \<rparr>"

section \<open>Handlers\<close>

datatype admin_error = AdminEnvelope nat string "(string \<times> string) list" | AdminService account_error

type_synonym 'a admin_handler = "(adb, admin_error, 'a) tx"

definition asvc :: "'a account_tx \<Rightarrow> 'a admin_handler" where
  "asvc m d = (case m d of Inl e \<Rightarrow> Inl (AdminService e) | Inr r \<Rightarrow> Inr r)"

text \<open>What the handlers answer to the errors of the service layer.\<close>

fun admin_refusal :: "admin_error \<Rightarrow> nat \<times> string \<times> (string \<times> string) list" where
  "admin_refusal (AdminEnvelope status code fs) = (status, code, fs)"
| "admin_refusal (AdminService ErrSelfTarget) = (400, ''invalid'', [(''id'', ''self'')])"
| "admin_refusal (AdminService ErrContentNotFound) = (404, ''not_found'', [])"
| "admin_refusal (AdminService ErrContentUnchanged) = (409, ''conflict'', [])"
| "admin_refusal (AdminService _) = (500, ''internal'', [])"

definition requireExistingUser :: "(string \<Rightarrow> nat) \<Rightarrow> string \<Rightarrow> AdminUserDetail admin_handler" where
  "requireExistingUser collate i = lookup_or (AdminEnvelope 404 ''not_found'' []) (UserDetail collate i)"

definition decodeReason :: "string \<Rightarrow> string admin_handler" where
  "decodeReason body =
     tx (ensure (TrimSpace body \<noteq> []) (AdminEnvelope 400 ''invalid'' [(''reason'', ''required'')])) (\<lambda>_. ret (TrimSpace body))"

definition writeCannotTargetSelf :: admin_error where
  "writeCannotTargetSelf = AdminEnvelope 400 ''invalid'' [(''id'', ''self'')]"

definition requireActor :: "AuthSession option \<Rightarrow> AuthSession admin_handler" where
  "requireActor sess = lookup_or (AdminEnvelope 401 ''unauthenticated'' []) (\<lambda>_. sess)"

definition parseLimitParam :: "string \<Rightarrow> int" where
  "parseLimitParam raw = (case ParseInt raw of None \<Rightarrow> 0 | Some n \<Rightarrow> n)"

record admin_env =
  ev_collate :: "string \<Rightarrow> nat"
  ev_fold_case :: "string \<Rightarrow> string"
  ev_parse_time :: "string \<Rightarrow> instant option"
  ev_url_path :: "string \<Rightarrow> (string \<times> string) option"
  ev_revoke :: "string \<Rightarrow> adb \<Rightarrow> adb"
  ev_stats :: stats_input

definition handleSearchUsers :: "admin_env \<Rightarrow> UserFilter \<Rightarrow> (AdminUserRow list \<times> string \<times> nat) admin_handler" where
  "handleSearchUsers env f =
     tx (\<lambda>d. asvc (of_result (SearchUsers (ev_parse_time env) (ev_fold_case env) f d)) d) (\<lambda>(users, next).
     tx (reads (CountUsers (ev_fold_case env) f)) (\<lambda>total. ret (users, next, total)))"

definition handleUserDetail :: "admin_env \<Rightarrow> string \<Rightarrow> AdminUserDetail admin_handler" where
  "handleUserDetail env i = requireExistingUser (ev_collate env) i"

definition handleLockUser :: "admin_env \<Rightarrow> AuthSession option \<Rightarrow> string \<Rightarrow> string \<Rightarrow> instant \<Rightarrow> unit admin_handler" where
  "handleLockUser env sess i body now =
     tx (requireActor sess) (\<lambda>actor.
     tx (ensure (\<not> sameUserID (ss_user actor) i) writeCannotTargetSelf) (\<lambda>_.
     tx (decodeReason body) (\<lambda>reason.
     tx (requireExistingUser (ev_collate env) i) (\<lambda>_.
     asvc (LockUser (ev_revoke env) (Some actor) i reason now)))))"

definition handleUnlockUser :: "admin_env \<Rightarrow> AuthSession option \<Rightarrow> string \<Rightarrow> string \<Rightarrow> instant \<Rightarrow> unit admin_handler" where
  "handleUnlockUser env sess i body now =
     tx (requireActor sess) (\<lambda>actor.
     tx (decodeReason body) (\<lambda>reason.
     tx (requireExistingUser (ev_collate env) i) (\<lambda>_.
     asvc (UnlockUser (Some actor) i reason now))))"

definition handleDeleteUser :: "admin_env \<Rightarrow> AuthSession option \<Rightarrow> string \<Rightarrow> string \<Rightarrow> instant \<Rightarrow> unit admin_handler" where
  "handleDeleteUser env sess i body now =
     tx (requireActor sess) (\<lambda>actor.
     tx (ensure (\<not> sameUserID (ss_user actor) i) writeCannotTargetSelf) (\<lambda>_.
     tx (decodeReason body) (\<lambda>reason.
     tx (requireExistingUser (ev_collate env) i) (\<lambda>_.
     asvc (AdminDeleteUser (ev_revoke env) (Some actor) i reason now)))))"

definition handleAuditList :: "admin_env \<Rightarrow> AuditFilter \<Rightarrow> (AuditEntry list \<times> string \<times> nat) admin_handler" where
  "handleAuditList env f =
     tx (\<lambda>d. asvc (of_result (List (ev_parse_time env) (ev_collate env) f d)) d) (\<lambda>(entries, next).
     tx (reads (CountAuditLog f)) (\<lambda>total. ret (entries, next, total)))"

record FailedJobView =
  fj_id :: string
  fj_kind :: string
  fj_attempts :: nat
  fj_last_error :: "string option"
  fj_run_at :: string
  fj_expired :: bool

definition failedJobsLimit :: nat where "failedJobsLimit = 200"

definition failed_job_view :: "job \<Rightarrow> FailedJobView" where
  "failed_job_view j = \<lparr> fj_id = job_id j, fj_kind = job_kind j, fj_attempts = job_attempts j,
     fj_last_error = job_last_error j, fj_run_at = formatISO (job_run_at j),
     fj_expired = PayloadExpired (job_kind j) (job_payload j \<noteq> None) \<rparr>"

definition handleFailedJobs :: "FailedJobView list admin_handler" where
  "handleFailedJobs = reads (\<lambda>d. map failed_job_view (Dead failedJobsLimit (a_jobs d)))"

definition handleRetryJob :: "AuthSession option \<Rightarrow> string \<Rightarrow> instant \<Rightarrow> unit admin_handler" where
  "handleRetryJob sess i now =
     tx (requireActor sess) (\<lambda>actor.
     tx (lookup_or (AdminEnvelope 404 ''not_found'' []) (\<lambda>d. tget job_id i (a_jobs d))) (\<lambda>j.
     tx (ensure (\<not> job_attempts j < job_max_attempts j) (AdminEnvelope 409 ''conflict'' [])) (\<lambda>_.
     tx (ensure (\<not> PayloadExpired (job_kind j) (job_payload j \<noteq> None)) (AdminEnvelope 409 ''payload_expired'' [])) (\<lambda>_.
     tx (writes (\<lambda>d. d\<lparr> a_jobs := Retry now i (a_jobs d) \<rparr>)) (\<lambda>_.
     asvc (Record (Some actor) ActionJobRetry ''job'' i [] now))))))"

definition handleContentLookup :: "admin_env \<Rightarrow> string \<Rightarrow> ContentItem admin_handler" where
  "handleContentLookup env q = lookup_or (AdminEnvelope 404 ''not_found'' []) (LookupContent (ev_url_path env) q)"

definition handleSetContentSuspended ::
  "bool \<Rightarrow> AuthSession option \<Rightarrow> string \<Rightarrow> string \<Rightarrow> string \<Rightarrow> instant \<Rightarrow> unit admin_handler" where
  "handleSetContentSuspended suspend sess kind i body now =
     tx (requireActor sess) (\<lambda>actor.
     tx (decodeReason body) (\<lambda>reason.
     asvc (SetContentSuspended (Some actor) kind i suspend reason now)))"

section \<open>Routes\<close>

datatype admin_request =
    GetStats
  | GetUsers UserFilter
  | GetUser string
  | PostLock string string
  | PostUnlock string string
  | DeleteUserRoute string string
  | GetAudit AuditFilter
  | GetFailedJobs
  | PostRetry string
  | GetContent string
  | PostSuspend bool string string string

datatype admin_response =
    DoneReply
  | StatsReply DashboardStats
  | UsersReply "AdminUserRow list" string nat
  | UserReply AdminUserDetail
  | AuditReply "AuditEntry list" string nat
  | JobsReply "FailedJobView list"
  | ContentReply ContentItem

definition replying :: "('a \<Rightarrow> admin_response) \<Rightarrow> 'a admin_handler \<Rightarrow> admin_response admin_handler" where
  "replying f h = tx h (\<lambda>x. ret (f x))"

fun admin_route :: "admin_env \<Rightarrow> AuthSession option \<Rightarrow> admin_request \<Rightarrow> instant \<Rightarrow> admin_response admin_handler" where
  "admin_route env sess GetStats now = replying StatsReply (reads (Stats (ev_stats env) now))"
| "admin_route env sess (GetUsers f) now = replying (\<lambda>(us, next, n). UsersReply us next n) (handleSearchUsers env f)"
| "admin_route env sess (GetUser i) now = replying UserReply (handleUserDetail env i)"
| "admin_route env sess (PostLock i body) now = replying (\<lambda>_. DoneReply) (handleLockUser env sess i body now)"
| "admin_route env sess (PostUnlock i body) now = replying (\<lambda>_. DoneReply) (handleUnlockUser env sess i body now)"
| "admin_route env sess (DeleteUserRoute i body) now = replying (\<lambda>_. DoneReply) (handleDeleteUser env sess i body now)"
| "admin_route env sess (GetAudit f) now = replying (\<lambda>(es, next, n). AuditReply es next n) (handleAuditList env f)"
| "admin_route env sess GetFailedJobs now = replying JobsReply handleFailedJobs"
| "admin_route env sess (PostRetry i) now = replying (\<lambda>_. DoneReply) (handleRetryJob sess i now)"
| "admin_route env sess (GetContent q) now = replying ContentReply (handleContentLookup env q)"
| "admin_route env sess (PostSuspend suspend kind i body) now =
     replying (\<lambda>_. DoneReply) (handleSetContentSuspended suspend sess kind i body now)"

text \<open>Every route stands behind the staff gate.\<close>

definition admin_handle :: "admin_env \<Rightarrow> AuthSession option \<Rightarrow> admin_request \<Rightarrow> instant \<Rightarrow> admin_response admin_handler" where
  "admin_handle env sess q now =
     (case RequireStaff sess of
        Refused status code \<Rightarrow> raise (AdminEnvelope status code [])
      | Through _ \<Rightarrow> admin_route env sess q now)"

end
