(* ===== verification/PollHandlers.thy ===== *)
theory PollHandlers
  imports Digest
begin

text \<open>
  The HTTP surface of the polls: \<^verbatim>\<open>internal/polls/handlers.go\<close> with the session and captcha gates of
  \<^verbatim>\<open>internal/httpserver/domainauth.go\<close>. A handler is a transaction whose error is a domain error or an
  envelope of its own; \<open>serve\<close> turns both into the reply. The decoded request body is the argument, so
  malformed JSON (400, 413) is outside; a \<^verbatim>\<open>json.RawMessage\<close> field is the JSON value it holds, if any.
\<close>

subsection \<open>Sessions, replies\<close>

record Session =
  se_user :: string
  se_org :: string
  se_verified :: bool

datatype http_error = Domain poll_error | Envelope nat string

type_synonym 'a handler = "(db, http_error, 'a) tx"

datatype 'a reply = Reply nat 'a | Refusal nat string "(string \<times> string) list"

definition svc :: "'a poll_tx \<Rightarrow> 'a handler" where
  "svc m d = (case m d of Inl e \<Rightarrow> Inl (Domain e) | Inr r \<Rightarrow> Inr r)"

fun mapServiceError :: "poll_error \<Rightarrow> (nat \<times> string \<times> (string \<times> string) list) option" where
  "mapServiceError (ErrValidation fs) = Some (422, ''invalid'', fs)"
| "mapServiceError ErrCapacityFull = Some (409, ''capacity_full'', [])"
| "mapServiceError ErrPollClosed = Some (409, ''poll_closed'', [])"
| "mapServiceError ErrPollFinalized = Some (409, ''poll_finalized'', [])"
| "mapServiceError ErrLimitReached = Some (409, ''limit_reached'', [])"
| "mapServiceError ErrClaimLimitReached = Some (409, ''claim_limit_reached'', [])"
| "mapServiceError ErrCapacityBelowClaims = Some (409, ''capacity_below_claims'', [])"
| "mapServiceError ErrEmailRequired = Some (409, ''email_required'', [])"
| "mapServiceError ErrConflict = Some (409, ''conflict'', [])"
| "mapServiceError ErrNotSignup = Some (400, ''not_signup'', [])"
| "mapServiceError ErrNotFound = Some (404, ''not_found'', [])"
| "mapServiceError ErrForbidden = Some (403, ''forbidden'', [])"
| "mapServiceError (ErrDb _) = None"

fun refuse :: "http_error \<Rightarrow> 'a reply" where
  "refuse (Domain e) = (case mapServiceError e of
      Some (status, code, fs) \<Rightarrow> Refusal status code fs
    | None \<Rightarrow> Refusal 500 ''internal'' [])"
| "refuse (Envelope status code) = Refusal status code []"

definition serve :: "nat \<Rightarrow> 'a handler \<Rightarrow> db \<Rightarrow> 'a reply \<times> db" where
  "serve status h d = (case h d of Inl e \<Rightarrow> (refuse e, d) | Inr (x, d') \<Rightarrow> (Reply status x, d'))"

definition WithOrgSession :: "Session option \<Rightarrow> (Session \<Rightarrow> 'a handler) \<Rightarrow> 'a handler" where
  "WithOrgSession sess next =
     (case sess of
        None \<Rightarrow> raise (Envelope 401 ''unauthenticated'')
      | Some s \<Rightarrow> if \<not> se_verified s then raise (Envelope 403 ''email_unverified'')
                  else if se_org s = [] then raise (Envelope 403 ''no_active_org'') else next s)"

definition viewerFromRequest :: "Session option \<Rightarrow> string \<Rightarrow> Viewer" where
  "viewerFromRequest sess guest =
     \<lparr> vw_user = (case sess of None \<Rightarrow> [] | Some s \<Rightarrow> if se_verified s then se_user s else []),
       vw_guest = guest \<rparr>"

text \<open>\<open>turnstile\<close> is the answer of the captcha service, absent when none is configured.\<close>

definition RequireCaptchaIfAnon :: "bool option \<Rightarrow> Session option \<Rightarrow> unit handler" where
  "RequireCaptchaIfAnon turnstile sess =
     (if (case sess of None \<Rightarrow> False | Some s \<Rightarrow> se_user s \<noteq> [] \<and> se_verified s) then ret ()
      else case turnstile of None \<Rightarrow> ret () | Some ok \<Rightarrow> ensure ok (Envelope 403 ''captcha_failed''))"

subsection \<open>Request bodies\<close>

record optionRequest =
  or_id :: string
  or_kind :: string
  or_date :: string
  or_start_at :: string
  or_end_at :: "string option"
  or_label :: string
  or_capacity :: "json option"

definition option_toInput :: "optionRequest \<Rightarrow> nat \<Rightarrow> poll_error + OptionInput" where
  "option_toInput r index =
     (let i = \<lparr> oi_id = or_id r, oi_kind = or_kind r, oi_date = or_date r, oi_start_at = or_start_at r,
                oi_end_at = or_end_at r, oi_label = or_label r, oi_capacity_set = False, oi_capacity = None \<rparr>
      in case or_capacity r of
           None \<Rightarrow> Inr i
         | Some JNull \<Rightarrow> Inr (i\<lparr> oi_capacity_set := True \<rparr>)
         | Some (JNum n) \<Rightarrow>
             if in_int64 n then Inr (i\<lparr> oi_capacity_set := True, oi_capacity := Some n \<rparr>)
             else Inl (newValidationError (option_prefix index @ ''.capacity'') ''capacity must be a number'')
         | Some _ \<Rightarrow> Inl (newValidationError (option_prefix index @ ''.capacity'') ''capacity must be a number''))"

fun toOptionInputs :: "nat \<Rightarrow> optionRequest list \<Rightarrow> poll_error + OptionInput list" where
  "toOptionInputs i [] = Inr []"
| "toOptionInputs i (r # rs) =
     (case option_toInput r i of
        Inl e \<Rightarrow> Inl e
      | Inr x \<Rightarrow> (case toOptionInputs (Suc i) rs of Inl e \<Rightarrow> Inl e | Inr xs \<Rightarrow> Inr (x # xs)))"

record createPollRequest =
  cq_type :: string
  cq_title :: string
  cq_description :: "string option"
  cq_location :: "string option"
  cq_timezone :: string
  cq_deadline_at :: "string option"
  cq_options :: "optionRequest list"
  cq_signup_max_claims :: "int option"
  cq_require_email :: "bool option"
  cq_allow_comments :: "bool option"
  cq_allow_ifneedbe :: "bool option"

definition create_toInput :: "createPollRequest \<Rightarrow> poll_error + CreatePollInput" where
  "create_toInput req =
     (case toOptionInputs 0 (cq_options req) of
        Inl e \<Rightarrow> Inl e
      | Inr options \<Rightarrow> Inr
          \<lparr> ci_type = cq_type req, ci_title = cq_title req, ci_description = cq_description req,
            ci_location = cq_location req, ci_timezone = cq_timezone req,
            ci_deadline_at = cq_deadline_at req, ci_options = options,
            ci_signup_max_claims = cq_signup_max_claims req, ci_require_email = cq_require_email req,
            ci_allow_comments = cq_allow_comments req, ci_allow_ifneedbe = cq_allow_ifneedbe req \<rparr>)"

record updatePollRequest =
  uq_title :: "string option"
  uq_description :: "string option"
  uq_location :: "string option"
  uq_timezone :: "string option"
  uq_deadline_at :: "json option"
  uq_options :: "optionRequest list option"
  uq_signup_max_claims :: "int option"
  uq_require_email :: "bool option"
  uq_allow_comments :: "bool option"
  uq_allow_ifneedbe :: "bool option"

definition update_toInput :: "updatePollRequest \<Rightarrow> poll_error + UpdatePollInput" where
  "update_toInput req =
     (case (case uq_options req of None \<Rightarrow> Inr None | Some rs \<Rightarrow> map_sum id Some (toOptionInputs 0 rs)) of
        Inl e \<Rightarrow> Inl e
      | Inr options \<Rightarrow>
          (let i = \<lparr> ui_title = uq_title req, ui_description = uq_description req,
                     ui_location = uq_location req, ui_timezone = uq_timezone req,
                     ui_deadline_set = (uq_deadline_at req \<noteq> None), ui_deadline_at = None,
                     ui_options = options, ui_signup_max_claims = uq_signup_max_claims req,
                     ui_require_email = uq_require_email req, ui_allow_comments = uq_allow_comments req,
                     ui_allow_ifneedbe = uq_allow_ifneedbe req \<rparr>
           in case uq_deadline_at req of
                None \<Rightarrow> Inr i
              | Some JNull \<Rightarrow> Inr i
              | Some (JStr s) \<Rightarrow> Inr (i\<lparr> ui_deadline_at := Some s \<rparr>)
              | Some _ \<Rightarrow> Inl (newValidationError ''deadlineAt'' ''deadlineAt must be a string or null'')))"

record addParticipantRequest =
  aq_name :: string
  aq_email :: "string option"
  aq_answers :: "(string \<times> string) list"
  aq_locale :: "string option"

definition checked :: "fields \<Rightarrow> 'a \<Rightarrow> poll_error + 'a" where
  "checked fs x = (case validationErrorFrom fs of Inl e \<Rightarrow> Inl e | Inr _ \<Rightarrow> Inr x)"

definition addParticipant_validate ::
  "(string \<Rightarrow> string option) \<Rightarrow> addParticipantRequest \<Rightarrow> poll_error + addParticipantRequest" where
  "addParticipant_validate parse_address req =
     (let (name, fs) = validateNameField ''name'' (aq_name req) [];
          (email, fs) = validateEmailField parse_address ''email'' (aq_email req) fs
      in checked fs (req\<lparr> aq_name := name, aq_email := email \<rparr>))"

record updateParticipantRequest =
  upq_name :: "string option"
  upq_answers :: "(string \<times> string) list"

definition updateParticipant_validate ::
  "updateParticipantRequest \<Rightarrow> poll_error + updateParticipantRequest" where
  "updateParticipant_validate req =
     (case upq_name req of
        None \<Rightarrow> Inr req
      | Some n \<Rightarrow>
          (let (name, fs) = validateNameField ''name'' n [] in checked fs (req\<lparr> upq_name := Some name \<rparr>)))"

record addCommentRequest =
  acq_author :: string
  acq_body :: string

definition addComment_validate :: "addCommentRequest \<Rightarrow> bool \<Rightarrow> poll_error + addCommentRequest" where
  "addComment_validate req anonymous =
     (let author = TrimSpace (acq_author req);
          fs = (if anonymous then snd (validateNameField ''authorName'' (acq_author req) [])
                else field_if (LimitName < length (runes author)) ''authorName''
                       ''authorName must be at most 80 characters'' []);
          body = TrimSpace (acq_body req);
          fs = (if body = [] then set_field ''body'' ''body is required'' fs
                else field_if (LimitComment < length (runes body)) ''body''
                       ''body must be at most 2000 characters'' fs)
      in checked fs \<lparr> acq_author = author, acq_body = body \<rparr>)"

record claimRequest =
  clq_option :: string
  clq_participant :: string
  clq_name :: string
  clq_email :: "string option"
  clq_locale :: "string option"

definition claim_validate :: "(string \<Rightarrow> string option) \<Rightarrow> claimRequest \<Rightarrow> poll_error + claimRequest" where
  "claim_validate parse_address req =
     (let name = TrimSpace (clq_name req);
          fs = field_if (LimitName < length (runes name)) ''name'' ''name must be at most 80 characters'' [];
          (email, fs) = validateEmailField parse_address ''email'' (clq_email req) fs
      in checked fs (req\<lparr> clq_name := name, clq_email := email \<rparr>))"

text \<open>One entry of a notification grid: both booleans must be present; unknown events are dropped.\<close>

fun optional_bool :: "json option \<Rightarrow> bool option option" where
  "optional_bool None = Some None"
| "optional_bool (Some JNull) = Some None"
| "optional_bool (Some (JBool b)) = Some (Some b)"
| "optional_bool (Some _) = None"

fun raw_prefs :: "json \<Rightarrow> (bool option \<times> bool option) option" where
  "raw_prefs JNull = Some (None, None)"
| "raw_prefs (JObj fs) =
     Option.bind (optional_bool (map_of fs ''email'')) (\<lambda>e.
     Option.bind (optional_bool (map_of fs ''push'')) (\<lambda>p. Some (e, p)))"
| "raw_prefs _ = None"

fun grid_entries :: "(string \<times> bool option \<times> bool option) list \<Rightarrow> poll_error + NotificationGrid" where
  "grid_entries [] = Inr []"
| "grid_entries ((key, e, p) # rest) =
     (if map_of systemDefaults key = None then grid_entries rest
      else case (e, p) of
             (Some email, Some push) \<Rightarrow>
               (case grid_entries rest of Inl err \<Rightarrow> Inl err
                | Inr g \<Rightarrow> Inr ((key, \<lparr> ch_email = email, ch_push = push \<rparr>) # g))
           | _ \<Rightarrow> Inl (newValidationError (''channels.'' @ key) ''email and push must both be booleans''))"

definition channels_error :: poll_error where
  "channels_error = newValidationError ''channels'' ''channels must be an object of {email, push} booleans''"

fun toGrid :: "json option \<Rightarrow> poll_error + NotificationGrid option" where
  "toGrid None = Inr None"
| "toGrid (Some JNull) = Inr None"
| "toGrid (Some (JObj fs)) =
     (case those (map (\<lambda>(k, v). map_option (Pair k) (raw_prefs v)) fs) of
        None \<Rightarrow> Inl channels_error
      | Some raw \<Rightarrow> map_sum id Some (grid_entries raw))"
| "toGrid (Some _) = Inl channels_error"

subsection \<open>Polls\<close>

definition handleCreate ::
  "(string \<Rightarrow> string) \<Rightarrow> Session option \<Rightarrow> createPollRequest \<Rightarrow> instant \<Rightarrow> PollView handler" where
  "handleCreate lower sess req now = WithOrgSession sess (\<lambda>s.
     svc (tx (of_result (create_toInput req)) (\<lambda>i. Create lower (se_org s) (se_user s) i now)))"

definition handleGetView :: "Session option \<Rightarrow> string \<Rightarrow> string \<Rightarrow> PollView handler" where
  "handleGetView sess guest pollID =
     tx (svc (GetView pollID (viewerFromRequest sess guest))) (\<lambda>view.
     case view of
       Some v \<Rightarrow> ret v
     | None \<Rightarrow> tx (reads (PollSuspended pollID)) (\<lambda>suspended.
         raise (if suspended then Envelope 410 ''removed'' else Envelope 404 ''not_found'')))"

definition managed :: "string \<Rightarrow> (Session \<Rightarrow> 'a poll_tx) \<Rightarrow> Session option \<Rightarrow> 'a handler" where
  "managed pollID body sess = WithOrgSession sess (\<lambda>s.
     svc (tx (RequireManageable pollID (se_org s) (se_user s)) (\<lambda>_. body s)))"

definition handleUpdate ::
  "(string \<Rightarrow> string) \<Rightarrow> Session option \<Rightarrow> string \<Rightarrow> updatePollRequest \<Rightarrow> instant \<Rightarrow> PollView handler" where
  "handleUpdate lower sess pollID req now = managed pollID (\<lambda>s.
     tx (of_result (update_toInput req)) (\<lambda>i. Update lower pollID (se_org s) i now)) sess"

definition handleSetStatus :: "Session option \<Rightarrow> string \<Rightarrow> string \<Rightarrow> instant \<Rightarrow> PollView option handler" where
  "handleSetStatus sess pollID status now = managed pollID (\<lambda>s.
     tx (SetStatus pollID (se_org s) status now) (\<lambda>_.
     GetView pollID \<lparr> vw_user = se_user s, vw_guest = [] \<rparr>)) sess"

definition handleFinalize ::
  "(string \<Rightarrow> string) \<Rightarrow> (string \<Rightarrow> string) option \<Rightarrow> Session option \<Rightarrow> string \<Rightarrow> string \<Rightarrow> instant \<Rightarrow> nat handler"
where
  "handleFinalize lower source sess pollID optionID now = managed pollID (\<lambda>s.
     FinalizeWithCount lower source pollID (se_org s) optionID (se_user s) now) sess"

definition handleDelete :: "Session option \<Rightarrow> string \<Rightarrow> instant \<Rightarrow> unit handler" where
  "handleDelete sess pollID now = managed pollID (\<lambda>s. Delete pollID (se_org s) now) sess"

definition handleDuplicate :: "Session option \<Rightarrow> string \<Rightarrow> instant \<Rightarrow> PollView handler" where
  "handleDuplicate sess pollID now = managed pollID (\<lambda>s.
     Duplicate pollID (se_org s) (se_user s) now) sess"

definition handleListMine :: "Session option \<Rightarrow> PollSummary list handler" where
  "handleListMine sess = WithOrgSession sess (\<lambda>s. svc (ListMine (se_org s)))"

definition handleRosterCSV ::
  "(PollOption \<Rightarrow> string \<Rightarrow> string \<Rightarrow> string) \<Rightarrow> Session option \<Rightarrow> string \<Rightarrow> string \<Rightarrow> string handler" where
  "handleRosterCSV labelText sess pollID loc = managed pollID (\<lambda>_. BuildRosterCSV labelText pollID loc) sess"

definition handleUpdateNotificationPrefs ::
  "Session option \<Rightarrow> string \<Rightarrow> json option \<Rightarrow> instant \<Rightarrow> unit handler" where
  "handleUpdateNotificationPrefs sess pollID channels now = WithOrgSession sess (\<lambda>s.
     svc (tx (of_result (toGrid channels)) (\<lambda>grid.
       UpdateNotificationPrefs pollID (se_org s) (se_user s) grid now)))"

definition handleSetFollowing :: "Session option \<Rightarrow> string \<Rightarrow> bool \<Rightarrow> instant \<Rightarrow> unit handler" where
  "handleSetFollowing sess pollID following now = WithOrgSession sess (\<lambda>s.
     svc (SetFollowing pollID (se_org s) (se_user s) following now))"

subsection \<open>Participants, comments and claims\<close>

definition digest_item :: "string \<Rightarrow> string \<Rightarrow> string \<Rightarrow> DigestItem" where
  "digest_item event name actor = \<lparr> di_event = event, di_name = name, di_actor = actor \<rparr>"

definition queue_digest :: "string \<Rightarrow> DigestItem \<Rightarrow> instant \<Rightarrow> unit handler" where
  "queue_digest pollID item now = writes (enqueueDigestBestEffort pollID item now)"

definition handleAddParticipant ::
  "(string \<Rightarrow> string option) \<Rightarrow> bool option \<Rightarrow> Session option \<Rightarrow> string \<Rightarrow> string \<Rightarrow> addParticipantRequest \<Rightarrow>
   instant \<Rightarrow> ParticipantResult handler" where
  "handleAddParticipant parse_address turnstile sess guest pollID req now =
     tx (svc (requireNotSignupPollHTTP pollID)) (\<lambda>_.
     tx (RequireCaptchaIfAnon turnstile sess) (\<lambda>_.
     tx (svc (of_result (addParticipant_validate parse_address req))) (\<lambda>req.
     let viewer = viewerFromRequest sess guest in
     tx (svc (AddParticipant pollID
           \<lparr> pi_name_set = False, pi_name = aq_name req, pi_email = aq_email req,
             pi_answers = aq_answers req, pi_locale = aq_locale req \<rparr> viewer now)) (\<lambda>result.
     tx (queue_digest pollID (digest_item ''response.created'' (aq_name req) (vw_user viewer)) now) (\<lambda>_.
     ret result)))))"

definition handleUpdateParticipant ::
  "Session option \<Rightarrow> string \<Rightarrow> string \<Rightarrow> string \<Rightarrow> updateParticipantRequest \<Rightarrow> instant \<Rightarrow> unit handler" where
  "handleUpdateParticipant sess guest pollID participantID req now =
     tx (svc (requireNotSignupPollHTTP pollID)) (\<lambda>_.
     tx (svc (of_result (updateParticipant_validate req))) (\<lambda>req.
     let viewer = viewerFromRequest sess guest in
     tx (svc (UpdateParticipant pollID participantID
           \<lparr> pi_name_set = (upq_name req \<noteq> None), pi_name = or_default [] (upq_name req), pi_email = None,
             pi_answers = upq_answers req, pi_locale = None \<rparr> viewer now)) (\<lambda>_.
     tx (reads (bestEffortParticipantName participantID)) (\<lambda>name.
     queue_digest pollID (digest_item ''response.updated'' name (vw_user viewer)) now))))"

definition handleRemoveParticipant ::
  "Session option \<Rightarrow> string \<Rightarrow> string \<Rightarrow> string \<Rightarrow> instant \<Rightarrow> unit handler" where
  "handleRemoveParticipant sess guest pollID participantID now =
     (let viewer = viewerFromRequest sess guest in
      tx (reads (bestEffortParticipantName participantID)) (\<lambda>name.
      tx (svc (RemoveParticipant pollID participantID viewer)) (\<lambda>_.
      queue_digest pollID (digest_item ''response.withdrawn'' name (vw_user viewer)) now)))"

definition comment_author :: "string \<Rightarrow> Viewer \<Rightarrow> db \<Rightarrow> string" where
  "comment_author typed viewer d =
     (if vw_user viewer = [] then typed
      else case Option.bind (ParseInt (vw_user viewer)) (\<lambda>u. GetUser u d) of
             None \<Rightarrow> typed | Some u \<Rightarrow> displayName u)"

definition handleAddComment ::
  "bool option \<Rightarrow> Session option \<Rightarrow> string \<Rightarrow> string \<Rightarrow> addCommentRequest \<Rightarrow> instant \<Rightarrow> Comment handler" where
  "handleAddComment turnstile sess guest pollID req now =
     tx (RequireCaptchaIfAnon turnstile sess) (\<lambda>_.
     let viewer = viewerFromRequest sess guest in
     tx (svc (of_result (addComment_validate req (vw_user viewer = [])))) (\<lambda>req.
     tx (reads (comment_author (acq_author req) viewer)) (\<lambda>authorName.
     tx (svc (AddComment pollID \<lparr> cin_author = authorName, cin_body = acq_body req \<rparr> viewer now)) (\<lambda>comment.
     tx (queue_digest pollID (digest_item ''comment.created'' authorName (vw_user viewer)) now) (\<lambda>_.
     ret comment)))))"

definition handleDeleteComment ::
  "Session option \<Rightarrow> string \<Rightarrow> string \<Rightarrow> string \<Rightarrow> instant \<Rightarrow> unit handler" where
  "handleDeleteComment sess guest pollID commentID now =
     svc (DeleteComment pollID commentID (viewerFromRequest sess guest) now)"

text \<open>\<open>query_option\<close> is the \<^verbatim>\<open>optionId\<close> query parameter, used when the body names no option.\<close>

definition handleClaim ::
  "(string \<Rightarrow> string option) \<Rightarrow> bool option \<Rightarrow> Session option \<Rightarrow> string \<Rightarrow> string \<Rightarrow> string \<Rightarrow> claimRequest \<Rightarrow>
   instant \<Rightarrow> ClaimResult handler" where
  "handleClaim parse_address turnstile sess guest pollID query_option req now =
     tx (svc (of_result (claim_validate parse_address req))) (\<lambda>req.
     tx (if clq_participant req = [] then RequireCaptchaIfAnon turnstile sess else ret ()) (\<lambda>_.
     let optionID = (if clq_option req = [] then query_option else clq_option req);
         viewer = viewerFromRequest sess guest in
     tx (svc (Claim pollID optionID
           \<lparr> cli_participant = clq_participant req, cli_name = clq_name req,
             cli_email = clq_email req, cli_locale = clq_locale req \<rparr> viewer now)) (\<lambda>result.
     tx (if \<not> cr_changed result then ret () else
           tx (reads (bestEffortParticipantName (cr_participant result))) (\<lambda>name.
           tx (queue_digest pollID (digest_item ''response.created'' name (vw_user viewer)) now) (\<lambda>_.
           tx (reads (SignupFull pollID)) (\<lambda>full.
           if full then queue_digest pollID (digest_item ''signup.full'' [] []) now else ret ())))) (\<lambda>_.
     ret result))))"

definition handleUnclaim ::
  "Session option \<Rightarrow> string \<Rightarrow> string \<Rightarrow> string \<Rightarrow> string \<Rightarrow> instant \<Rightarrow> unit handler" where
  "handleUnclaim sess guest pollID optionID requested now =
     (let viewer = viewerFromRequest sess guest in
      tx (reads (selfParticipantID pollID viewer)) (\<lambda>self.
      let target = (if requested \<noteq> [] \<and> requested = self then [] else requested) in
      tx (reads (resolveUnclaimActorName pollID target viewer)) (\<lambda>name.
      tx (svc (if target \<noteq> [] then UnclaimFor pollID optionID target viewer now
               else Unclaim pollID optionID viewer now)) (\<lambda>_.
      queue_digest pollID (digest_item ''response.withdrawn'' name (vw_user viewer)) now))))"

text \<open>The force-unclaim target: the query parameter, else the body's field when there is a body.\<close>

definition unclaimTargetParticipantID :: "string \<Rightarrow> json option \<Rightarrow> string" where
  "unclaimTargetParticipantID query body =
     (if query \<noteq> [] then query
      else case body of
             Some (JObj fs) \<Rightarrow> (case field_str fs ''participantId'' of Some s \<Rightarrow> s | None \<Rightarrow> [])
           | _ \<Rightarrow> [])"

subsection \<open>Public configuration\<close>

record public_config =
  pc_site_key :: "string option"
  pc_google :: bool
  pc_oidc :: bool
  pc_oidc_name :: string

record capabilities =
  cap_google :: bool
  cap_oidc :: bool
  cap_turnstile :: bool
  cap_site_key :: string
  cap_oidc_name :: string

definition handleConfig :: "capabilities \<Rightarrow> public_config" where
  "handleConfig c =
     \<lparr> pc_site_key = (if cap_turnstile c then Some (cap_site_key c) else None),
       pc_google = cap_google c, pc_oidc = cap_oidc c,
       pc_oidc_name = (if cap_oidc c then cap_oidc_name c else []) \<rparr>"

subsection \<open>Lemmas\<close>

lemma svc_Inr [result_simps]: "svc m d = Inr r \<longleftrightarrow> m d = Inr r"
  by (auto simp: svc_def split: sum.splits)

lemma svc_Inl [result_simps]: "svc m d = Inl e \<longleftrightarrow> (\<exists>e'. e = Domain e' \<and> m d = Inl e')"
  by (auto simp: svc_def split: sum.splits)

lemma tx_svc [exec_simps]:
  "tx (svc m) k d = (case m d of Inl e \<Rightarrow> Inl (Domain e) | Inr (x, d') \<Rightarrow> k x d')"
  by (simp add: tx_def svc_def split: sum.split)

lemma keeps_svc [keeps_intros]: "keeps P m \<Longrightarrow> keeps P (svc m)"
  by (auto simp: keeps_def svc_Inr)

lemma keeps_WithOrgSession [keeps_intros]: "(\<And>s. keeps P (next s)) \<Longrightarrow> keeps P (WithOrgSession sess next)"
  unfolding WithOrgSession_def by (intro keeps_intros)

lemma keeps_managed [keeps_intros]:
  "(\<And>p o' u. keeps P (RequireManageable p o' u)) \<Longrightarrow> (\<And>s. keeps P (body s)) \<Longrightarrow> keeps P (managed pollID body sess)"
  unfolding managed_def by (intro keeps_intros)

lemma keeps_captcha [keeps_intros]: "keeps P (RequireCaptchaIfAnon turnstile sess)"
  unfolding RequireCaptchaIfAnon_def by (intro keeps_intros)

end
