(* ===== verification/AccountRoutes.thy ===== *)
theory AccountRoutes
  imports AdminRoutes PollHandlers
begin

text \<open>
  The signed-in user's own routes (\<^verbatim>\<open>internal/httpserver/account.go\<close>) behind the session middleware: the profile, deleting
  the account, the organizations. The decoded body is an argument (for \<open>DeleteMe\<close> the empty password when no body was
  sent). The data export stands in its own theory.
\<close>

fun mapAccountError :: "account_error \<Rightarrow> (nat \<times> string \<times> (string \<times> string) list) option" where
  "mapAccountError (ProfileValidationError f message) = Some (422, ''invalid'', [(f, message)])"
| "mapAccountError ErrNoSuchUser = Some (404, ''not_found'', [])"
| "mapAccountError ErrPasswordRequired = Some (400, ''password_required'', [])"
| "mapAccountError ErrPasswordMismatch = Some (403, ''invalid_password'', [])"
| "mapAccountError ErrAccountForbidden = Some (403, ''forbidden'', [])"
| "mapAccountError ErrAccountUnauthenticated = Some (401, ''unauthenticated'', [])"
| "mapAccountError _ = None"

definition account_refusal :: "account_error \<Rightarrow> 'a reply" where
  "account_refusal e = (case mapAccountError e of
      Some (status, code, fs) \<Rightarrow> Refusal status code fs
    | None \<Rightarrow> Refusal 500 ''internal'' [])"

text \<open>A handler's reply with the tables after it; a failed transaction leaves them as they were.\<close>

definition answer :: "nat \<Rightarrow> 'a account_tx \<Rightarrow> adb \<Rightarrow> 'a reply \<times> adb" where
  "answer status m d = (case m d of Inl e \<Rightarrow> (account_refusal e, d) | Inr (x, d') \<Rightarrow> (Reply status x, d'))"

record me_env =
  me_limen :: limen
  me_lower :: "string \<Rightarrow> string"
  me_compare :: "string \<Rightarrow> string \<Rightarrow> string + bool"
  me_collate :: "string \<Rightarrow> nat"
  me_cookie :: "string option"
  me_db_ok :: bool

definition handleUpdateMe :: "AuthSession \<Rightarrow> string option \<Rightarrow> string option \<Rightarrow> adb \<Rightarrow> unit reply \<times> adb" where
  "handleUpdateMe sess name locale d =
     (if name = None \<and> locale = None then (Refusal 400 ''invalid'' [], d)
      else answer 204 (SetProfile (ss_user sess) name locale) d)"

definition handleDeleteMe :: "me_env \<Rightarrow> AuthSession \<Rightarrow> string \<Rightarrow> adb \<Rightarrow> unit reply \<times> adb" where
  "handleDeleteMe env sess password d =
     answer 204 (tx (CheckOwnPassword (me_compare env) (ss_user sess) password) (\<lambda>_.
       DeleteOwnAccount (li_revoke (me_limen env)) (ss_user sess))) d"

definition handleListMyOrganizations :: "me_env \<Rightarrow> AuthSession \<Rightarrow> adb \<Rightarrow> OrgSummary list reply \<times> adb" where
  "handleListMyOrganizations env sess d = answer 200 (ListUserOrganizations (me_collate env) (ss_user sess) (ss_org sess)) d"

definition handleSwitchOrganization :: "me_env \<Rightarrow> string \<Rightarrow> adb \<Rightarrow> unit reply \<times> adb" where
  "handleSwitchOrganization env orgID d =
     (case SwitchOrganization (me_limen env) (me_cookie env) orgID d of
        Inl e \<Rightarrow> (account_refusal e, d)
      | Inr (_, d') \<Rightarrow> (Reply 204 (), d'))"

datatype me_request =
    PatchMe "string option" "string option"
  | DeleteMe string
  | ListMyOrganizations
  | PostActiveOrganization string

datatype me_response = NoContent | MyOrganizations "OrgSummary list"

fun map_reply :: "('a \<Rightarrow> 'b) \<Rightarrow> 'a reply \<times> adb \<Rightarrow> 'b reply \<times> adb" where
  "map_reply f (Reply n x, d) = (Reply n (f x), d)"
| "map_reply f (Refusal n c fs, d) = (Refusal n c fs, d)"

definition gated :: "gate_answer \<Rightarrow> (AuthSession \<Rightarrow> adb \<Rightarrow> 'a reply \<times> adb) \<Rightarrow> adb \<Rightarrow> 'a reply \<times> adb" where
  "gated gate k d = (case gate of Refused n c \<Rightarrow> (Refusal n c [], d) | Through s \<Rightarrow> k s d)"

text \<open>Changing and deleting one's account is open to unverified sessions, the rest is not.\<close>

fun account_route :: "me_env \<Rightarrow> AuthSession option \<Rightarrow> me_request \<Rightarrow> adb \<Rightarrow> me_response reply \<times> adb" where
  "account_route env sess (PatchMe name locale) d =
     map_reply (\<lambda>_. NoContent) (gated (RequireSessionAllowUnverified sess) (\<lambda>s. handleUpdateMe s name locale) d)"
| "account_route env sess (DeleteMe password) d =
     map_reply (\<lambda>_. NoContent) (gated (RequireSessionAllowUnverified sess) (\<lambda>s. handleDeleteMe env s password) d)"
| "account_route env sess ListMyOrganizations d =
     map_reply MyOrganizations (gated (RequireSession sess) (handleListMyOrganizations env) d)"
| "account_route env sess (PostActiveOrganization orgID) d =
     map_reply (\<lambda>_. NoContent) (gated (RequireSession sess) (\<lambda>_. handleSwitchOrganization env orgID) d)"

text \<open>The middleware resolves the session of the request first.\<close>

definition Middleware ::
  "me_env \<Rightarrow> (AuthSession option \<Rightarrow> adb \<Rightarrow> 'a reply \<times> adb) \<Rightarrow> adb \<Rightarrow> 'a reply \<times> adb" where
  "Middleware env next d =
     (case resolveSession (me_limen env) (me_lower env) (me_db_ok env) (me_cookie env) d of
        (sess, cookies, d') \<Rightarrow> next sess d')"

definition me_handle :: "me_env \<Rightarrow> me_request \<Rightarrow> adb \<Rightarrow> me_response reply \<times> adb" where
  "me_handle env q = Middleware env (\<lambda>sess. account_route env sess q)"

end
