(* ===== verification/DataExport.thy ===== *)
theory DataExport
  imports AccountRoutes RateLimit
begin

text \<open>
  The self-service copy of a user's data (\<^verbatim>\<open>internal/dataexport/dataexport.go\<close>, \<^verbatim>\<open>handleExportMe\<close>): one
  snapshot of all tables, read section by section. Lower-casing in the server (\<open>lower\<close>) and in the database
  (\<open>sql_lower\<close>) are parameters. Reading the snapshot does not change it.
\<close>

section \<open>The snapshot\<close>

record invitation_row =
  iv_org :: int
  iv_email :: string
  iv_roles :: "string option"
  iv_status :: string
  iv_created_at :: instant
  iv_expires_at :: "instant option"

record session_row =
  sn_user :: int
  sn_created_at :: instant
  sn_last_access :: instant
  sn_expires_at :: instant

record link_row =
  lk_user :: int
  lk_provider :: string
  lk_created_at :: instant

record snapshot =
  x_accounts :: adb
  x_polls :: db
  x_books :: bdb
  x_suppressed :: "suppression list"
  x_invitations :: "invitation_row list"
  x_sessions :: "session_row list"
  x_links :: "link_row list"

section \<open>The document\<close>

record Account =
  ea_id :: string
  ea_email :: string
  ea_first_name :: "string option"
  ea_last_name :: "string option"
  ea_locale :: "string option"
  ea_verified_at :: "instant option"
  ea_created_at :: instant

type_synonym SignInMethod = "string \<times> instant"

record ExportedOrganization =
  eo_name :: string
  eo_slug :: string
  eo_roles :: "string list"
  eo_joined_at :: instant

record Invitation =
  ei_organization :: string
  ei_roles :: "string option"
  ei_status :: string
  ei_created_at :: instant
  ei_expires_at :: "instant option"

record Subscription =
  eu_scope_type :: string
  eu_scope_id :: string
  eu_source :: string
  eu_channels :: "NotificationGrid option"
  eu_created_at :: instant

record Notifications =
  en_preferences :: "NotificationGrid option"
  en_subscriptions :: "Subscription list"
  en_unsubscribed_at :: "instant option"

record CreatedOption =
  co_label :: "string option"
  co_start_at :: "instant option"
  co_end_at :: "instant option"
  co_capacity :: "int option"
  co_yes :: nat
  co_ifneedbe :: nat
  co_no :: nat

record CreatedPoll =
  cp_id :: string
  cp_type :: string
  cp_title :: string
  cp_description :: "string option"
  cp_location :: "string option"
  cp_timezone :: string
  cp_status :: string
  cp_deadline_at :: "instant option"
  cp_require_email :: bool
  cp_allow_comments :: bool
  cp_allow_ifneedbe :: bool
  cp_signup_max_claims :: int
  cp_created_at :: instant
  cp_updated_at :: instant
  cp_deleted_at :: "instant option"
  cp_suspended_at :: "instant option"
  cp_participants :: nat
  cp_comments :: nat
  cp_options :: "CreatedOption list"

record CreatedPage =
  cg_id :: string
  cg_slug :: string
  cg_title :: string
  cg_description :: "string option"
  cg_location :: "string option"
  cg_timezone :: string
  cg_slot_duration :: int
  cg_buffer_before :: int
  cg_buffer_after :: int
  cg_min_notice :: int
  cg_max_days_ahead :: int
  cg_availability :: ranges_map
  cg_date_overrides :: "ranges_map option"
  cg_reminders :: bool
  cg_status :: string
  cg_created_at :: instant
  cg_updated_at :: instant
  cg_deleted_at :: "instant option"
  cg_suspended_at :: "instant option"
  cg_bookings :: nat
  cg_cancelled :: nat

record Answer =
  an_label :: "string option"
  an_start_at :: "instant option"
  an_end_at :: "instant option"
  an_answer :: string

record PollResponse =
  pr_poll :: string
  pr_title :: string
  pr_name :: string
  pr_email :: "string option"
  pr_created_at :: instant
  pr_updated_at :: instant
  pr_answers :: "Answer list"

record ExportedComment =
  ec_poll :: string
  ec_title :: string
  ec_author :: string
  ec_body :: string
  ec_created_at :: instant
  ec_deleted_at :: "instant option"

record VisitorBooking =
  eb_title :: string
  eb_start_at :: instant
  eb_end_at :: instant
  eb_name :: string
  eb_email :: string
  eb_note :: "string option"
  eb_locale :: "string option"
  eb_timezone :: string
  eb_status :: string
  eb_cancelled_by :: "string option"
  eb_created_at :: instant

record StaffAction =
  st_action :: string
  st_reason :: "string option"
  st_created_at :: instant

record Export =
  ex_exported_at :: instant
  ex_account :: Account
  ex_sign_in :: "SignInMethod list"
  ex_sessions :: "(instant \<times> instant \<times> instant) list"
  ex_organizations :: "ExportedOrganization list"
  ex_invitations :: "Invitation list"
  ex_notifications :: Notifications
  ex_polls :: "CreatedPoll list"
  ex_pages :: "CreatedPage list"
  ex_responses :: "PollResponse list"
  ex_comments :: "ExportedComment list"
  ex_bookings :: "VisitorBooking list"
  ex_staff_actions :: "StaffAction list"

section \<open>Sections\<close>

definition readAccount :: "int \<Rightarrow> snapshot \<Rightarrow> Account option" where
  "readAccount uid x = map_option (\<lambda>u. \<lparr> ea_id = FormatInt (au_id u), ea_email = au_email u, ea_first_name = au_first_name u,
     ea_last_name = au_last_name u, ea_locale = map_of (a_locales (x_accounts x)) uid, ea_verified_at = au_verified_at u,
     ea_created_at = au_created_at u \<rparr>) (tget au_id uid (a_users (x_accounts x)))"

definition readSignInMethods :: "int \<Rightarrow> snapshot \<Rightarrow> SignInMethod list" where
  "readSignInMethods uid x = sort_key snd
     (map (\<lambda>u. (''password'', au_created_at u)) (filter (\<lambda>u. au_id u = uid \<and> au_password u \<noteq> None) (a_users (x_accounts x))) @
      map (\<lambda>l. (lk_provider l, lk_created_at l)) (filter (\<lambda>l. lk_user l = uid) (x_links x)))"

definition readSessions :: "int \<Rightarrow> snapshot \<Rightarrow> (instant \<times> instant \<times> instant) list" where
  "readSessions uid x = map (\<lambda>s. (sn_created_at s, sn_last_access s, sn_expires_at s))
     (sort_key sn_created_at (filter (\<lambda>s. sn_user s = uid) (x_sessions x)))"

text \<open>The roles of a membership come from the database in its order, as one text joined with commas.\<close>

fun split_commas :: "string \<Rightarrow> string list" where
  "split_commas [] = [[]]"
| "split_commas (c # s) = (if c = CHR '','' then [] # split_commas s
     else (case split_commas s of [] \<Rightarrow> [[c]] | w # ws \<Rightarrow> (c # w) # ws))"

definition readOrganizations :: "(string \<Rightarrow> nat) \<Rightarrow> int \<Rightarrow> snapshot \<Rightarrow> ExportedOrganization list" where
  "readOrganizations collate uid x = (let d = x_accounts x in
     List.map_filter (\<lambda>m. map_option (\<lambda>g. \<lparr> eo_name = ao_name g, eo_slug = ao_slug g,
         eo_roles = (let roles = Join '','' (sort_key collate (map ar_role (filter (\<lambda>r. ar_member r = am_id m) (a_roles d))))
            in if roles = [] then [] else split_commas roles),
         eo_joined_at = am_created_at m \<rparr>) (tget ao_id (am_org m) (a_orgs d)))
       (sort_key am_created_at (filter (\<lambda>m. am_user m = uid) (a_members d))))"

definition sql_trim :: "string \<Rightarrow> string" where
  "sql_trim s = rev (dropWhile (\<lambda>c. c = CHR '' '') (rev (dropWhile (\<lambda>c. c = CHR '' '') s)))"

definition readInvitations :: "(string \<Rightarrow> string) \<Rightarrow> string \<Rightarrow> snapshot \<Rightarrow> Invitation list" where
  "readInvitations sql_lower email x =
     List.map_filter (\<lambda>i. map_option (\<lambda>g. \<lparr> ei_organization = ao_name g, ei_roles = iv_roles i, ei_status = iv_status i,
         ei_created_at = iv_created_at i, ei_expires_at = iv_expires_at i \<rparr>) (tget ao_id (iv_org i) (a_orgs (x_accounts x))))
       (sort_key iv_created_at (filter (\<lambda>i. sql_lower (sql_trim (iv_email i)) = email) (x_invitations x)))"

definition readNotifications :: "int \<Rightarrow> string \<Rightarrow> snapshot \<Rightarrow> Notifications" where
  "readNotifications uid email x = \<lparr>
     en_preferences = Option.bind (map_of (db_prefs (x_polls x)) uid) id,
     en_subscriptions = map (\<lambda>s. \<lparr> eu_scope_type = s_scope_type s, eu_scope_id = s_scope_id s, eu_source = s_source s,
         eu_channels = s_channels s, eu_created_at = s_created_at s \<rparr>) (sort_key s_created_at (filter (\<lambda>s. s_user s = uid) (db_subs (x_polls x)))),
     en_unsubscribed_at = map_option su_created_at (tget su_email email (x_suppressed x)) \<rparr>"

definition created_option :: "snapshot \<Rightarrow> PollOption \<Rightarrow> CreatedOption" where
  "created_option x op = (let votes = (\<lambda>a. tcount (\<lambda>v. v_option v = o_id op \<and> v_answer v = a) (db_votes (x_polls x)))
     in \<lparr> co_label = o_label op, co_start_at = o_start_at op, co_end_at = o_end_at op, co_capacity = o_capacity op,
          co_yes = votes ''yes'', co_ifneedbe = votes ''ifneedbe'', co_no = votes ''no'' \<rparr>)"

definition readCreatedPolls :: "int \<Rightarrow> snapshot \<Rightarrow> CreatedPoll list" where
  "readCreatedPolls uid x = (let d = x_polls x in
     map (\<lambda>p. \<lparr> cp_id = p_id p, cp_type = p_type p, cp_title = p_title p, cp_description = p_description p,
         cp_location = p_location p, cp_timezone = p_timezone p, cp_status = p_status p, cp_deadline_at = p_deadline_at p,
         cp_require_email = p_require_email p, cp_allow_comments = p_allow_comments p, cp_allow_ifneedbe = p_allow_ifneedbe p,
         cp_signup_max_claims = p_signup_max_claims p, cp_created_at = p_created_at p, cp_updated_at = p_updated_at p,
         cp_deleted_at = p_deleted_at p, cp_suspended_at = p_suspended_at p, cp_participants = tcount (\<lambda>a. pa_poll a = p_id p) (db_participants d),
         cp_comments = tcount (\<lambda>c. c_poll c = p_id p \<and> c_deleted_at c = None) (db_comments d),
         cp_options = map (created_option x) (sort_key o_position (filter (\<lambda>op. o_poll op = p_id p) (db_options d))) \<rparr>)
       (sort_key p_created_at (filter (\<lambda>p. p_created_by p = Some uid) (db_polls d))))"

definition readCreatedPages :: "int \<Rightarrow> snapshot \<Rightarrow> CreatedPage list" where
  "readCreatedPages uid x = (let d = x_books x in
     map (\<lambda>p. \<lparr> cg_id = bp_id p, cg_slug = bp_slug p, cg_title = bp_title p, cg_description = bp_description p,
         cg_location = bp_location p, cg_timezone = bp_timezone p, cg_slot_duration = bp_slot_duration p,
         cg_buffer_before = bp_buffer_before p, cg_buffer_after = bp_buffer_after p, cg_min_notice = bp_min_notice p,
         cg_max_days_ahead = bp_max_days_ahead p, cg_availability = bp_availability p, cg_date_overrides = bp_date_overrides p,
         cg_reminders = bp_reminders p, cg_status = bp_status p, cg_created_at = bp_created_at p, cg_updated_at = bp_updated_at p,
         cg_deleted_at = bp_deleted_at p, cg_suspended_at = bp_suspended_at p, cg_bookings = tcount (\<lambda>b. bk_page b = bp_id p) (b_bookings d),
         cg_cancelled = tcount (\<lambda>b. bk_page b = bp_id p \<and> bk_status b = ''cancelled'') (b_bookings d) \<rparr>)
       (sort_key bp_created_at (filter (\<lambda>p. bp_created_by p = Some uid) (b_pages d))))"

definition ownParticipants :: "(string \<Rightarrow> string) \<Rightarrow> int \<Rightarrow> string \<Rightarrow> Participant \<Rightarrow> bool" where
  "ownParticipants sql_lower uid email a \<longleftrightarrow>
     pa_user a = Some uid \<or>
     (pa_user a = None \<and> (case pa_email a of None \<Rightarrow> False | Some e \<Rightarrow> sql_lower (sql_trim e) = email))"

definition answers_of :: "Participant \<Rightarrow> snapshot \<Rightarrow> Answer list" where
  "answers_of a x = (let d = x_polls x in
     map (\<lambda>(op, v). \<lparr> an_label = o_label op, an_start_at = o_start_at op, an_end_at = o_end_at op, an_answer = v_answer v \<rparr>)
       (sort_key (\<lambda>(op, _). o_position op) (List.map_filter (\<lambda>v. map_option (\<lambda>op. (op, v)) (tget o_id (v_option v) (db_options d)))
         (filter (\<lambda>v. v_participant v = pa_id a) (db_votes d)))))"

definition readPollResponses :: "(string \<Rightarrow> string) \<Rightarrow> int \<Rightarrow> string \<Rightarrow> snapshot \<Rightarrow> PollResponse list" where
  "readPollResponses sql_lower uid email x = (let d = x_polls x in
     List.map_filter (\<lambda>a. map_option (\<lambda>p. \<lparr> pr_poll = p_id p, pr_title = p_title p, pr_name = pa_name a, pr_email = pa_email a,
         pr_created_at = pa_created_at a, pr_updated_at = pa_updated_at a, pr_answers = answers_of a x \<rparr>)
         (tget p_id (pa_poll a) (db_polls d)))
       (sort_key pa_created_at (filter (ownParticipants sql_lower uid email) (db_participants d))))"

definition own_comment :: "(string \<Rightarrow> string) \<Rightarrow> int \<Rightarrow> string \<Rightarrow> snapshot \<Rightarrow> Comment \<Rightarrow> bool" where
  "own_comment sql_lower uid email x c \<longleftrightarrow>
     c_user c = Some uid \<or>
     (c_user c = None \<and> (case c_participant c of None \<Rightarrow> False
        | Some i \<Rightarrow> list_ex (\<lambda>a. pa_id a = i \<and> ownParticipants sql_lower uid email a) (db_participants (x_polls x))))"

definition readComments :: "(string \<Rightarrow> string) \<Rightarrow> int \<Rightarrow> string \<Rightarrow> snapshot \<Rightarrow> ExportedComment list" where
  "readComments sql_lower uid email x = (let d = x_polls x in
     List.map_filter (\<lambda>c. map_option (\<lambda>p. \<lparr> ec_poll = p_id p, ec_title = p_title p, ec_author = c_author_name c, ec_body = c_body c,
         ec_created_at = c_created_at c, ec_deleted_at = c_deleted_at c \<rparr>) (tget p_id (c_poll c) (db_polls d)))
       (sort_key c_created_at (filter (own_comment sql_lower uid email x) (db_comments d))))"

definition own_booking :: "(string \<Rightarrow> string) \<Rightarrow> string \<Rightarrow> Booking \<Rightarrow> bool" where
  "own_booking sql_lower email b \<longleftrightarrow> sql_lower (sql_trim (bk_visitor_email b)) = email"

definition readBookingsMade :: "(string \<Rightarrow> string) \<Rightarrow> string \<Rightarrow> snapshot \<Rightarrow> VisitorBooking list" where
  "readBookingsMade sql_lower email x = (let d = x_books x in
     List.map_filter (\<lambda>b. map_option (\<lambda>p. \<lparr> eb_title = bp_title p, eb_start_at = bk_start_at b, eb_end_at = bk_end_at b,
         eb_name = bk_visitor_name b, eb_email = bk_visitor_email b, eb_note = bk_visitor_note b, eb_locale = bk_visitor_locale b,
         eb_timezone = bk_visitor_timezone b, eb_status = bk_status b, eb_cancelled_by = bk_cancelled_by b,
         eb_created_at = bk_created_at b \<rparr>) (tget bp_id (bk_page b) (b_pages d)))
       (sort_key bk_start_at (filter (own_booking sql_lower email) (b_bookings d))))"

text \<open>The audit rows whose target is the id as the session writes it.\<close>

definition readStaffActions :: "string \<Rightarrow> snapshot \<Rightarrow> StaffAction list" where
  "readStaffActions userID x =
     map (\<lambda>r. \<lparr> st_action = al_action r, st_reason = al_reason r, st_created_at = al_created_at r \<rparr>)
       (sort_key al_created_at (filter (\<lambda>r. al_target_type r = ''user'' \<and> al_target_id r = Some userID) (a_audit (x_accounts x))))"

datatype export_error = ExportNoSuchUser | ExportDb string

definition Build ::
  "(string \<Rightarrow> string) \<Rightarrow> (string \<Rightarrow> string) \<Rightarrow> (string \<Rightarrow> nat) \<Rightarrow> string \<Rightarrow> instant \<Rightarrow> snapshot \<Rightarrow> export_error + Export" where
  "Build lower sql_lower collate userID now x =
     (case ParseInt userID of
        None \<Rightarrow> Inl (ExportDb ''invalid input syntax for type bigint'')
      | Some uid \<Rightarrow>
          (case readAccount uid x of
             None \<Rightarrow> Inl ExportNoSuchUser
           | Some account \<Rightarrow>
               (let email = lower (TrimSpace (ea_email account))
                in Inr \<lparr> ex_exported_at = now, ex_account = account, ex_sign_in = readSignInMethods uid x,
                     ex_sessions = readSessions uid x, ex_organizations = readOrganizations collate uid x,
                     ex_invitations = readInvitations sql_lower email x, ex_notifications = readNotifications uid email x,
                     ex_polls = readCreatedPolls uid x, ex_pages = readCreatedPages uid x,
                     ex_responses = readPollResponses sql_lower uid email x, ex_comments = readComments sql_lower uid email x,
                     ex_bookings = readBookingsMade sql_lower email x, ex_staff_actions = readStaffActions userID x \<rparr>)))"

text \<open>The handler, and the download's name.\<close>

definition handleExportMe ::
  "(string \<Rightarrow> string) \<Rightarrow> (string \<Rightarrow> string) \<Rightarrow> (string \<Rightarrow> nat) \<Rightarrow> AuthSession \<Rightarrow> instant \<Rightarrow> snapshot \<Rightarrow> (string \<times> Export) reply" where
  "handleExportMe lower sql_lower collate s now x =
     (case Build lower sql_lower collate (ss_user s) now x of
        Inl ExportNoSuchUser \<Rightarrow> Refusal 404 ''not_found'' []
      | Inl (ExportDb _) \<Rightarrow> Refusal 500 ''internal'' []
      | Inr e \<Rightarrow> Reply 200 (''whenweall-export-'' @ formatDateOnly (ex_exported_at e) @ ''.json'', e))"

text \<open>The route: requests another site made are refused before they count; the budget is per account; verified
  sessions only.\<close>

definition export_route ::
  "(string \<Rightarrow> string) \<Rightarrow> (string \<Rightarrow> string) \<Rightarrow> (string \<Rightarrow> nat) \<Rightarrow> bool \<Rightarrow> string \<Rightarrow> string \<Rightarrow> AuthSession option \<Rightarrow> instant \<Rightarrow> instant \<Rightarrow>
   snapshot \<Rightarrow> bucket list \<Rightarrow> (string \<times> Export) reply \<times> bucket list" where
  "export_route lower sql_lower collate store_ok site ip sess now clock x t =
     (if \<not> sameOriginOnly site then (Refusal 403 ''forbidden'' [], t)
      else (let key = (case sess of Some s \<Rightarrow> ss_user s | None \<Rightarrow> ip)
            in case RateLimit store_ok ''account.export'' 5 Hour key now clock t of
                 (RateLimited _, t') \<Rightarrow> (Refusal 429 ''rate_limited'' [], t')
               | (Pass, t') \<Rightarrow>
                   ((case RequireSession sess of
                       Refused n c \<Rightarrow> Refusal n c []
                     | Through s \<Rightarrow> handleExportMe lower sql_lower collate s now x), t')))"

lemma export_needs_verified:
  "export_route lower sql_lower collate ok site ip sess now clock x t = (Reply 200 e, t') \<Longrightarrow>
   \<exists>s. sess = Some s \<and> ss_verified s \<and> Build lower sql_lower collate (ss_user s) now x = Inr (snd e)"
  by (auto simp: export_route_def handleExportMe_def RequireSession_def Let_def
      split: if_splits limit_answer.splits prod.splits option.splits sum.splits export_error.splits gate_answer.splits)

section \<open>What the document keeps to itself\<close>

text \<open>The snapshot with everything blanked that belongs to somebody else: their names, addresses, texts and accounts, who
  the staff members were, and the content of the password hash.\<close>

definition blank_participant :: "(string \<Rightarrow> string) \<Rightarrow> int \<Rightarrow> string \<Rightarrow> Participant \<Rightarrow> Participant" where
  "blank_participant sql_lower uid email a =
     (if ownParticipants sql_lower uid email a then a else a\<lparr> pa_name := [], pa_email := None, pa_locale := None \<rparr>)"

definition blank_comment :: "(string \<Rightarrow> string) \<Rightarrow> int \<Rightarrow> string \<Rightarrow> snapshot \<Rightarrow> Comment \<Rightarrow> Comment" where
  "blank_comment sql_lower uid email x c =
     (if own_comment sql_lower uid email x c then c else c\<lparr> c_author_name := [], c_body := [] \<rparr>)"

definition blank_booking :: "(string \<Rightarrow> string) \<Rightarrow> string \<Rightarrow> Booking \<Rightarrow> Booking" where
  "blank_booking sql_lower email b =
     (if own_booking sql_lower email b then b
      else b\<lparr> bk_visitor_name := [], bk_visitor_email := [], bk_visitor_note := None, bk_visitor_locale := None,
              bk_visitor_timezone := [] \<rparr>)"

definition blank_user :: "int \<Rightarrow> AUser \<Rightarrow> AUser" where
  "blank_user uid u = (if au_id u = uid then u\<lparr> au_password := map_option (\<lambda>_. []) (au_password u) \<rparr>
     else u\<lparr> au_email := [], au_password := None, au_verified_at := None, au_first_name := None, au_last_name := None, au_created_at := 0 \<rparr>)"

definition blank_invitation :: "(string \<Rightarrow> string) \<Rightarrow> string \<Rightarrow> invitation_row \<Rightarrow> invitation_row" where
  "blank_invitation sql_lower email i = (if sql_lower (sql_trim (iv_email i)) = email then i else i\<lparr> iv_email := [], iv_roles := None \<rparr>)"

definition others_blanked :: "(string \<Rightarrow> string) \<Rightarrow> int \<Rightarrow> string \<Rightarrow> snapshot \<Rightarrow> snapshot" where
  "others_blanked sql_lower uid email x = x\<lparr>
     x_accounts := (x_accounts x)\<lparr> a_users := map (blank_user uid) (a_users (x_accounts x)),
       a_audit := map (\<lambda>r. r\<lparr> al_actor := None, al_actor_email := [] \<rparr>) (a_audit (x_accounts x)) \<rparr>,
     x_polls := (x_polls x)\<lparr> db_participants := map (blank_participant sql_lower uid email) (db_participants (x_polls x)),
       db_comments := map (blank_comment sql_lower uid email x) (db_comments (x_polls x)) \<rparr>,
     x_books := (x_books x)\<lparr> b_bookings := map (blank_booking sql_lower email) (b_bookings (x_books x)) \<rparr>,
     x_invitations := map (blank_invitation sql_lower email) (x_invitations x) \<rparr>"

lemma filter_blank: "(\<And>r. p (h r) = p r) \<Longrightarrow> (\<And>r. p r \<Longrightarrow> h r = r) \<Longrightarrow> filter p (map h xs) = filter p xs"
  by (induction xs) auto

lemma tcount_blank: "(\<And>r. p (h r) = p r) \<Longrightarrow> tcount p (map h xs) = tcount p xs"
  by (induction xs) simp_all

lemma tget_blank: "(\<And>r. key (h r) = key r) \<Longrightarrow> tget key k (map h xs) = map_option h (tget key k xs)"
  by (induction xs) (simp_all add: tget_Cons)

lemma own_blank: "ownParticipants sql_lower uid email (blank_participant sql_lower uid email a) = ownParticipants sql_lower uid email a"
  by (auto simp: blank_participant_def ownParticipants_def)

lemma pa_blank [simp]: "pa_id (blank_participant f u e a) = pa_id a" "pa_poll (blank_participant f u e a) = pa_poll a"
  by (simp_all add: blank_participant_def)

lemma own_comment_blank:
  "own_comment f uid email (others_blanked f uid email x) = own_comment f uid email x"
  by (rule ext) (simp add: own_comment_def others_blanked_def list_ex_iff own_blank split: option.split)

lemma c_blank [simp]: "c_user (blank_comment f u e x c) = c_user c" "c_participant (blank_comment f u e x c) = c_participant c"
  "c_poll (blank_comment f u e x c) = c_poll c" "c_deleted_at (blank_comment f u e x c) = c_deleted_at c"
  by (simp_all add: blank_comment_def)

lemma own_comment_of_blank: "own_comment f uid email x (blank_comment f uid email y c) = own_comment f uid email x c"
  by (simp add: own_comment_def)

lemma bk_blank [simp]: "bk_page (blank_booking f e b) = bk_page b" "bk_status (blank_booking f e b) = bk_status b"
  by (simp_all add: blank_booking_def)

section \<open>Section by section\<close>

lemma readAccount_blank: "readAccount uid (others_blanked f uid email x) = readAccount uid x"
proof -
  have "tget au_id uid (map (blank_user uid) us) = map_option (blank_user uid) (tget au_id uid us)" for us
    by (rule tget_blank) (simp add: blank_user_def)
  then show ?thesis
    by (auto simp: readAccount_def others_blanked_def blank_user_def option.map_comp o_def intro!: option.map_cong dest: tget_Some_in)
qed

lemma password_blank:
  "filter (\<lambda>u. au_id u = uid \<and> au_password u \<noteq> None) (map (blank_user uid) us) =
   map (blank_user uid) (filter (\<lambda>u. au_id u = uid \<and> au_password u \<noteq> None) us)"
  by (induction us) (auto simp: blank_user_def)

lemma readSignInMethods_blank: "readSignInMethods uid (others_blanked f uid email x) = readSignInMethods uid x"
proof -
  have "map (\<lambda>u. (''password'', au_created_at u)) (filter (\<lambda>u. au_id u = uid \<and> au_password u \<noteq> None) (map (blank_user uid) us)) =
      map (\<lambda>u. (''password'', au_created_at u)) (filter (\<lambda>u. au_id u = uid \<and> au_password u \<noteq> None) us)" for us
    by (simp only: password_blank map_map) (rule map_cong, simp_all add: blank_user_def)
  then show ?thesis
    unfolding readSignInMethods_def others_blanked_def by simp
qed

lemma readSessions_blank: "readSessions uid (others_blanked f uid email x) = readSessions uid x"
  by (simp add: readSessions_def Let_def others_blanked_def)

lemma readOrganizations_blank: "readOrganizations collate uid (others_blanked f uid email x) = readOrganizations collate uid x"
  by (simp add: readOrganizations_def Let_def others_blanked_def cong: if_cong)

lemma readInvitations_blank:
  assumes "f [] \<noteq> email"
  shows "readInvitations f email (others_blanked f uid email x) = readInvitations f email x"
proof -
  have "filter (\<lambda>i. f (sql_trim (iv_email i)) = email) (map (blank_invitation f email) is) =
      filter (\<lambda>i. f (sql_trim (iv_email i)) = email) is" for "is"
    by (rule filter_blank) (use assms in \<open>auto simp: blank_invitation_def sql_trim_def\<close>)
  then show ?thesis
    by (simp add: readInvitations_def Let_def others_blanked_def)
qed

lemma readNotifications_blank: "readNotifications uid email (others_blanked f uid e x) = readNotifications uid email x"
  by (simp add: readNotifications_def Let_def others_blanked_def)

lemma readCreatedPolls_blank: "readCreatedPolls uid (others_blanked f uid email x) = readCreatedPolls uid x"
  by (simp add: readCreatedPolls_def Let_def others_blanked_def created_option_def tcount_blank)

lemma readCreatedPages_blank: "readCreatedPages uid (others_blanked f uid email x) = readCreatedPages uid x"
  by (simp add: readCreatedPages_def Let_def others_blanked_def tcount_blank)

lemma readPollResponses_blank:
  "readPollResponses f uid email (others_blanked f uid email x) = readPollResponses f uid email x"
proof -
  have "filter (ownParticipants f uid email) (map (blank_participant f uid email) as) = filter (ownParticipants f uid email) as" for as
    by (rule filter_blank) (simp_all add: own_blank, simp add: blank_participant_def)
  moreover have "answers_of a (others_blanked f uid email x) = answers_of a x" for a
    by (simp add: answers_of_def Let_def others_blanked_def)
  ultimately show ?thesis
    by (simp add: readPollResponses_def Let_def) (simp add: others_blanked_def)
qed

lemma readComments_blank: "readComments f uid email (others_blanked f uid email x) = readComments f uid email x"
proof -
  have "filter (own_comment f uid email x) (map (blank_comment f uid email x) cs) = filter (own_comment f uid email x) cs" for cs
    by (rule filter_blank) (simp_all add: own_comment_of_blank, simp add: blank_comment_def)
  then show ?thesis
    by (simp add: readComments_def Let_def own_comment_blank) (simp add: others_blanked_def)
qed

lemma readBookingsMade_blank:
  assumes "f [] \<noteq> email"
  shows "readBookingsMade f email (others_blanked f uid email x) = readBookingsMade f email x"
proof -
  have "filter (own_booking f email) (map (blank_booking f email) bs) = filter (own_booking f email) bs" for bs
    by (rule filter_blank) (use assms in \<open>auto simp: blank_booking_def own_booking_def sql_trim_def\<close>)
  then show ?thesis
    by (simp add: readBookingsMade_def Let_def others_blanked_def)
qed

lemma map_sort_blank: "(\<And>r. k (h r) = k r) \<Longrightarrow> sort_key k (map h xs) = map h (sort_key k xs)"
proof (induction xs)
  case (Cons r xs)
  have "insort_key k (h r) (map h ys) = map h (insort_key k r ys)" for ys
    by (induction ys) (simp_all add: Cons.prems)
  with Cons show ?case by simp
qed simp

lemma readStaffActions_blank: "readStaffActions userID (others_blanked f uid email x) = readStaffActions userID x"
  by (simp add: readStaffActions_def Let_def others_blanked_def filter_map o_def map_sort_blank)

lemmas blanked_sections = readAccount_blank readSignInMethods_blank readSessions_blank readOrganizations_blank
  readNotifications_blank readCreatedPolls_blank readCreatedPages_blank readPollResponses_blank readComments_blank
  readStaffActions_blank

section \<open>Nothing of the user's own is left out\<close>

lemma map_filter_memI: "r \<in> set xs \<Longrightarrow> g r = Some v \<Longrightarrow> v \<in> set (List.map_filter g xs)"
  by (force simp: List.map_filter_def)

lemma own_response_listed:
  assumes "a \<in> set (db_participants (x_polls x))" "ownParticipants f uid email a"
    and "tget p_id (pa_poll a) (db_polls (x_polls x)) = Some p"
  shows "\<lparr> pr_poll = p_id p, pr_title = p_title p, pr_name = pa_name a, pr_email = pa_email a, pr_created_at = pa_created_at a,
    pr_updated_at = pa_updated_at a, pr_answers = answers_of a x \<rparr> \<in> set (readPollResponses f uid email x)"
  unfolding readPollResponses_def Let_def
  by (rule map_filter_memI [of a]) (simp_all add: assms)

lemma own_comment_listed:
  assumes "c \<in> set (db_comments (x_polls x))" "own_comment f uid email x c"
    and "tget p_id (c_poll c) (db_polls (x_polls x)) = Some p"
  shows "\<lparr> ec_poll = p_id p, ec_title = p_title p, ec_author = c_author_name c, ec_body = c_body c, ec_created_at = c_created_at c,
    ec_deleted_at = c_deleted_at c \<rparr> \<in> set (readComments f uid email x)"
  unfolding readComments_def Let_def
  by (rule map_filter_memI [of c]) (simp_all add: assms)

lemma own_booking_listed:
  assumes "b \<in> set (b_bookings (x_books x))" "own_booking f email b" "tget bp_id (bk_page b) (b_pages (x_books x)) = Some p"
  shows "\<lparr> eb_title = bp_title p, eb_start_at = bk_start_at b, eb_end_at = bk_end_at b, eb_name = bk_visitor_name b,
    eb_email = bk_visitor_email b, eb_note = bk_visitor_note b, eb_locale = bk_visitor_locale b,
    eb_timezone = bk_visitor_timezone b, eb_status = bk_status b, eb_cancelled_by = bk_cancelled_by b,
    eb_created_at = bk_created_at b \<rparr> \<in> set (readBookingsMade f email x)"
  unfolding readBookingsMade_def Let_def
  by (rule map_filter_memI [of b]) (simp_all add: assms)


text \<open>Ada's guest answer under her address is exported, Bob's name stays out: the document is the one for the snapshot in
  which Bob has no name.\<close>

definition demo_snapshot :: "string \<Rightarrow> snapshot" where
  "demo_snapshot bob = \<lparr> x_accounts = demo_accounts,
     x_polls = sample_db\<lparr> db_participants := [sample_participant\<lparr> pa_email := Some '' a@x'' \<rparr>,
       sample_participant\<lparr> pa_id := ''g2'', pa_name := bob \<rparr>] \<rparr>,
     x_books = \<lparr> b_pages = [], b_bookings = [], b_users = [], b_orgs = [], b_members = [], b_jobs = [], b_events = [],
       b_event_seq = 0, b_fresh = (\<lambda>n. []), b_next = 0 \<rparr>,
     x_suppressed = [], x_invitations = [], x_sessions = [], x_links = [] \<rparr>"


end
