(* ===== verification/BookPages.thy ===== *)
theory BookPages
  imports BookSchemas
begin

text \<open>
  Booking pages: who may manage one (\<^verbatim>\<open>internal/bookings/authz.go\<close>) and the operations of
  \<^verbatim>\<open>internal/bookings/pages.go\<close>. The availability of a page is stored as JSON; the model keeps the decoded map,
  so decoding a stored row cannot fail here.
\<close>

section \<open>Guards\<close>

definition requireOrgPage :: "string \<Rightarrow> string \<Rightarrow> BookingPage book_tx" where
  "requireOrgPage pageID orgID =
     tx (lookup_or BNotFound (\<lambda>_. ParseInt orgID)) (\<lambda>g.
     tx (lookup_or BNotFound (GetBookingPage pageID)) (\<lambda>page.
     tx (ensure (bp_org page = g) BNotFound) (\<lambda>_. ret page)))"

definition canManageContent :: "int \<Rightarrow> int option \<Rightarrow> string \<Rightarrow> bdb \<Rightarrow> bool" where
  "canManageContent g createdBy userID d =
     (if userID = [] then False
      else case ParseInt userID of
             None \<Rightarrow> False
           | Some u \<Rightarrow>
               if \<not> BookIsOrgMember g u d then False
               else if createdBy = Some u then True
               else BookMemberHasManagingRole g u d)"

definition RequireManageablePage :: "string \<Rightarrow> string \<Rightarrow> string \<Rightarrow> unit book_tx" where
  "RequireManageablePage pageID orgID userID =
     tx (requireOrgPage pageID orgID) (\<lambda>page.
     tx (reads (canManageContent (bp_org page) (bp_created_by page) userID)) (\<lambda>can.
     ensure can BForbidden))"

definition RequireManageableBooking :: "string \<Rightarrow> string \<Rightarrow> string \<Rightarrow> unit book_tx" where
  "RequireManageableBooking bookingID orgID userID =
     tx (lookup_or BNotFound (GetBooking bookingID)) (\<lambda>b.
     RequireManageablePage (bk_page b) orgID userID)"

definition RequireOwnerRole :: "string \<Rightarrow> string \<Rightarrow> unit book_tx" where
  "RequireOwnerRole orgID userID =
     tx (lookup_or BNotFound (\<lambda>_. ParseInt orgID)) (\<lambda>g.
     tx (ensure (userID \<noteq> []) BForbidden) (\<lambda>_.
     tx (lookup_or BForbidden (\<lambda>_. ParseInt userID)) (\<lambda>u.
     tx (reads (MemberHasOwnerRole g u)) (\<lambda>owner.
     ensure owner BForbidden))))"

section \<open>Views\<close>

record PageView =
  pw_id :: string
  pw_slug :: string
  pw_title :: string
  pw_description :: "string option"
  pw_location :: "string option"
  pw_timezone :: string
  pw_slot_duration :: int
  pw_buffer_before :: int
  pw_buffer_after :: int
  pw_min_notice :: int
  pw_max_days_ahead :: int
  pw_availability :: ranges_map
  pw_date_overrides :: "ranges_map option"
  pw_google_sync :: bool
  pw_reminders :: bool
  pw_status :: string
  pw_created_at :: string
  pw_updated_at :: string

definition toPageView :: "BookingPage \<Rightarrow> PageView" where
  "toPageView p = \<lparr> pw_id = bp_id p, pw_slug = bp_slug p, pw_title = bp_title p, pw_description = bp_description p,
     pw_location = bp_location p, pw_timezone = bp_timezone p, pw_slot_duration = bp_slot_duration p,
     pw_buffer_before = bp_buffer_before p, pw_buffer_after = bp_buffer_after p, pw_min_notice = bp_min_notice p,
     pw_max_days_ahead = bp_max_days_ahead p, pw_availability = bp_availability p,
     pw_date_overrides = bp_date_overrides p, pw_google_sync = bp_google_sync p, pw_reminders = bp_reminders p,
     pw_status = bp_status p, pw_created_at = formatISO (bp_created_at p), pw_updated_at = formatISO (bp_updated_at p) \<rparr>"

record PageSummary =
  pm_id :: string
  pm_slug :: string
  pm_title :: string
  pm_status :: string
  pm_upcoming :: nat
  pm_created_at :: string
  pm_updated_at :: string

record PublicPageView =
  pu_id :: string
  pu_handle :: string
  pu_slug :: string
  pu_title :: string
  pu_description :: "string option"
  pu_location :: "string option"
  pu_timezone :: string
  pu_slot_duration :: int
  pu_max_days_ahead :: int
  pu_status :: string
  pu_owner :: string

section \<open>Operations\<close>

definition opt_trimmed :: "string option \<Rightarrow> string option" where
  "opt_trimmed s = map_option TrimSpace s"

text \<open>The columns a page input sets; the rest of the row is \<open>p\<close>. A missing availability is stored as \<open>null\<close> and
  read back as the empty map (validation refuses it before).\<close>

definition with_input :: "PageInput \<Rightarrow> instant \<Rightarrow> BookingPage \<Rightarrow> BookingPage" where
  "with_input i now p = p\<lparr> bp_slug := pg_slug i, bp_title := TrimSpace (pg_title i),
     bp_description := opt_trimmed (pg_description i), bp_location := opt_trimmed (pg_location i),
     bp_timezone := pg_timezone i, bp_slot_duration := pg_slot_duration i, bp_buffer_before := pg_buffer_before i,
     bp_buffer_after := pg_buffer_after i, bp_min_notice := pg_min_notice i, bp_max_days_ahead := pg_max_days_ahead i,
     bp_availability := (case pg_availability i of None \<Rightarrow> [] | Some m \<Rightarrow> m),
     bp_date_overrides := pg_date_overrides i, bp_google_sync := pg_google_sync i, bp_reminders := pg_reminders i,
     bp_status := pg_status i, bp_updated_at := now \<rparr>"

definition blank_page :: "string \<Rightarrow> int \<Rightarrow> int \<Rightarrow> instant \<Rightarrow> BookingPage" where
  "blank_page i g u now = \<lparr> bp_id = i, bp_org = g, bp_created_by = Some u, bp_member_user = Some u, bp_slug = [],
     bp_title = [], bp_description = None, bp_location = None, bp_timezone = [], bp_slot_duration = 0,
     bp_buffer_before = 0, bp_buffer_after = 0, bp_min_notice = 0, bp_max_days_ahead = 0, bp_availability = [],
     bp_date_overrides = None, bp_google_sync = False, bp_reminders = False, bp_status = [], bp_created_at = now,
     bp_updated_at = now, bp_deleted_at = None, bp_suspended_at = None \<rparr>"

definition CreatePage :: "(string \<Rightarrow> location option) \<Rightarrow> string \<Rightarrow> string \<Rightarrow> PageInput \<Rightarrow> instant \<Rightarrow> PageView book_tx" where
  "CreatePage tzdb orgID userID i now =
     tx (of_result (PageInput_Validate tzdb i)) (\<lambda>_.
     tx (lookup_or BNotFound (\<lambda>_. ParseInt orgID)) (\<lambda>g.
     tx (lookup_or BNotFound (\<lambda>_. ParseInt userID)) (\<lambda>u.
     tx booking_id (\<lambda>pid.
     let page = (with_input i now (blank_page pid g u now))\<lparr> bp_status := ''active'' \<rparr> in
     tx (InsertBookingPage page) (\<lambda>_.
     ret (toPageView page))))))"

definition UpdatePage :: "(string \<Rightarrow> location option) \<Rightarrow> string \<Rightarrow> string \<Rightarrow> PageInput \<Rightarrow> instant \<Rightarrow> PageView book_tx" where
  "UpdatePage tzdb pageID orgID i now =
     tx (of_result (PageInput_Validate tzdb i)) (\<lambda>_.
     tx (ensure (pg_status i \<noteq> []) (BValidation [(''status'', ''status is required'')])) (\<lambda>_.
     tx (requireOrgPage pageID orgID) (\<lambda>existing.
     tx (UpdateBookingPage pageID (with_input i now existing)) (\<lambda>_.
     tx (page_changed pageID) (\<lambda>_.
     ret (toPageView (with_input i now existing)))))))"

definition DeletePage :: "string \<Rightarrow> string \<Rightarrow> instant \<Rightarrow> unit book_tx" where
  "DeletePage pageID orgID now =
     tx (requireOrgPage pageID orgID) (\<lambda>_.
     tx (SoftDeleteBookingPage pageID now) (\<lambda>_.
     page_changed pageID))"

definition ListMyPages :: "string \<Rightarrow> instant \<Rightarrow> PageSummary list book_tx" where
  "ListMyPages orgID now =
     tx (lookup_or BNotFound (\<lambda>_. ParseInt orgID)) (\<lambda>g.
     tx (reads (ListBookingPageSummariesByOrg now g)) (\<lambda>rows.
     ret (map (\<lambda>(p, n). \<lparr> pm_id = bp_id p, pm_slug = bp_slug p, pm_title = bp_title p, pm_status = bp_status p,
       pm_upcoming = n, pm_created_at = formatISO (bp_created_at p), pm_updated_at = formatISO (bp_updated_at p) \<rparr>) rows)))"

definition GetOwnedPage :: "string \<Rightarrow> string \<Rightarrow> PageView book_tx" where
  "GetOwnedPage pageID orgID = tx (requireOrgPage pageID orgID) (\<lambda>page. ret (toPageView page))"

definition PageExists :: "string \<Rightarrow> bdb \<Rightarrow> bool" where
  "PageExists pageID d \<longleftrightarrow> GetBookingPage pageID d \<noteq> None"

definition PageSuspended :: "string \<Rightarrow> string \<Rightarrow> bdb \<Rightarrow> bool" where
  "PageSuspended orgSlug pageSlug d =
     (case GetOrganizationBySlug orgSlug d of
        None \<Rightarrow> False | Some g \<Rightarrow> BookingPageSuspended (og_id g) pageSlug d)"

definition GetPublicPage :: "string \<Rightarrow> string \<Rightarrow> bdb \<Rightarrow> PublicPageView option" where
  "GetPublicPage orgSlug pageSlug d =
     (case GetOrganizationBySlug orgSlug d of
        None \<Rightarrow> None
      | Some g \<Rightarrow>
          map_option (\<lambda>p. \<lparr> pu_id = bp_id p, pu_handle = og_slug g, pu_slug = bp_slug p, pu_title = bp_title p,
            pu_description = bp_description p, pu_location = bp_location p, pu_timezone = bp_timezone p,
            pu_slot_duration = bp_slot_duration p, pu_max_days_ahead = bp_max_days_ahead p, pu_status = bp_status p,
            pu_owner = og_name g \<rparr>) (GetBookingPageByOrgSlug (og_id g) pageSlug d))"

definition SetOrgSlug :: "string \<Rightarrow> string \<Rightarrow> unit book_tx" where
  "SetOrgSlug orgID slug =
     tx (of_result (validateHandle slug)) (\<lambda>_.
     tx (lookup_or BNotFound (\<lambda>_. ParseInt orgID)) (\<lambda>g.
     UpdateOrganizationSlug g slug))"

definition AuthorizeManagePage :: "string \<Rightarrow> string \<Rightarrow> string \<Rightarrow> unit book_tx" where
  "AuthorizeManagePage pageID orgID userID = RequireManageablePage pageID orgID userID"

end
