(* ===== verification/Bookings.thy ===== *)
theory Bookings
  imports BookPages Tokens Notify
begin

text \<open>
  The booking service (\<^verbatim>\<open>internal/bookings/bookings.go\<close>, and the queueing half of \<^verbatim>\<open>internal/bookings/emails.go\<close>).
  The page row lock makes each of \<open>Book\<close> and \<open>Reschedule\<close> one atomic step on the page's bookings; the reads done
  before the lock only decide whether the calendar service is asked. What that service answers is a parameter.
\<close>

record book_env =
  be_tzdb :: "string \<Rightarrow> location option"
  be_parse_address :: "string \<Rightarrow> string option"
  be_mac :: "string \<Rightarrow> string \<Rightarrow> string"
  be_secret :: string
  be_google :: "(string \<Rightarrow> instant \<Rightarrow> instant \<Rightarrow> Interval list option) option"

section \<open>Rules and busy intervals\<close>

definition pageRulesFrom :: "BookingPage \<Rightarrow> PageRules" where
  "pageRulesFrom p = \<lparr> ru_timezone = bp_timezone p, ru_slotDurationMin = bp_slot_duration p,
     ru_bufferBeforeMin = bp_buffer_before p, ru_bufferAfterMin = bp_buffer_after p,
     ru_minNoticeMin = bp_min_notice p, ru_maxDaysAhead = bp_max_days_ahead p,
     ru_availability = bp_availability p,
     ru_dateOverrides = (case bp_date_overrides p of None \<Rightarrow> [] | Some m \<Rightarrow> m) \<rparr>"

definition bookingWindow :: "instant \<Rightarrow> instant \<times> instant" where
  "bookingWindow start = (start - 24 * Hour, start + 24 * Hour)"

definition booking_interval :: "Booking \<Rightarrow> Interval" where
  "booking_interval b = \<lparr> iv_start = bk_start_at b, iv_end = bk_end_at b \<rparr>"

definition bookedIntervalsForPage :: "string \<Rightarrow> instant \<Rightarrow> instant \<Rightarrow> string \<Rightarrow> bdb \<Rightarrow> Interval list" where
  "bookedIntervalsForPage pageID from to excludeBookingID d =
     map booking_interval (filter (\<lambda>b. bk_id b \<noteq> excludeBookingID) (ListConfirmedBookingsInRange pageID from to d))"

definition BookedIntervals :: "string \<Rightarrow> instant \<Rightarrow> instant \<Rightarrow> bdb \<Rightarrow> Interval list" where
  "BookedIntervals pageID from to d =
     (if GetBookingPage pageID d = None then [] else bookedIntervalsForPage pageID from to [] d)"

definition googleSyncActive :: bool where
  "googleSyncActive = False"

definition googleBusyForPage ::
  "(string \<Rightarrow> instant \<Rightarrow> instant \<Rightarrow> Interval list option) option \<Rightarrow> BookingPage \<Rightarrow> instant \<Rightarrow> instant \<Rightarrow>
   Interval list \<Rightarrow> Interval list" where
  "googleBusyForPage google page from to existing =
     (case (google, bp_member_user page) of
        (Some busy, Some u) \<Rightarrow>
          if \<not> googleSyncActive \<or> \<not> bp_google_sync page then existing
          else (case busy (FormatInt u) from to of None \<Rightarrow> existing | Some extra \<Rightarrow> existing @ extra)
      | _ \<Rightarrow> existing)"

section \<open>Mail and reminder jobs\<close>

text \<open>The stamp of a \<open>time.Time\<close> in JSON: UTC with as many fraction digits as are needed.\<close>

definition json_time :: "instant \<Rightarrow> string" where
  "json_time t = (let (hh, mm, ss, ns) = clock_of t;
       frac = rev (dropWhile (\<lambda>c. c = CHR ''0'') (rev (digits 9 (nat ns))))
     in formatDate (day_of t) @ ''T'' @ digits 2 hh @ '':'' @ digits 2 mm @ '':'' @ digits 2 ss
        @ (if frac = [] then [] else CHR ''.'' # frac) @ ''Z'')"

record mailBookingPayload =
  mb_kind :: string
  mb_booking :: string
  mb_recipient :: string
  mb_previous :: "instant option"

definition json_of_booking_mail :: "mailBookingPayload \<Rightarrow> json" where
  "json_of_booking_mail m = JObj ([(''kind'', JStr (mb_kind m)), (''bookingId'', JStr (mb_booking m)),
     (''recipient'', JStr (mb_recipient m))] @
     (case mb_previous m of None \<Rightarrow> [] | Some t \<Rightarrow> [(''previousStartAt'', JStr (json_time t))]))"

definition mailBookingMaxAttempts :: nat where "mailBookingMaxAttempts = 10"

definition enqueueMailBookingTo ::
  "string \<Rightarrow> string \<Rightarrow> string \<Rightarrow> instant option \<Rightarrow> instant \<Rightarrow> unit book_tx" where
  "enqueueMailBookingTo kind bookingID recipient previous now = book_schedule
     \<lparr> si_kind = ''mail:booking'', si_room = None, si_run_at = now,
       si_payload = Some (json_of_booking_mail \<lparr> mb_kind = kind, mb_booking = bookingID,
         mb_recipient = recipient, mb_previous = previous \<rparr>), si_max_attempts = mailBookingMaxAttempts \<rparr>"

definition enqueueMailBooking :: "string \<Rightarrow> string \<Rightarrow> instant option \<Rightarrow> instant \<Rightarrow> unit book_tx" where
  "enqueueMailBooking kind bookingID previous now =
     for_each (\<lambda>recipient. enqueueMailBookingTo kind bookingID recipient previous now) [''visitor'', ''organiser'']"

definition reminderRoomKey :: "string \<Rightarrow> string" where
  "reminderRoomKey bookingID = ''booking:'' @ bookingID"

definition armBookingReminder :: "string \<Rightarrow> instant \<Rightarrow> unit book_tx" where
  "armBookingReminder bookingID startAt = book_schedule
     \<lparr> si_kind = ''booking.reminder'', si_room = Some (reminderRoomKey bookingID), si_run_at = startAt - reminderLead,
       si_payload = Some (JObj [(''bookingId'', JStr bookingID)]), si_max_attempts = 0 \<rparr>"

definition cancelBookingReminder :: "string \<Rightarrow> unit book_tx" where
  "cancelBookingReminder bookingID = book_cancel_job ''booking.reminder'' (reminderRoomKey bookingID)"

definition handleBookingReminderJob :: "string \<Rightarrow> instant \<Rightarrow> unit book_tx" where
  "handleBookingReminderJob bookingID now d =
     (case GetBooking bookingID d of
        None \<Rightarrow> Inr ((), d)
      | Some b \<Rightarrow>
          if bk_status b \<noteq> ''confirmed'' then Inr ((), d)
          else (case GetBookingPage (bk_page b) d of
                  None \<Rightarrow> Inr ((), d)
                | Some page \<Rightarrow>
                    if \<not> bp_reminders page then Inr ((), d)
                    else enqueueMailBooking ''reminder'' bookingID None now d))"

text \<open>\<open>google:sync\<close> jobs; no path reaches this while \<open>googleSyncActive\<close> is off.\<close>

definition enqueueGoogleSync :: "string \<Rightarrow> string \<Rightarrow> instant \<Rightarrow> unit book_tx" where
  "enqueueGoogleSync kind bookingID now = book_schedule
     \<lparr> si_kind = ''google:sync'', si_room = None, si_run_at = now,
       si_payload = Some (JObj [(''kind'', JStr kind), (''bookingId'', JStr bookingID)]), si_max_attempts = 5 \<rparr>"

section \<open>Booking\<close>

record BookingResult =
  br_booking :: string
  br_token :: string
  br_previous :: "instant option"
  br_changed :: bool

definition check_slot :: "book_env \<Rightarrow> BookingPage \<Rightarrow> instant \<Rightarrow> instant \<Rightarrow> Interval list \<Rightarrow> unit book_tx" where
  "check_slot env page start now busy =
     (case IsSlotAvailable (be_tzdb env) (pageRulesFrom page) start now busy of
        None \<Rightarrow> raise BNever
      | Some available \<Rightarrow> ensure available BSlotTaken)"

definition new_booking :: "string \<Rightarrow> BookingPage \<Rightarrow> BookInput \<Rightarrow> instant \<Rightarrow> Booking" where
  "new_booking bid page i now = \<lparr> bk_id = bid, bk_page = bp_id page, bk_start_at = in_start_at i,
     bk_end_at = in_start_at i + bp_slot_duration page * Minute, bk_visitor_name = TrimSpace (in_name i),
     bk_visitor_email = TrimSpace (in_email i), bk_visitor_note = opt_trimmed (in_note i),
     bk_visitor_locale = opt_trimmed (in_locale i), bk_visitor_timezone = in_timezone i, bk_status = ''confirmed'',
     bk_cancelled_by = None, bk_google_event = None, bk_created_at = now, bk_updated_at = now \<rparr>"

definition Book :: "book_env \<Rightarrow> string \<Rightarrow> string \<Rightarrow> BookInput \<Rightarrow> instant \<Rightarrow> BookingResult book_tx" where
  "Book env orgSlug pageSlug i now =
     tx (of_result (BookInput_Validate (be_tzdb env) (be_parse_address env) i)) (\<lambda>_.
     tx (ensure (be_secret env \<noteq> []) (BDb ''manage token secret is not configured'')) (\<lambda>_.
     tx (lookup_or BNotFound (GetOrganizationBySlug orgSlug)) (\<lambda>org.
     tx (lookup_or BNotFound (GetBookingPageByOrgSlug (og_id org) pageSlug)) (\<lambda>preLockPage.
     tx (lookup_or BNotFound (GetBookingPageByOrgSlugForUpdate (og_id org) pageSlug)) (\<lambda>page.
     tx (ensure (bp_status page \<noteq> ''paused'') BPagePaused) (\<lambda>_.
     tx (ensure (\<not> in_start_at i < now) BBookingPast) (\<lambda>_.
     let (from, to) = bookingWindow (in_start_at i);
         googleBusy = (if bp_status preLockPage \<noteq> ''paused''
                       then googleBusyForPage (be_google env) preLockPage from to [] else []) in
     tx (reads (bookedIntervalsForPage (bp_id page) from to [])) (\<lambda>existing.
     tx (check_slot env page (in_start_at i) now (in_busy i @ existing @ googleBusy)) (\<lambda>_.
     tx booking_id (\<lambda>bookingID.
     tx (InsertBooking (new_booking bookingID page i now)) (\<lambda>_.
     tx (page_changed (bp_id page)) (\<lambda>_.
     tx (enqueueMailBooking ''confirmed'' bookingID None now) (\<lambda>_.
     tx (if bp_reminders page then armBookingReminder bookingID (in_start_at i) else ret ()) (\<lambda>_.
     tx (if googleSyncActive \<and> bp_google_sync page then enqueueGoogleSync ''insert'' bookingID now else ret ()) (\<lambda>_.
     ret \<lparr> br_booking = bookingID, br_token = manageToken (be_mac env) (be_secret env) bookingID,
           br_previous = None, br_changed = True \<rparr>)))))))))))))))"

definition token_guard :: "book_env \<Rightarrow> string \<Rightarrow> string \<Rightarrow> bool \<Rightarrow> unit book_tx" where
  "token_guard env bookingID token byOrganiser =
     ensure (byOrganiser \<or> verifyManageToken (be_mac env) (be_secret env) bookingID token) BInvalidToken"

definition BookingCancel :: "book_env \<Rightarrow> string \<Rightarrow> string \<Rightarrow> bool \<Rightarrow> instant \<Rightarrow> unit book_tx" where
  "BookingCancel env bookingID token byOrganiser now =
     tx (lookup_or BNotFound (GetBookingForUpdate bookingID)) (\<lambda>booking.
     tx (token_guard env bookingID token byOrganiser) (\<lambda>_.
     if bk_status booking = ''cancelled'' then ret ()
     else
       tx (UpdateBookingStatus bookingID ''cancelled''
             (Some (if byOrganiser then ''organiser'' else ''visitor'')) now) (\<lambda>_.
       tx (page_changed (bk_page booking)) (\<lambda>_.
       tx (enqueueMailBooking ''cancelled'' bookingID None now) (\<lambda>_.
       tx (cancelBookingReminder bookingID) (\<lambda>_.
       if googleSyncActive \<and> bk_google_event booking \<noteq> None then enqueueGoogleSync ''delete'' bookingID now
       else ret ()))))))"

definition Reschedule ::
  "book_env \<Rightarrow> string \<Rightarrow> string \<Rightarrow> instant \<Rightarrow> bool \<Rightarrow> instant \<Rightarrow> BookingResult book_tx" where
  "Reschedule env bookingID token newStart byOrganiser now =
     tx (lookup_or BNotFound (GetBooking bookingID)) (\<lambda>preLockBooking.
     tx (token_guard env bookingID token byOrganiser) (\<lambda>_.
     tx (reads (GetBookingPage (bk_page preLockBooking))) (\<lambda>preLockPage.
     let (from, to) = bookingWindow newStart;
         googleBusy = (case preLockPage of
             Some p \<Rightarrow> if bk_status preLockBooking \<noteq> ''cancelled'' \<and> bp_status p \<noteq> ''paused''
                       then googleBusyForPage (be_google env) p from to [] else []
           | None \<Rightarrow> []) in
     tx (lookup_or BNotFound (GetBookingPageForUpdate (bk_page preLockBooking))) (\<lambda>page.
     tx (ensure (bp_status page \<noteq> ''paused'') BPagePaused) (\<lambda>_.
     tx (lookup_or BNotFound (GetBookingForUpdate bookingID)) (\<lambda>booking.
     tx (token_guard env bookingID token byOrganiser) (\<lambda>_.
     tx (ensure (bk_status booking \<noteq> ''cancelled'') BConflict) (\<lambda>_.
     tx (ensure (\<not> newStart < now) BBookingPast) (\<lambda>_.
     tx (reads (bookedIntervalsForPage (bp_id page) from to bookingID)) (\<lambda>existing.
     tx (check_slot env page newStart now (existing @ googleBusy)) (\<lambda>_.
     tx (UpdateBookingSchedule bookingID newStart (newStart + bp_slot_duration page * Minute) now) (\<lambda>_.
     tx (page_changed (bp_id page)) (\<lambda>_.
     tx (enqueueMailBooking ''rescheduled'' bookingID (Some (bk_start_at booking)) now) (\<lambda>_.
     tx (if bp_reminders page then armBookingReminder bookingID newStart else cancelBookingReminder bookingID) (\<lambda>_.
     tx (if googleSyncActive \<and> (bk_google_event booking \<noteq> None \<or> bp_google_sync page)
         then enqueueGoogleSync ''reschedule'' bookingID now else ret ()) (\<lambda>_.
     ret \<lparr> br_booking = bookingID, br_token = [], br_previous = Some (bk_start_at booking), br_changed = True \<rparr>))))))))))))))))"

section \<open>Reading\<close>

record BookingView =
  vb_id :: string
  vb_page :: string
  vb_start_at :: string
  vb_end_at :: string
  vb_visitor_name :: string
  vb_visitor_email :: string
  vb_visitor_note :: "string option"
  vb_visitor_timezone :: string
  vb_visitor_locale :: "string option"
  vb_status :: string
  vb_cancelled_by :: "string option"
  vb_created_at :: string

definition toBookingView :: "Booking \<Rightarrow> BookingView" where
  "toBookingView b = \<lparr> vb_id = bk_id b, vb_page = bk_page b, vb_start_at = formatISO (bk_start_at b),
     vb_end_at = formatISO (bk_end_at b), vb_visitor_name = bk_visitor_name b, vb_visitor_email = bk_visitor_email b,
     vb_visitor_note = bk_visitor_note b, vb_visitor_timezone = bk_visitor_timezone b,
     vb_visitor_locale = bk_visitor_locale b, vb_status = bk_status b, vb_cancelled_by = bk_cancelled_by b,
     vb_created_at = formatISO (bk_created_at b) \<rparr>"

record ManagedBookingView = BookingView +
  mv_page :: string
  mv_handle :: "string option"
  mv_slug :: string
  mv_title :: string
  mv_location :: "string option"
  mv_timezone :: string
  mv_slot_duration :: int
  mv_owner :: string

definition ManagedBooking :: "book_env \<Rightarrow> string \<Rightarrow> string \<Rightarrow> bool \<Rightarrow> ManagedBookingView book_tx" where
  "ManagedBooking env bookingID token byOrganiser =
     tx (lookup_or BNotFound (GetBooking bookingID)) (\<lambda>booking.
     tx (token_guard env bookingID token byOrganiser) (\<lambda>_.
     tx (lookup_or BNotFound (GetBookingPage (bk_page booking))) (\<lambda>page.
     tx (reads (GetOrganization (bp_org page))) (\<lambda>org.
     ret (BookingView.extend (toBookingView booking)
       (ManagedBookingView.fields (bp_id page) (map_option og_slug org) (bp_slug page) (bp_title page) (bp_location page)
         (bp_timezone page) (bp_slot_duration page) (case org of None \<Rightarrow> [] | Some g \<Rightarrow> og_name g)))))))"

definition ListPageBookings :: "string \<Rightarrow> string \<Rightarrow> instant \<Rightarrow> instant \<Rightarrow> BookingView list book_tx" where
  "ListPageBookings pageID orgID from to =
     tx (requireOrgPage pageID orgID) (\<lambda>_.
     tx (reads (ListBookingsInRange pageID from to)) (\<lambda>rows.
     ret (map toBookingView rows)))"

definition BookingSnapshot :: "string \<Rightarrow> string \<Rightarrow> instant \<Rightarrow> BookingView list book_tx" where
  "BookingSnapshot pageID orgID now =
     tx (GetOwnedPage pageID orgID) (\<lambda>page.
     ListPageBookings pageID orgID now (now + pw_max_days_ahead page * 24 * Hour))"

text \<open>\<open>None\<close> inside the result is the absent page; the outer check is for the generator's return.\<close>

definition PublicAvailability ::
  "book_env \<Rightarrow> string \<Rightarrow> string \<Rightarrow> instant \<Rightarrow> instant \<Rightarrow> instant \<Rightarrow> instant list option book_tx" where
  "PublicAvailability env orgSlug pageSlug from to now d =
     (case Option.bind (GetOrganizationBySlug orgSlug d) (\<lambda>g. GetBookingPageByOrgSlug (og_id g) pageSlug d) of
        None \<Rightarrow> Inr (None, d)
      | Some page \<Rightarrow>
          (let busy = googleBusyForPage (be_google env) page from to (bookedIntervalsForPage (bp_id page) from to [] d)
           in case Slots (be_tzdb env) (pageRulesFrom page) busy now from to of
                None \<Rightarrow> Inl BNever | Some ts \<Rightarrow> Inr (Some ts, d)))"

end
