(* ===== verification/GoogleSync.thy ===== *)
theory GoogleSync
  imports Bookings
begin

text \<open>
  The Google Calendar client and its job (\<^verbatim>\<open>internal/bookings/google.go\<close>): tokens are refreshed when a call answers
  401, a booking's event is created, deleted or replaced, and hard failures become one notice to the organiser. Google's
  endpoints are the parameters of the record \<open>google_api\<close> on a state \<open>'g\<close> of their own. Each statement takes effect by
  itself; \<open>store_ok\<close> says whether the statement that stores an event id succeeds.
\<close>

section \<open>The outside\<close>

record google_account =
  ga_id :: int
  ga_user :: int
  ga_provider :: string
  ga_access :: string
  ga_refresh :: "string option"
  ga_expires :: "instant option"
  ga_updated :: instant

record google_token =
  gt_access :: string
  gt_refresh :: string
  gt_expiry :: "instant option"

datatype google_request =
    FreeBusy string string
  | CreateEvent string "string option" string string string string
  | RemoveEvent string

text \<open>Bodies as the client's structs read them; \<open>Garbled\<close> is one \<^verbatim>\<open>encoding/json\<close> refuses.\<close>

datatype google_body = BusyBody "(string \<times> string) list" | IdBody string | Garbled

record 'g google_api =
  api_call :: "string \<Rightarrow> google_request \<Rightarrow> 'g \<Rightarrow> (nat \<times> google_body) option \<times> 'g"
  api_token :: "string \<Rightarrow> 'g \<Rightarrow> google_token option \<times> 'g"

record 'g sync_state =
  gs_books :: bdb
  gs_accounts :: "google_account list"
  gs_google :: 'g

datatype google_error = NotConnected | ApiError nat | TransportError | DecodeError | NoPage | StoreError | UnknownKind

type_synonym ('g, 'a) sync = "'g sync_state \<Rightarrow> (google_error + 'a) \<times> 'g sync_state"

definition sync_then :: "('g, 'a) sync \<Rightarrow> ('a \<Rightarrow> ('g, 'b) sync) \<Rightarrow> ('g, 'b) sync" where
  "sync_then m k s = (case m s of (Inl e, s') \<Rightarrow> (Inl e, s') | (Inr x, s') \<Rightarrow> k x s')"

definition done_with :: "(google_error + 'a) \<Rightarrow> ('g, 'a) sync" where
  "done_with r s = (r, s)"

section \<open>The client\<close>

definition GetGoogleAccount :: "int \<Rightarrow> google_account list \<Rightarrow> google_account option" where
  "GetGoogleAccount uid rows =
     (case sort_key ga_id (filter (\<lambda>a. ga_user a = uid \<and> ga_provider a = ''google'') rows) of [] \<Rightarrow> None | a # _ \<Rightarrow> Some a)"

definition UpdateGoogleAccountToken ::
  "int \<Rightarrow> string \<Rightarrow> string option \<Rightarrow> instant option \<Rightarrow> instant \<Rightarrow> google_account list \<Rightarrow> google_account list" where
  "UpdateGoogleAccountToken i access refresh_token expires now rows =
     tupd (\<lambda>a. ga_id a = i) (\<lambda>a. a\<lparr> ga_access := access, ga_refresh := refresh_token, ga_expires := expires, ga_updated := now \<rparr>) rows"

definition account :: "string \<Rightarrow> ('g, google_account) sync" where
  "account userID s =
     (case ParseInt userID of
        None \<Rightarrow> (Inl NotConnected, s)
      | Some uid \<Rightarrow> (case GetGoogleAccount uid (gs_accounts s) of None \<Rightarrow> (Inl NotConnected, s) | Some a \<Rightarrow> (Inr a, s)))"

definition call_api :: "'g google_api \<Rightarrow> string \<Rightarrow> google_request \<Rightarrow> ('g, nat \<times> google_body) sync" where
  "call_api api token q s =
     (case api_call api token q (gs_google s) of
        (None, g) \<Rightarrow> (Inl TransportError, s\<lparr> gs_google := g \<rparr>)
      | (Some r, g) \<Rightarrow> (Inr r, s\<lparr> gs_google := g \<rparr>))"

text \<open>Google may keep the refresh token it was given.\<close>

definition refresh :: "'g google_api \<Rightarrow> instant \<Rightarrow> google_account \<Rightarrow> ('g, string) sync" where
  "refresh api now acct s =
     (case ga_refresh acct of
        None \<Rightarrow> (Inl NotConnected, s)
      | Some old \<Rightarrow>
          if old = [] then (Inl NotConnected, s)
          else (case api_token api old (gs_google s) of
                  (None, g) \<Rightarrow> (Inl NotConnected, s\<lparr> gs_google := g \<rparr>)
                | (Some tok, g) \<Rightarrow>
                    (Inr (gt_access tok), s\<lparr> gs_google := g,
                       gs_accounts := UpdateGoogleAccountToken (ga_id acct) (gt_access tok)
                         (Some (if gt_refresh tok = [] then old else gt_refresh tok)) (gt_expiry tok) now (gs_accounts s) \<rparr>)))"

definition doWithRefresh :: "'g google_api \<Rightarrow> instant \<Rightarrow> string \<Rightarrow> google_request \<Rightarrow> ('g, nat \<times> google_body) sync" where
  "doWithRefresh api now userID q =
     sync_then (account userID) (\<lambda>acct.
     sync_then (call_api api (ga_access acct) q) (\<lambda>resp.
     if fst resp \<noteq> 401 then done_with (Inr resp)
     else sync_then (refresh api now acct) (\<lambda>newToken. call_api api newToken q)))"

definition rfc3339 :: "instant \<Rightarrow> string" where
  "rfc3339 t = (let (hh, mm, ss, _) = clock_of t
     in formatDate (day_of t) @ ''T'' @ digits 2 hh @ '':'' @ digits 2 mm @ '':'' @ digits 2 ss @ ''Z'')"

definition success_status :: "nat \<Rightarrow> bool" where
  "success_status n \<longleftrightarrow> 200 \<le> n \<and> n < 300"

text \<open>\<open>parse_time\<close> is \<^verbatim>\<open>time.Parse(time.RFC3339, _)\<close>; entries it refuses are left out.\<close>

definition Busy ::
  "(string \<Rightarrow> instant option) \<Rightarrow> 'g google_api \<Rightarrow> instant \<Rightarrow> string \<Rightarrow> instant \<Rightarrow> instant \<Rightarrow> ('g, Interval list) sync" where
  "Busy parse_time api now userID from to =
     sync_then (doWithRefresh api now userID (FreeBusy (rfc3339 from) (rfc3339 to))) (\<lambda>(status, body). done_with
       (if \<not> success_status status then Inl (ApiError status)
        else (case body of
                BusyBody entries \<Rightarrow> Inr (List.map_filter (\<lambda>(b, e). case (parse_time b, parse_time e) of
                    (Some b', Some e') \<Rightarrow> Some \<lparr> iv_start = b', iv_end = e' \<rparr> | _ \<Rightarrow> None) entries)
              | IdBody _ \<Rightarrow> Inr []
              | Garbled \<Rightarrow> Inl DecodeError)))"

definition InsertEvent :: "'g google_api \<Rightarrow> instant \<Rightarrow> string \<Rightarrow> BookingView \<Rightarrow> ('g, string) sync" where
  "InsertEvent api now userID b s =
     (case GetBookingPage (vb_page b) (gs_books s) of
        None \<Rightarrow> (Inl NoPage, s)
      | Some page \<Rightarrow>
          sync_then (doWithRefresh api now userID (CreateEvent (bp_title page) (bp_description page) (vb_start_at b) (vb_end_at b)
              (bp_timezone page) (vb_visitor_email b))) (\<lambda>(status, body). done_with
            (if \<not> success_status status then Inl (ApiError status)
             else (case body of IdBody i \<Rightarrow> Inr i | BusyBody _ \<Rightarrow> Inr [] | Garbled \<Rightarrow> Inl DecodeError))) s)"

definition gone_status :: "nat \<Rightarrow> bool" where
  "gone_status n \<longleftrightarrow> success_status n \<or> n = 404 \<or> n = 410"

definition DeleteEvent :: "'g google_api \<Rightarrow> instant \<Rightarrow> string \<Rightarrow> string \<Rightarrow> ('g, unit) sync" where
  "DeleteEvent api now userID eventID =
     sync_then (doWithRefresh api now userID (RemoveEvent eventID)) (\<lambda>(status, _). done_with
       (if gone_status status then Inr () else Inl (ApiError status)))"

section \<open>The job\<close>

definition UpdateBookingGoogleEventID :: "string \<Rightarrow> string option \<Rightarrow> instant \<Rightarrow> bdb \<Rightarrow> bdb" where
  "UpdateBookingGoogleEventID i event now d = d\<lparr> b_bookings :=
     tupd (\<lambda>b. bk_id b = i) (\<lambda>b. b\<lparr> bk_google_event := event, bk_updated_at := now \<rparr>) (b_bookings d) \<rparr>"

definition SetGoogleEventID :: "bool \<Rightarrow> string \<Rightarrow> string option \<Rightarrow> instant \<Rightarrow> ('g, unit) sync" where
  "SetGoogleEventID store_ok bookingID eventID now s =
     (if store_ok then (Inr (), s\<lparr> gs_books := UpdateBookingGoogleEventID bookingID (opt_trimmed eventID) now (gs_books s) \<rparr>)
      else (Inl StoreError, s))"

definition sync_failed :: "string \<Rightarrow> instant \<Rightarrow> ('g, unit) sync" where
  "sync_failed bookingID now s =
     (case enqueueMailBookingTo ''sync_failed'' bookingID ''organiser'' None now (gs_books s) of
        Inl _ \<Rightarrow> (Inl StoreError, s)
      | Inr (_, d) \<Rightarrow> (Inr (), s\<lparr> gs_books := d \<rparr>))"

definition googleSyncInsert ::
  "'g google_api \<Rightarrow> bool \<Rightarrow> instant \<Rightarrow> Booking \<Rightarrow> BookingPage \<Rightarrow> ('g, unit) sync" where
  "googleSyncInsert api store_ok now booking page s =
     (case (bk_google_event booking, bp_member_user page) of
        (None, Some member) \<Rightarrow>
          if bk_status booking = ''cancelled'' \<or> \<not> bp_google_sync page then (Inr (), s)
          else (case InsertEvent api now (FormatInt member) (toBookingView booking) s of
                  (Inl NotConnected, s') \<Rightarrow> (Inr (), s')
                | (Inl _, s') \<Rightarrow> sync_failed (bk_id booking) now s'
                | (Inr eventID, s') \<Rightarrow> SetGoogleEventID store_ok (bk_id booking) (Some eventID) now s')
      | _ \<Rightarrow> (Inr (), s))"

text \<open>Answers whether a replacement may be created, and the row in memory, whose id is cleared once the event is gone.\<close>

definition googleSyncDelete ::
  "'g google_api \<Rightarrow> bool \<Rightarrow> instant \<Rightarrow> Booking \<Rightarrow> BookingPage \<Rightarrow> ('g, bool \<times> Booking) sync" where
  "googleSyncDelete api store_ok now booking page s =
     (case (bk_google_event booking, bp_member_user page) of
        (Some event, Some member) \<Rightarrow>
          (case DeleteEvent api now (FormatInt member) event s of
             (Inr _, s') \<Rightarrow> sync_then (SetGoogleEventID store_ok (bk_id booking) None now)
                (\<lambda>_. done_with (Inr (True, booking\<lparr> bk_google_event := None \<rparr>))) s'
           | (Inl NotConnected, s') \<Rightarrow> (Inr (True, booking), s')
           | (Inl _, s') \<Rightarrow> sync_then (sync_failed (bk_id booking) now) (\<lambda>_. done_with (Inr (False, booking))) s')
      | _ \<Rightarrow> (Inr (True, booking), s))"

definition googleSyncReschedule ::
  "'g google_api \<Rightarrow> bool \<Rightarrow> instant \<Rightarrow> Booking \<Rightarrow> BookingPage \<Rightarrow> ('g, unit) sync" where
  "googleSyncReschedule api store_ok now booking page =
     sync_then (googleSyncDelete api store_ok now booking page) (\<lambda>(ok, booking').
       if ok then googleSyncInsert api store_ok now booking' page else done_with (Inr ()))"

record googleSyncPayload =
  gp_kind :: string
  gp_booking :: string

text \<open>\<open>None\<close> for the payload is one that does not decode.\<close>

definition handleGoogleSyncJob ::
  "'g google_api option \<Rightarrow> bool \<Rightarrow> instant \<Rightarrow> googleSyncPayload option \<Rightarrow> ('g, unit) sync" where
  "handleGoogleSyncJob google store_ok now payload s =
     (case payload of
        None \<Rightarrow> (Inl DecodeError, s)
      | Some m \<Rightarrow>
          (case google of
             None \<Rightarrow> (Inr (), s)
           | Some api \<Rightarrow>
               (case GetBooking (gp_booking m) (gs_books s) of
                  None \<Rightarrow> (Inr (), s)
                | Some booking \<Rightarrow>
                    (case GetBookingPage (bk_page booking) (gs_books s) of
                       None \<Rightarrow> (Inr (), s)
                     | Some page \<Rightarrow>
                         if gp_kind m = ''insert'' then googleSyncInsert api store_ok now booking page s
                         else if gp_kind m = ''delete'' then
                           sync_then (googleSyncDelete api store_ok now booking page) (\<lambda>_. done_with (Inr ())) s
                         else if gp_kind m = ''reschedule'' then googleSyncReschedule api store_ok now booking page s
                         else (Inl UnknownKind, s)))))"

section \<open>Dormant service methods\<close>

definition GoogleStatus :: "bool \<Rightarrow> string \<Rightarrow> 'g sync_state \<Rightarrow> booking_error + bool" where
  "GoogleStatus wired pageID s =
     (if \<not> wired then Inr False
      else (case GetBookingPage pageID (gs_books s) of
              None \<Rightarrow> Inl BNotFound
            | Some page \<Rightarrow>
                (case bp_member_user page of
                   None \<Rightarrow> Inr False
                 | Some u \<Rightarrow> Inr (GetGoogleAccount u (gs_accounts s) \<noteq> None))))"

definition DisconnectGoogleSync :: "string \<Rightarrow> instant \<Rightarrow> unit book_tx" where
  "DisconnectGoogleSync userID now =
     (case ParseInt userID of None \<Rightarrow> raise BNotFound | Some u \<Rightarrow> DisableGoogleSyncForMember u now)"

section \<open>What is relied on of Google\<close>

text \<open>\<open>live\<close> are the events the client created and that are still in a calendar, \<open>issued\<close> the ids ever given out. An
  accepted creation adds one event under a new id; an event is gone after a deletion that succeeded or found nothing;
  every other answer, none included, creates nothing. Events may vanish at any time: organisers delete them by hand.\<close>

definition shrunk :: "('g \<Rightarrow> string set) \<Rightarrow> ('g \<Rightarrow> string set) \<Rightarrow> 'g \<Rightarrow> 'g \<Rightarrow> bool" where
  "shrunk live issued g g' \<longleftrightarrow> issued g' = issued g \<and> live g' \<subseteq> live g"

fun answered ::
  "('g \<Rightarrow> string set) \<Rightarrow> ('g \<Rightarrow> string set) \<Rightarrow> google_request \<Rightarrow> (nat \<times> google_body) option \<Rightarrow> 'g \<Rightarrow> 'g \<Rightarrow> bool" where
  "answered live issued (CreateEvent _ _ _ _ _ _) (Some (n, body)) g g' =
     (if success_status n
      then (\<exists>i. body = IdBody i \<and> TrimSpace i = i \<and> i \<notin> issued g \<and> issued g' = insert i (issued g) \<and> live g' \<subseteq> insert i (live g))
      else shrunk live issued g g')"
| "answered live issued (RemoveEvent i) (Some (n, body)) g g' =
     (issued g' = issued g \<and> live g' \<subseteq> (if gone_status n then live g - {i} else live g))"
| "answered live issued q r g g' = shrunk live issued g g'"

definition calendar_laws :: "'g google_api \<Rightarrow> ('g \<Rightarrow> string set) \<Rightarrow> ('g \<Rightarrow> string set) \<Rightarrow> bool" where
  "calendar_laws api live issued \<longleftrightarrow>
     (\<forall>token q g. answered live issued q (fst (api_call api token q g)) g (snd (api_call api token q g))) \<and>
     (\<forall>token g. shrunk live issued g (snd (api_token api token g)))"

lemma shrunk_refl [simp]: "shrunk live issued g g"
  by (simp add: shrunk_def)

lemma shrunk_trans: "shrunk live issued f g \<Longrightarrow> shrunk live issued g h \<Longrightarrow> shrunk live issued f h"
  by (auto simp: shrunk_def)

lemma answered_None: "answered live issued q None g g' \<longleftrightarrow> shrunk live issued g g'"
  by (cases q) simp_all

lemma answered_401: "answered live issued q (Some (401, body)) g g' \<Longrightarrow> shrunk live issued g g'"
  by (cases q) (auto simp: shrunk_def success_status_def gone_status_def)

section \<open>The client keeps to the laws\<close>

lemma account_state: "account userID s = (r, s') \<Longrightarrow> s' = s"
  by (auto simp: account_def split: option.splits)

lemma call_api_answer:
  assumes "calendar_laws api live issued" "call_api api token q s = (r, s')"
  shows "gs_books s' = gs_books s \<and>
    (case r of Inl e \<Rightarrow> shrunk live issued (gs_google s) (gs_google s')
     | Inr a \<Rightarrow> answered live issued q (Some a) (gs_google s) (gs_google s'))"
proof -
  have *: "answered live issued q (fst (api_call api token q (gs_google s))) (gs_google s) (snd (api_call api token q (gs_google s)))"
    using assms(1) by (simp add: calendar_laws_def)
  show ?thesis
    using assms(2) * by (auto simp: call_api_def answered_None split: prod.splits option.splits)
qed

lemma refresh_state:
  assumes "calendar_laws api live issued" "refresh api now acct s = (r, s')"
  shows "gs_books s' = gs_books s \<and> shrunk live issued (gs_google s) (gs_google s')"
proof -
  have *: "shrunk live issued (gs_google s) (snd (api_token api token (gs_google s)))" for token
    using assms(1) by (simp add: calendar_laws_def)
  show ?thesis
  proof (cases "ga_refresh acct")
    case None
    then show ?thesis using assms(2) by (simp add: refresh_def)
  next
    case (Some old)
    then show ?thesis
      using assms(2) * [of old] by (cases "api_token api old (gs_google s)") (auto simp: refresh_def split: if_splits option.splits)
  qed
qed

lemma doWithRefresh_answer:
  assumes laws: "calendar_laws api live issued" and run: "doWithRefresh api now userID q s = (r, s')"
  shows "gs_books s' = gs_books s \<and>
    (case r of Inl e \<Rightarrow> shrunk live issued (gs_google s) (gs_google s')
     | Inr a \<Rightarrow> \<exists>g. shrunk live issued (gs_google s) g \<and> answered live issued q (Some a) g (gs_google s'))"
proof (cases "account userID s")
  case (Pair r0 s0)
  note s0 = account_state [OF Pair]
  show ?thesis
  proof (cases r0)
    case (Inl e)
    then show ?thesis using run Pair s0 by (auto simp: doWithRefresh_def sync_then_def)
  next
    case (Inr acct)
    obtain r1 s1 where one: "call_api api (ga_access acct) q s = (r1, s1)" by (cases "call_api api (ga_access acct) q s")
    note a1 = call_api_answer [OF laws one]
    show ?thesis
    proof (cases r1)
      case (Inl e)
      then show ?thesis using run Pair s0 Inr one a1 by (auto simp: doWithRefresh_def sync_then_def)
    next
      case ok: (Inr resp)
      show ?thesis
      proof (cases "fst resp = 401")
        case False
        then show ?thesis
          using run Pair s0 Inr one a1 ok by (auto simp: doWithRefresh_def sync_then_def done_with_def intro!: exI [of _ "gs_google s"])
      next
        case True
        then have step: "shrunk live issued (gs_google s) (gs_google s1)"
          using a1 ok answered_401 [of live issued q "snd resp"] by (cases resp) auto
        obtain r2 s2 where two: "refresh api now acct s1 = (r2, s2)" by (cases "refresh api now acct s1")
        note a2 = refresh_state [OF laws two]
        show ?thesis
        proof (cases r2)
          case (Inl e)
          then show ?thesis
            using run Pair s0 Inr one ok a1 two a2 step True
            by (auto simp: doWithRefresh_def sync_then_def dest: shrunk_trans)
        next
          case tok: (Inr newToken)
          have last: "call_api api newToken q s2 = (r, s')"
            using run Pair s0 Inr one ok two tok True by (simp add: doWithRefresh_def sync_then_def)
          note a3 = call_api_answer [OF laws last]
          have "shrunk live issued (gs_google s) (gs_google s2)" using step a2 by (blast intro: shrunk_trans)
          then show ?thesis
            using a1 a2 a3 by (cases r) (auto intro: shrunk_trans)
        qed
      qed
    qed
  qed
qed

lemma InsertEvent_answer:
  assumes laws: "calendar_laws api live issued" and run: "InsertEvent api now userID b s = (r, s')"
  shows "gs_books s' = gs_books s \<and>
    (case r of Inl e \<Rightarrow> shrunk live issued (gs_google s) (gs_google s')
     | Inr i \<Rightarrow> TrimSpace i = i \<and> i \<notin> issued (gs_google s) \<and> issued (gs_google s') = insert i (issued (gs_google s)) \<and>
         live (gs_google s') \<subseteq> insert i (live (gs_google s)))"
proof (cases "GetBookingPage (vb_page b) (gs_books s)")
  case None
  then show ?thesis using run by (auto simp: InsertEvent_def)
next
  case (Some page)
  let ?q = "CreateEvent (bp_title page) (bp_description page) (vb_start_at b) (vb_end_at b) (bp_timezone page) (vb_visitor_email b)"
  obtain r1 s1 where one: "doWithRefresh api now userID ?q s = (r1, s1)" by (cases "doWithRefresh api now userID ?q s")
  note a1 = doWithRefresh_answer [OF laws one]
  show ?thesis
    using run Some one a1
    by (auto simp: InsertEvent_def sync_then_def done_with_def shrunk_def split: sum.splits prod.splits if_splits google_body.splits)
qed

lemma DeleteEvent_answer:
  assumes laws: "calendar_laws api live issued" and run: "DeleteEvent api now userID i s = (r, s')"
  shows "gs_books s' = gs_books s \<and> shrunk live issued (gs_google s) (gs_google s') \<and>
    (r = Inr () \<longrightarrow> i \<notin> live (gs_google s'))"
proof -
  obtain r1 s1 where one: "doWithRefresh api now userID (RemoveEvent i) s = (r1, s1)"
    by (cases "doWithRefresh api now userID (RemoveEvent i) s")
  note a1 = doWithRefresh_answer [OF laws one]
  show ?thesis
    using run one a1
    by (auto simp: DeleteEvent_def sync_then_def done_with_def shrunk_def split: sum.splits prod.splits if_splits)
qed

section \<open>Every event is on record\<close>

text \<open>Each live event is the one stored with some booking, no two bookings store the same id, and what is stored was
  issued.\<close>

definition on_record :: "string set \<Rightarrow> string set \<Rightarrow> Booking set \<Rightarrow> bool" where
  "on_record live issued B \<longleftrightarrow>
     (\<forall>i \<in> live. \<exists>b \<in> B. bk_google_event b = Some i) \<and>
     (\<forall>b \<in> B. \<forall>i. bk_google_event b = Some i \<longrightarrow> i \<in> issued) \<and>
     (\<forall>b \<in> B. \<forall>c \<in> B. \<forall>i. bk_google_event b = Some i \<and> bk_google_event c = Some i \<longrightarrow> b = c)"

definition recorded :: "('g \<Rightarrow> string set) \<Rightarrow> ('g \<Rightarrow> string set) \<Rightarrow> 'g sync_state \<Rightarrow> bool" where
  "recorded live issued s \<longleftrightarrow>
     tuniq bk_id (b_bookings (gs_books s)) \<and>
     on_record (live (gs_google s)) (issued (gs_google s)) (set (b_bookings (gs_books s)))"

lemma on_record_insert:
  assumes rec: "on_record L I B" and b: "bk_google_event b = None" and new: "bk_google_event b' = Some i" "i \<notin> I"
    and L: "L' \<subseteq> insert i L"
  shows "on_record L' (insert i I) (insert b' (B - {b}))"
proof -
  have other: "bk_google_event c \<noteq> Some i" if "c \<in> B" for c using rec that new(2) by (auto simp: on_record_def)
  have "\<exists>c \<in> insert b' (B - {b}). bk_google_event c = Some j" if "j \<in> L'" for j
  proof (cases "j = i")
    case False
    then have "j \<in> L" using L \<open>j \<in> L'\<close> by auto
    then obtain c where "c \<in> B" "bk_google_event c = Some j" using rec unfolding on_record_def by blast
    then show ?thesis using b by auto
  qed (use new in auto)
  moreover have "c = c'" if "c \<in> insert b' (B - {b})" "c' \<in> insert b' (B - {b})" "bk_google_event c = Some j" "bk_google_event c' = Some j" for c c' j
    using that rec new other by (auto simp: on_record_def)
  moreover have "j \<in> insert i I" if "c \<in> insert b' (B - {b})" "bk_google_event c = Some j" for c j
    using that rec new by (auto simp: on_record_def)
  ultimately show ?thesis unfolding on_record_def by blast
qed

lemma on_record_delete:
  assumes rec: "on_record L I B" and b: "bk_google_event b = Some i" and new: "bk_google_event b' = None"
    and L: "L' \<subseteq> L" "i \<notin> L'"
  shows "on_record L' I (insert b' (B - {b}))"
proof -
  have "\<exists>c \<in> insert b' (B - {b}). bk_google_event c = Some j" if "j \<in> L'" for j
  proof -
    have "j \<in> L" using L(1) that by auto
    then obtain c where c: "c \<in> B" "bk_google_event c = Some j" using rec unfolding on_record_def by blast
    then have "c \<noteq> b" using b L(2) that by auto
    with c show ?thesis by auto
  qed
  moreover have "c = c'" if "c \<in> insert b' (B - {b})" "c' \<in> insert b' (B - {b})" "bk_google_event c = Some j" "bk_google_event c' = Some j" for c c' j
    using that rec new by (auto simp: on_record_def)
  moreover have "j \<in> I" if "c \<in> insert b' (B - {b})" "bk_google_event c = Some j" for c j
    using that rec new by (auto simp: on_record_def)
  ultimately show ?thesis unfolding on_record_def by blast
qed

lemma recorded_shrunk:
  assumes "recorded live issued s" "shrunk live issued (gs_google s) (gs_google s')"
    and "b_bookings (gs_books s') = b_bookings (gs_books s)"
  shows "recorded live issued s'"
  using assms by (auto simp: recorded_def shrunk_def on_record_def)

lemma tupd_row:
  assumes "tuniq key t" "b \<in> set t"
  shows "set (tupd (\<lambda>r. key r = key b) f t) = insert (f b) (set t - {b})"
proof -
  have same: "key r = key b \<longleftrightarrow> r = b" if "r \<in> set t" for r
    using assms that tget_in_uniq [OF assms(1)] by (metis option.inject)
  have "(\<lambda>r. if key r = key b then f r else r) ` set t = (\<lambda>r. if r = b then f r else r) ` set t"
    by (rule image_cong) (simp_all add: same)
  also have "\<dots> = insert (f b) (set t - {b})"
    using assms(2) by (auto simp: image_iff)
  finally show ?thesis by (simp add: set_tupd)
qed

lemma stored_rows:
  assumes "tuniq bk_id (b_bookings d)" "b \<in> set (b_bookings d)"
  shows "set (b_bookings (UpdateBookingGoogleEventID (bk_id b) event now d)) =
      insert (b\<lparr> bk_google_event := event, bk_updated_at := now \<rparr>) (set (b_bookings d) - {b})"
    and "tuniq bk_id (b_bookings (UpdateBookingGoogleEventID (bk_id b) event now d))"
  using assms by (simp_all add: UpdateBookingGoogleEventID_def tupd_row)

lemma recorded_insert:
  assumes rec: "recorded live issued s" and b: "b \<in> set (b_bookings (gs_books s))" "bk_google_event b = None"
    and fresh: "i \<notin> issued (gs_google s)" "issued g = insert i (issued (gs_google s))" "live g \<subseteq> insert i (live (gs_google s))"
  shows "recorded live issued (s\<lparr> gs_google := g, gs_books := UpdateBookingGoogleEventID (bk_id b) (Some i) now (gs_books s) \<rparr>)"
proof -
  have uniq: "tuniq bk_id (b_bookings (gs_books s))" using rec by (simp add: recorded_def)
  note rows = stored_rows [OF uniq b(1), of "Some i" now]
  have "on_record (live (gs_google s)) (issued (gs_google s)) (set (b_bookings (gs_books s)))" using rec by (simp add: recorded_def)
  from on_record_insert [OF this b(2) _ fresh(1) fresh(3)] show ?thesis
    by (simp add: recorded_def rows fresh(2))
qed

lemma recorded_delete:
  assumes rec: "recorded live issued s" and b: "b \<in> set (b_bookings (gs_books s))" "bk_google_event b = Some i"
    and gone: "i \<notin> live g" "shrunk live issued (gs_google s) g"
  shows "recorded live issued (s\<lparr> gs_google := g, gs_books := UpdateBookingGoogleEventID (bk_id b) None now (gs_books s) \<rparr>)"
proof -
  have uniq: "tuniq bk_id (b_bookings (gs_books s))" using rec by (simp add: recorded_def)
  note rows = stored_rows [OF uniq b(1), of None now]
  have "on_record (live (gs_google s)) (issued (gs_google s)) (set (b_bookings (gs_books s)))" using rec by (simp add: recorded_def)
  from on_record_delete [OF this b(2) _ _ gone(1)] gone(2) show ?thesis
    by (simp add: recorded_def rows shrunk_def)
qed

section \<open>A run of the job\<close>

definition notice :: "string \<Rightarrow> instant \<Rightarrow> bdb \<Rightarrow> bdb" where
  "notice bookingID now d = d\<lparr> b_next := b_next d + 1, b_jobs := b_jobs d @ [fresh_job (b_fresh d (b_next d))
     \<lparr> si_kind = ''mail:booking'', si_room = None, si_run_at = now,
       si_payload = Some (json_of_booking_mail \<lparr> mb_kind = ''sync_failed'', mb_booking = bookingID,
         mb_recipient = ''organiser'', mb_previous = None \<rparr>), si_max_attempts = mailBookingMaxAttempts \<rparr>] \<rparr>"

lemma sync_failed_eq: "sync_failed bookingID now s = (Inr (), s\<lparr> gs_books := notice bookingID now (gs_books s) \<rparr>)"
  by (simp add: sync_failed_def enqueueMailBookingTo_def book_schedule_def tx_def booking_id_def writes_def notice_def
      Schedule_def same_slot_def)

lemma notice_bookings [simp]: "b_bookings (notice i now d) = b_bookings d"
  by (simp add: notice_def)

lemma stored_jobs [simp]: "b_jobs (UpdateBookingGoogleEventID i e now d) = b_jobs d"
  by (simp add: UpdateBookingGoogleEventID_def)

definition at_most_one_notice :: "string \<Rightarrow> instant \<Rightarrow> bdb \<Rightarrow> bdb \<Rightarrow> bool" where
  "at_most_one_notice i now d d' \<longleftrightarrow> b_jobs d' = b_jobs d \<or> b_jobs d' = b_jobs (notice i now d)"

lemma googleSyncInsert_run:
  assumes laws: "calendar_laws api live issued" and rec: "recorded live issued s"
    and row: "b \<in> set (b_bookings (gs_books s))" "bk_id b = bk_id booking" "bk_google_event booking = None \<Longrightarrow> bk_google_event b = None"
    and run: "googleSyncInsert api True now booking page s = (r, s')"
  shows "r = Inr () \<and> recorded live issued s' \<and> at_most_one_notice (bk_id booking) now (gs_books s) (gs_books s')"
proof (cases "bk_google_event booking = None \<and> (\<exists>m. bp_member_user page = Some m) \<and> bk_status booking \<noteq> ''cancelled'' \<and> bp_google_sync page")
  case False
  then have "r = Inr () \<and> s' = s"
    using run by (auto simp: googleSyncInsert_def split: option.splits)
  then show ?thesis using rec by (simp add: at_most_one_notice_def)
next
  case True
  then obtain m where m: "bp_member_user page = Some m" by blast
  obtain r1 s1 where one: "InsertEvent api now (FormatInt m) (toBookingView booking) s = (r1, s1)"
    by (cases "InsertEvent api now (FormatInt m) (toBookingView booking) s")
  note a1 = InsertEvent_answer [OF laws one]
  show ?thesis
  proof (cases r1)
    case (Inl e)
    then have sh: "shrunk live issued (gs_google s) (gs_google s1)" "gs_books s1 = gs_books s" using a1 by simp_all
    have "r = Inr () \<and> (s' = s1 \<or> s' = s1\<lparr> gs_books := notice (bk_id booking) now (gs_books s1) \<rparr>)"
      using run True m one Inl by (cases e) (auto simp: googleSyncInsert_def sync_failed_eq)
    then show ?thesis
      using recorded_shrunk [OF rec sh(1)] sh(2) by (auto simp: at_most_one_notice_def recorded_def)
  next
    case (Inr i)
    then have s': "r = Inr ()" "s' = s1\<lparr> gs_books := UpdateBookingGoogleEventID (bk_id b) (Some i) now (gs_books s) \<rparr>"
      using run True m one a1 row(2) by (auto simp: googleSyncInsert_def SetGoogleEventID_def opt_trimmed_def)
    have "recorded live issued (s\<lparr> gs_google := gs_google s1, gs_books := UpdateBookingGoogleEventID (bk_id b) (Some i) now (gs_books s) \<rparr>)"
      using recorded_insert [OF rec row(1)] row(3) True a1 Inr by simp
    then have "recorded live issued s'" by (simp add: recorded_def s')
    then show ?thesis using s' by (simp add: at_most_one_notice_def)
  qed
qed

lemma googleSyncDelete_run:
  assumes laws: "calendar_laws api live issued" and rec: "recorded live issued s"
    and row: "booking \<in> set (b_bookings (gs_books s))"
    and run: "googleSyncDelete api True now booking page s = (r, s')"
  shows "recorded live issued s' \<and>
    ((r = Inr (False, booking) \<and> b_jobs (gs_books s') = b_jobs (notice (bk_id booking) now (gs_books s))) \<or>
     (\<exists>booking' b. r = Inr (True, booking') \<and> bk_id booking' = bk_id booking \<and> b_jobs (gs_books s') = b_jobs (gs_books s) \<and>
        b_fresh (gs_books s') = b_fresh (gs_books s) \<and> b_next (gs_books s') = b_next (gs_books s) \<and>
        b \<in> set (b_bookings (gs_books s')) \<and> bk_id b = bk_id booking' \<and> bk_google_event b = bk_google_event booking'))"
proof (cases "\<exists>i m. bk_google_event booking = Some i \<and> bp_member_user page = Some m")
  case False
  then have "r = Inr (True, booking) \<and> s' = s"
    using run by (auto simp: googleSyncDelete_def split: option.splits)
  then show ?thesis using rec row by auto
next
  case True
  then obtain i m where im: "bk_google_event booking = Some i" "bp_member_user page = Some m" by blast
  obtain r1 s1 where one: "DeleteEvent api now (FormatInt m) i s = (r1, s1)" by (cases "DeleteEvent api now (FormatInt m) i s")
  note a1 = DeleteEvent_answer [OF laws one]
  show ?thesis
  proof (cases r1)
    case (Inl e)
    have sh: "recorded live issued s1" using recorded_shrunk [OF rec, of s1] a1 by simp
    have "r = Inr (True, booking) \<and> s' = s1 \<or> r = Inr (False, booking) \<and> s' = s1\<lparr> gs_books := notice (bk_id booking) now (gs_books s) \<rparr>"
      using run im one a1 Inl by (cases e) (auto simp: googleSyncDelete_def sync_failed_eq sync_then_def done_with_def)
    then show ?thesis
    proof
      assume "r = Inr (True, booking) \<and> s' = s1"
      then show ?thesis using sh row a1 by auto
    next
      assume *: "r = Inr (False, booking) \<and> s' = s1\<lparr> gs_books := notice (bk_id booking) now (gs_books s) \<rparr>"
      then have "recorded live issued s'" using recorded_shrunk [OF sh, of s'] a1 by simp
      with * show ?thesis by simp
    qed
  next
    case (Inr u)
    let ?d = "UpdateBookingGoogleEventID (bk_id booking) None now (gs_books s)"
    have s': "r = Inr (True, booking\<lparr> bk_google_event := None \<rparr>)" "s' = s1\<lparr> gs_books := ?d \<rparr>"
      using run im one a1 Inr by (auto simp: googleSyncDelete_def SetGoogleEventID_def opt_trimmed_def sync_then_def done_with_def)
    have "recorded live issued (s\<lparr> gs_google := gs_google s1, gs_books := ?d \<rparr>)"
      using recorded_delete [OF rec row im(1)] a1 Inr by simp
    then have rec': "recorded live issued s'" by (simp add: recorded_def s')
    have "booking\<lparr> bk_google_event := None, bk_updated_at := now \<rparr> \<in> set (b_bookings ?d)"
      using stored_rows(1) [of "gs_books s" booking None now] rec row by (simp add: recorded_def)
    then show ?thesis
      using rec' s' by (intro conjI disjI2 exI [of _ "booking\<lparr> bk_google_event := None \<rparr>"]
          exI [of _ "booking\<lparr> bk_google_event := None, bk_updated_at := now \<rparr>"])
        (simp_all add: UpdateBookingGoogleEventID_def)
  qed
qed

lemma googleSyncReschedule_run:
  assumes laws: "calendar_laws api live issued" and rec: "recorded live issued s"
    and row: "booking \<in> set (b_bookings (gs_books s))"
    and run: "googleSyncReschedule api True now booking page s = (r, s')"
  shows "r = Inr () \<and> recorded live issued s' \<and> at_most_one_notice (bk_id booking) now (gs_books s) (gs_books s')"
proof -
  obtain r1 s1 where one: "googleSyncDelete api True now booking page s = (r1, s1)" by (cases "googleSyncDelete api True now booking page s")
  note a1 = googleSyncDelete_run [OF laws rec row one]
  from a1 consider
      (kept) "r1 = Inr (False, booking)" "b_jobs (gs_books s1) = b_jobs (notice (bk_id booking) now (gs_books s))"
    | (gone) booking' b where "r1 = Inr (True, booking')" "bk_id booking' = bk_id booking" "b_jobs (gs_books s1) = b_jobs (gs_books s)"
        "b_fresh (gs_books s1) = b_fresh (gs_books s)" "b_next (gs_books s1) = b_next (gs_books s)"
        "b \<in> set (b_bookings (gs_books s1))" "bk_id b = bk_id booking'" "bk_google_event b = bk_google_event booking'"
    by blast
  then show ?thesis
  proof cases
    case kept
    then have "r = Inr () \<and> s' = s1" using run one by (auto simp: googleSyncReschedule_def sync_then_def done_with_def)
    then show ?thesis using a1 kept by (simp add: at_most_one_notice_def)
  next
    case gone
    then have two: "googleSyncInsert api True now booking' page s1 = (r, s')"
      using run one by (simp add: googleSyncReschedule_def sync_then_def)
    have "r = Inr () \<and> recorded live issued s' \<and> at_most_one_notice (bk_id booking') now (gs_books s1) (gs_books s')"
      by (rule googleSyncInsert_run [OF laws _ _ _ _ two, of b]) (use a1 gone in simp_all)
    then show ?thesis
      using gone by (simp add: at_most_one_notice_def notice_def)
  qed
qed

definition sync_kinds :: "string list" where
  "sync_kinds = [''insert'', ''delete'', ''reschedule'']"

lemma handleGoogleSyncJob_run:
  assumes laws: "calendar_laws api live issued" and rec: "recorded live issued s"
    and run: "handleGoogleSyncJob (Some api) True now (Some m) s = (r, s')"
  shows "recorded live issued s' \<and> at_most_one_notice (gp_booking m) now (gs_books s) (gs_books s') \<and>
    (gp_kind m \<in> set sync_kinds \<longrightarrow> r = Inr ())"
proof -
  have idle: "at_most_one_notice i now d d" for i d by (simp add: at_most_one_notice_def)
  show ?thesis
  proof (cases "GetBooking (gp_booking m) (gs_books s)")
    case None
    then show ?thesis using run rec idle by (simp add: handleGoogleSyncJob_def)
  next
    case (Some booking)
    then have row: "booking \<in> set (b_bookings (gs_books s))" "bk_id booking = gp_booking m"
      by (auto simp: GetBooking_def dest: tget_Some_in)
    show ?thesis
    proof (cases "GetBookingPage (bk_page booking) (gs_books s)")
      case None
      then show ?thesis using run rec idle Some by (simp add: handleGoogleSyncJob_def)
    next
      case page: (Some page)
      note step = run [unfolded handleGoogleSyncJob_def, simplified Some page option.case]
      consider "gp_kind m = ''insert''" | "gp_kind m = ''delete''" | "gp_kind m = ''reschedule''" | "gp_kind m \<notin> set sync_kinds"
        by (auto simp: sync_kinds_def)
      then show ?thesis
      proof cases
        case 1
        then have "googleSyncInsert api True now booking page s = (r, s')" using step by simp
        from googleSyncInsert_run [OF laws rec row(1) refl _ this] row(2) show ?thesis by simp
      next
        case 2
        obtain r1 s1 where one: "googleSyncDelete api True now booking page s = (r1, s1)"
          by (cases "googleSyncDelete api True now booking page s")
        note a1 = googleSyncDelete_run [OF laws rec row(1) one]
        have "s' = s1 \<and> r = Inr ()" using step 2 one a1 by (auto simp: sync_then_def done_with_def)
        then show ?thesis using a1 row(2) by (auto simp: at_most_one_notice_def)
      next
        case 3
        then have "googleSyncReschedule api True now booking page s = (r, s')" using step by simp
        from googleSyncReschedule_run [OF laws rec row(1) this] row(2) show ?thesis by simp
      next
        case 4
        then have "s' = s" using step by (auto simp: sync_kinds_def)
        then show ?thesis using rec idle 4 by simp
      qed
    qed
  qed
qed

fun sync_runs :: "'g google_api \<Rightarrow> (googleSyncPayload \<times> instant) list \<Rightarrow> 'g sync_state \<Rightarrow> 'g sync_state" where
  "sync_runs api [] s = s"
| "sync_runs api ((m, now) # js) s = sync_runs api js (snd (handleGoogleSyncJob (Some api) True now (Some m) s))"

lemma sync_runs_recorded:
  assumes "calendar_laws api live issued"
  shows "recorded live issued s \<Longrightarrow> recorded live issued (sync_runs api js s)"
proof (induction js arbitrary: s)
  case (Cons j js)
  obtain m now where j: "j = (m, now)" by (cases j)
  obtain r s' where run: "handleGoogleSyncJob (Some api) True now (Some m) s = (r, s')"
    by (cases "handleGoogleSyncJob (Some api) True now (Some m) s")
  from handleGoogleSyncJob_run [OF assms Cons.prems run] show ?case
    by (simp add: j run Cons.IH)
qed simp


text \<open>A calendar service with two ids to give away, that only takes the token \<open>good\<close>: the booking is created under an
  expired token and then moved.\<close>

type_synonym demo_google = "nat \<times> string list"

definition demo_id :: "nat \<Rightarrow> string" where
  "demo_id n = (if n = 0 then ''e1'' else ''e2'')"

fun demo_call :: "string \<Rightarrow> google_request \<Rightarrow> demo_google \<Rightarrow> (nat \<times> google_body) option \<times> demo_google" where
  "demo_call token q (n, L) =
     (if token \<noteq> ''good'' then (Some (401, Garbled), (n, L))
      else (case q of
              FreeBusy _ _ \<Rightarrow> (Some (200, BusyBody []), (n, L))
            | CreateEvent _ _ _ _ _ _ \<Rightarrow>
                if n < 2 then (Some (200, IdBody (demo_id n)), (Suc n, demo_id n # L)) else (Some (503, Garbled), (n, L))
            | RemoveEvent i \<Rightarrow>
                if i \<in> set L then (Some (204, Garbled), (n, filter (\<lambda>j. j \<noteq> i) L)) else (Some (404, Garbled), (n, L))))"

definition demo_api :: "demo_google google_api" where
  "demo_api = \<lparr> api_call = demo_call,
     api_token = (\<lambda>_ g. (Some \<lparr> gt_access = ''good'', gt_refresh = [], gt_expiry = None \<rparr>, g)) \<rparr>"

definition demo_live :: "demo_google \<Rightarrow> string set" where
  "demo_live g = set (snd g)"

definition demo_issued :: "demo_google \<Rightarrow> string set" where
  "demo_issued g = demo_id ` {..<min 2 (fst g)}"

lemma demo_google_laws: "calendar_laws demo_api demo_live demo_issued"
proof -
  have trim: "TrimSpace ''e1'' = ''e1''" "TrimSpace ''e2'' = ''e2''" by code_simp+
  have "answered demo_live demo_issued q (fst (demo_call token q (n, L))) (n, L) (snd (demo_call token q (n, L)))" for token q n L
  proof (cases q)
    case FreeBusy
    then show ?thesis by (simp add: shrunk_def)
  next
    case CreateEvent
    consider "n = 0" | "n = 1" | "2 \<le> n" by linarith
    then show ?thesis
      using CreateEvent
      by cases (auto simp: shrunk_def success_status_def demo_issued_def demo_live_def demo_id_def trim lessThan_Suc numeral_2_eq_2)
  next
    case RemoveEvent
    then show ?thesis by (auto simp: gone_status_def success_status_def demo_issued_def demo_live_def)
  qed
  then show ?thesis by (simp add: calendar_laws_def demo_api_def)
qed

definition demo_sync_page :: BookingPage where
  "demo_sync_page = (blank_page ''b1'' 1 7 0)\<lparr> bp_google_sync := True \<rparr>"

definition demo_row :: "string option \<Rightarrow> instant \<Rightarrow> Booking" where
  "demo_row event t = \<lparr> bk_id = ''k'', bk_page = ''b1'', bk_start_at = 0, bk_end_at = 0, bk_visitor_name = ''Ada'',
     bk_visitor_email = ''a@x'', bk_visitor_note = None, bk_visitor_locale = None, bk_visitor_timezone = ''UTC'',
     bk_status = ''confirmed'', bk_cancelled_by = None, bk_google_event = event, bk_created_at = 0, bk_updated_at = t \<rparr>"

definition demo_sync :: "string \<Rightarrow> instant \<Rightarrow> string option \<Rightarrow> instant \<Rightarrow> demo_google \<Rightarrow> demo_google sync_state" where
  "demo_sync token ta event t g = \<lparr> gs_books = \<lparr> b_pages = [demo_sync_page], b_bookings = [demo_row event t],
       b_users = [], b_orgs = [], b_members = [], b_jobs = [], b_events = [], b_event_seq = 0, b_fresh = (\<lambda>n. []), b_next = 0 \<rparr>,
     gs_accounts = [\<lparr> ga_id = 1, ga_user = 7, ga_provider = ''google'', ga_access = token, ga_refresh = Some ''r'', ga_expires = None,
       ga_updated = ta \<rparr>], gs_google = g \<rparr>"

lemma demo_member: "ParseInt (FormatInt 7) = Some 7"
  by (simp add: ParseInt_FormatInt in_int64_def)

lemma demo_trim: "TrimSpace ''e1'' = ''e1''" "TrimSpace ''e2'' = ''e2''"
  by code_simp+

lemma demo_lookups:
  "GetBooking ''k'' (gs_books (demo_sync token ta event t g)) = Some (demo_row event t)"
  "GetBookingPage ''b1'' (gs_books (demo_sync token ta event t g)) = Some demo_sync_page"
  "bk_page (demo_row event t) = ''b1''" "bk_google_event (demo_row event t) = event" "bk_id (demo_row event t) = ''k''"
  "bk_status (demo_row event t) = ''confirmed''" "bp_member_user demo_sync_page = Some 7" "bp_google_sync demo_sync_page"
  "vb_page (toBookingView (demo_row event t)) = ''b1''"
  "(demo_row event t)\<lparr> bk_google_event := e \<rparr> = demo_row e t"
  by (simp_all add: demo_sync_def GetBooking_def GetBookingPage_def tget_def live_page_def demo_sync_page_def blank_page_def demo_row_def
      toBookingView_def)

lemma demo_stored:
  "SetGoogleEventID True ''k'' e now (demo_sync token ta event t g) = (Inr (), demo_sync token ta (opt_trimmed e) now g)"
  "SetGoogleEventID False ''k'' e now (demo_sync token ta event t g) = (Inl StoreError, demo_sync token ta event t g)"
  by (simp_all add: SetGoogleEventID_def demo_sync_def UpdateBookingGoogleEventID_def tupd_def demo_row_def)

lemma demo_good:
  "doWithRefresh demo_api now (FormatInt 7) q (demo_sync ''good'' ta event t g) =
     (case demo_call ''good'' q g of (r, g') \<Rightarrow> (case r of None \<Rightarrow> Inl TransportError | Some a \<Rightarrow> Inr a, demo_sync ''good'' ta event t g'))"
  by (cases g) (simp add: doWithRefresh_def account_def demo_member GetGoogleAccount_def demo_sync_def sync_then_def call_api_def demo_api_def
      done_with_def split: google_request.split)

lemma demo_expired:
  "doWithRefresh demo_api now (FormatInt 7) q (demo_sync ''old'' ta event t g) =
     (case demo_call ''good'' q g of (r, g') \<Rightarrow> (case r of None \<Rightarrow> Inl TransportError | Some a \<Rightarrow> Inr a, demo_sync ''good'' now event t g'))"
  by (cases g) (simp add: doWithRefresh_def account_def demo_member GetGoogleAccount_def demo_sync_def sync_then_def call_api_def demo_api_def
      done_with_def refresh_def UpdateGoogleAccountToken_def tupd_def split: google_request.split)

lemmas demo_runs = handleGoogleSyncJob_def googleSyncReschedule_def googleSyncDelete_def googleSyncInsert_def InsertEvent_def DeleteEvent_def
  sync_then_def done_with_def demo_lookups demo_stored demo_good demo_expired opt_trimmed_def demo_trim demo_id_def success_status_def
  gone_status_def

definition insert_job :: googleSyncPayload where
  "insert_job = \<lparr> gp_kind = ''insert'', gp_booking = ''k'' \<rparr>"

definition reschedule_job :: googleSyncPayload where
  "reschedule_job = \<lparr> gp_kind = ''reschedule'', gp_booking = ''k'' \<rparr>"

lemma demo_insert:
  "handleGoogleSyncJob (Some demo_api) True 5 (Some insert_job) (demo_sync ''old'' 0 None 0 (0, [])) =
     (Inr (), demo_sync ''good'' 5 (Some ''e1'') 5 (Suc 0, [''e1'']))"
  by (simp add: demo_runs insert_job_def)

lemma demo_reschedule:
  "handleGoogleSyncJob (Some demo_api) True 6 (Some reschedule_job) (demo_sync ''good'' 5 (Some ''e1'') 5 (Suc 0, [''e1''])) =
     (Inr (), demo_sync ''good'' 5 (Some ''e2'') 6 (Suc (Suc 0), [''e2'']))"
  by (simp add: demo_runs reschedule_job_def)


text \<open>The guard on the stored id is no help when storing it is what failed: the retried job creates a second event, and
  the first is on record nowhere.\<close>

lemma lost_write_orphans:
  "handleGoogleSyncJob (Some demo_api) False 5 (Some insert_job) (demo_sync ''old'' 0 None 0 (0, [])) =
     (Inl StoreError, demo_sync ''good'' 5 None 0 (Suc 0, [''e1'']))"
  "handleGoogleSyncJob (Some demo_api) True 6 (Some insert_job) (demo_sync ''good'' 5 None 0 (Suc 0, [''e1''])) =
     (Inr (), demo_sync ''good'' 5 (Some ''e2'') 6 (Suc (Suc 0), [''e2'', ''e1'']))"
  by (simp_all add: demo_runs insert_job_def)

end
