(* ===== verification/Listener.thy ===== *)
theory Listener
  imports Hub
begin

text \<open>
  The loop around the LISTEN session (\<open>runListener\<close>, \<open>sleepBackoff\<close> in \<^verbatim>\<open>internal/rooms/listener.go\<close>): sessions that are lost with
  the notifications of their time, the nudge to every subscriber once a session is confirmed, and the backoff. \<open>ln_synced\<close> is a
  history variable: how many events were committed when the current session was confirmed.
\<close>

section \<open>The loop\<close>

definition initialBackoff :: int where "initialBackoff = 250 * (Second div 1000)"

definition maxBackoff :: int where "maxBackoff = 10 * Second"

definition healthyConnectionDuration :: int where "healthyConnectionDuration = 30 * Second"

text \<open>The wait is random; what follows it is the next backoff.\<close>

definition sleepBackoff :: "int \<Rightarrow> int" where
  "sleepBackoff b = (if maxBackoff < b * 2 then maxBackoff else b * 2)"

definition backoff_after_loss :: "int \<Rightarrow> int \<Rightarrow> int" where
  "backoff_after_loss connected_for b = (if healthyConnectionDuration \<le> connected_for then initialBackoff else b)"

datatype session = Lost | Confirmed | Looping

record listener =
  ln_world :: world
  ln_session :: session
  ln_reconnecting :: bool
  ln_backoff :: int
  ln_synced :: nat

text \<open>Postgres keeps notifications for listening sessions only.\<close>

definition commit_row :: "Event \<Rightarrow> listener \<Rightarrow> listener" where
  "commit_row e x = x\<lparr> ln_world := (let w = ln_world x in w\<lparr> w_events := w_events w @ [e],
     w_queue := (if ln_session x = Lost then w_queue w else w_queue w @ [(ev_room e, ev_id e)]) \<rparr>) \<rparr>"

definition with_hub :: "(world \<Rightarrow> Hub) \<Rightarrow> listener \<Rightarrow> listener" where
  "with_hub f x = x\<lparr> ln_world := (ln_world x)\<lparr> w_hub := f (ln_world x) \<rparr> \<rparr>"

definition lose_session :: "int \<Rightarrow> listener \<Rightarrow> listener" where
  "lose_session connected_for x = x\<lparr> ln_world := (ln_world x)\<lparr> w_queue := [] \<rparr>, ln_session := Lost, ln_reconnecting := True,
     ln_backoff := sleepBackoff (backoff_after_loss connected_for (ln_backoff x)) \<rparr>"

definition fail_dial :: "listener \<Rightarrow> listener" where
  "fail_dial x = x\<lparr> ln_reconnecting := True, ln_backoff := sleepBackoff (ln_backoff x) \<rparr>"

definition confirm :: "listener \<Rightarrow> listener" where
  "confirm x = x\<lparr> ln_session := Confirmed, ln_synced := length (w_events (ln_world x)) \<rparr>"

definition nudge :: "string list \<Rightarrow> listener \<Rightarrow> listener" where
  "nudge rooms x = (with_hub (\<lambda>w. resyncAll rooms (if ln_reconnecting x then clearPendingNotify (w_hub w) else w_hub w)) x)
     \<lparr> ln_session := Looping \<rparr>"

text \<open>The rooms \<open>resyncAll\<close> walks: those with subscribers.\<close>

definition live_rooms :: "Hub \<Rightarrow> string list \<Rightarrow> bool" where
  "live_rooms h rooms \<longleftrightarrow> distinct rooms \<and> (\<forall>r. hub_subs h r \<noteq> [] \<longrightarrow> r \<in> set rooms)"

inductive runListener :: "listener \<Rightarrow> listener \<Rightarrow> bool" where
  dial: "ln_session x = Lost \<Longrightarrow> runListener x (confirm x)"
| dial_failed: "ln_session x = Lost \<Longrightarrow> runListener x (fail_dial x)"
| nudged: "ln_session x = Confirmed \<Longrightarrow> live_rooms (w_hub (ln_world x)) rooms \<Longrightarrow> runListener x (nudge rooms x)"
| handled: "ln_session x = Looping \<Longrightarrow> w_queue (ln_world x) = (r, i) # q \<Longrightarrow>
     runListener x (x\<lparr> ln_world := (ln_world x)\<lparr> w_queue := q, w_hub := handleNotify r i (w_events (ln_world x)) (w_hub (ln_world x)) \<rparr> \<rparr>)"
| lost: "ln_session x \<noteq> Lost \<Longrightarrow> runListener x (lose_session connected_for x)"
| committed: "ev_id e \<notin> ev_id ` set (w_events (ln_world x)) \<Longrightarrow> runListener x (commit_row e x)"
| subscribed: "runListener x (with_hub (\<lambda>w. snd (subscribe_register sid (length (w_events w)) r (w_hub w))) x)"
| floored: "runListener x (with_hub (\<lambda>w. initWatermarkFloor ok r (take n (w_events w)) (w_hub w)) x)"
| unsubscribed: "runListener x (with_hub (\<lambda>w. unsubscribe sid r (w_hub w)) x)"
| frame_read: "runListener x (with_hub (\<lambda>w. read_frame sid (w_hub w)) x)"

definition initial_listener :: "listener \<Rightarrow> bool" where
  "initial_listener x \<longleftrightarrow> initial_world (ln_world x) \<and> ln_session x = Lost \<and> ln_backoff x = initialBackoff \<and>
     ln_synced x = 0 \<and> \<not> ln_reconnecting x"

section \<open>Forgetting what came before\<close>

text \<open>A hub whose subscribers are taken to have registered at the \<open>n\<close>-th event at the earliest.\<close>

definition raise_since :: "nat \<Rightarrow> subscriber \<Rightarrow> subscriber" where
  "raise_since n s = s\<lparr> sub_since := max n (sub_since s) \<rparr>"

definition rebase :: "nat \<Rightarrow> Hub \<Rightarrow> Hub" where
  "rebase n h = h\<lparr> hub_subs := (\<lambda>r. map (raise_since n) (hub_subs h r)) \<rparr>"

lemma raise_simps [simp]:
  "sub_id (raise_since n s) = sub_id s" "sub_sent (raise_since n s) = sub_sent s" "sub_read (raise_since n s) = sub_read s"
  "sub_since (raise_since n s) = max n (sub_since s)" "channel_full (raise_since n s) = channel_full s"
  "send_frame f (raise_since n s) = raise_since n (send_frame f s)"
  by (simp_all add: raise_since_def channel_full_def send_frame_def)

lemma rebase_simps [simp]:
  "hub_subs (rebase n h) r = map (raise_since n) (hub_subs h r)" "hub_watermark (rebase n h) = hub_watermark h"
  "hub_pending (rebase n h) = hub_pending h"
  by (simp_all add: rebase_def)

lemma rebase_prune: "pruneRoomLocked r (rebase n h) = rebase n (pruneRoomLocked r h)"
  by (simp add: pruneRoomLocked_def rebase_def fun_eq_iff)

lemma rebase_fields:
  "(rebase n h)\<lparr> hub_watermark := m \<rparr> = rebase n (h\<lparr> hub_watermark := m \<rparr>)"
  "(rebase n h)\<lparr> hub_pending := p \<rparr> = rebase n (h\<lparr> hub_pending := p \<rparr>)"
  by (simp_all add: rebase_def)

lemma rebase_room:
  "(rebase n h)\<lparr> hub_subs := (hub_subs (rebase n h))(r := map (raise_since n) xs) \<rparr> = rebase n (h\<lparr> hub_subs := (hub_subs h)(r := xs) \<rparr>)"
  by (simp add: rebase_def fun_eq_iff)

lemma rebase_dispatch: "dispatchLocal r f (rebase n h) = rebase n (dispatchLocal r f h)"
proof -
  have kept: "map (send_frame f) (filter (\<lambda>s. \<not> channel_full s) (hub_subs (rebase n h) r)) =
      map (raise_since n) (map (send_frame f) (filter (\<lambda>s. \<not> channel_full s) (hub_subs h r)))"
    by (simp add: filter_map o_def)
  show ?thesis
    unfolding dispatchLocal_def Let_def kept rebase_room by (simp add: rebase_prune del: map_map)
qed

lemma rebase_floor: "establishWatermarkFloor r i (rebase n h) = rebase n (establishWatermarkFloor r i h)"
  by (simp add: establishWatermarkFloor_def rebase_fields split: option.split)

lemma rebase_track: "trackPending r i (rebase n h) = rebase n (trackPending r i h)"
  by (simp add: trackPending_def rebase_fields)

lemma rebase_deliver_row: "deliver_row r trig e (rebase n h) = rebase n (deliver_row r trig e h)"
  by (simp add: deliver_row_def rebase_track rebase_dispatch)

lemma rebase_sweep: "fold (deliver_row r trig) rows (rebase n h) = rebase n (fold (deliver_row r trig) rows h)"
  by (induction rows arbitrary: h) (simp_all add: rebase_deliver_row)

lemma rebase_exact: "deliverExact r i evs (rebase n h) = rebase n (deliverExact r i evs h)"
  by (simp add: deliverExact_def rebase_dispatch split: option.split)

lemma rebase_late: "deliverLateCommitter r i evs (rebase n h) = rebase n (deliverLateCommitter r i evs h)"
  by (simp add: deliverLateCommitter_def consumePending_def rebase_fields rebase_exact)

lemma rebase_notify: "handleNotify r i evs (rebase n h) = rebase n (handleNotify r i evs h)"
  by (simp add: handleNotify_def rebase_floor rebase_exact rebase_late deliverSince_def Let_def rebase_sweep split: option.split)

lemma rebase_init_floor: "initWatermarkFloor ok r evs (rebase n h) = rebase n (initWatermarkFloor ok r evs h)"
  by (simp add: initWatermarkFloor_def rebase_floor)

lemma rebase_unsubscribe: "unsubscribe sid r (rebase n h) = rebase n (unsubscribe sid r h)"
proof -
  have room: "filter (\<lambda>s. sub_id s \<noteq> sid) (hub_subs (rebase n h) r) = map (raise_since n) (filter (\<lambda>s. sub_id s \<noteq> sid) (hub_subs h r))"
    by (simp add: filter_map o_def)
  show ?thesis unfolding unsubscribe_def Let_def room rebase_room by (simp add: rebase_prune)
qed

lemma rebase_read: "read_frame sid (rebase n h) = rebase n (read_frame sid h)"
proof -
  have "(raise_since n s)\<lparr> sub_read := k \<rparr> = raise_since n (s\<lparr> sub_read := k \<rparr>)" for s k by (simp add: raise_since_def)
  then show ?thesis by (simp add: read_frame_def rebase_def fun_eq_iff)
qed

lemma rebase_register:
  "n \<le> m \<Longrightarrow> snd (subscribe_register sid m r (rebase n h)) = rebase n (snd (subscribe_register sid m r h))"
  by (simp add: subscribe_register_def rebase_def fun_eq_iff raise_since_def)

lemma rebase_resync: "resyncAll rooms (rebase n h) = rebase n (resyncAll rooms h)"
  by (induction rooms arbitrary: h) (simp_all add: resyncAll_def rebase_dispatch)

lemma rebase_clear: "clearPendingNotify (rebase n h) = rebase n (clearPendingNotify h)"
  by (simp add: clearPendingNotify_def rebase_fields)

section \<open>The invariant\<close>

definition floor_of :: "listener \<Rightarrow> nat" where
  "floor_of x = (if ln_session x = Lost then length (w_events (ln_world x)) else ln_synced x)"

definition view :: "listener \<Rightarrow> world" where
  "view x = (ln_world x)\<lparr> w_hub := rebase (floor_of x) (w_hub (ln_world x)) \<rparr>"

definition listener_ok :: "listener \<Rightarrow> bool" where
  "listener_ok x \<longleftrightarrow> hub_ok (view x) \<and> (ln_session x = Lost \<longrightarrow> w_queue (ln_world x) = []) \<and>
     ln_synced x \<le> length (w_events (ln_world x)) \<and> initialBackoff \<le> ln_backoff x \<and> ln_backoff x \<le> maxBackoff"

lemma hub_ok_forget:
  assumes "hub_ok (w\<lparr> w_hub := rebase n h \<rparr>)"
  shows "hub_ok (w\<lparr> w_queue := [], w_hub := rebase (length (w_events w)) h \<rparr>)"
proof -
  note d = hub_okD [OF assms]
  have "sub_since s \<le> length (w_events w) \<and> length (sub_sent s) \<le> sub_read s + subscriberBufferSize"
    if "s \<in> set (hub_subs h r)" for r s
  proof -
    have "raise_since n s \<in> set (hub_subs (w_hub (w\<lparr> w_hub := rebase n h \<rparr>)) r)" using that by simp
    from d(3) [OF this] show ?thesis by simp
  qed
  moreover have "i \<in> ev_id ` set (w_events w)" if "i \<in> set (hub_pending h r)" for r i
    using d(6) [of i r] that by simp
  ultimately show ?thesis
    using d(1) unfolding hub_ok_def by (auto simp: due_events_def max_absorb1)
qed

lemma extends_any_dispatch: "extends r [] h (dispatchLocal r2 f h)"
  unfolding extends_def
proof (intro conjI allI ballI impI)
  fix r' s' assume "s' \<in> set (hub_subs (dispatchLocal r2 f h) r')"
  from dispatch_subs [OF this] obtain s where s: "s \<in> set (hub_subs h r')" "s' = s \<or> \<not> channel_full s \<and> s' = send_frame f s"
    by (auto split: if_splits)
  from s(2) have "grown (r' = r) [] s s'" by (auto simp: grown_def channel_full_def)
  with s(1) show "\<exists>s \<in> set (hub_subs h r'). grown (r' = r) [] s s'" by blast
qed (use dispatch_pending in blast)

lemma extends_resync: "extends r [] h (resyncAll rooms h)"
proof (induction rooms arbitrary: h)
  case (Cons r2 rooms)
  from extends_trans [OF extends_any_dispatch Cons.IH] show ?case by (simp add: resyncAll_def)
qed (simp add: resyncAll_def extends_refl)

lemma view_hub:
  assumes "listener_ok x" "hub_ok ((view x)\<lparr> w_hub := rebase (floor_of x) (f (ln_world x)) \<rparr>)"
  shows "listener_ok (with_hub f x)"
proof -
  have "view (with_hub f x) = (view x)\<lparr> w_hub := rebase (floor_of x) (f (ln_world x)) \<rparr>"
    by (simp add: view_def with_hub_def floor_of_def)
  then show ?thesis using assms by (simp add: listener_ok_def) (simp add: with_hub_def)
qed

lemma sleepBackoff_bounds: "initialBackoff \<le> b \<Longrightarrow> b \<le> maxBackoff \<Longrightarrow> initialBackoff \<le> sleepBackoff b \<and> sleepBackoff b \<le> maxBackoff"
  by (simp add: sleepBackoff_def initialBackoff_def maxBackoff_def Second_def)

lemma backoff_after_bounds:
  "initialBackoff \<le> b \<Longrightarrow> b \<le> maxBackoff \<Longrightarrow> initialBackoff \<le> backoff_after_loss t b \<and> backoff_after_loss t b \<le> maxBackoff"
  by (simp add: backoff_after_loss_def initialBackoff_def maxBackoff_def Second_def)

lemma listener_ok_step: "runListener x y \<Longrightarrow> listener_ok x \<Longrightarrow> listener_ok y"
proof (induction rule: runListener.induct)
  case (dial x)
  then show ?case by (simp add: listener_ok_def confirm_def view_def floor_of_def)
next
  case (dial_failed x)
  then show ?case using sleepBackoff_bounds [of "ln_backoff x"] by (simp add: listener_ok_def fail_dial_def view_def floor_of_def)
next
  case (nudged x rooms)
  let ?h = "if ln_reconnecting x then clearPendingNotify (w_hub (ln_world x)) else w_hub (ln_world x)"
  have "extends [] [] (w_hub (view x)) (rebase (floor_of x) ?h)"
    by (rule extends_filtered) (simp_all add: view_def rebase_clear [symmetric] clearPendingNotify_def)
  from extends_trans [OF this extends_resync [of "[]" _ rooms]]
  have ext: "extends [] [] (w_hub (view x)) (rebase (floor_of x) (resyncAll rooms ?h))"
    by (simp add: rebase_resync)
  have "listener_ok (with_hub (\<lambda>w. resyncAll rooms (if ln_reconnecting x then clearPendingNotify (w_hub w) else w_hub w)) x)"
    using view_hub [OF nudged(3)] hub_ok_same_queue [OF _ ext] nudged(3) by (simp add: listener_ok_def)
  then show ?case
    using nudged(1) by (simp add: nudge_def listener_ok_def view_def floor_of_def with_hub_def)
next
  case (handled x r i q)
  have "hub_ok ((view x)\<lparr> w_queue := q, w_hub := handleNotify r i (w_events (view x)) (w_hub (view x)) \<rparr>)"
    by (rule hub_ok_notify) (use handled in \<open>simp_all add: listener_ok_def view_def\<close>)
  then show ?case
    using handled by (simp add: listener_ok_def view_def floor_of_def rebase_notify)
next
  case (lost x connected_for)
  have "hub_ok ((ln_world x)\<lparr> w_hub := rebase (floor_of x) (w_hub (ln_world x)) \<rparr>)" using lost(2) by (simp add: listener_ok_def view_def)
  from hub_ok_forget [OF this] show ?case
    using lost(2) sleepBackoff_bounds [of "backoff_after_loss connected_for (ln_backoff x)"] backoff_after_bounds [of "ln_backoff x" connected_for]
    by (simp add: listener_ok_def view_def floor_of_def lose_session_def)
next
  case (committed e x)
  have after: "hub_ok (commit_event e (view x))"
    by (rule hub_ok_commit) (use committed in \<open>simp_all add: listener_ok_def view_def\<close>)
  show ?case
  proof (cases "ln_session x = Lost")
    case False
    then have "view (commit_row e x) = commit_event e (view x)"
      by (intro world.equality) (simp_all add: view_def floor_of_def commit_row_def commit_event_def Let_def)
    then show ?thesis using False after committed(2) by (simp add: listener_ok_def) (simp add: commit_row_def Let_def)
  next
    case True
    let ?w = "(ln_world x)\<lparr> w_events := w_events (ln_world x) @ [e], w_queue := [(ev_room e, ev_id e)] \<rparr>"
    have "hub_ok (?w\<lparr> w_hub := rebase (floor_of x) (w_hub (ln_world x)) \<rparr>)"
    proof -
      have "commit_event e (view x) = ?w\<lparr> w_hub := rebase (floor_of x) (w_hub (ln_world x)) \<rparr>"
        using True committed(2) by (intro world.equality) (simp_all add: listener_ok_def commit_event_def view_def)
      with after show ?thesis by simp
    qed
    from hub_ok_forget [OF this]
    have "hub_ok (?w\<lparr> w_queue := [], w_hub := rebase (length (w_events (ln_world x) @ [e])) (w_hub (ln_world x)) \<rparr>)" by simp
    moreover have "view (commit_row e x) = ?w\<lparr> w_queue := [], w_hub := rebase (length (w_events (ln_world x) @ [e])) (w_hub (ln_world x)) \<rparr>"
      using True committed(2) by (intro world.equality) (simp_all add: listener_ok_def view_def floor_of_def commit_row_def Let_def)
    ultimately show ?thesis
      using True committed(2) by (simp add: listener_ok_def) (simp add: commit_row_def Let_def)
  qed
next
  case (subscribed x sid r)
  have floor: "floor_of x \<le> length (w_events (ln_world x))" using subscribed by (simp add: listener_ok_def floor_of_def)
  have "hub_ok (view x)" using subscribed by (simp add: listener_ok_def)
  from hub_ok_step [OF hub_step.subscribe this, of sid r] show ?case
    by (intro view_hub [OF subscribed]) (simp add: view_def rebase_register [OF floor, symmetric])
next
  case (floored x ok r n)
  have "hub_ok (view x)" using floored by (simp add: listener_ok_def)
  from hub_ok_step [OF hub_step.init_floor this, of ok r n] show ?case
    by (intro view_hub [OF floored]) (simp add: view_def rebase_init_floor)
next
  case (unsubscribed x sid r)
  have "hub_ok (view x)" using unsubscribed by (simp add: listener_ok_def)
  from hub_ok_step [OF hub_step.unsubscribe this, of sid r] show ?case
    by (intro view_hub [OF unsubscribed]) (simp add: view_def rebase_unsubscribe)
next
  case (frame_read x sid)
  have "hub_ok (view x)" using frame_read by (simp add: listener_ok_def)
  from hub_ok_step [OF hub_step.reads this, of sid] show ?case
    by (intro view_hub [OF frame_read]) (simp add: view_def rebase_read)
qed

lemma listener_ok_run: "runListener\<^sup>*\<^sup>* x y \<Longrightarrow> initial_listener x \<Longrightarrow> listener_ok y"
proof (induction rule: rtranclp_induct)
  case base
  have "rebase n NewHub = NewHub" for n by (simp add: rebase_def NewHub_def)
  then have "initial_world (view x)" using base by (simp add: initial_listener_def initial_world_def view_def)
  then show ?case
    using base hub_ok_initial by (simp add: initial_listener_def initial_world_def listener_ok_def initialBackoff_def maxBackoff_def Second_def)
qed (auto intro: listener_ok_step)

section \<open>Lost notifications\<close>

lemma dispatch_own: "hub_subs (dispatchLocal r f h) r = map (send_frame f) (filter (\<lambda>s. \<not> channel_full s) (hub_subs h r))"
  by (simp add: dispatchLocal_def Let_def pruneRoomLocked_def)

lemma dispatch_other: "r' \<noteq> r \<Longrightarrow> hub_subs (dispatchLocal r f h) r' = hub_subs h r'"
  by (simp add: dispatchLocal_def Let_def pruneRoomLocked_def)

lemma resync_other: "r \<notin> set rooms \<Longrightarrow> hub_subs (resyncAll rooms h) r = hub_subs h r"
  by (induction rooms arbitrary: h) (auto simp: resyncAll_def dispatch_other)

lemma resync_own:
  "distinct rooms \<Longrightarrow> r \<in> set rooms \<Longrightarrow>
   hub_subs (resyncAll rooms h) r = map (send_frame resyncFrame) (filter (\<lambda>s. \<not> channel_full s) (hub_subs h r))"
proof (induction rooms arbitrary: h)
  case (Cons q rooms)
  have step: "resyncAll (q # rooms) h = resyncAll rooms (dispatchLocal q resyncFrame h)" by (simp add: resyncAll_def)
  show ?case
  proof (cases "r = q")
    case True
    then show ?thesis using Cons.prems by (simp add: step resync_other dispatch_own)
  next
    case False
    then show ?thesis using Cons by (simp add: step dispatch_other)
  qed
qed simp

lemma nudge_last:
  assumes "live_rooms (w_hub (ln_world x)) rooms" "s \<in> set (hub_subs (w_hub (ln_world (nudge rooms x))) r)"
  shows "sub_sent s \<noteq> [] \<and> last (sub_sent s) = resyncFrame"
proof -
  let ?h = "if ln_reconnecting x then clearPendingNotify (w_hub (ln_world x)) else w_hub (ln_world x)"
  have same: "hub_subs ?h = hub_subs (w_hub (ln_world x))" by (simp add: clearPendingNotify_def)
  have in': "s \<in> set (hub_subs (resyncAll rooms ?h) r)" using assms(2) by (simp add: nudge_def with_hub_def)
  show ?thesis
  proof (cases "r \<in> set rooms")
    case True
    then show ?thesis using resync_own [of rooms r ?h] in' assms(1) by (auto simp: live_rooms_def)
  next
    case False
    then have "hub_subs (w_hub (ln_world x)) r = []" using assms(1) by (auto simp: live_rooms_def)
    then show ?thesis using resync_other [OF False, of ?h] in' same by simp
  qed
qed


text \<open>A subscriber is there while event 7 commits and no session is up; the session that comes up nudges it.\<close>

definition demo_listener :: listener where
  "demo_listener = confirm (commit_row (demo_event 7) (with_hub (\<lambda>w. snd (subscribe_register 1 0 ''poll:p'' NewHub))
     \<lparr> ln_world = \<lparr> w_events = [], w_queue = [], w_hub = NewHub \<rparr>, ln_session = Lost, ln_reconnecting = False,
       ln_backoff = initialBackoff, ln_synced = 0 \<rparr>))"

lemma demo_listener_run:
  "\<exists>x0. initial_listener x0 \<and> runListener\<^sup>*\<^sup>* x0 demo_listener"
proof -
  let ?x0 = "\<lparr> ln_world = \<lparr> w_events = [], w_queue = [], w_hub = NewHub \<rparr>, ln_session = Lost, ln_reconnecting = False,
       ln_backoff = initialBackoff, ln_synced = 0 \<rparr>"
  let ?x1 = "with_hub (\<lambda>w. snd (subscribe_register 1 0 ''poll:p'' NewHub)) ?x0"
  have 1: "runListener ?x0 ?x1"
    using runListener.subscribed [of ?x0 1 "''poll:p''"] by (simp add: with_hub_def)
  have 2: "runListener ?x1 (commit_row (demo_event 7) ?x1)"
    by (rule runListener.committed) (simp add: with_hub_def)
  have 3: "runListener (commit_row (demo_event 7) ?x1) demo_listener"
    unfolding demo_listener_def by (rule runListener.dial) (simp add: with_hub_def commit_row_def)
  have "initial_listener ?x0" by (simp add: initial_listener_def initial_world_def)
  with 1 2 3 show ?thesis by (meson converse_rtranclp_into_rtranclp rtranclp.rtrancl_refl)
qed


end
