(* ===== verification/WsConn.thy ===== *)
theory WsConn
  imports Presence "HOL-Library.Sublist"
begin

text \<open>
  One websocket connection (\<^verbatim>\<open>internal/rooms/ws.go\<close>) beside everything else that happens to the hub and its database:
  \<open>ServeWS\<close> subscribes, joins, labels and writes the snapshot, writes the backfill and then pumps live frames, and the
  registry of open connections at shutdown. The fields \<open>cn_from\<close>, \<open>cn_seen\<close>, \<open>cn_caught\<close> and \<open>cn_head\<close> are history
  variables: how many events were committed when the connection subscribed, when its snapshot was read and when its
  backfill was read, and what it had been sent by then.
\<close>

section \<open>Frames and requests\<close>

datatype 'v ws_frame = snapshotFrame int "'v option" | EventFrame json | Pong

text \<open>\<open>Some n\<close>: the request asks for a backfill after \<open>n\<close>.\<close>

definition parseSinceParam :: "string \<Rightarrow> int option" where
  "parseSinceParam raw =
     (if raw = [] then None
      else (case ParseInt raw of None \<Rightarrow> None | Some n \<Rightarrow> if n < 0 then None else Some n))"

datatype authz_error = WsUnauthorized | WsForbidden | WsNotFound | WsOther

definition statusForAuthzErr :: "authz_error \<Rightarrow> nat \<times> string" where
  "statusForAuthzErr e = (case e of WsUnauthorized \<Rightarrow> (401, ''unauthorized'') | WsNotFound \<Rightarrow> (404, ''not_found'')
     | _ \<Rightarrow> (403, ''forbidden''))"

definition currentSeq :: "string \<Rightarrow> Event list \<Rightarrow> int" where
  "currentSeq room evs = fold max (map ev_id (filter (\<lambda>e. ev_room e = room) evs)) 0"

text \<open>The read side answers a ping and ignores everything else; \<open>msg\<close> is the message, if it is JSON.\<close>

definition readPumpLoop :: "json option \<Rightarrow> 'v ws_frame list" where
  "readPumpLoop msg = (case msg of
      Some (JObj fs) \<Rightarrow> if map_of fs ''type'' = Some (JStr ''ping'') then [Pong] else []
    | _ \<Rightarrow> [])"

text \<open>The write side: the next frame of the channel, or the close code for a channel that was closed.\<close>

definition writePumpLoop :: "subscriber option \<Rightarrow> nat + 'v ws_frame list" where
  "writePumpLoop channel = (case channel of
      None \<Rightarrow> Inl 1008
    | Some s \<Rightarrow> Inr (if sub_read s < length (sub_sent s) then [EventFrame (sub_sent s ! sub_read s)] else []))"

section \<open>The connection\<close>

datatype phase = Upgraded | Listening | Joined | Labelled int | Greeted | Streaming | Ended nat

record 'v conn =
  cn_sub :: nat
  cn_room :: string
  cn_since :: "int option"
  cn_phase :: phase
  cn_out :: "'v ws_frame list"
  cn_from :: nat
  cn_seen :: nat
  cn_caught :: nat
  cn_head :: "'v ws_frame list"

definition subscribed :: "nat \<Rightarrow> Hub \<Rightarrow> bool" where
  "subscribed sid h \<longleftrightarrow> (\<exists>r. \<exists>s \<in> set (hub_subs h r). sub_id s = sid)"

definition backfill_frames :: "string \<Rightarrow> int option \<Rightarrow> Event list \<Rightarrow> 'v ws_frame list" where
  "backfill_frames room since evs =
     (case since of None \<Rightarrow> [] | Some k \<Rightarrow> map (\<lambda>e. EventFrame (Frame e)) (EventsSince room k evs))"

text \<open>What else happens: commits, notifications, and other connections, whose ids are not \<open>sid\<close>.\<close>

inductive background :: "nat \<Rightarrow> world \<Rightarrow> world \<Rightarrow> bool" for sid where
  commit: "ev_id e \<notin> ev_id ` set (w_events w) \<Longrightarrow> background sid w (commit_event e w)"
| notify: "w_queue w = (r, i) # q \<Longrightarrow>
     background sid w (w\<lparr> w_queue := q, w_hub := handleNotify r i (w_events w) (w_hub w) \<rparr>)"
| subscribe: "other \<noteq> sid \<Longrightarrow>
     background sid w (w\<lparr> w_hub := snd (subscribe_register other (length (w_events w)) r (w_hub w)) \<rparr>)"
| init_floor: "background sid w (w\<lparr> w_hub := initWatermarkFloor ok r (take n (w_events w)) (w_hub w) \<rparr>)"
| unsubscribe: "other \<noteq> sid \<Longrightarrow> background sid w (w\<lparr> w_hub := unsubscribe other r (w_hub w) \<rparr>)"
| reads: "other \<noteq> sid \<Longrightarrow> background sid w (w\<lparr> w_hub := read_frame other (w_hub w) \<rparr>)"

text \<open>
  \<open>ServeWS\<close> with presence on or off. The snapshot's content \<open>v\<close> is left open. A dropped subscriber's channel is closed; what
  was left in it (\<open>rest\<close>) is written before the close frame, and the hub model does not keep it. Any failure, the client
  leaving, a missed ping and the end of the server all end the connection and unsubscribe it.
\<close>

inductive ws_step :: "bool \<Rightarrow> world \<times> 'v conn \<Rightarrow> world \<times> 'v conn \<Rightarrow> bool" for presence where
  elsewhere: "background (cn_sub c) w w' \<Longrightarrow> ws_step presence (w, c) (w', c)"
| listen: "cn_phase c = Upgraded \<Longrightarrow> \<not> subscribed (cn_sub c) (w_hub w) \<Longrightarrow>
     ws_step presence (w, c)
       (w\<lparr> w_hub := snd (subscribe_register (cn_sub c) (length (w_events w)) (cn_room c) (w_hub w)) \<rparr>,
        c\<lparr> cn_phase := Listening, cn_from := length (w_events w) \<rparr>)"
| join: "cn_phase c = Listening \<Longrightarrow> presence \<Longrightarrow> i \<notin> ev_id ` set (w_events w) \<Longrightarrow>
     ws_step presence (w, c) (commit_event (BroadcastPresenceTotal i (cn_room c) rows) w, c\<lparr> cn_phase := Joined \<rparr>)"
| join_silent: "cn_phase c = Listening \<Longrightarrow> ws_step presence (w, c) (w, c\<lparr> cn_phase := Joined \<rparr>)"
| label: "cn_phase c = Joined \<Longrightarrow>
     ws_step presence (w, c) (w, c\<lparr> cn_phase := Labelled (currentSeq (cn_room c) (w_events w)) \<rparr>)"
| greet: "cn_phase c = Labelled seq \<Longrightarrow>
     ws_step presence (w, c) (w, c\<lparr> cn_phase := Greeted, cn_out := [snapshotFrame seq v], cn_seen := length (w_events w) \<rparr>)"
| catch_up: "cn_phase c = Greeted \<Longrightarrow> out = cn_out c @ backfill_frames (cn_room c) (cn_since c) (w_events w) \<Longrightarrow>
     ws_step presence (w, c)
       (w, c\<lparr> cn_phase := Streaming, cn_out := out, cn_caught := length (w_events w), cn_head := out \<rparr>)"
| pump: "cn_phase c = Streaming \<Longrightarrow> s \<in> set (hub_subs (w_hub w) (cn_room c)) \<Longrightarrow> sub_id s = cn_sub c \<Longrightarrow>
     sub_read s < length (sub_sent s) \<Longrightarrow> writePumpLoop (Some s) = Inr fs \<Longrightarrow>
     ws_step presence (w, c) (w\<lparr> w_hub := read_frame (cn_sub c) (w_hub w) \<rparr>, c\<lparr> cn_out := cn_out c @ fs \<rparr>)"
| pong: "cn_phase c = Streaming \<Longrightarrow> ws_step presence (w, c) (w, c\<lparr> cn_out := cn_out c @ readPumpLoop msg \<rparr>)"
| dropped: "cn_phase c = Streaming \<Longrightarrow> \<not> subscribed (cn_sub c) (w_hub w) \<Longrightarrow> writePumpLoop None = (Inl code :: nat + 'v ws_frame list) \<Longrightarrow>
     ws_step presence (w, c) (w, c\<lparr> cn_phase := Ended code, cn_out := cn_out c @ map EventFrame rest \<rparr>)"
| leave: "ws_step presence (w, c) (w\<lparr> w_hub := unsubscribe (cn_sub c) (cn_room c) (w_hub w) \<rparr>, c\<lparr> cn_phase := Ended code \<rparr>)"

definition new_conn :: "nat \<Rightarrow> string \<Rightarrow> int option \<Rightarrow> 'v conn" where
  "new_conn sid room since = \<lparr> cn_sub = sid, cn_room = room, cn_since = since, cn_phase = Upgraded, cn_out = [],
     cn_from = 0, cn_seen = 0, cn_caught = 0, cn_head = [] \<rparr>"

section \<open>How subscribers change\<close>

text \<open>Every list of subscribers comes from the old one by dropping some and sending frames to others.\<close>

definition carries :: "(subscriber \<Rightarrow> subscriber) \<Rightarrow> bool" where
  "carries g \<longleftrightarrow> (\<forall>s. sub_id (g s) = sub_id s \<and> sub_read (g s) = sub_read s \<and> sub_since (g s) = sub_since s \<and>
     (\<exists>fs. sub_sent (g s) = sub_sent s @ fs))"

definition evolves :: "Hub \<Rightarrow> Hub \<Rightarrow> bool" where
  "evolves h h' \<longleftrightarrow> (\<forall>r. \<exists>p g. carries g \<and> hub_subs h' r = map g (filter p (hub_subs h r)))"

lemma carries_id [simp]: "carries (\<lambda>s. s)" "carries id"
  by (simp_all add: carries_def)

lemma carries_comp:
  assumes "carries g" "carries f"
  shows "carries (f \<circ> g)"
  unfolding carries_def
proof (intro allI conjI)
  fix s
  obtain fs gs where "sub_sent (g s) = sub_sent s @ gs" "sub_sent (f (g s)) = sub_sent (g s) @ fs"
    using assms unfolding carries_def by metis
  then show "\<exists>fs. sub_sent ((f \<circ> g) s) = sub_sent s @ fs" by auto
qed (use assms in \<open>simp_all add: carries_def\<close>)

lemma evolves_same: "hub_subs h' = hub_subs h \<Longrightarrow> evolves h h'"
  unfolding evolves_def by (intro allI exI [of _ "\<lambda>_. True"] exI [of _ "\<lambda>s. s"]) simp

lemma evolves_trans:
  assumes "evolves h1 h2" "evolves h2 h3"
  shows "evolves h1 h3"
  unfolding evolves_def
proof
  fix r
  obtain p g where a: "carries g" "hub_subs h2 r = map g (filter p (hub_subs h1 r))"
    using assms(1) unfolding evolves_def by blast
  obtain q f where b: "carries f" "hub_subs h3 r = map f (filter q (hub_subs h2 r))"
    using assms(2) unfolding evolves_def by blast
  have "hub_subs h3 r = map (f \<circ> g) (filter (\<lambda>x. p x \<and> q (g x)) (hub_subs h1 r))"
    by (simp add: a b filter_map o_def conj_commute)
  with carries_comp [OF a(1) b(1)]
  show "\<exists>p g. carries g \<and> hub_subs h3 r = map g (filter p (hub_subs h1 r))" by blast
qed

lemma evolves_room:
  assumes "carries g" "\<And>r'. r' \<noteq> r \<Longrightarrow> hub_subs h' r' = hub_subs h r'" "hub_subs h' r = map g (filter p (hub_subs h r))"
  shows "evolves h h'"
  unfolding evolves_def
proof
  fix r'
  show "\<exists>p g. carries g \<and> hub_subs h' r' = map g (filter p (hub_subs h r'))"
  proof (cases "r' = r")
    case False
    then show ?thesis using assms(2) carries_id(1) by (intro exI [of _ "\<lambda>_. True"] exI [of _ "\<lambda>s. s"]) simp
  qed (use assms in blast)
qed

lemma evolves_dispatch: "evolves h (dispatchLocal r f h)"
proof -
  have "carries (send_frame f)" by (simp add: carries_def)
  then show ?thesis
    by (rule evolves_room [of _ r _ _ "\<lambda>s. \<not> channel_full s"]) (simp_all add: dispatchLocal_def Let_def pruneRoomLocked_def)
qed

lemma evolves_deliver_row: "evolves h (deliver_row r trig e h)"
  unfolding deliver_row_def
  by (rule evolves_trans [OF evolves_same evolves_dispatch]) simp

lemma evolves_fold: "evolves h (fold (deliver_row r trig) rows h)"
proof (induction rows arbitrary: h)
  case (Cons e rows)
  from evolves_trans [OF evolves_deliver_row Cons.IH] show ?case by simp
qed (simp add: evolves_same)

lemma evolves_floor: "evolves h h' \<Longrightarrow> evolves h (establishWatermarkFloor r i h')"
  by (rule evolves_trans [OF _ evolves_same]) simp_all

lemma evolves_exact: "evolves h (deliverExact r i evs h)"
  by (simp add: deliverExact_def evolves_same evolves_dispatch split: option.split)

lemma evolves_notify: "evolves h (handleNotify r i evs h)"
proof -
  have late: "evolves h (deliverLateCommitter r i evs h)"
  proof -
    obtain b h' where c: "consumePending r i h = (b, h')" by fastforce
    then have "evolves h h'" using consumePending_cases [OF c] by (intro evolves_same) simp
    then show ?thesis using evolves_trans [OF _ evolves_exact] c by (simp add: deliverLateCommitter_def split: bool.split)
  qed
  moreover have "evolves h (deliverSince r w i evs h)" for w
    by (simp add: deliverSince_def Let_def evolves_floor evolves_fold)
  ultimately show ?thesis
    by (simp add: handleNotify_def evolves_floor evolves_same evolves_exact split: option.split)
qed

lemma evolves_unsubscribe: "evolves h (unsubscribe sid r h)"
  by (rule evolves_room [of "\<lambda>s. s" r _ _ "\<lambda>s. sub_id s \<noteq> sid"])
    (simp_all add: unsubscribe_def Let_def pruneRoomLocked_def)

section \<open>The connection's own subscriber\<close>

definition own_subs :: "nat \<Rightarrow> Hub \<Rightarrow> string \<Rightarrow> subscriber list" where
  "own_subs sid h r = filter (\<lambda>s. sub_id s = sid) (hub_subs h r)"

lemma own_evolves:
  assumes "evolves h h'"
  shows "\<exists>p g. carries g \<and> own_subs sid h' r = map g (filter p (own_subs sid h r))"
proof -
  obtain p g where g: "carries g" "hub_subs h' r = map g (filter p (hub_subs h r))"
    using assms unfolding evolves_def by blast
  have "own_subs sid h' r = map g (filter p (own_subs sid h r))"
    using g(1) by (simp add: own_subs_def g(2) filter_map o_def carries_def conj_commute)
  with g(1) show ?thesis by blast
qed

text \<open>What the other moves do to the own subscriber: it may go, and it may be sent frames.\<close>

definition follows :: "nat \<Rightarrow> Hub \<Rightarrow> Hub \<Rightarrow> bool" where
  "follows sid h h' \<longleftrightarrow> (\<forall>r. \<exists>p g. carries g \<and> own_subs sid h' r = map g (filter p (own_subs sid h r)))"

lemma follows_evolves: "evolves h h' \<Longrightarrow> follows sid h h'"
  by (simp add: follows_def own_evolves)

lemma follows_eq: "(\<And>r. own_subs sid h' r = own_subs sid h r) \<Longrightarrow> follows sid h h'"
  unfolding follows_def by (intro allI exI [of _ "\<lambda>_. True"] exI [of _ "\<lambda>s. s"]) simp

lemma own_register: "other \<noteq> sid \<Longrightarrow> own_subs sid (snd (subscribe_register other n r h)) r' = own_subs sid h r'"
  by (simp add: own_subs_def subscribe_register_def)

lemma own_read: "other \<noteq> sid \<Longrightarrow> own_subs sid (read_frame other h) r = own_subs sid h r"
proof -
  assume "other \<noteq> sid"
  then have "filter (\<lambda>s. sub_id s = sid) (map (\<lambda>s. if sub_id s = other \<and> sub_read s < length (sub_sent s) then s\<lparr> sub_read := sub_read s + 1 \<rparr> else s) xs) =
      filter (\<lambda>s. sub_id s = sid) xs" for xs
    by (induction xs) auto
  then show ?thesis by (simp add: own_subs_def read_frame_def)
qed

lemma background_follows:
  assumes "background sid w w'"
  shows "follows sid (w_hub w) (w_hub w') \<and> (\<exists>evs. w_events w' = w_events w @ evs)"
  using assms
proof cases
  case (commit e)
  then show ?thesis by (simp add: commit_event_def follows_evolves evolves_same)
next
  case (notify r i q)
  then show ?thesis by (simp add: follows_evolves evolves_notify)
next
  case (subscribe other r)
  then show ?thesis by (simp add: follows_eq own_register)
next
  case (init_floor ok r n)
  then show ?thesis by (simp add: follows_evolves evolves_same initWatermarkFloor_def)
next
  case (unsubscribe other r)
  then show ?thesis by (simp add: follows_evolves evolves_unsubscribe)
next
  case (reads other)
  then show ?thesis by (simp add: follows_eq own_read)
qed

lemma background_hub_step: "background sid w w' \<Longrightarrow> hub_step w w'"
  by (induction rule: background.induct) (auto intro: hub_step.intros)

section \<open>The invariant\<close>

definition is_pong :: "'v ws_frame \<Rightarrow> bool" where
  "is_pong f \<longleftrightarrow> f = Pong"

definition said :: "'v conn \<Rightarrow> 'v ws_frame list" where
  "said c = filter (\<lambda>f. \<not> is_pong f) (cn_out c)"

text \<open>What a subscriber of the connection looks like in each phase.\<close>

definition sub_fits :: "'v conn \<Rightarrow> subscriber \<Rightarrow> bool" where
  "sub_fits c s \<longleftrightarrow> sub_since s = cn_from c \<and> sub_read s \<le> length (sub_sent s) \<and>
     (if cn_phase c = Streaming then said c = cn_head c @ map EventFrame (take (sub_read s) (sub_sent s)) else sub_read s = 0)"

definition greeted :: "'v conn \<Rightarrow> Event list \<Rightarrow> bool" where
  "greeted c evs \<longleftrightarrow> (case cn_phase c of
      Upgraded \<Rightarrow> True
    | Listening \<Rightarrow> cn_from c \<le> length evs
    | Joined \<Rightarrow> cn_from c \<le> length evs
    | Labelled _ \<Rightarrow> cn_from c \<le> length evs
    | Greeted \<Rightarrow> cn_from c \<le> cn_seen c \<and> cn_seen c \<le> length evs \<and> (\<exists>seq v. cn_out c = [snapshotFrame seq v])
    | Streaming \<Rightarrow> cn_from c \<le> cn_seen c \<and> cn_seen c \<le> cn_caught c \<and> cn_caught c \<le> length evs \<and>
        (\<exists>seq v. cn_head c = snapshotFrame seq v # backfill_frames (cn_room c) (cn_since c) (take (cn_caught c) evs))
    | Ended _ \<Rightarrow> True)"

definition conn_ok :: "world \<times> 'v conn \<Rightarrow> bool" where
  "conn_ok = (\<lambda>(w, c). hub_ok w \<and> greeted c (w_events w) \<and>
     (case cn_phase c of
        Upgraded \<Rightarrow> True
      | Ended _ \<Rightarrow> True
      | _ \<Rightarrow> length (own_subs (cn_sub c) (w_hub w) (cn_room c)) \<le> 1 \<and>
          (\<forall>s \<in> set (own_subs (cn_sub c) (w_hub w) (cn_room c)). sub_fits c s)))"

lemma sub_fits_carries: "carries g \<Longrightarrow> sub_fits c s \<Longrightarrow> sub_fits c (g s)"
proof -
  assume g: "carries g" and fits: "sub_fits c s"
  obtain fs where "sub_sent (g s) = sub_sent s @ fs" using g unfolding carries_def by metis
  then show ?thesis using g fits by (auto simp: sub_fits_def carries_def)
qed

lemma greeted_more: "greeted c evs \<Longrightarrow> greeted c (evs @ later)"
  by (auto simp: greeted_def split: phase.splits)

lemma conn_ok_follows:
  assumes ok: "conn_ok (w, c)" and hub: "hub_ok w'" and f: "follows (cn_sub c) (w_hub w) (w_hub w')"
    and evs: "w_events w' = w_events w @ later"
  shows "conn_ok (w', c)"
proof -
  obtain p g where g: "carries g" "own_subs (cn_sub c) (w_hub w') (cn_room c) = map g (filter p (own_subs (cn_sub c) (w_hub w) (cn_room c)))"
    using f unfolding follows_def by blast
  let ?old = "own_subs (cn_sub c) (w_hub w) (cn_room c)" and ?new = "own_subs (cn_sub c) (w_hub w') (cn_room c)"
  have len: "length ?new \<le> length ?old" by (simp add: g(2))
  have fits: "\<forall>s \<in> set ?new. sub_fits c s" if "\<forall>s \<in> set ?old. sub_fits c s"
    using that by (auto simp: g(2) intro: sub_fits_carries [OF g(1)])
  show ?thesis
    using ok hub len fits greeted_more [of c "w_events w" later]
    by (auto simp: conn_ok_def evs split: phase.splits)
qed

lemma conn_okD:
  assumes "conn_ok (w, c)" "cn_phase c \<noteq> Upgraded" "\<And>n. cn_phase c \<noteq> Ended n"
  shows "hub_ok w" "greeted c (w_events w)" "length (own_subs (cn_sub c) (w_hub w) (cn_room c)) \<le> 1"
    and "s \<in> set (own_subs (cn_sub c) (w_hub w) (cn_room c)) \<Longrightarrow> sub_fits c s"
  using assms by (auto simp: conn_ok_def split: phase.splits)

lemma conn_okI:
  assumes "hub_ok w" "greeted c (w_events w)" "length (own_subs (cn_sub c) (w_hub w) (cn_room c)) \<le> 1"
    and "\<And>s. s \<in> set (own_subs (cn_sub c) (w_hub w) (cn_room c)) \<Longrightarrow> sub_fits c s"
  shows "conn_ok (w, c)"
  using assms by (auto simp: conn_ok_def split: phase.splits)

lemma conn_ok_ended: "hub_ok w \<Longrightarrow> cn_phase c = Ended n \<Longrightarrow> conn_ok (w, c)"
  by (simp add: conn_ok_def greeted_def)

lemma conn_ok_listen:
  assumes ok: "conn_ok (w, c)" and "cn_phase c = Upgraded" and fresh: "\<not> subscribed (cn_sub c) (w_hub w)"
  shows "conn_ok (w\<lparr> w_hub := snd (subscribe_register (cn_sub c) (length (w_events w)) (cn_room c) (w_hub w)) \<rparr>,
        c\<lparr> cn_phase := Listening, cn_from := length (w_events w) \<rparr>)"
proof -
  have "own_subs (cn_sub c) (w_hub w) (cn_room c) = []"
    using fresh by (auto simp: own_subs_def subscribed_def filter_empty_conv)
  then have "own_subs (cn_sub c) (snd (subscribe_register (cn_sub c) (length (w_events w)) (cn_room c) (w_hub w))) (cn_room c) =
      [\<lparr> sub_id = cn_sub c, sub_sent = [], sub_read = 0, sub_since = length (w_events w) \<rparr>]"
    by (simp add: own_subs_def subscribe_register_def)
  moreover have "hub_ok w" using ok by (simp add: conn_ok_def)
  ultimately show ?thesis
    by (intro conn_okI) (simp_all add: hub_ok_subscribe greeted_def sub_fits_def)
qed

lemma conn_ok_commit:
  assumes "conn_ok (w, c)" "ev_id e \<notin> ev_id ` set (w_events w)"
  shows "conn_ok (commit_event e w, c)"
proof -
  have hub: "hub_ok w" using assms(1) by (simp add: conn_ok_def)
  show ?thesis
    by (rule conn_ok_follows [OF assms(1) hub_ok_commit [OF hub assms(2)]])
      (simp_all add: commit_event_def follows_eq)
qed

text \<open>Moves before the live loop that touch the connection only.\<close>

lemma conn_ok_phase:
  assumes ok: "conn_ok (w, c)" and "cn_phase c \<notin> {Upgraded, Streaming}" "\<And>n. cn_phase c \<noteq> Ended n"
    and same: "cn_sub c' = cn_sub c" "cn_room c' = cn_room c" "cn_from c' = cn_from c" "cn_phase c' \<noteq> Streaming"
    and "greeted c' (w_events w)"
  shows "conn_ok (w, c')"
proof -
  have "sub_fits c' s" if "sub_fits c s" for s
    using that assms(2) same by (simp add: sub_fits_def)
  then show ?thesis
    using conn_okD [OF ok _ assms(3)] assms(2,8) same by (intro conn_okI) auto
qed

lemma conn_ok_catch_up:
  assumes ok: "conn_ok (w, c)" and ph: "cn_phase c = Greeted"
    and out: "out = cn_out c @ backfill_frames (cn_room c) (cn_since c) (w_events w)"
  shows "conn_ok (w, c\<lparr> cn_phase := Streaming, cn_out := out, cn_caught := length (w_events w), cn_head := out \<rparr>)"
proof -
  note d = conn_okD [OF ok, simplified ph, simplified]
  obtain seq v where head: "cn_out c = [snapshotFrame seq v]" and b: "cn_from c \<le> cn_seen c" "cn_seen c \<le> length (w_events w)"
    using d(2) by (auto simp: greeted_def ph)
  have pongless: "\<not> is_pong (snapshotFrame seq v)"
      "filter (\<lambda>f. \<not> is_pong f) (backfill_frames r k evs) = backfill_frames r k evs" for r k evs
    by (auto simp: is_pong_def backfill_frames_def filter_map o_def split: option.split)
  show ?thesis
  proof (rule conn_okI)
    show "hub_ok w" by (rule d(1))
    show "greeted (c\<lparr> cn_phase := Streaming, cn_out := out, cn_caught := length (w_events w), cn_head := out \<rparr>) (w_events w)"
      using b by (simp add: greeted_def out head)
  qed (use d(3,4) ph in \<open>auto simp: sub_fits_def said_def out head pongless\<close>)
qed

lemma conn_ok_pump:
  assumes ok: "conn_ok (w, c)" and ph: "cn_phase c = Streaming"
    and s: "s \<in> set (hub_subs (w_hub w) (cn_room c))" "sub_id s = cn_sub c" "sub_read s < length (sub_sent s)"
  shows "conn_ok (w\<lparr> w_hub := read_frame (cn_sub c) (w_hub w) \<rparr>, c\<lparr> cn_out := cn_out c @ [EventFrame (sub_sent s ! sub_read s)] \<rparr>)"
proof -
  note d = conn_okD [OF ok, simplified ph, simplified]
  have "s \<in> set (own_subs (cn_sub c) (w_hub w) (cn_room c))" using s by (simp add: own_subs_def)
  with d(3) have one: "own_subs (cn_sub c) (w_hub w) (cn_room c) = [s]"
    by (cases "own_subs (cn_sub c) (w_hub w) (cn_room c)") auto
  have bump: "filter (\<lambda>x. sub_id x = k) (map (\<lambda>x. if sub_id x = k \<and> sub_read x < length (sub_sent x) then x\<lparr> sub_read := sub_read x + 1 \<rparr> else x) xs) =
      map (\<lambda>x. if sub_read x < length (sub_sent x) then x\<lparr> sub_read := sub_read x + 1 \<rparr> else x) (filter (\<lambda>x. sub_id x = k) xs)" for k xs
    by (induction xs) auto
  have after: "own_subs (cn_sub c) (read_frame (cn_sub c) (w_hub w)) (cn_room c) = [s\<lparr> sub_read := sub_read s + 1 \<rparr>]"
    using one s(3) by (simp add: own_subs_def read_frame_def bump)
  have fits: "sub_fits c s" using d(4) one by simp
  have "sub_fits (c\<lparr> cn_out := cn_out c @ [EventFrame (sub_sent s ! sub_read s)] \<rparr>) (s\<lparr> sub_read := sub_read s + 1 \<rparr>)"
    using fits ph s(3) by (simp add: sub_fits_def said_def is_pong_def take_Suc_conv_app_nth)
  moreover have "hub_ok (w\<lparr> w_hub := read_frame (cn_sub c) (w_hub w) \<rparr>)"
    by (rule hub_ok_step [OF hub_step.reads d(1)])
  ultimately show ?thesis
    using d(2) ph by (intro conn_okI) (simp_all add: after greeted_def)
qed

lemma quiet_pongs: "filter (\<lambda>f. \<not> is_pong f) (readPumpLoop msg) = []"
  by (simp add: readPumpLoop_def is_pong_def split: option.split json.split)

lemma conn_ok_step:
  assumes "ws_step presence x y" "conn_ok x"
  shows "conn_ok y"
  using assms
proof (induction rule: ws_step.induct)
  case (elsewhere c w w')
  obtain evs where "follows (cn_sub c) (w_hub w) (w_hub w')" "w_events w' = w_events w @ evs"
    using background_follows [OF elsewhere(1)] by blast
  moreover have "hub_ok w'"
    using hub_ok_step [OF background_hub_step [OF elsewhere(1)]] elsewhere(2) by (simp add: conn_ok_def)
  ultimately show ?case by (intro conn_ok_follows [OF elsewhere(2)])
next
  case (join c i w rows)
  have after: "conn_ok (commit_event (BroadcastPresenceTotal i (cn_room c) rows) w, c)"
    using join by (intro conn_ok_commit) (simp_all add: BroadcastPresenceTotal_def)
  then show ?case
    by (rule conn_ok_phase) (use join conn_okD(2) [OF after] in \<open>simp_all add: greeted_def\<close>)
next
  case (join_silent c w)
  then show ?case
    by (intro conn_ok_phase [OF join_silent(2)]) (use conn_okD(2) [OF join_silent(2)] in \<open>simp_all add: greeted_def\<close>)
next
  case (label c w)
  then show ?case
    by (intro conn_ok_phase [OF label(2)]) (use conn_okD(2) [OF label(2)] in \<open>simp_all add: greeted_def\<close>)
next
  case (greet c seq w v)
  then show ?case
    by (intro conn_ok_phase [OF greet(2)]) (use conn_okD(2) [OF greet(2)] in \<open>simp_all add: greeted_def\<close>)
next
  case (pump c s w fs)
  then have "fs = [EventFrame (sub_sent s ! sub_read s)]" by (simp add: writePumpLoop_def)
  then show ?case using conn_ok_pump [OF pump(6,1,2,3,4)] by simp
next
  case (pong c w msg)
  note d = conn_okD [OF pong(2), simplified pong(1), simplified]
  show ?case
    using d pong(1) by (intro conn_okI) (auto simp: greeted_def sub_fits_def said_def quiet_pongs)
next
  case (leave w c code)
  then show ?case
    using hub_ok_step [OF hub_step.unsubscribe, of w "cn_sub c" "cn_room c"] by (intro conn_ok_ended) (simp_all add: conn_ok_def)
next
  case (dropped c w code rest)
  then show ?case by (intro conn_ok_ended) (simp_all add: conn_ok_def)
qed (simp_all add: conn_ok_listen conn_ok_catch_up)

lemma conn_ok_run:
  assumes "(ws_step presence)\<^sup>*\<^sup>* x y" "conn_ok x"
  shows "conn_ok y"
  using assms by (induction rule: rtranclp_induct) (auto intro: conn_ok_step)

lemma conn_ok_new: "initial_world w \<Longrightarrow> conn_ok (w, new_conn sid room since)"
  by (simp add: conn_ok_def hub_ok_initial greeted_def new_conn_def)

section \<open>What a client sees\<close>


text \<open>A client that asks for everything after 0: event 101 is in its backfill, and event 100, whose transaction commits later,
  reaches it live.\<close>

definition ws_worlds :: "nat \<Rightarrow> world" where
  "ws_worlds n =
     (let w0 = \<lparr> w_events = [], w_queue = [], w_hub = NewHub \<rparr>;
          w1 = commit_event (demo_event 101) w0;
          w2 = w1\<lparr> w_queue := [], w_hub := handleNotify ''poll:p'' 101 (w_events w1) (w_hub w1) \<rparr>;
          w3 = w2\<lparr> w_hub := snd (subscribe_register 1 1 ''poll:p'' (w_hub w2)) \<rparr>;
          w4 = commit_event (demo_event 100) w3;
          w5 = w4\<lparr> w_queue := [], w_hub := handleNotify ''poll:p'' 100 (w_events w4) (w_hub w4) \<rparr>;
          w6 = w5\<lparr> w_hub := read_frame 1 (w_hub w5) \<rparr>
      in [w0, w1, w2, w3, w4, w5, w6] ! n)"

definition ws_conns :: "nat \<Rightarrow> unit conn" where
  "ws_conns n =
     (let c0 = new_conn 1 ''poll:p'' (Some 0);
          c1 = c0\<lparr> cn_phase := Listening, cn_from := 1 \<rparr>;
          c2 = c1\<lparr> cn_phase := Joined \<rparr>;
          c3 = c2\<lparr> cn_phase := Labelled 101 \<rparr>;
          c4 = c3\<lparr> cn_phase := Greeted, cn_out := [snapshotFrame 101 None], cn_seen := 1 \<rparr>;
          out = [snapshotFrame 101 None, EventFrame (Frame (demo_event 101))];
          c5 = c4\<lparr> cn_phase := Streaming, cn_out := out, cn_caught := 1, cn_head := out \<rparr>;
          c6 = c5\<lparr> cn_out := out @ [EventFrame (Frame (demo_event 100))] \<rparr>
      in [c0, c1, c2, c3, c4, c5, c6] ! n)"

lemma ws_demo_values:
  "w_events (ws_worlds 3) = [demo_event 101]" "w_queue (ws_worlds 6) = []" "w_events (ws_worlds 6) = [demo_event 101, demo_event 100]"
  "hub_subs (w_hub (ws_worlds 5)) ''poll:p'' = [\<lparr> sub_id = 1, sub_sent = [Frame (demo_event 100)], sub_read = 0, sub_since = 1 \<rparr>]"
  "hub_subs (w_hub (ws_worlds 6)) ''poll:p'' = [\<lparr> sub_id = 1, sub_sent = [Frame (demo_event 100)], sub_read = 1, sub_since = 1 \<rparr>]"
  by code_simp+

lemma ws_demo_run: "(ws_step False)\<^sup>*\<^sup>* (ws_worlds 0, ws_conns 0) (ws_worlds 6, ws_conns 6)"
proof -
  have 1: "ws_step False (ws_worlds 0, ws_conns 0) (ws_worlds 1, ws_conns 0)"
    using ws_step.elsewhere [OF background.commit [of "demo_event 101" "ws_worlds 0"], of False]
    by (simp add: ws_worlds_def Let_def)
  have 2: "ws_step False (ws_worlds 1, ws_conns 0) (ws_worlds 2, ws_conns 0)"
    using ws_step.elsewhere [OF background.notify [of "ws_worlds 1" "''poll:p''" 101 "[]"], of False]
    by (simp add: ws_worlds_def Let_def commit_event_def demo_event_def)
  have 3: "ws_step False (ws_worlds 2, ws_conns 0) (ws_worlds 3, ws_conns 1)"
    using ws_step.listen [of "ws_conns 0" "ws_worlds 2" False]
    by (simp add: ws_worlds_def ws_conns_def Let_def new_conn_def subscribed_def handleNotify_def NewHub_def commit_event_def
        establishWatermarkFloor_def)
  have 4: "ws_step False (ws_worlds 3, ws_conns 1) (ws_worlds 3, ws_conns 2)"
    using ws_step.join_silent [of "ws_conns 1" False "ws_worlds 3"] by (simp add: ws_conns_def Let_def)
  have 5: "ws_step False (ws_worlds 3, ws_conns 2) (ws_worlds 3, ws_conns 3)"
    using ws_step.label [of "ws_conns 2" False "ws_worlds 3"]
    by (simp add: ws_demo_values currentSeq_def demo_event_def) (simp add: ws_conns_def new_conn_def Let_def)
  have 6: "ws_step False (ws_worlds 3, ws_conns 3) (ws_worlds 3, ws_conns 4)"
    using ws_step.greet [of "ws_conns 3" 101 False "ws_worlds 3" None]
    by (simp add: ws_demo_values) (simp add: ws_conns_def Let_def)
  have 7: "ws_step False (ws_worlds 3, ws_conns 4) (ws_worlds 3, ws_conns 5)"
    using ws_step.catch_up [of "ws_conns 4" _ "ws_worlds 3" False]
    by (simp add: ws_demo_values backfill_frames_def) (simp add: ws_conns_def new_conn_def Let_def EventsSince_def demo_event_def)
  have 8: "ws_step False (ws_worlds 3, ws_conns 5) (ws_worlds 4, ws_conns 5)"
    using ws_step.elsewhere [OF background.commit [of "demo_event 100" "ws_worlds 3"], of False]
    by (simp add: ws_demo_values) (simp add: ws_worlds_def Let_def demo_event_def)
  have 9: "ws_step False (ws_worlds 4, ws_conns 5) (ws_worlds 5, ws_conns 5)"
    using ws_step.elsewhere [OF background.notify [of "ws_worlds 4" "''poll:p''" 100 "[]"], of False]
    by (simp add: ws_worlds_def Let_def commit_event_def demo_event_def)
  have 10: "ws_step False (ws_worlds 5, ws_conns 5) (ws_worlds 6, ws_conns 6)"
    using ws_step.pump [of "ws_conns 5" _ "ws_worlds 5" _ False]
    by (simp add: ws_conns_def Let_def new_conn_def ws_demo_values writePumpLoop_def) (simp add: ws_worlds_def Let_def)
  from 1 2 3 4 5 6 7 8 9 10 show ?thesis by (meson converse_rtranclp_into_rtranclp rtranclp.rtrancl_refl)
qed


end
