(* ===== verification/Stats.thy ===== *)
theory Stats
  imports Hub
begin

text \<open>
  The landing page's usage counters (\<^verbatim>\<open>internal/rooms/stats.go\<close>): one row of \<^verbatim>\<open>room_state\<close>, bumped after a write has
  committed, and a broadcast each replica throttles for itself, at once when its window is over and otherwise once at the
  window's end. A failing statement changes nothing and is only logged; a broadcast always finds the database.
\<close>

section \<open>Counters\<close>

record UsageStats =
  us_finalized :: int
  us_created :: int
  us_yes :: int
  us_ifneedbe :: int
  us_no :: int

definition zero_stats :: UsageStats where
  "zero_stats = \<lparr> us_finalized = 0, us_created = 0, us_yes = 0, us_ifneedbe = 0, us_no = 0 \<rparr>"

definition statsBroadcastThrottle :: int where
  "statsBroadcastThrottle = 2 * Second"

definition statsRecordSQL :: "UsageStats \<Rightarrow> UsageStats option \<Rightarrow> UsageStats" where
  "statsRecordSQL d row = (let c = (case row of None \<Rightarrow> zero_stats | Some c \<Rightarrow> c)
     in \<lparr> us_finalized = us_finalized c + us_finalized d, us_created = us_created c + us_created d, us_yes = us_yes c + us_yes d,
          us_ifneedbe = us_ifneedbe c + us_ifneedbe d, us_no = us_no c + us_no d \<rparr>)"

text \<open>The fields a call names, in the order of the map; zero deltas and unknown names are passed over.\<close>

fun delta_step :: "string \<times> int \<Rightarrow> bool \<times> UsageStats \<Rightarrow> bool \<times> UsageStats" where
  "delta_step (fld, delta) (touched, d) =
     (if delta = 0 then (touched, d)
      else if fld = ''pollsCreated'' then (True, d\<lparr> us_created := delta \<rparr>)
      else if fld = ''pollsFinalized'' then (True, d\<lparr> us_finalized := delta \<rparr>)
      else if fld = ''responsesYes'' then (True, d\<lparr> us_yes := delta \<rparr>)
      else if fld = ''responsesIfNeedBe'' then (True, d\<lparr> us_ifneedbe := delta \<rparr>)
      else if fld = ''responsesNo'' then (True, d\<lparr> us_no := delta \<rparr>)
      else (touched, d))"

definition collect_deltas :: "(string \<times> int) list \<Rightarrow> bool \<times> UsageStats" where
  "collect_deltas deltas = fold delta_step deltas (False, zero_stats)"

section \<open>The throttle\<close>

text \<open>\<open>th_armed\<close>: when the trailing flush is due, if one is armed.\<close>

record StatsService =
  th_last :: "instant option"
  th_armed :: "instant option"

definition NewStatsService :: StatsService where
  "NewStatsService = \<lparr> th_last = None, th_armed = None \<rparr>"

text \<open>\<open>st_sent\<close>: the broadcasts in the order they committed.\<close>

record stats_state =
  st_row :: "UsageStats option"
  st_services :: "string \<Rightarrow> StatsService"
  st_sent :: "UsageStats list"

definition readCurrent :: "stats_state \<Rightarrow> UsageStats" where
  "readCurrent s = (case st_row s of None \<Rightarrow> zero_stats | Some c \<Rightarrow> c)"

definition StatsSnapshot :: "stats_state \<Rightarrow> UsageStats" where
  "StatsSnapshot s = readCurrent s"

definition set_service :: "string \<Rightarrow> StatsService \<Rightarrow> stats_state \<Rightarrow> stats_state" where
  "set_service replica t s = s\<lparr> st_services := (st_services s)(replica := t) \<rparr>"

definition maybeBroadcast :: "string \<Rightarrow> instant \<Rightarrow> UsageStats \<Rightarrow> stats_state \<Rightarrow> stats_state" where
  "maybeBroadcast replica now stats s =
     (let t = st_services s replica
      in if (case th_last t of None \<Rightarrow> True | Some l \<Rightarrow> statsBroadcastThrottle \<le> now - l)
         then (set_service replica (t\<lparr> th_last := Some now \<rparr>) s)\<lparr> st_sent := st_sent s @ [stats] \<rparr>
         else if th_armed t \<noteq> None then s
         else set_service replica (t\<lparr> th_armed := Some (now + (statsBroadcastThrottle - (now - the (th_last t)))) \<rparr>) s)"

definition flushTrailing :: "string \<Rightarrow> instant \<Rightarrow> stats_state \<Rightarrow> stats_state" where
  "flushTrailing replica now s =
     (let s' = set_service replica \<lparr> th_last = Some now, th_armed = None \<rparr> s
      in s'\<lparr> st_sent := st_sent s @ [readCurrent s'] \<rparr>)"

text \<open>The two halves of \<open>Record\<close>: the statement, which answers the counters, and the broadcast of that answer.\<close>

definition record_row :: "bool \<Rightarrow> (string \<times> int) list \<Rightarrow> stats_state \<Rightarrow> UsageStats option \<times> stats_state" where
  "record_row db_ok deltas s =
     (case collect_deltas deltas of (touched, d) \<Rightarrow>
        if \<not> touched \<or> \<not> db_ok then (None, s)
        else (Some (statsRecordSQL d (st_row s)), s\<lparr> st_row := Some (statsRecordSQL d (st_row s)) \<rparr>))"

definition RecordStats :: "bool \<Rightarrow> string \<Rightarrow> instant \<Rightarrow> (string \<times> int) list \<Rightarrow> stats_state \<Rightarrow> stats_state" where
  "RecordStats db_ok replica now deltas s =
     (case record_row db_ok deltas s of
        (None, s') \<Rightarrow> s'
      | (Some stats, s') \<Rightarrow> maybeBroadcast replica now stats s')"

section \<open>Runs\<close>

text \<open>A flush runs at or after the time it is due.\<close>

inductive stats_step :: "stats_state \<Rightarrow> stats_state \<Rightarrow> bool" where
  records: "stats_step s (RecordStats db_ok replica now deltas s)"
| flush: "th_armed (st_services s replica) = Some due \<Longrightarrow> due \<le> now \<Longrightarrow> stats_step s (flushTrailing replica now s)"

definition fresh_stats :: "stats_state \<Rightarrow> bool" where
  "fresh_stats s \<longleftrightarrow> st_sent s = [] \<and> st_row s = None \<and> (\<forall>r. th_armed (st_services s r) = None)"

definition last_word :: "stats_state \<Rightarrow> bool" where
  "last_word s \<longleftrightarrow> (if st_sent s = [] then st_row s = None else st_row s = Some (last (st_sent s)))"

definition flush_armed :: "stats_state \<Rightarrow> bool" where
  "flush_armed s \<longleftrightarrow> (\<exists>r. th_armed (st_services s r) \<noteq> None)"

lemma service_simps [simp]:
  "st_row (set_service r t s) = st_row s" "st_sent (set_service r t s) = st_sent s"
  "st_services (set_service r t s) = (st_services s)(r := t)"
  by (simp_all add: set_service_def)

lemma armed_kept: "th_armed (st_services s r) \<noteq> None \<Longrightarrow> flush_armed s"
  by (auto simp: flush_armed_def)

lemma broadcast_word:
  assumes "st_row s = Some stats"
  shows "last_word (maybeBroadcast replica now stats s) \<or> flush_armed (maybeBroadcast replica now stats s)"
  using assms by (auto simp: maybeBroadcast_def Let_def last_word_def flush_armed_def)

definition stats_ok :: "stats_state \<Rightarrow> bool" where
  "stats_ok s \<longleftrightarrow> (last_word s \<or> flush_armed s) \<and> (st_row s = None \<longrightarrow> st_sent s = []) \<and> (flush_armed s \<longrightarrow> st_row s \<noteq> None)"

lemma stats_ok_step: "stats_step s s' \<Longrightarrow> stats_ok s \<Longrightarrow> stats_ok s'"
proof (induction rule: stats_step.induct)
  case (records s db_ok replica now deltas)
  show ?case
  proof (cases "record_row db_ok deltas s")
    case (Pair answer s1)
    show ?thesis
    proof (cases answer)
      case None
      then have "s1 = s" using Pair by (auto simp: record_row_def split: prod.splits if_splits)
      then show ?thesis using records Pair None by (simp add: RecordStats_def)
    next
      case (Some stats)
      then have s1: "st_row s1 = Some stats" using Pair by (auto simp: record_row_def split: prod.splits if_splits)
      have s': "RecordStats db_ok replica now deltas s = maybeBroadcast replica now stats s1"
        using Pair Some by (simp add: RecordStats_def)
      have "st_row (maybeBroadcast replica now stats s1) = Some stats" by (simp add: maybeBroadcast_def Let_def s1)
      then show ?thesis using broadcast_word [OF s1] by (simp add: s' stats_ok_def)
    qed
  qed
next
  case (flush s replica due now)
  then have "flush_armed s" by (auto simp: flush_armed_def)
  then obtain c where c: "st_row s = Some c" using flush by (auto simp: stats_ok_def)
  then show ?case by (auto simp: stats_ok_def flushTrailing_def Let_def last_word_def readCurrent_def)
qed

lemma stats_ok_run: "stats_step\<^sup>*\<^sup>* s0 s \<Longrightarrow> fresh_stats s0 \<Longrightarrow> stats_ok s"
proof (induction rule: rtranclp_induct)
  case base
  then show ?case by (auto simp: fresh_stats_def stats_ok_def last_word_def flush_armed_def)
qed (auto intro: stats_ok_step)


text \<open>Two votes on one replica half a second apart: the first goes out at once, the second with the flush.\<close>

definition stats_demo :: stats_state where
  "stats_demo = RecordStats True ''a'' (Second div 2) [(''responsesYes'', 1)]
     (RecordStats True ''a'' 0 [(''responsesYes'', 1)] \<lparr> st_row = None, st_services = (\<lambda>_. NewStatsService), st_sent = [] \<rparr>)"

lemma stats_demo_value: "map us_yes (st_sent stats_demo) = [1]" "th_armed (st_services stats_demo ''a'') = Some (2 * Second)"
  "us_yes (StatsSnapshot stats_demo) = 2"
  by code_simp+


text \<open>Between the statement and the broadcast another replica may record and broadcast: the older counters then go out last,
  with nothing armed to correct them.\<close>

lemma stale_last_word:
  "\<exists>s. (let s0 = \<lparr> st_row = None, st_services = (\<lambda>_. NewStatsService), st_sent = [] \<rparr>;
          (a, s1) = record_row True [(''responsesYes'', 1)] s0;
          s2 = RecordStats True ''b'' 0 [(''responsesYes'', 1)] s1
      in s = maybeBroadcast ''a'' 0 (the a) s2) \<and>
     map us_yes (st_sent s) = [2, 1] \<and> us_yes (StatsSnapshot s) = 2 \<and> \<not> flush_armed s"
  by (simp add: record_row_def collect_deltas_def statsRecordSQL_def zero_stats_def RecordStats_def maybeBroadcast_def Let_def
      NewStatsService_def StatsSnapshot_def readCurrent_def flush_armed_def)

end
