(* ===== verification/BookHandlers.thy ===== *)
theory BookHandlers
  imports Bookings PollHandlers
begin

text \<open>
  The HTTP layer of the booking pages (\<^verbatim>\<open>internal/bookings/handlers.go\<close>): each handler with its gate, the checks on
  the request and the service calls it makes, in its order. \<open>parse_time\<close> stands for what \<^verbatim>\<open>time.Parse\<close> reads by
  the RFC 3339 layout; an empty manage token means none was sent.
\<close>

datatype book_http_error = BDomain booking_error | BEnvelope nat string

type_synonym 'a book_handler = "(bdb, book_http_error, 'a) tx"

definition bsvc :: "'a book_tx \<Rightarrow> 'a book_handler" where
  "bsvc m d = (case m d of Inl e \<Rightarrow> Inl (BDomain e) | Inr r \<Rightarrow> Inr r)"

fun bookServiceError :: "booking_error \<Rightarrow> (nat \<times> string \<times> fields) option" where
  "bookServiceError (BValidation fs) = Some (422, ''invalid'', fs)"
| "bookServiceError BSlugTaken = Some (409, ''slug_taken'', [])"
| "bookServiceError BHandleTaken = Some (409, ''handle_taken'', [])"
| "bookServiceError BSlotTaken = Some (409, ''slot_taken'', [])"
| "bookServiceError BPagePaused = Some (409, ''page_paused'', [])"
| "bookServiceError BBookingPast = Some (409, ''booking_past'', [])"
| "bookServiceError BConflict = Some (409, ''conflict'', [])"
| "bookServiceError BInvalidToken = Some (403, ''invalid_token'', [])"
| "bookServiceError BNotFound = Some (404, ''not_found'', [])"
| "bookServiceError BForbidden = Some (403, ''forbidden'', [])"
| "bookServiceError (BDb _) = None"
| "bookServiceError BNever = None"

fun book_refusal :: "book_http_error \<Rightarrow> 'a reply" where
  "book_refusal (BDomain e) = (case bookServiceError e of
      Some (status, code, fs) \<Rightarrow> Refusal status code fs
    | None \<Rightarrow> Refusal 500 ''internal'' [])"
| "book_refusal (BEnvelope status code) = Refusal status code []"

definition with_org :: "Session option \<Rightarrow> (Session \<Rightarrow> 'a book_handler) \<Rightarrow> 'a book_handler" where
  "with_org sess next =
     (case sess of
        None \<Rightarrow> raise (BEnvelope 401 ''unauthenticated'')
      | Some s \<Rightarrow> if \<not> se_verified s then raise (BEnvelope 403 ''email_unverified'')
                  else if se_org s = [] then raise (BEnvelope 403 ''no_active_org'') else next s)"

text \<open>\<open>requireOwnerSession\<close> reads the session itself, without the check that its address is verified.\<close>

definition requireOwnerSession :: "Session option \<Rightarrow> Session book_handler" where
  "requireOwnerSession sess =
     (case sess of
        None \<Rightarrow> raise (BEnvelope 401 ''unauthenticated'')
      | Some s \<Rightarrow> if se_org s = [] then raise (BEnvelope 403 ''no_active_org'') else ret s)"

definition captcha_gate :: "bool option \<Rightarrow> Session option \<Rightarrow> unit book_handler" where
  "captcha_gate turnstile sess =
     (if (case sess of None \<Rightarrow> False | Some s \<Rightarrow> se_user s \<noteq> [] \<and> se_verified s) then ret ()
      else case turnstile of None \<Rightarrow> ret () | Some ok \<Rightarrow> ensure ok (BEnvelope 403 ''captcha_failed''))"

definition rejectGoogleSync :: "PageInput \<Rightarrow> unit book_handler" where
  "rejectGoogleSync req = ensure (\<not> pg_google_sync req) (BEnvelope 400 ''google_sync_unavailable'')"

definition parseQueryTime :: "(string \<Rightarrow> instant option) \<Rightarrow> string \<Rightarrow> instant book_handler" where
  "parseQueryTime parse_time raw = lookup_or (BEnvelope 400 ''invalid'') (\<lambda>_. parse_time raw)"

definition parseQueryDate :: "string \<Rightarrow> instant book_handler" where
  "parseQueryDate raw = lookup_or (BEnvelope 400 ''invalid'') (\<lambda>_. parseDateOnly raw)"

section \<open>The organiser's routes\<close>

definition handleCreatePage ::
  "(string \<Rightarrow> location option) \<Rightarrow> Session option \<Rightarrow> PageInput \<Rightarrow> instant \<Rightarrow> PageView book_handler" where
  "handleCreatePage tzdb sess req now = with_org sess (\<lambda>s.
     tx (rejectGoogleSync req) (\<lambda>_. bsvc (CreatePage tzdb (se_org s) (se_user s) req now)))"

definition handleListMyPages :: "Session option \<Rightarrow> instant \<Rightarrow> PageSummary list book_handler" where
  "handleListMyPages sess now = with_org sess (\<lambda>s. bsvc (ListMyPages (se_org s) now))"

definition owned_page :: "string \<Rightarrow> Session option \<Rightarrow> (Session \<Rightarrow> 'a book_handler) \<Rightarrow> 'a book_handler" where
  "owned_page pageID sess next = with_org sess (\<lambda>s.
     tx (bsvc (RequireManageablePage pageID (se_org s) (se_user s))) (\<lambda>_. next s))"

definition handleGetOwnedPage :: "Session option \<Rightarrow> string \<Rightarrow> PageView book_handler" where
  "handleGetOwnedPage sess pageID = owned_page pageID sess (\<lambda>s. bsvc (GetOwnedPage pageID (se_org s)))"

definition handleUpdatePage ::
  "(string \<Rightarrow> location option) \<Rightarrow> Session option \<Rightarrow> string \<Rightarrow> PageInput \<Rightarrow> instant \<Rightarrow> PageView book_handler" where
  "handleUpdatePage tzdb sess pageID req now = owned_page pageID sess (\<lambda>s.
     tx (rejectGoogleSync req) (\<lambda>_. bsvc (UpdatePage tzdb pageID (se_org s) req now)))"

definition handleDeletePage :: "Session option \<Rightarrow> string \<Rightarrow> instant \<Rightarrow> unit book_handler" where
  "handleDeletePage sess pageID now = owned_page pageID sess (\<lambda>s. bsvc (DeletePage pageID (se_org s) now))"

definition handleListPageBookings ::
  "(string \<Rightarrow> instant option) \<Rightarrow> Session option \<Rightarrow> string \<Rightarrow> string \<Rightarrow> string \<Rightarrow> BookingView list book_handler" where
  "handleListPageBookings parse_time sess pageID from to = owned_page pageID sess (\<lambda>s.
     tx (parseQueryTime parse_time from) (\<lambda>f.
     tx (parseQueryTime parse_time to) (\<lambda>t.
     bsvc (ListPageBookings pageID (se_org s) f t))))"

definition handleGoogleStatus :: "Session option \<Rightarrow> string \<Rightarrow> (bool \<times> bool) book_handler" where
  "handleGoogleStatus sess pageID = owned_page pageID sess (\<lambda>_. ret (False, False))"

definition handleSetOrgSlug :: "Session option \<Rightarrow> string \<Rightarrow> unit book_handler" where
  "handleSetOrgSlug sess handle = with_org sess (\<lambda>s.
     tx (bsvc (RequireOwnerRole (se_org s) (se_user s))) (\<lambda>_. bsvc (SetOrgSlug (se_org s) handle)))"

section \<open>The visitor's routes\<close>

definition writeMissingPage :: "string \<Rightarrow> string \<Rightarrow> 'a book_handler" where
  "writeMissingPage orgSlug pageSlug =
     tx (reads (PageSuspended orgSlug pageSlug)) (\<lambda>suspended.
     raise (if suspended then BEnvelope 410 ''removed'' else BEnvelope 404 ''not_found''))"

definition handleGetPublicPage :: "string \<Rightarrow> string \<Rightarrow> PublicPageView book_handler" where
  "handleGetPublicPage orgSlug pageSlug =
     tx (reads (GetPublicPage orgSlug pageSlug)) (\<lambda>page.
     case page of None \<Rightarrow> writeMissingPage orgSlug pageSlug | Some p \<Rightarrow> ret p)"

definition handlePublicAvailability ::
  "book_env \<Rightarrow> string \<Rightarrow> string \<Rightarrow> string \<Rightarrow> string \<Rightarrow> instant \<Rightarrow> string list book_handler" where
  "handlePublicAvailability env orgSlug pageSlug from to now =
     tx (reads (GetPublicPage orgSlug pageSlug)) (\<lambda>page.
     case page of
       None \<Rightarrow> writeMissingPage orgSlug pageSlug
     | Some _ \<Rightarrow>
         tx (parseQueryDate from) (\<lambda>f.
         tx (parseQueryDate to) (\<lambda>t.
         tx (ensure (\<not> (t < f \<or> LimitPublicWindowDays * 24 * Hour < t - f)) (BEnvelope 400 ''invalid'')) (\<lambda>_.
         tx (bsvc (PublicAvailability env orgSlug pageSlug f t now)) (\<lambda>slots.
         ret (map formatISO (case slots of None \<Rightarrow> [] | Some ts \<Rightarrow> ts)))))))"

record bookRequest =
  rq_start_at :: string
  rq_name :: string
  rq_email :: string
  rq_note :: "string option"
  rq_locale :: "string option"
  rq_timezone :: string

definition handleBook ::
  "book_env \<Rightarrow> (string \<Rightarrow> instant option) \<Rightarrow> bool option \<Rightarrow> Session option \<Rightarrow> string \<Rightarrow> string \<Rightarrow> bookRequest \<Rightarrow> instant \<Rightarrow>
   (BookingView \<times> string) book_handler" where
  "handleBook env parse_time turnstile sess orgSlug pageSlug req now =
     tx (captcha_gate turnstile sess) (\<lambda>_.
     tx (lookup_or (BEnvelope 400 ''invalid'') (\<lambda>_. parse_time (rq_start_at req))) (\<lambda>startAt.
     tx (bsvc (Book env orgSlug pageSlug
           \<lparr> in_start_at = startAt, in_name = rq_name req, in_email = rq_email req, in_note = rq_note req,
             in_locale = rq_locale req, in_timezone = rq_timezone req, in_busy = [] \<rparr> now)) (\<lambda>result.
     tx (lookup_or (BDomain (BDb ''no rows'')) (GetBooking (br_booking result))) (\<lambda>booking.
     ret (toBookingView booking, br_token result)))))"

text \<open>The four routes on one booking take a manage token or, without one, the page's organiser.\<close>

definition by_credential ::
  "string \<Rightarrow> Session option \<Rightarrow> string \<Rightarrow> (string \<Rightarrow> bool \<Rightarrow> 'a book_tx) \<Rightarrow> 'a book_handler" where
  "by_credential token sess bookingID call =
     (if token \<noteq> [] then bsvc (call token False)
      else tx (requireOwnerSession sess) (\<lambda>s.
           tx (bsvc (RequireManageableBooking bookingID (se_org s) (se_user s))) (\<lambda>_.
           bsvc (call [] True))))"

definition handleManagedBooking ::
  "book_env \<Rightarrow> string \<Rightarrow> Session option \<Rightarrow> string \<Rightarrow> ManagedBookingView book_handler" where
  "handleManagedBooking env token sess bookingID =
     by_credential token sess bookingID (\<lambda>t o'. ManagedBooking env bookingID t o')"

definition handleCancel :: "book_env \<Rightarrow> string \<Rightarrow> Session option \<Rightarrow> string \<Rightarrow> instant \<Rightarrow> unit book_handler" where
  "handleCancel env token sess bookingID now =
     by_credential token sess bookingID (\<lambda>t o'. BookingCancel env bookingID t o' now)"

definition handleReschedule ::
  "book_env \<Rightarrow> (string \<Rightarrow> instant option) \<Rightarrow> string \<Rightarrow> Session option \<Rightarrow> string \<Rightarrow> string \<Rightarrow> instant \<Rightarrow>
   (BookingView \<times> string) book_handler" where
  "handleReschedule env parse_time token sess bookingID startAt now =
     tx (lookup_or (BEnvelope 400 ''invalid'') (\<lambda>_. parse_time startAt)) (\<lambda>newStart.
     tx (by_credential token sess bookingID (\<lambda>t o'. Reschedule env bookingID t newStart o' now)) (\<lambda>result.
     tx (lookup_or (BDomain (BDb ''no rows'')) (GetBooking bookingID)) (\<lambda>booking.
     ret (toBookingView booking, formatISO (case br_previous result of None \<Rightarrow> 0 | Some t \<Rightarrow> t)))))"

end
