(* ===== verification/WsRoutes.thy ===== *)
theory WsRoutes
  imports WsConn Stats RateLimit BookHandlers PollHandlers
begin

text \<open>
  The websocket routes (\<^verbatim>\<open>internal/rooms/endpoints.go\<close>, \<^verbatim>\<open>internal/polls/ws.go\<close>): who may connect to which room and what the
  first frame holds, the REST read of the usage counters, the connect limits, and the registry of open connections that
  the shutdown walks (\<^verbatim>\<open>internal/rooms/ws.go\<close>).
\<close>

section \<open>Routes\<close>

text \<open>What a route decides before the upgrade and, after subscribing, for its first frame. A failing snapshot ends the
  connection.\<close>

record 'v WSOptions =
  wo_authorize :: "authz_error + string"
  wo_snapshot :: "unit + 'v option"
  wo_presence :: bool

definition PollSnapshot :: "string \<Rightarrow> Viewer \<Rightarrow> db \<Rightarrow> unit + PollView option" where
  "PollSnapshot pollID viewer d = (case GetView pollID viewer d of Inl _ \<Rightarrow> Inl () | Inr (view, _) \<Rightarrow> Inr view)"

text \<open>The poll room always gets the anonymous view.\<close>

definition pollWSHandler :: "string \<Rightarrow> db \<Rightarrow> PollView WSOptions" where
  "pollWSHandler pollID d = \<lparr> wo_authorize = (if PollExists pollID d then Inr (''poll:'' @ pollID) else Inl WsNotFound),
     wo_snapshot = PollSnapshot pollID \<lparr> vw_user = [], vw_guest = [] \<rparr> d, wo_presence = True \<rparr>"

definition bookingWSHandler :: "string \<Rightarrow> Session option \<Rightarrow> instant \<Rightarrow> bdb \<Rightarrow> BookingView list WSOptions" where
  "bookingWSHandler pageID sess now d = \<lparr>
     wo_authorize = (if PageExists pageID d then Inr (''booking:'' @ pageID) else Inl WsNotFound),
     wo_snapshot = (case sess of
         None \<Rightarrow> Inr None
       | Some s \<Rightarrow>
           if se_org s = [] then Inr None
           else (case AuthorizeManagePage pageID (se_org s) (se_user s) d of
                   Inl _ \<Rightarrow> Inr None
                 | Inr _ \<Rightarrow> (case BookingSnapshot pageID (se_org s) now d of Inl _ \<Rightarrow> Inl () | Inr (bs, _) \<Rightarrow> Inr (Some bs)))),
     wo_presence = False \<rparr>"

definition RoomKeyStats :: string where
  "RoomKeyStats = ''stats:global''"

definition statsWSHandler :: "stats_state \<Rightarrow> UsageStats WSOptions" where
  "statsWSHandler s = \<lparr> wo_authorize = Inr RoomKeyStats, wo_snapshot = Inr (Some (StatsSnapshot s)), wo_presence = False \<rparr>"

definition statsSnapshotHandler :: "bool \<Rightarrow> stats_state \<Rightarrow> UsageStats reply" where
  "statsSnapshotHandler db_ok s = (if db_ok then Reply 200 (StatsSnapshot s) else Refusal 500 ''internal'' [])"

definition wsConnectLimit :: nat where "wsConnectLimit = 30"

definition statsReadLimit :: nat where "statsReadLimit = 60"

text \<open>\<open>Register\<close>: the limit in front of a connect, which all three websocket routes share, and in front of the read.\<close>

datatype ws_answer = WsRefused nat string | WsOpen string bool

definition ws_connect ::
  "bool \<Rightarrow> bool \<Rightarrow> bool \<Rightarrow> string \<Rightarrow> string \<Rightarrow> instant \<Rightarrow> instant \<Rightarrow> 'v WSOptions \<Rightarrow> bucket list \<Rightarrow> ws_answer \<times> bucket list" where
  "ws_connect testRoutes store_ok trustProxy xff remoteAddr now clock opts t =
     (case PublicRateLimit testRoutes store_ok ''rooms'' ''ws_connect'' wsConnectLimit Minute trustProxy xff remoteAddr now clock t of
        (RateLimited _, t') \<Rightarrow> (WsRefused 429 ''rate_limited'', t')
      | (Pass, t') \<Rightarrow>
          ((case wo_authorize opts of
              Inl e \<Rightarrow> WsRefused (fst (statusForAuthzErr e)) (snd (statusForAuthzErr e))
            | Inr room \<Rightarrow> WsOpen room (wo_presence opts)), t'))"

text \<open>The room's bookings, with the visitors' names and addresses, go only to someone who may manage the page.\<close>

lemma booking_snapshot_private:
  assumes "wo_snapshot (bookingWSHandler pageID sess now d) = Inr (Some bs)"
  shows "\<exists>s d'. sess = Some s \<and> RequireManageablePage pageID (se_org s) (se_user s) d = Inr ((), d')"
  using assms by (auto simp: bookingWSHandler_def AuthorizeManagePage_def split: option.splits if_splits sum.splits)

lemma poll_snapshot_anonymous:
  "wo_snapshot (pollWSHandler pollID d) = Inr v \<Longrightarrow> \<exists>d'. GetView pollID \<lparr> vw_user = [], vw_guest = [] \<rparr> d = Inr (v, d')"
  by (auto simp: pollWSHandler_def PollSnapshot_def split: sum.splits)

section \<open>Open connections at shutdown\<close>

text \<open>\<open>rg_told\<close>: the connections that were sent a going-away close frame.\<close>

record registry =
  rg_closing :: bool
  rg_conns :: "nat list"
  rg_told :: "nat list"

definition trackConn :: "nat \<Rightarrow> registry \<Rightarrow> bool \<times> registry" where
  "trackConn k g = (if rg_closing g then (False, g) else (True, g\<lparr> rg_conns := List.insert k (rg_conns g) \<rparr>))"

definition untrackConn :: "nat \<Rightarrow> registry \<Rightarrow> registry" where
  "untrackConn k g = g\<lparr> rg_conns := filter (\<lambda>x. x \<noteq> k) (rg_conns g) \<rparr>"

definition closeAllConns :: "registry \<Rightarrow> registry" where
  "closeAllConns g = g\<lparr> rg_closing := True, rg_told := rg_told g @ rg_conns g \<rparr>"

text \<open>An accepted connection that is not tracked is told to go at once.\<close>

definition accept_conn :: "nat \<Rightarrow> registry \<Rightarrow> registry" where
  "accept_conn k g = (case trackConn k g of (True, g') \<Rightarrow> g' | (False, g') \<Rightarrow> g'\<lparr> rg_told := rg_told g' @ [k] \<rparr>)"

datatype registry_event = Accept nat | Gone nat | ShutDown

fun registry_step :: "registry_event \<Rightarrow> registry \<Rightarrow> registry" where
  "registry_step (Accept k) g = accept_conn k g"
| "registry_step (Gone k) g = untrackConn k g"
| "registry_step ShutDown g = closeAllConns g"

lemma registry_closed:
  "(rg_closing g \<longrightarrow> set (rg_conns g) \<subseteq> set (rg_told g)) \<Longrightarrow>
   (rg_closing (fold registry_step es g) \<longrightarrow> set (rg_conns (fold registry_step es g)) \<subseteq> set (rg_told (fold registry_step es g)))"
proof (induction es arbitrary: g)
  case (Cons e es)
  have "rg_closing (registry_step e g) \<longrightarrow> set (rg_conns (registry_step e g)) \<subseteq> set (rg_told (registry_step e g))"
    using Cons.prems by (cases e) (auto simp: accept_conn_def trackConn_def untrackConn_def closeAllConns_def)
  from Cons.IH [OF this] show ?case by simp
qed simp

text \<open>However accepts, departures and the shutdown interleave, once the shutdown has begun no connection stays open that was not
  told to go.\<close>

lemma every_conn_told:
  "set (rg_conns (fold registry_step (es @ ShutDown # fs) \<lparr> rg_closing = False, rg_conns = [], rg_told = [] \<rparr>)) \<subseteq>
   set (rg_told (fold registry_step (es @ ShutDown # fs) \<lparr> rg_closing = False, rg_conns = [], rg_told = [] \<rparr>))"
proof -
  let ?g = "fold registry_step es \<lparr> rg_closing = False, rg_conns = [], rg_told = [] \<rparr>"
  have "rg_closing (fold registry_step fs (closeAllConns ?g))"
  proof -
    have "rg_closing (fold registry_step fs g)" if "rg_closing g" for g
      using that
    proof (induction fs arbitrary: g)
      case (Cons e fs)
      have "rg_closing (registry_step e g)"
        using Cons.prems by (cases e) (simp_all add: accept_conn_def trackConn_def untrackConn_def closeAllConns_def)
      then show ?case by (simp add: Cons.IH)
    qed simp
    then show ?thesis by (simp add: closeAllConns_def)
  qed
  then show ?thesis
    using registry_closed [of "closeAllConns ?g" fs] by (simp add: closeAllConns_def)
qed

end
