(* ===== verification/AdminTrail.thy ===== *)
theory AdminTrail
  imports AdminRoutes
begin

text \<open>
  What the audit log shows: after any run of requests to the support console it holds its old entries and one more
  for each accepted request that changed something, in order, with the actor, the target and the reason of that request.
\<close>

section \<open>The trail\<close>

type_synonym trail_entry = "string \<times> string \<times> string \<times> string option \<times> string option \<times> instant"

definition trail_entry :: "AuditRow \<Rightarrow> trail_entry" where
  "trail_entry r = (al_actor_email r, al_action r, al_target_type r, al_target_id r, al_reason r, al_created_at r)"

definition trail :: "adb \<Rightarrow> trail_entry list" where
  "trail d = map trail_entry (a_audit d)"

text \<open>The entry a request calls for.\<close>

fun calls_for :: "admin_request \<Rightarrow> (string \<times> string \<times> string \<times> string) option" where
  "calls_for (PostLock i body) = Some (ActionLockUser, ''user'', i, TrimSpace body)"
| "calls_for (PostUnlock i body) = Some (ActionUnlockUser, ''user'', i, TrimSpace body)"
| "calls_for (DeleteUserRoute i body) = Some (ActionDeleteUser, ''user'', i, TrimSpace body)"
| "calls_for (PostRetry i) = Some (ActionJobRetry, ''job'', i, [])"
| "calls_for (PostSuspend suspend kind i body) =
     Some (if suspend then ActionSuspendContent else ActionUnsuspendContent, kind, i, TrimSpace body)"
| "calls_for _ = None"

type_synonym admin_event = "AuthSession option \<times> admin_request \<times> instant"

fun entry_for :: "admin_event \<Rightarrow> trail_entry option" where
  "entry_for (Some s, q, now) = map_option (\<lambda>(action, kind, i, reason).
     (ss_email s, action, kind, null_if_empty i, null_if_empty reason, now)) (calls_for q)"
| "entry_for (None, q, now) = None"

text \<open>A run: the requests that were accepted, and the tables after it.\<close>

fun admin_run :: "admin_env \<Rightarrow> admin_event list \<Rightarrow> adb \<Rightarrow> admin_event list \<times> adb" where
  "admin_run env [] d = ([], d)"
| "admin_run env ((sess, q, now) # rs) d =
     (case admin_handle env sess q now d of
        Inl _ \<Rightarrow> admin_run env rs d
      | Inr (_, d') \<Rightarrow> apfst (Cons (sess, q, now)) (admin_run env rs d'))"

section \<open>What a transaction adds\<close>

definition appends :: "trail_entry list \<Rightarrow> (adb, 'e, 'a) tx \<Rightarrow> bool" where
  "appends es m \<longleftrightarrow> (\<forall>d x d'. m d = Inr (x, d') \<longrightarrow> trail d' = trail d @ es)"

named_theorems appends_intros "what a transaction adds to the trail"

lemma appendsD: "appends es m \<Longrightarrow> m d = Inr (x, d') \<Longrightarrow> trail d' = trail d @ es"
  by (auto simp: appends_def)

lemma appends_before: "appends [] m \<Longrightarrow> (\<And>x. appends es (k x)) \<Longrightarrow> appends es (tx m k)"
  unfolding appends_def tx_Inr_iff by fastforce

lemma appends_after: "appends es m \<Longrightarrow> (\<And>x. appends [] (k x)) \<Longrightarrow> appends es (tx m k)"
  unfolding appends_def tx_Inr_iff by fastforce

lemma appends_silent [appends_intros]:
  "appends [] (ret x)" "appends es (raise e)" "appends [] (reads f)" "appends [] (ensure b e)" "appends [] (lookup_or e g)"
  "appends [] (of_result r)"
  by (auto simp: appends_def result_simps)

lemma appends_writes: "(\<And>d. trail (f d) = trail d) \<Longrightarrow> appends [] (writes f)"
  by (auto simp: appends_def result_simps)

lemma appends_asvc [appends_intros]: "appends es m \<Longrightarrow> appends es (asvc m)"
  by (auto simp: appends_def asvc_def split: sum.splits)

lemma appends_decodeReason: "appends es (k (TrimSpace body)) \<Longrightarrow> appends es (tx (decodeReason body) k)"
  unfolding appends_def decodeReason_def by (auto simp: result_simps)

lemma tx_requireActor: "tx (requireActor (Some s)) k = k s"
  by (rule ext) (simp add: requireActor_def exec_simps)

lemma appends_new_id: "appends [] new_id"
  by (auto simp: appends_def new_id_def trail_def)

lemma appends_Record:
  "appends [(ss_email s, action, kind, null_if_empty i, null_if_empty reason, now)] (Record (Some s) action kind i reason now)"
proof -
  have "appends [(ss_email s, action, kind, null_if_empty i, null_if_empty reason, now)] (writes (\<lambda>d. d\<lparr> a_audit := a_audit d @
      [\<lparr> al_id = n, al_actor = Some uid, al_actor_email = ss_email s, al_action = action, al_target_type = kind,
         al_target_id = null_if_empty i, al_reason = null_if_empty reason, al_created_at = now \<rparr>] \<rparr>))" for n uid
    by (simp add: appends_def result_simps trail_def trail_entry_def)
  then show ?thesis
    unfolding Record_def option.case by (intro appends_before appends_intros appends_new_id)
qed

lemma appends_actor_guard: "appends [] (actor_guard actor i)"
  unfolding actor_guard_def by (cases actor) (simp_all add: appends_silent)

lemma trail_cascade: "trail (cascadeOrphanedOwnerOrganizations uid d) = trail d"
proof -
  have one: "trail (cascade_org uid g d) = trail d" for g d
    by (simp add: cascade_org_def promote_def delete_org_def trail_def Let_def split: option.split)
  have "trail (fold (cascade_org uid) gs d) = trail d" for gs
    by (induction gs arbitrary: d) (simp_all add: one)
  then show ?thesis by (simp add: cascadeOrphanedOwnerOrganizations_def)
qed

lemma appends_CascadeDeleteUser: "appends [] (CascadeDeleteUser i)"
proof -
  have row: "appends [] (delete_user_row uid)" for uid
    by (auto simp: appends_def delete_user_row_def trail_def Let_def trail_entry_def split: if_splits)
  show ?thesis unfolding CascadeDeleteUser_def
    by (intro appends_before appends_intros appends_writes row) (simp_all add: trail_cascade, simp_all add: trail_def)
qed

section \<open>Every accepted request leaves its entry\<close>

lemma appends_handlers:
  assumes revoke: "\<And>u d. a_audit (ev_revoke env u d) = a_audit d"
  shows "appends [(ss_email s, ActionLockUser, ''user'', null_if_empty i, null_if_empty (TrimSpace body), now)]
      (handleLockUser env (Some s) i body now)"
    and "appends [(ss_email s, ActionUnlockUser, ''user'', null_if_empty i, null_if_empty (TrimSpace body), now)]
      (handleUnlockUser env (Some s) i body now)"
    and "appends [(ss_email s, ActionDeleteUser, ''user'', null_if_empty i, null_if_empty (TrimSpace body), now)]
      (handleDeleteUser env (Some s) i body now)"
    and "appends [(ss_email s, ActionJobRetry, ''job'', null_if_empty i, None, now)] (handleRetryJob (Some s) i now)"
    and "appends [(ss_email s, if suspend then ActionSuspendContent else ActionUnsuspendContent, kind, null_if_empty i,
        null_if_empty (TrimSpace body), now)] (handleSetContentSuspended suspend (Some s) kind i body now)"
proof -
  have w: "appends [] (writes (ev_revoke env u))" for u by (rule appends_writes) (simp add: trail_def revoke)
  have existing: "appends [] (requireExistingUser collate i)" for collate by (simp add: requireExistingUser_def appends_silent)
  have lock: "appends [] (put_lock uid r)" for uid r
    unfolding put_lock_def by (intro appends_before appends_intros appends_writes) (simp add: trail_def)
  show "appends [(ss_email s, ActionLockUser, ''user'', null_if_empty i, null_if_empty (TrimSpace body), now)]
      (handleLockUser env (Some s) i body now)"
    unfolding handleLockUser_def tx_requireActor LockUser_def
    by (rule appends_before, rule appends_silent, rule appends_decodeReason, rule appends_before, rule existing,
      rule appends_asvc, rule appends_before, rule appends_actor_guard, rule appends_before, rule appends_silent,
      rule appends_before, rule lock, rule appends_after, rule appends_Record, rule w)
  show "appends [(ss_email s, ActionUnlockUser, ''user'', null_if_empty i, null_if_empty (TrimSpace body), now)]
      (handleUnlockUser env (Some s) i body now)"
    unfolding handleUnlockUser_def tx_requireActor UnlockUser_def
    by (rule appends_decodeReason, rule appends_before, rule existing, rule appends_asvc, rule appends_before,
      rule appends_silent, rule appends_before, rule appends_writes, simp add: trail_def, rule appends_Record)
  show "appends [(ss_email s, ActionDeleteUser, ''user'', null_if_empty i, null_if_empty (TrimSpace body), now)]
      (handleDeleteUser env (Some s) i body now)"
    unfolding handleDeleteUser_def tx_requireActor AdminDeleteUser_def
    by (rule appends_before, rule appends_silent, rule appends_decodeReason, rule appends_before, rule existing,
      rule appends_asvc, rule appends_before, rule appends_actor_guard, rule appends_before, rule appends_silent,
      rule appends_before, rule w, rule appends_before, rule appends_CascadeDeleteUser, rule appends_Record)
  have "null_if_empty [] = None" by (simp add: null_if_empty_def)
  then show "appends [(ss_email s, ActionJobRetry, ''job'', null_if_empty i, None, now)] (handleRetryJob (Some s) i now)"
    unfolding handleRetryJob_def tx_requireActor
    using appends_Record [of s ActionJobRetry "''job''" i "[]" now]
    by (intro appends_before [OF _ appends_before] appends_before appends_silent appends_asvc appends_writes)
      (simp_all add: trail_def)
  show "appends [(ss_email s, if suspend then ActionSuspendContent else ActionUnsuspendContent, kind, null_if_empty i,
      null_if_empty (TrimSpace body), now)] (handleSetContentSuspended suspend (Some s) kind i body now)"
    unfolding handleSetContentSuspended_def tx_requireActor SetContentSuspended_def
    by (rule appends_decodeReason, rule appends_asvc, rule appends_before, rule appends_silent, rule appends_before,
      rule appends_silent, rule appends_before, rule appends_silent, rule appends_before, rule appends_silent,
      rule appends_before, rule appends_writes, simp add: trail_def with_content_def, rule appends_Record)
qed

lemma replying_Inr: "replying f h d = Inr (y, d') \<longleftrightarrow> (\<exists>x. h d = Inr (x, d') \<and> y = f x)"
  by (auto simp: replying_def result_simps ret_def)

lemma appends_replying: "appends es h \<Longrightarrow> appends es (replying f h)"
  by (auto simp: appends_def replying_Inr)

text \<open>The routes that only read leave the tables alone.\<close>

lemma keeps_asvc [keeps_intros]: "keeps P m \<Longrightarrow> keeps P (asvc m)"
  by (auto simp: keeps_def asvc_def split: sum.splits)

lemma keeps_replying [keeps_intros]: "keeps P h \<Longrightarrow> keeps P (replying f h)"
  by (auto simp: keeps_def replying_Inr)

lemma keeps_list_read [keeps_intros]: "keeps P (\<lambda>d. asvc (of_result (g d)) d)"
  by (auto simp: keeps_def asvc_def of_result_def split: sum.splits)

lemma reading_routes:
  assumes "calls_for q = None"
  shows "keeps P (admin_route env sess q now)"
  using assms
  by (cases q) (auto simp only: calls_for.simps option.distinct admin_route.simps handleSearchUsers_def handleUserDetail_def
    requireExistingUser_def handleAuditList_def handleFailedJobs_def handleContentLookup_def intro!: keeps_intros)

lemma mutating_routes:
  assumes "\<And>u d. a_audit (ev_revoke env u d) = a_audit d" and "calls_for q = Some c"
  shows "appends [the (entry_for (Some s, q, now))] (admin_route env (Some s) q now)"
  using assms(2)
  by (cases q) (auto simp: null_if_empty_def [of "[]"] intro!: appends_replying appends_handlers [OF assms(1)]
      appends_handlers(5) [OF assms(1), where suspend = True, simplified if_True]
      appends_handlers(5) [OF assms(1), where suspend = False, simplified if_False])

lemma map_filter_one: "List.map_filter f [x] = (case f x of None \<Rightarrow> [] | Some y \<Rightarrow> [y])"
  by (cases "f x") (simp_all add: List.map_filter_def)

lemma admin_step:
  assumes revoke: "\<And>u d. a_audit (ev_revoke env u d) = a_audit d"
    and run: "admin_handle env sess q now d = Inr (x, d')"
  shows "\<exists>s. sess = Some s \<and> ss_verified s \<and> ss_staff s \<and>
     trail d' = trail d @ List.map_filter entry_for [(sess, q, now)] \<and> (calls_for q = None \<longrightarrow> d' = d)"
proof -
  from run obtain s where s: "sess = Some s" "ss_verified s" "ss_staff s" and route: "admin_route env (Some s) q now d = Inr (x, d')"
    by (auto simp: admin_handle_def RequireStaff_def raise_def split: option.splits if_splits gate_answer.splits)
  have same: "d' = d" if "calls_for q = None" using keepsD [OF reading_routes [OF that, of "\<lambda>x. x = d"] refl route] .
  have "trail d' = trail d @ List.map_filter entry_for [(sess, q, now)]"
  proof (cases "calls_for q")
    case None
    then show ?thesis using same by (simp add: s(1) List.map_filter_def)
  next
    case (Some c)
    obtain e where e: "entry_for (Some s, q, now) = Some e" using Some by simp
    have "trail d' = trail d @ [the (entry_for (Some s, q, now))]" by (rule appendsD [OF mutating_routes [OF revoke Some] route])
    then show ?thesis by (simp only: s(1) e map_filter_one option.case option.sel)
  qed
  then show ?thesis using s same by (intro exI conjI impI)
qed


definition demo_admin_env :: admin_env where
  "demo_admin_env = \<lparr> ev_collate = length, ev_fold_case = id, ev_parse_time = parseISODateTime, ev_url_path = (\<lambda>_. None),
     ev_revoke = (\<lambda>u d. d\<lparr> a_sessions := tdel (\<lambda>s. Some (as_user s) = ParseInt u) (a_sessions d) \<rparr>),
     ev_stats = \<lparr> sx_orgs = [], sx_polls = [], sx_participants = [], sx_bookings = [] \<rparr> \<rparr>"

definition demo_staff :: AuthSession where
  "demo_staff = \<lparr> ss_user = ''8'', ss_email = ''b@x'', ss_org = ''2'', ss_staff = True, ss_verified = True \<rparr>"

lemma demo_lock:
  "\<exists>d'. admin_handle demo_admin_env (Some demo_staff) (PostLock ''7'' ''spam'') 5 demo_accounts = Inr (DoneReply, d')"
proof -
  have nums: "ParseInt ''7'' = Some 7" "ParseInt ''8'' = Some 8"
    by (simp_all add: ParseInt_def parse_nat_def digit_val_def in_int64_def)
  have spam: "TrimSpace ''spam'' = ''spam''" by code_simp
  have user: "\<exists>u. UserDetail length ''7'' demo_accounts = Some u"
    by (simp add: UserDetail_def nums demo_accounts_def tget_def)
  show ?thesis
    using user
    by (auto simp: admin_handle_def RequireStaff_def demo_staff_def replying_def handleLockUser_def requireActor_def exec_simps
      sameUserID_def nums decodeReason_def spam requireExistingUser_def demo_admin_env_def asvc_def LockUser_def actor_guard_def
      put_lock_def Record_def new_id_def demo_accounts_def tget_def tx_def lookup_or_def ensure_def writes_def ret_def)
qed


text \<open>The target of the entry is the id as it was written in the path: locking user 7 as \<^verbatim>\<open>007\<close> files the entry under
  \<^verbatim>\<open>007\<close>, where neither the filter by target nor the user's own data export looks.\<close>

lemma padded_target: "calls_for (PostLock ''007'' ''x'') = Some (ActionLockUser, ''user'', ''007'', TrimSpace ''x'') \<and> ParseInt ''007'' = Some 7"
  by (simp add: ParseInt_def parse_nat_def digit_val_def in_int64_def)

end
