(* ===== verification/Containment.thy ===== *)
theory Containment
  imports AccountRoutes AdminTrail
begin

text \<open>
  What locking an account achieves: from the accepted request on, until staff unlock or delete the account, no
  session of that user is anybody for this server's handlers, and the library's own routes let it do nothing but sign
  out. The library may hand out any sessions it likes; all that is assumed is that its calls leave the table of locks alone.
\<close>

section \<open>Runs\<close>

datatype account_event =
    StaffRequest "AuthSession option" admin_request instant
  | OwnRequest me_env me_request

fun account_step :: "admin_env \<Rightarrow> account_event \<Rightarrow> adb \<Rightarrow> adb" where
  "account_step env (StaffRequest sess q now) d = (case admin_handle env sess q now d of Inl _ \<Rightarrow> d | Inr (_, d') \<Rightarrow> d')"
| "account_step env (OwnRequest me q) d = snd (me_handle me q d)"

definition account_run :: "admin_env \<Rightarrow> account_event list \<Rightarrow> adb \<Rightarrow> adb" where
  "account_run env evs d = fold (account_step env) evs d"

text \<open>Unlocking and deleting the account end the lock.\<close>

fun ends_lock :: "int \<Rightarrow> account_event \<Rightarrow> bool" where
  "ends_lock uid (StaffRequest _ (PostUnlock i _) _) \<longleftrightarrow> ParseInt i = Some uid"
| "ends_lock uid (StaffRequest _ (DeleteUserRoute i _) _) \<longleftrightarrow> ParseInt i = Some uid"
| "ends_lock uid _ \<longleftrightarrow> False"

definition limen_leaves_locks :: "limen \<Rightarrow> bool" where
  "limen_leaves_locks li \<longleftrightarrow>
     (\<forall>u n s d. a_locked (snd (li_create_org li u n s d)) = a_locked d) \<and>
     (\<forall>t g d. a_locked (snd (li_set_active li t g d)) = a_locked d) \<and>
     (\<forall>t g d. a_locked (snd (li_switch li t g d)) = a_locked d) \<and>
     (\<forall>u d. a_locked (li_revoke li u d) = a_locked d)"

fun event_leaves_locks :: "account_event \<Rightarrow> bool" where
  "event_leaves_locks (StaffRequest _ _ _) \<longleftrightarrow> True"
| "event_leaves_locks (OwnRequest me _) \<longleftrightarrow> limen_leaves_locks (me_limen me)"

section \<open>The lock survives\<close>

abbreviation locked :: "int \<Rightarrow> adb \<Rightarrow> bool" where "locked uid d \<equiv> isUserLocked uid d"

lemma locked_frame: "a_locked d' = a_locked d \<Longrightarrow> locked uid d' = locked uid d"
  by (simp add: isUserLocked_def)

lemma ParseInt_FormatInt_eq: "ParseInt (FormatInt n) = Some m \<Longrightarrow> m = n"
proof -
  assume a: "ParseInt (FormatInt n) = Some m"
  show "m = n"
  proof (cases "n < 0")
    case True
    with a show ?thesis by (simp add: ParseInt_def FormatInt_def parse_nat_format_nat split: if_splits)
  next
    case False
    obtain c cs where s: "format_nat (nat n) = c # cs" using format_nat_nonempty by (meson neq_Nil_conv)
    then have "c \<noteq> CHR ''-'' \<and> c \<noteq> CHR ''+''" using format_nat_digits [of c "nat n"] digit_char_not_sign by auto
    with a False s show ?thesis
      using parse_nat_format_nat [of "nat n"] by (simp add: ParseInt_def FormatInt_def split: if_splits)
  qed
qed

lemma locked_cascade: "a_locked (cascadeOrphanedOwnerOrganizations uid d) = a_locked d"
proof -
  have one: "a_locked (cascade_org uid g d) = a_locked d" for g d
    by (simp add: cascade_org_def promote_def delete_org_def Let_def split: option.split)
  have "a_locked (fold (cascade_org uid) gs d) = a_locked d" for gs
    by (induction gs arbitrary: d) (simp_all add: one)
  then show ?thesis by (simp add: cascadeOrphanedOwnerOrganizations_def)
qed

lemma keeps_CascadeDeleteUser:
  assumes other: "ParseInt i \<noteq> Some uid"
  shows "keeps (locked uid) (CascadeDeleteUser i)"
proof (rule keepsI)
  fix d x d' assume l: "locked uid d" and run: "CascadeDeleteUser i d = Inr (x, d')"
  from run obtain u where u: "ParseInt i = Some u"
    by (cases "ParseInt i") (auto simp: CascadeDeleteUser_def exec_simps)
  with other have "u \<noteq> uid" by auto
  have row: "delete_user_row u e = Inr (x, d') \<Longrightarrow> locked uid e \<Longrightarrow> locked uid d'" for e
    using \<open>u \<noteq> uid\<close> by (force simp: delete_user_row_def isUserLocked_def Let_def split: if_splits)
  define e where "e = cascadeOrphanedOwnerOrganizations u d"
  have "locked uid e" using l by (simp add: e_def isUserLocked_def locked_cascade)
  then have here: "locked uid (e\<lparr> a_sessions := tdel (\<lambda>s. as_user s = u) (a_sessions e),
      a_accounts := tdel (\<lambda>v. v = u) (a_accounts e) \<rparr>)" by (simp add: isUserLocked_def)
  have "delete_user_row u (e\<lparr> a_sessions := tdel (\<lambda>s. as_user s = u) (a_sessions e),
      a_accounts := tdel (\<lambda>v. v = u) (a_accounts e) \<rparr>) = Inr (x, d')"
    using run by (simp add: CascadeDeleteUser_def exec_simps u e_def)
  then show "locked uid d'" by (rule row) (rule here)
qed

text \<open>The library's steps, and what the server does around them.\<close>

lemma locked_sessions:
  assumes "limen_leaves_locks li"
  shows "a_locked (ensurePersonalOrgOnce li lower uid email d) = a_locked d"
    and "a_locked (snd (default_org li lower uid email d)) = a_locked d"
    and "a_locked (snd (snd (pick_org li lower v tok sess cookies d))) = a_locked d"
    and "a_locked (snd (snd (resolveSession li lower db_ok cookie d))) = a_locked d"
proof -
  have create: "a_locked (snd (li_create_org li u n s d)) = a_locked d" for u n s d
    using assms by (simp add: limen_leaves_locks_def)
  have active: "a_locked (snd (li_set_active li t g d)) = a_locked d" for t g d
    using assms by (simp add: limen_leaves_locks_def)
  have missing: "a_locked (snd (createPersonalOrgIfMissing li lower uid email d)) = a_locked d" for uid email d
    using create [of uid "nameFromEmail email" "personalOrgSlug lower email (FormatInt uid)" d]
    by (auto simp: createPersonalOrgIfMissing_def split: option.splits prod.splits create_answer.splits)
  have once: "a_locked (ensurePersonalOrgOnce li lower uid email d) = a_locked d" for uid email d
    using missing [of uid email d] by (auto simp: ensurePersonalOrgOnce_def split: prod.splits bool.splits)
  have dflt: "a_locked (snd (default_org li lower uid email d)) = a_locked d" for uid email d
    by (simp add: default_org_def Let_def once split: option.splits)
  have pick: "a_locked (snd (snd (pick_org li lower v tok sess cookies d))) = a_locked d" for v tok sess cookies d
  proof -
    obtain g d' where g: "default_org li lower (vs_user v) (vs_email v) d = (g, d')" by fastforce
    have "a_locked d' = a_locked d" using dflt [of "vs_user v" "vs_email v" d] by (simp add: g)
    then show ?thesis
      using active [of tok _ d'] by (auto simp: pick_org_def g split: option.splits prod.splits) (metis snd_conv)+
  qed
  show "a_locked (ensurePersonalOrgOnce li lower uid email d) = a_locked d"
    "a_locked (snd (default_org li lower uid email d)) = a_locked d"
    "a_locked (snd (snd (pick_org li lower v tok sess cookies d))) = a_locked d"
    by (rule once dflt pick)+
  show "a_locked (snd (snd (resolveSession li lower db_ok cookie d))) = a_locked d"
    by (simp add: resolveSession_def Let_def pick once split: option.split)
qed

text \<open>A session is only ever resolved for a user who is not locked, and carries that user's id.\<close>

lemma resolved_unlocked:
  assumes "resolveSession li lower db_ok cookie d = (Some s, cookies, d')"
  shows "\<exists>v :: valid_session. ss_user s = FormatInt (vs_user v) \<and> \<not> locked (vs_user v) d"
proof -
  have pick: "pick_org li lower v tok sess cs d = (Some s, cookies, d') \<Longrightarrow> ss_user s = ss_user sess" for v tok sess cs d
    by (auto simp: pick_org_def split: prod.splits option.splits)
  from assms obtain v where v: "li_session li cookie d = Some v" "\<not> locked (vs_user v) d"
    by (auto simp: resolveSession_def split: option.splits if_splits)
  with assms have "ss_user s = FormatInt (vs_user v)"
    by (auto simp: resolveSession_def Let_def split: option.splits if_splits dest!: pick)
  with v show ?thesis by blast
qed

lemma resolve_locked:
  "li_session li cookie d = Some v \<Longrightarrow> locked (vs_user v) d \<Longrightarrow> resolveSession li lower db_ok cookie d = (None, [], d)"
  by (simp add: resolveSession_def)

lemma guard_locked:
  "li_session li cookie d = Some v \<Longrightarrow> locked (vs_user v) d \<Longrightarrow>
   AuthMountGuard li db_ok m path cookie d =
     (if routekey_Of m path = authMountSignoutMethodAndPath then PassOn else GuardRefuses 403 ''forbidden'')"
  by (simp add: AuthMountGuard_def Let_def)

lemma keeps_lock_writes: "(\<And>d. a_locked (f d) = a_locked d) \<Longrightarrow> keeps (locked uid) (writes f)"
  by (rule keeps_writes) (simp add: isUserLocked_def)

lemma keeps_Record: "keeps (locked uid) (Record actor action kind i reason now)"
proof -
  have "keeps (locked uid) new_id" by (auto simp: keeps_def new_id_def isUserLocked_def)
  then show ?thesis unfolding Record_def by (intro keeps_intros keeps_lock_writes) simp_all
qed

lemma keeps_admin_route:
  assumes revoke: "\<And>u d. a_locked (ev_revoke env u d) = a_locked d" and safe: "\<not> ends_lock uid (StaffRequest sess q now)"
  shows "keeps (locked uid) (admin_route env sess q now)"
proof (cases "calls_for q")
  case None
  then show ?thesis by (rule reading_routes)
next
  case (Some c)
  have guards: "keeps (locked uid) (requireActor sess)" "keeps (locked uid) (decodeReason b)" "keeps (locked uid) (actor_guard a i)"
    "keeps (locked uid) (requireExistingUser f i)" for b a i f
    unfolding requireActor_def decodeReason_def actor_guard_def requireExistingUser_def by (intro keeps_intros)+
  have put: "keeps (locked uid) (put_lock u r)" for u r
    unfolding put_lock_def by (intro keeps_intros keeps_writes) (auto simp: isUserLocked_def)
  have lock: "keeps (locked uid) (LockUser (ev_revoke env) a i r now)" for a i r
    unfolding LockUser_def by (intro keeps_intros guards put keeps_Record keeps_lock_writes revoke)
  have unlock: "keeps (locked uid) (UnlockUser a i r now)" if "ParseInt i \<noteq> Some uid" for a i r
  proof (cases "ParseInt i")
    case None
    then show ?thesis by (simp add: UnlockUser_def keeps_def exec_simps)
  next
    case (Some u)
    with that have "u \<noteq> uid" by simp
    then have "keeps (locked uid) (tx (writes (\<lambda>d. d\<lparr> a_locked := tdel (\<lambda>p. fst p = u) (a_locked d) \<rparr>)) (\<lambda>_.
        Record a ActionUnlockUser ''user'' i r now))"
      by (intro keeps_tx keeps_Record keeps_writes) (force simp: isUserLocked_def)
    then show ?thesis by (simp add: UnlockUser_def keeps_def exec_simps Some)
  qed
  have delete: "keeps (locked uid) (AdminDeleteUser (ev_revoke env) a i r now)" if "ParseInt i \<noteq> Some uid" for a i r
    unfolding AdminDeleteUser_def
    by (intro keeps_intros guards keeps_Record keeps_lock_writes revoke keeps_CascadeDeleteUser that)
  have suspend: "keeps (locked uid) (SetContentSuspended a k i b r now)" for a k i b r
    unfolding SetContentSuspended_def by (intro keeps_intros keeps_Record keeps_lock_writes) (simp add: with_content_def)
  have retry: "keeps (locked uid) (handleRetryJob sess i now)" for i
    unfolding handleRetryJob_def by (intro keeps_intros guards keeps_Record keeps_lock_writes) simp
  show ?thesis
    using Some safe
    by (cases q) (simp_all add: handleLockUser_def handleUnlockUser_def handleDeleteUser_def handleSetContentSuspended_def,
      (intro keeps_intros guards lock unlock delete suspend retry; simp)+)
qed

lemma keeps_SetProfile: "keeps (locked uid) (SetProfile i name locale)"
  unfolding SetProfile_def set_name_def Let_def by (intro keeps_intros keeps_lock_writes) simp_all

lemma keeps_CheckOwnPassword: "keeps (locked uid) (CheckOwnPassword compare_password i password)"
  unfolding CheckOwnPassword_def by (intro keeps_intros)

lemma keeps_answer: "keeps (locked uid) m \<Longrightarrow> locked uid d \<Longrightarrow> locked uid (snd (answer status m d))"
  by (auto simp: answer_def keeps_def split: sum.splits)

lemma snd_map_reply: "snd (map_reply f r) = snd r"
  by (cases "(f, r)" rule: map_reply.cases) simp_all

lemma keeps_DeleteOwnAccount:
  assumes "limen_leaves_locks li" and "ParseInt i \<noteq> Some uid"
  shows "keeps (locked uid) (DeleteOwnAccount (li_revoke li) i)"
proof (rule keepsI)
  fix d x d' assume l: "locked uid d" and run: "DeleteOwnAccount (li_revoke li) i d = Inr (x, d')"
  have "locked uid (li_revoke li i d)" using l assms(1) by (simp add: isUserLocked_def limen_leaves_locks_def)
  moreover from run obtain u e where e: "CascadeDeleteUser i (li_revoke li i d) = Inr (u, e)" and d': "a_locked d' = a_locked e"
    by (auto simp: DeleteOwnAccount_def split: sum.splits)
  ultimately have "locked uid e" using keepsD [OF keeps_CascadeDeleteUser [OF assms(2)]] by blast
  then show "locked uid d'" by (simp add: isUserLocked_def d')
qed

lemma switched: "SwitchOrganization li cookie g d = Inr (c, d') \<Longrightarrow> \<exists>t g' c'. li_switch li t g' d = (c', d')"
  by (auto simp: SwitchOrganization_def split: option.splits member_answer.splits prod.splits)

lemma me_handle_keeps:
  assumes li: "limen_leaves_locks (me_limen me)" and l: "locked uid d"
  shows "locked uid (snd (me_handle me q d))"
proof -
  obtain sess cookies e where r: "resolveSession (me_limen me) (me_lower me) (me_db_ok me) (me_cookie me) d = (sess, cookies, e)"
    by (metis prod_cases3)
  have e: "locked uid e" using locked_sessions(4) [OF li, of "me_lower me" "me_db_ok me" "me_cookie me" d] l
    by (simp add: r isUserLocked_def)
  have own: "ParseInt (ss_user s) \<noteq> Some uid" if "sess = Some s" for s
    using resolved_unlocked [OF r [unfolded that]] l by (auto dest: ParseInt_FormatInt_eq)
  have switch: "locked uid (snd (handleSwitchOrganization me g e))" for g
  proof (cases "SwitchOrganization (me_limen me) (me_cookie me) g e")
    case (Inr a)
    then obtain c e' where a: "a = (c, e')" by (cases a)
    from switched [OF Inr [unfolded a]] obtain t g' c' where "li_switch (me_limen me) t g' e = (c', e')" by blast
    with li have "a_locked e' = a_locked e" unfolding limen_leaves_locks_def by (metis snd_conv)
    with e Inr show ?thesis by (simp add: handleSwitchOrganization_def a isUserLocked_def)
  qed (simp add: handleSwitchOrganization_def e)
  have lists: "locked uid (snd (handleListMyOrganizations me s e))" for s
    unfolding handleListMyOrganizations_def ListUserOrganizations_def by (intro keeps_answer keeps_intros e)
  have update: "locked uid (snd (handleUpdateMe s n loc e))" for s n loc
    using keeps_answer [OF keeps_SetProfile e] e by (simp add: handleUpdateMe_def)
  have delete: "locked uid (snd (handleDeleteMe me s p e))" if "sess = Some s" for s p
    unfolding handleDeleteMe_def
    by (intro keeps_answer keeps_tx keeps_CheckOwnPassword keeps_DeleteOwnAccount li own that e)
  show ?thesis
    unfolding me_handle_def Middleware_def r prod.case
    by (cases q; cases sess) (simp_all add: snd_map_reply gated_def RequireSession_def RequireSessionAllowUnverified_def
        e switch lists update delete)
qed

lemma account_run_keeps:
  assumes "\<And>u d. a_locked (ev_revoke env u d) = a_locked d" and "\<forall>e \<in> set evs. event_leaves_locks e \<and> \<not> ends_lock uid e"
  shows "locked uid d \<Longrightarrow> locked uid (account_run env evs d)"
  using assms(2)
proof (induction evs arbitrary: d)
  case (Cons e evs)
  have "locked uid (account_step env e d)"
  proof (cases e)
    case (StaffRequest sess q now)
    have "keeps (locked uid) (admin_handle env sess q now)"
      unfolding admin_handle_def
      using keeps_admin_route [OF assms(1), of uid sess q now] Cons.prems(2) StaffRequest
      by (auto simp: keeps_raise split: gate_answer.split)
    with Cons.prems(1) show ?thesis by (auto simp: StaffRequest keeps_def split: sum.split)
  next
    case (OwnRequest me q)
    with me_handle_keeps [of me uid d q] Cons.prems show ?thesis by simp
  qed
  with Cons show ?case by (simp add: account_run_def)
qed (simp add: account_run_def)

lemma asvc_Inr: "asvc m d = Inr r \<longleftrightarrow> m d = Inr r"
  by (auto simp: asvc_def split: sum.splits)

lemma lock_accepted:
  assumes run: "admin_handle env sess (PostLock i body) now d = Inr (x, d')" and uid: "ParseInt i = Some uid"
    and revoke: "\<And>u d. a_locked (ev_revoke env u d) = a_locked d"
  shows "locked uid d'"
proof -
  have put: "put_lock uid r d1 = Inr (u, d2) \<Longrightarrow> locked uid d2" for r d1 u d2
    by (auto simp: put_lock_def exec_simps isUserLocked_def split: option.splits)
  have rec: "Record a ActionLockUser ''user'' i r now d1 = Inr (u, d2) \<Longrightarrow> locked uid d1 \<Longrightarrow> locked uid d2" for a r d1 u d2
    using keepsD [OF keeps_Record] by blast
  from run obtain actor reason d1 y where lock: "LockUser (ev_revoke env) (Some actor) i reason now d1 = Inr (y, d')"
    by (auto simp: admin_handle_def replying_Inr handleLockUser_def tx_Inr_iff asvc_Inr raise_def split: gate_answer.splits)
  from lock have "\<exists>r d2 d3 u. put_lock uid r d2 = Inr (u, d3) \<and> (\<exists>d4 w. Record (Some actor) ActionLockUser ''user'' i reason now d3 = Inr (w, d4) \<and>
      d' = ev_revoke env i d4)"
    unfolding LockUser_def tx_Inr_iff by (auto simp: lookup_or_def uid writes_def)
  with put rec revoke show ?thesis by (auto simp: isUserLocked_def)
qed

section \<open>Containment\<close>

text \<open>C14: Once staff have locked an account, and through every later run of staff and account requests until an unlock or a
  deletion of that account is requested, any session the library still hands out for it resolves to nobody: the account's own routes
  answer 401 and change nothing, and the guard before the library's routes refuses everything but signing out.\<close>

theorem lock_contains:
  assumes "\<And>u d. a_locked (ev_revoke env u d) = a_locked d"
    and "admin_handle env sess (PostLock i body) now d0 = Inr (x, d1)" and "ParseInt i = Some uid"
    and "\<forall>e \<in> set evs. event_leaves_locks e \<and> \<not> ends_lock uid e" and "d = account_run env evs d1"
    and "li_session (me_limen me) (me_cookie me) d = Some v" and "vs_user v = uid"
  shows "resolveSession (me_limen me) lower db_ok (me_cookie me) d = (None, [], d) \<and>
     me_handle me q d = (Refusal 401 ''unauthenticated'' [], d) \<and>
     AuthMountGuard (me_limen me) db_ok m path (me_cookie me) d =
       (if routekey_Of m path = authMountSignoutMethodAndPath then PassOn else GuardRefuses 403 ''forbidden'')"
proof -
  have l: "locked (vs_user v) d"
    unfolding assms(5,7) by (rule account_run_keeps [OF assms(1,4) lock_accepted [OF assms(2,3,1)]])
  note resolve = resolve_locked [OF assms(6) l]
  have "me_handle me q d = (Refusal 401 ''unauthenticated'' [], d)"
    unfolding me_handle_def Middleware_def resolve prod.case
    by (cases q) (simp_all add: gated_def RequireSession_def RequireSessionAllowUnverified_def)
  with resolve guard_locked [OF assms(6) l] show ?thesis by blast
qed

definition demo_limen :: limen where
  "demo_limen = \<lparr> li_session = (\<lambda>_ _. Some \<lparr> vs_user = 7, vs_email = ''a@x'', vs_verified = True, vs_token = Some ''s'', vs_refreshed = None \<rparr>),
     li_active = (\<lambda>_ _. Some None), li_check_member = (\<lambda>_ _ _. IsMember), li_count_orgs = (\<lambda>_ _. Some 1),
     li_create_org = (\<lambda>_ _ _ d. (OrgCreated, d)), li_get_org = (\<lambda>g _. Some g), li_set_active = (\<lambda>_ _ d. (Some None, d)),
     li_switch = (\<lambda>_ _ d. (Some None, d)), li_revoke = (\<lambda>_ d. d) \<rparr>"

definition demo_me :: me_env where
  "demo_me = \<lparr> me_limen = demo_limen, me_lower = id, me_compare = (\<lambda>_ _. Inr True), me_collate = length, me_cookie = None, me_db_ok = True \<rparr>"

lemma lock_contains_witness:
  "\<exists>d1. admin_handle demo_admin_env (Some demo_staff) (PostLock ''7'' ''spam'') 5 demo_accounts = Inr (DoneReply, d1) \<and>
    (let d = account_run demo_admin_env [OwnRequest demo_me (PatchMe (Some ''x'') None)] d1
     in me_handle demo_me (DeleteMe []) d = (Refusal 401 ''unauthenticated'' [], d))"
proof -
  obtain d1 where d1: "admin_handle demo_admin_env (Some demo_staff) (PostLock ''7'' ''spam'') 5 demo_accounts = Inr (DoneReply, d1)"
    using demo_lock by blast
  have num: "ParseInt ''7'' = Some 7" by (simp add: ParseInt_def parse_nat_def digit_val_def in_int64_def)
  define d where "d = account_run demo_admin_env [OwnRequest demo_me (PatchMe (Some ''x'') None)] d1"
  define v where "v = \<lparr> vs_user = 7, vs_email = ''a@x'', vs_verified = True, vs_token = Some ''s'', vs_refreshed = None \<rparr>"
  have "me_handle demo_me (DeleteMe []) d = (Refusal 401 ''unauthenticated'' [], d)"
  proof (rule lock_contains [OF _ d1 num _ d_def, THEN conjunct2, THEN conjunct1])
    show "a_locked (ev_revoke demo_admin_env u d) = a_locked d" for u d by (simp add: demo_admin_env_def)
    show "\<forall>e \<in> set [OwnRequest demo_me (PatchMe (Some ''x'') None)]. event_leaves_locks e \<and> \<not> ends_lock 7 e"
      by (simp add: demo_me_def demo_limen_def limen_leaves_locks_def)
    show "li_session (me_limen demo_me) (me_cookie demo_me) d = Some v" by (simp add: demo_me_def demo_limen_def v_def)
    show "vs_user v = 7" by (simp add: v_def)
  qed
  with d1 show ?thesis by (auto simp: Let_def d_def)
qed

end
