(* ===== verification/Slots.thy ===== *)
theory Slots
  imports Claims
begin

text \<open>
  The invariant of the poll database and what each statement needs to keep it: keys are unique,
  every row refers to rows that exist, a vote joins a participant and an option of one poll, an
  option has a capacity only on a sign-up sheet, and no option has more yes votes than its capacity.
  \<open>core\<close> is the part of the database the invariant speaks of; statements that leave it alone keep the
  invariant for free.
\<close>

definition core :: "db \<Rightarrow> Poll list \<times> PollOption list \<times> Participant list \<times> Vote list" where
  "core d = (db_polls d, db_options d, db_participants d, db_votes d)"

definition keys_ok :: "db \<Rightarrow> bool" where
  "keys_ok d \<longleftrightarrow> tuniq p_id (db_polls d) \<and> tuniq o_id (db_options d) \<and>
     tuniq pa_id (db_participants d) \<and> tuniq v_key (db_votes d)"

definition vote_ok :: "db \<Rightarrow> Vote \<Rightarrow> bool" where
  "vote_ok d v \<longleftrightarrow> v_answer v \<in> set vote_answers \<and>
     (\<exists>pa \<in> set (db_participants d). \<exists>po \<in> set (db_options d).
        pa_id pa = v_participant v \<and> o_id po = v_option v \<and> pa_poll pa = o_poll po)"

definition refs_ok :: "db \<Rightarrow> bool" where
  "refs_ok d \<longleftrightarrow> (\<forall>po \<in> set (db_options d). o_poll po \<in> p_id ` set (db_polls d)) \<and>
     (\<forall>pa \<in> set (db_participants d). pa_poll pa \<in> p_id ` set (db_polls d)) \<and>
     (\<forall>v \<in> set (db_votes d). vote_ok d v)"

definition signup_sheet :: "string \<Rightarrow> db \<Rightarrow> bool" where
  "signup_sheet i d \<longleftrightarrow> (\<exists>p \<in> set (db_polls d). p_id p = i \<and> p_type p = ''signup'')"

definition slot_ok :: "db \<Rightarrow> PollOption \<Rightarrow> bool" where
  "slot_ok d po \<longleftrightarrow> (\<forall>c. o_capacity po = Some c \<longrightarrow>
     signup_sheet (o_poll po) d \<and> int (CountYesVotesForOption (o_id po) d) \<le> c)"

definition poll_ok :: "db \<Rightarrow> bool" where
  "poll_ok d \<longleftrightarrow> keys_ok d \<and> refs_ok d \<and> (\<forall>po \<in> set (db_options d). slot_ok d po)"

lemmas poll_ok_defs = poll_ok_def keys_ok_def refs_ok_def vote_ok_def slot_ok_def signup_sheet_def

lemma poll_ok_core: "core d = core d' \<Longrightarrow> poll_ok d = poll_ok d'"
  by (simp add: poll_ok_defs core_def CountYesVotesForOption_def)

subsection \<open>Statements that leave the core alone\<close>

definition stable :: "'a poll_tx \<Rightarrow> bool" where
  "stable m \<longleftrightarrow> (\<forall>c. keeps (\<lambda>d. core d = c) m)"

lemma stableD: "stable m \<Longrightarrow> m d = Inr (x, d') \<Longrightarrow> core d' = core d"
  unfolding stable_def keeps_def by blast

lemma stableI: "(\<And>d x d'. m d = Inr (x, d') \<Longrightarrow> core d' = core d) \<Longrightarrow> stable m"
  unfolding stable_def keeps_def by simp

named_theorems stable_intros "statements that leave polls, options, participants and votes alone"

lemma stable_tx [stable_intros]: "stable m \<Longrightarrow> (\<And>x. stable (k x)) \<Longrightarrow> stable (tx m k)"
  unfolding stable_def by (intro allI keeps_tx) blast+

lemma stable_for_each [stable_intros]: "(\<And>x. stable (f x)) \<Longrightarrow> stable (for_each f xs)"
  unfolding stable_def by (intro allI keeps_for_each) blast

lemma stable_if [stable_intros]: "stable m \<Longrightarrow> stable m' \<Longrightarrow> stable (if b then m else m')"
  by simp

lemma stable_case [stable_intros]:
  "stable m \<Longrightarrow> (\<And>x. stable (k x)) \<Longrightarrow> stable (case z of None \<Rightarrow> m | Some x \<Rightarrow> k x)"
  "(\<And>x y. stable (l x y)) \<Longrightarrow> stable (case w of (x, y) \<Rightarrow> l x y)"
  by (cases z; simp) (cases w; simp)

lemma stable_basic [stable_intros]:
  "stable (ret x)" "stable (raise e)" "stable (ensure b e)" "stable (reads f)" "stable (lookup_or e g)"
  "stable (of_result r)"
  by (auto simp: stable_def keeps_intros)

lemma stable_statements [stable_intros]:
  "stable NewID" "stable (schedule_job si)" "stable (cancel_job k r)" "stable (Emit r t j)"
  "stable (writes (recordStats ds))"
  "stable (UpsertNotificationSubscription ty i u src now)" "stable (DeleteNotificationSubscription ty i u)"
  "stable (SetNotificationSubscriptionChannels ty i u g now)" "stable (DeleteSubscriptionsByScope ty i)"
  "stable (InsertComment c)" "stable (SoftDeleteComment i pid now)"
  by (auto intro!: stableI simp: NewID_def result_simps Emit_def recordStats_def core_def Let_def
      UpsertNotificationSubscription_def DeleteNotificationSubscription_def
      SetNotificationSubscriptionChannels_def DeleteSubscriptionsByScope_def InsertComment_def
      SoftDeleteComment_def split: if_splits option.splits)

lemma core_commit: "stable m \<Longrightarrow> core (commit d (m d)) = core d"
  by (cases "m d") (auto dest: stableD)

lemma core_best_effort:
  "core (ensureCreatorSubscriptionBestEffort i u now d) = core d"
  "core (copyNotificationOverrideBestEffort i j n now d) = core d"
  by (auto simp: ensureCreatorSubscriptionBestEffort_def copyNotificationOverrideBestEffort_def
      core_commit stable_intros split: option.splits)

lemma stable_best_effort [stable_intros]:
  "stable (writes (ensureCreatorSubscriptionBestEffort i u now))"
  "stable (writes (copyNotificationOverrideBestEffort i j n now))"
  by (auto intro!: stableI simp: result_simps core_best_effort)

lemma stable_guards [stable_intros]:
  "stable (requireOrgPoll i g)" "stable (requireOpenPollTx i)" "stable (requireParticipantInPollTx i j)"
  "stable (validateAnswersTx i xs a)" "stable (RequireManageable i g u)"
  "stable (requireSignupPollTx i b)" "stable (requireNotSignupPollHTTP i)" "stable (user_column u)"
  unfolding requireOrgPoll_def requireOpenPollTx_def requireParticipantInPollTx_def user_column_def
    validateAnswersTx_def RequireManageable_def requireSignupPollTx_def requireNotSignupPollHTTP_def
  by (intro stable_intros)+

lemma stable_calls [stable_intros]:
  "stable (enqueueMailPoll m now)" "stable (emit_changed i e)" "stable (buildView p u)"
  unfolding enqueueMailPoll_def emit_changed_def buildView_def by (intro stable_intros)+

lemma stable_armDeadline [stable_intros]: "stable (armDeadline i t now)"
  unfolding armDeadline_def Let_def by (intro stable_intros)

lemma stable_mail_participants [stable_intros]: "stable (mail_participants lower i now ps seen n)"
  by (induction ps arbitrary: seen n) (auto intro!: stable_intros split: option.splits)

lemma stable_mail_subscribers [stable_intros]: "stable (mail_subscribers i now rs seen n)"
  by (induction rs arbitrary: seen n) (auto intro!: stable_intros)

lemma stable_mail_owner [stable_intros]: "stable (mail_owner lower p now seen n)"
proof (rule stableI)
  fix d x d' assume m: "mail_owner lower p now seen n d = Inr (x, d')"
  have s: "stable (tx (enqueueMailPoll m now) (\<lambda>_. ret y))" for m and y :: "string list \<times> nat"
    by (intro stable_intros)
  from m show "core d' = core d"
    by (auto simp: mail_owner_def Let_def split: option.splits if_splits dest: stableD [OF s])
qed

lemma stable_claimant [stable_intros]:
  "stable (prepareNewParticipant i p n e l)" "stable (lock_claimant c)"
  unfolding prepareNewParticipant_def Let_def by (intro stable_intros) (cases c; auto simp: lock_claimant_def intro!: stable_intros)

lemma stable_resolveClaimant [stable_intros]: "stable (resolveClaimant i p ci vw)"
  unfolding resolveClaimant_def by (intro stable_intros)

lemma stable_unclaim_target [stable_intros]: "stable (unclaim_target i t vw b)"
  unfolding unclaim_target_def by (intro stable_intros)

lemma keeps_stable: "stable m \<Longrightarrow> (\<And>d d'. core d = core d' \<Longrightarrow> P d = P d') \<Longrightarrow> keeps P m"
  unfolding keeps_def by (metis stableD)

subsection \<open>Statements that change the core\<close>

lemma poll_okD:
  assumes "poll_ok d"
  shows "tuniq p_id (db_polls d)" "tuniq o_id (db_options d)" "tuniq pa_id (db_participants d)"
    "tuniq v_key (db_votes d)"
    "po \<in> set (db_options d) \<Longrightarrow> o_poll po \<in> p_id ` set (db_polls d)"
    "pa \<in> set (db_participants d) \<Longrightarrow> pa_poll pa \<in> p_id ` set (db_polls d)"
    "v \<in> set (db_votes d) \<Longrightarrow> vote_ok d v" "po \<in> set (db_options d) \<Longrightarrow> slot_ok d po"
  using assms by (auto simp: poll_ok_def keys_ok_def refs_ok_def)

lemma poll_okI:
  assumes "tuniq p_id (db_polls d)" "tuniq o_id (db_options d)" "tuniq pa_id (db_participants d)"
    "tuniq v_key (db_votes d)"
    "\<And>po. po \<in> set (db_options d) \<Longrightarrow> o_poll po \<in> p_id ` set (db_polls d)"
    "\<And>pa. pa \<in> set (db_participants d) \<Longrightarrow> pa_poll pa \<in> p_id ` set (db_polls d)"
    "\<And>v. v \<in> set (db_votes d) \<Longrightarrow> vote_ok d v" "\<And>po. po \<in> set (db_options d) \<Longrightarrow> slot_ok d po"
  shows "poll_ok d"
  using assms by (simp add: poll_ok_def keys_ok_def refs_ok_def)

lemma vote_ok_mono:
  "vote_ok d v \<Longrightarrow> set (db_participants d) \<subseteq> set (db_participants d') \<Longrightarrow>
   set (db_options d) \<subseteq> set (db_options d') \<Longrightarrow> vote_ok d' v"
  unfolding vote_ok_def by blast

lemma slot_ok_mono:
  "slot_ok d po \<Longrightarrow> (\<And>i. signup_sheet i d \<Longrightarrow> signup_sheet i d') \<Longrightarrow>
   CountYesVotesForOption (o_id po) d' \<le> CountYesVotesForOption (o_id po) d \<Longrightarrow> slot_ok d' po"
  unfolding slot_ok_def by force

lemma signup_update_poll:
  assumes "\<And>p. p_id (f p) = p_id p" "\<And>p. p_type (f p) = p_type p"
  shows "signup_sheet i (d\<lparr> db_polls := tupd q f (db_polls d) \<rparr>) = signup_sheet i d"
proof -
  have alt: "signup_sheet i e \<longleftrightarrow> (i, ''signup'') \<in> set (map (\<lambda>p. (p_id p, p_type p)) (db_polls e))" for e
    by (auto simp: signup_sheet_def)
  show ?thesis
    unfolding alt using map_key_tupd [of "\<lambda>p. (p_id p, p_type p)" f q "db_polls d"] assms by simp
qed

lemma keeps_update_poll:
  assumes "\<And>p. p_id (f p) = p_id p" "\<And>p. p_type (f p) = p_type p"
  shows "keeps poll_ok (update_poll i f)"
proof -
  have ids: "p_id ` set (tupd q f ps) = p_id ` set ps" for q ps
    using map_key_tupd [of p_id f q ps, OF assms(1)] by (metis set_map)
  show ?thesis
    unfolding update_poll_def
  proof (rule keeps_writes, rule poll_okI)
    fix d assume ok: "poll_ok d"
    let ?d = "d\<lparr> db_polls := tupd (\<lambda>p. p_id p = i) f (db_polls d) \<rparr>"
    show "slot_ok ?d po" if "po \<in> set (db_options ?d)" for po
      using poll_okD(8) [OF ok, of po] that signup_update_poll [OF assms]
      by (simp add: slot_ok_def CountYesVotesForOption_def)
  qed (auto simp: ids assms(1) vote_ok_def dest: poll_okD)
qed

lemma keeps_poll_updates [keeps_intros]:
  "keeps poll_ok (SetPollStatus i st now)" "keeps poll_ok (FinalizePoll i o' st now)"
  "keeps poll_ok (SoftDeletePoll i now)" "keeps poll_ok (UpdatePollScalars i m)"
  unfolding SetPollStatus_def FinalizePoll_def SoftDeletePoll_def UpdatePollScalars_def
  by (rule keeps_update_poll; simp)+

lemma InsertPoll_ok:
  assumes "poll_ok d" and "InsertPoll p d = Inr (u, d')"
  shows "poll_ok d' \<and> p \<in> set (db_polls d')"
proof -
  obtain t where t: "tins p_id p (db_polls d) = Some t" and d': "d' = d\<lparr> db_polls := t \<rparr>"
    using assms(2) by (auto simp: InsertPoll_def split: if_splits option.splits)
  have s: "set t = insert p (set (db_polls d))" by (rule set_tins [OF t])
  have "poll_ok d'"
  proof (rule poll_okI)
    show "slot_ok d' po" if "po \<in> set (db_options d')" for po
      using poll_okD(8) [OF assms(1), of po] that
      by (auto simp: d' s slot_ok_def signup_sheet_def CountYesVotesForOption_def)
  qed (use assms(1) in \<open>auto simp: d' s vote_ok_def dest: poll_okD intro: tuniq_tins [OF t]\<close>)
  then show ?thesis by (simp add: d' s)
qed

lemma no_votes_for_unknown:
  assumes "poll_ok d" and "\<forall>po \<in> set (db_options d). o_id po \<noteq> oid"
  shows "CountYesVotesForOption oid d = 0"
  using poll_okD(7) [OF assms(1)] assms(2)
  by (fastforce simp: CountYesVotesForOption_def tcount_0_iff vote_ok_def)

lemma InsertPollOption_ok:
  assumes "poll_ok d" and "InsertPollOption po d = Inr (u, d')"
    and "\<forall>c. o_capacity po = Some c \<longrightarrow> signup_sheet (o_poll po) d \<and> 0 \<le> c"
  shows "poll_ok d' \<and> db_polls d' = db_polls d \<and> db_votes d' = db_votes d \<and>
    db_options d' = db_options d @ [po] \<and> db_participants d' = db_participants d"
proof -
  obtain t where t: "tins o_id po (db_options d) = Some t" and d': "d' = d\<lparr> db_options := t \<rparr>"
    and p: "tget p_id (o_poll po) (db_polls d) \<noteq> None"
    using assms(2) by (auto simp: InsertPollOption_def split: if_splits option.splits)
  have new: "t = db_options d @ [po]" "\<forall>x \<in> set (db_options d). o_id x \<noteq> o_id po"
    using tins_eq [OF t] by auto
  have "poll_ok d'"
  proof (rule poll_okI)
    fix x assume "x \<in> set (db_options d')"
    then consider "x \<in> set (db_options d)" | "x = po" by (auto simp: d' new(1))
    then show "slot_ok d' x"
    proof cases
      case 1
      with poll_okD(8) [OF assms(1)] show ?thesis
        by (auto simp: d' slot_ok_def signup_sheet_def CountYesVotesForOption_def)
    next
      case 2
      with no_votes_for_unknown [OF assms(1) new(2)] assms(3) show ?thesis
        by (auto simp: d' slot_ok_def signup_sheet_def CountYesVotesForOption_def)
    qed
    from \<open>x \<in> set (db_options d')\<close> show "o_poll x \<in> p_id ` set (db_polls d')"
      using p poll_okD(5) [OF assms(1)] tget_Some_in [of p_id "o_poll po" "db_polls d"]
      by (auto simp: d' new(1) intro: rev_image_eqI)
  next
    fix v assume "v \<in> set (db_votes d')"
    then show "vote_ok d' v"
      using poll_okD(7) [OF assms(1), of v] by (auto simp: d' new(1) vote_ok_def)
  qed (use assms(1) in \<open>auto simp: d' dest: poll_okD intro: tuniq_tins [OF t]\<close>)
  then show ?thesis by (simp add: d' new(1))
qed

lemma InsertParticipant_ok:
  assumes "poll_ok d" and "InsertParticipant p d = Inr (u, d')"
  shows "poll_ok d' \<and> db_polls d' = db_polls d \<and> db_votes d' = db_votes d \<and>
    db_options d' = db_options d \<and> db_participants d' = db_participants d @ [p]"
proof -
  obtain t where t: "tins pa_id p (db_participants d) = Some t" and d': "d' = d\<lparr> db_participants := t \<rparr>"
    and p: "tget p_id (pa_poll p) (db_polls d) \<noteq> None"
    using assms(2) by (auto simp: InsertParticipant_def split: if_splits option.splits)
  have new: "t = db_participants d @ [p]" using tins_eq [OF t] by auto
  have "poll_ok d'"
  proof (rule poll_okI)
    fix x assume "x \<in> set (db_participants d')"
    then show "pa_poll x \<in> p_id ` set (db_polls d')"
      using p poll_okD(6) [OF assms(1)] tget_Some_in [of p_id "pa_poll p" "db_polls d"]
      by (auto simp: d' new intro: rev_image_eqI)
  next
    fix v assume "v \<in> set (db_votes d')"
    then show "vote_ok d' v"
      using poll_okD(7) [OF assms(1), of v] by (auto simp: d' new vote_ok_def)
  next
    fix x assume "x \<in> set (db_options d')"
    with poll_okD(8) [OF assms(1)] show "slot_ok d' x"
      by (auto simp: d' slot_ok_def signup_sheet_def CountYesVotesForOption_def)
  qed (use assms(1) in \<open>auto simp: d' dest: poll_okD intro: tuniq_tins [OF t]\<close>)
  then show ?thesis by (simp add: d' new)
qed

lemma poll_ok_shrink:
  assumes "poll_ok d" and "db_polls d' = db_polls d" and "db_options d' = tdel q (db_options d)"
    and "db_participants d' = tdel q' (db_participants d)" and "db_votes d' = tdel q'' (db_votes d)"
    and "\<And>po v. po \<in> set (db_options d) \<Longrightarrow> q po \<Longrightarrow> v_option v = o_id po \<Longrightarrow> q'' v"
    and "\<And>pa v. pa \<in> set (db_participants d) \<Longrightarrow> q' pa \<Longrightarrow> v_participant v = pa_id pa \<Longrightarrow> q'' v"
  shows "poll_ok d'"
proof (rule poll_okI)
  fix v assume v: "v \<in> set (db_votes d')"
  then have "vote_ok d v" and "\<not> q'' v" using poll_okD(7) [OF assms(1)] by (auto simp: assms(5))
  with assms(6,7) show "vote_ok d' v" by (force simp: vote_ok_def assms(3,4))
next
  fix po assume "po \<in> set (db_options d')"
  then have "slot_ok d po" using poll_okD(8) [OF assms(1)] by (auto simp: assms(3))
  then show "slot_ok d' po"
    by (rule slot_ok_mono)
       (simp_all add: signup_sheet_def assms(2,5) CountYesVotesForOption_def tcount_tdel_le)
qed (use assms(1) in \<open>auto simp: assms(2-5) tuniq_tdel dest: poll_okD\<close>)

lemma tdel_none [simp]: "tdel (\<lambda>_. False) t = t"
  by (simp add: tdel_def)

lemma keeps_deletes [keeps_intros]:
  "keeps poll_ok (DeletePollOption i)" "keeps poll_ok (DeleteParticipant j)"
  "keeps poll_ok (DeleteVote j i)" "keeps poll_ok (DeleteVotesByParticipant j)"
  unfolding DeletePollOption_def DeleteParticipant_def DeleteVote_def DeleteVotesByParticipant_def
     apply (rule keeps_writes, rule poll_ok_shrink [where q = "\<lambda>po. o_id po = i" and q' = "\<lambda>_. False"
       and q'' = "\<lambda>v. v_option v = i"]; simp)
    apply (rule keeps_writes, rule poll_ok_shrink [where q = "\<lambda>_. False" and q' = "\<lambda>p. pa_id p = j"
      and q'' = "\<lambda>v. v_participant v = j"]; simp)
   apply (rule keeps_writes, rule poll_ok_shrink [where q = "\<lambda>_. False" and q' = "\<lambda>_. False"
     and q'' = "\<lambda>v. v_key v = (j, i)"]; simp)
  apply (rule keeps_writes, rule poll_ok_shrink [where q = "\<lambda>_. False" and q' = "\<lambda>_. False"
    and q'' = "\<lambda>v. v_participant v = j"]; simp)
  done

lemma keeps_rename [keeps_intros]: "keeps poll_ok (UpdateParticipantName i name now)"
  unfolding UpdateParticipantName_def
proof (rule keeps_writes, rule poll_okI)
  fix d assume ok: "poll_ok d"
  let ?f = "\<lambda>p. p\<lparr> pa_name := name, pa_updated_at := now \<rparr>"
  let ?d = "d\<lparr> db_participants := tupd (\<lambda>p. pa_id p = i) ?f (db_participants d) \<rparr>"
  show "vote_ok ?d v" if v: "v \<in> set (db_votes ?d)" for v
  proof -
    have "vote_ok d v" using poll_okD(7) [OF ok] v by simp
    then obtain pa po where "pa \<in> set (db_participants d)" "po \<in> set (db_options d)"
      "pa_id pa = v_participant v" "o_id po = v_option v" "pa_poll pa = o_poll po"
      and a: "v_answer v \<in> set vote_answers" by (auto simp: vote_ok_def)
    moreover have "(if pa_id pa = i then ?f pa else pa) \<in> set (db_participants ?d)"
      using \<open>pa \<in> _\<close> by (simp add: set_tupd)
    ultimately show ?thesis
      unfolding vote_ok_def
      by (intro conjI bexI [of _ "if pa_id pa = i then ?f pa else pa"] bexI [of _ po]) auto
  qed
  show "slot_ok ?d po" if "po \<in> set (db_options ?d)" for po
    using poll_okD(8) [OF ok, of po] that by (simp add: slot_ok_def signup_sheet_def CountYesVotesForOption_def)
  show "pa_poll pa \<in> p_id ` set (db_polls ?d)" if pa: "pa \<in> set (db_participants ?d)" for pa
    using pa poll_okD(6) [OF ok] by (auto elim!: in_tupdE split: if_splits)
qed (auto dest: poll_okD)

lemma UpdatePollOption_ok:
  assumes "poll_ok d" and "UpdatePollOption i row d = Inr (u, d')"
    and "\<forall>po \<in> set (db_options d). \<forall>c. o_id po = i \<and> o_capacity row = Some c \<longrightarrow>
      signup_sheet (o_poll po) d \<and> int (CountYesVotesForOption i d) \<le> c"
  shows "poll_ok d'"
proof -
  let ?f = "\<lambda>po. po\<lparr> o_position := o_position row, o_kind := o_kind row, o_start_at := o_start_at row,
              o_end_at := o_end_at row, o_label := o_label row, o_capacity := o_capacity row \<rparr>"
  have d': "d' = d\<lparr> db_options := tupd (\<lambda>po. o_id po = i) ?f (db_options d) \<rparr>"
    using assms(2) by (simp add: UpdatePollOption_def result_simps)
  show ?thesis
  proof (rule poll_okI)
    fix v assume "v \<in> set (db_votes d')"
    then have "vote_ok d v" using poll_okD(7) [OF assms(1)] by (simp add: d')
    then obtain pa po where x: "pa \<in> set (db_participants d)" "po \<in> set (db_options d)"
      "pa_id pa = v_participant v" "o_id po = v_option v" "pa_poll pa = o_poll po"
      "v_answer v \<in> set vote_answers" by (auto simp: vote_ok_def)
    moreover have "(if o_id po = i then ?f po else po) \<in> set (db_options d')"
      using x(2) by (simp add: d' set_tupd)
    ultimately show "vote_ok d' v"
      unfolding vote_ok_def
      by (intro conjI bexI [of _ pa] bexI [of _ "if o_id po = i then ?f po else po"]) (auto simp: d')
  next
    fix po' assume "po' \<in> set (db_options d')"
    then obtain po where po: "po \<in> set (db_options d)" "po' = (if o_id po = i then ?f po else po)"
      by (auto simp: d' elim: in_tupdE)
    show "o_poll po' \<in> p_id ` set (db_polls d')"
      using poll_okD(5) [OF assms(1) po(1)] by (simp add: po(2) d')
    have s: "slot_ok d po" by (rule poll_okD(8) [OF assms(1) po(1)])
    show "slot_ok d' po'"
    proof (cases "o_id po = i")
      case True
      with assms(3) po(1) show ?thesis
        by (auto simp: po(2) d' slot_ok_def signup_sheet_def CountYesVotesForOption_def)
    next
      case False
      with s show ?thesis by (simp add: po(2) d' slot_ok_def signup_sheet_def CountYesVotesForOption_def)
    qed
  qed (use assms(1) in \<open>auto simp: d' dest: poll_okD\<close>)
qed

lemma tcount_tupd_one:
  "tuniq key t \<Longrightarrow> tcount q (tupd (\<lambda>w. key w = k) f t) \<le> tcount q t + 1"
proof (induction t)
  case (Cons w t)
  show ?case
  proof (cases "key w = k")
    case True
    with Cons.prems have "tupd (\<lambda>w. key w = k) f t = t"
      by (auto simp: tuniq_def tupd_def image_iff intro!: map_idI)
    then show ?thesis by (simp add: tupd_def)
  next
    case False
    with Cons show ?thesis by (simp add: tuniq_def tupd_def)
  qed
qed (simp add: tupd_def)

lemma tcount_tupd_le:
  "(\<And>w. w \<in> set t \<Longrightarrow> p w \<Longrightarrow> q (f w) \<Longrightarrow> q w) \<Longrightarrow> tcount q (tupd p f t) \<le> tcount q t"
  by (induction t) (auto simp: tupd_def)

lemma UpsertVote_count:
  assumes "UpsertVote v d = Inr (u, d')" and "tuniq v_key (db_votes d)"
  shows "CountYesVotesForOption oid d' \<le>
    CountYesVotesForOption oid d + (if v_option v = oid \<and> v_answer v = ''yes'' then 1 else 0)"
proof (cases "tins v_key v (db_votes d)")
  case None
  let ?q = "\<lambda>w. v_option w = oid \<and> v_answer w = ''yes''"
  have d': "d' = d\<lparr> db_votes := tupd (\<lambda>w. v_key w = v_key v) (\<lambda>w. w\<lparr> v_answer := v_answer v \<rparr>) (db_votes d) \<rparr>"
    using assms(1) None by (simp add: UpsertVote_def split: if_splits)
  show ?thesis
  proof (cases "v_option v = oid \<and> v_answer v = ''yes''")
    case True
    then show ?thesis
      using tcount_tupd_one [OF assms(2), of ?q "v_key v"] by (simp add: d' CountYesVotesForOption_def)
  next
    case False
    then show ?thesis
      by (auto simp: d' CountYesVotesForOption_def v_key_def intro!: tcount_tupd_le)
  qed
next
  case (Some t)
  then have "db_votes d' = db_votes d @ [v]"
    using assms(1) tins_eq [OF Some] by (simp add: UpsertVote_def split: if_splits) auto
  then show ?thesis by (simp add: CountYesVotesForOption_def)
qed

lemma UpsertVote_cases:
  assumes "UpsertVote v d = Inr (u, d')"
  obtains (update) "v_answer v \<in> set vote_answers" and
      "d' = d\<lparr> db_votes := tupd (\<lambda>w. v_key w = v_key v) (\<lambda>w. w\<lparr> v_answer := v_answer v \<rparr>) (db_votes d) \<rparr>"
  | (insert) "v_answer v \<in> set vote_answers" and "d' = d\<lparr> db_votes := db_votes d @ [v] \<rparr>"
      and "tins v_key v (db_votes d) = Some (db_votes d @ [v])"
  using assms by (auto simp: UpsertVote_def split: if_splits option.splits) (metis tins_eq)+

lemma UpsertVote_frame:
  assumes "UpsertVote v d = Inr (u, d')"
  shows "db_polls d' = db_polls d" "db_options d' = db_options d" "db_participants d' = db_participants d"
    "w \<in> set (db_votes d') \<Longrightarrow> w = v \<or> (\<exists>x \<in> set (db_votes d). w = x \<or> w = x\<lparr> v_answer := v_answer v \<rparr>)"
    "tuniq v_key (db_votes d) \<Longrightarrow> tuniq v_key (db_votes d')" "v_answer v \<in> set vote_answers"
proof -
  have k: "v_key (w\<lparr> v_answer := a \<rparr>) = v_key w" for w a by (simp add: v_key_def)
  from assms show "db_polls d' = db_polls d" "db_options d' = db_options d"
    "db_participants d' = db_participants d" "v_answer v \<in> set vote_answers"
    by (cases rule: UpsertVote_cases; simp)+
  from assms show "tuniq v_key (db_votes d) \<Longrightarrow> tuniq v_key (db_votes d')"
    by (cases rule: UpsertVote_cases) (simp_all add: k tuniq_tins)
  from assms show "w \<in> set (db_votes d') \<Longrightarrow>
      w = v \<or> (\<exists>x \<in> set (db_votes d). w = x \<or> w = x\<lparr> v_answer := v_answer v \<rparr>)"
    by (cases rule: UpsertVote_cases) (auto simp: set_tupd split: if_splits)
qed

lemma UpsertVote_ok:
  assumes "poll_ok d" and "UpsertVote v d = Inr (u, d')" and "vote_ok d v"
    and "\<forall>po \<in> set (db_options d). \<forall>c. o_id po = v_option v \<and> o_capacity po = Some c \<and> v_answer v = ''yes'' \<longrightarrow>
      int (CountYesVotesForOption (o_id po) d) < c"
  shows "poll_ok d'"
proof -
  note f = UpsertVote_frame [OF assms(2)]
  show ?thesis
  proof (rule poll_okI)
    fix w assume "w \<in> set (db_votes d')"
    from f(4) [OF this] consider "w = v" | x where "x \<in> set (db_votes d)" "w = x"
      | x where "x \<in> set (db_votes d)" "w = x\<lparr> v_answer := v_answer v \<rparr>" by blast
    then show "vote_ok d' w"
      using assms(3) poll_okD(7) [OF assms(1)] f(6) by cases (auto simp: vote_ok_def f(2,3))
  next
    fix po assume po: "po \<in> set (db_options d')"
    then have s: "slot_ok d po" and in_d: "po \<in> set (db_options d)"
      using poll_okD(8) [OF assms(1)] by (auto simp: f(2))
    show "slot_ok d' po"
    proof (cases "v_option v = o_id po \<and> v_answer v = ''yes''")
      case True
      with assms(4) in_d have "\<forall>c. o_capacity po = Some c \<longrightarrow> int (CountYesVotesForOption (o_id po) d) < c"
        by auto
      moreover have "int (CountYesVotesForOption (o_id po) d') \<le> int (CountYesVotesForOption (o_id po) d) + 1"
        using UpsertVote_count [OF assms(2) poll_okD(4) [OF assms(1)], of "o_id po"] True by simp
      ultimately have "\<forall>c. o_capacity po = Some c \<longrightarrow> int (CountYesVotesForOption (o_id po) d') \<le> c"
        by force
      with s show ?thesis by (simp add: slot_ok_def signup_sheet_def f(1))
    next
      case False
      with s UpsertVote_count [OF assms(2) poll_okD(4) [OF assms(1)], of "o_id po"] show ?thesis
        by (intro slot_ok_mono [OF s]) (auto simp: signup_sheet_def f(1))
    qed
  qed (use assms(1) f in \<open>auto dest: poll_okD\<close>)
qed

end
