(* ===== verification/SlotRuns.thy ===== *)
theory SlotRuns
  imports Slots PollHandlers PlainText
begin

text \<open>
  Every request and every job of the poll service keeps the invariant of \<open>Slots\<close>, so it holds in every
  database a run of requests can reach.
\<close>

subsection \<open>Plain votes\<close>

lemma GetPoll_signup:
  assumes "poll_ok d" and "GetPoll i d = Some p"
  shows "signup_sheet i d \<longleftrightarrow> p_type p = ''signup''"
proof -
  from GetPoll_id [OF assms(2)] have p: "p_id p = i" "p \<in> set (db_polls d)" by simp_all
  have "q = p" if "q \<in> set (db_polls d)" "p_id q = i" for q
    using tuniq_inj [OF poll_okD(1) [OF assms(1)] that(1) p(2)] that(2) p(1) by simp
  with p show ?thesis unfolding signup_sheet_def by blast
qed

lemma in_ListOptions: "po \<in> set (ListOptionsByPoll i d) \<longleftrightarrow> po \<in> set (db_options d) \<and> o_poll po = i"
  by (auto simp: ListOptionsByPoll_def)

lemma vote_okI:
  assumes "pa \<in> set (db_participants d)" "po \<in> set (db_options d)" "pa_poll pa = o_poll po"
    and "pa_id pa = v_participant v" "o_id po = v_option v" "v_answer v \<in> set vote_answers"
  shows "vote_ok d v"
  using assms unfolding vote_ok_def by blast

lemma plain_vote_ok:
  assumes ok: "poll_ok d" and no: "\<not> signup_sheet i d"
    and pa: "pa \<in> set (db_participants d)" "pa_poll pa = i" "pa_id pa = v_participant v"
    and po: "po \<in> set (db_options d)" "o_poll po = i" "o_id po = v_option v"
    and up: "UpsertVote v d = Inr (u, d')"
  shows "poll_ok d'"
proof (rule UpsertVote_ok [OF ok up], goal_cases)
  case 1
  show ?case
    by (rule vote_okI [OF pa(1) po(1)]) (use pa po UpsertVote_frame(6) [OF up] in simp_all)
next
  case 2
  show ?case
  proof (intro ballI allI impI, elim conjE)
    fix q c assume q: "q \<in> set (db_options d)" "o_id q = v_option v" "o_capacity q = Some c"
    have "q = po" using tuniq_inj [OF poll_okD(2) [OF ok] q(1) po(1)] q(2) po(3) by simp
    then have "signup_sheet i d" using poll_okD(8) [OF ok q(1)] q(3) po(2) by (simp add: slot_ok_def)
    with no show "int (CountYesVotesForOption (o_id q) d) < c" by contradiction
  qed
qed

lemma cast_votes_ok:
  assumes "poll_ok d" and "\<not> signup_sheet i d"
    and "pa \<in> set (db_participants d)" "pa_poll pa = i" "pa_id pa = pid"
    and "\<forall>(oid, v) \<in> set answers. oid \<in> o_id ` set (ListOptionsByPoll i d)"
    and "cast_votes pid answers d = Inr (u, d')"
  shows "poll_ok d'"
  using assms
proof (induction answers arbitrary: d)
  case Nil
  then show ?case by (simp add: cast_votes_def result_simps)
next
  case (Cons x answers)
  obtain oid a where x: "x = (oid, a)" by (cases x)
  let ?v = "\<lparr> v_participant = pid, v_option = oid, v_answer = a \<rparr>"
  from Cons.prems(7) obtain u1 d1 where
    up: "UpsertVote ?v d = Inr (u1, d1)" and rest: "cast_votes pid answers d1 = Inr (u, d')"
    by (auto simp: cast_votes_def tx_Inr_iff x)
  obtain po where po: "po \<in> set (db_options d)" "o_poll po = i" "o_id po = oid"
    using Cons.prems(6) by (auto simp: x in_ListOptions)
  have "poll_ok d1"
    by (rule plain_vote_ok [OF Cons.prems(1-4) _ po(1,2) _ up]) (simp_all add: Cons.prems(5) po(3))
  moreover have same: "db_polls d1 = db_polls d" "db_options d1 = db_options d"
    "db_participants d1 = db_participants d"
    using UpsertVote_frame [OF up] by simp_all
  moreover have "\<not> signup_sheet i d1" using Cons.prems(2) by (simp add: signup_sheet_def same)
  moreover have "\<forall>(oid, v) \<in> set answers. oid \<in> o_id ` set (ListOptionsByPoll i d1)"
    using Cons.prems(6) by (simp add: ListOptionsByPoll_def same)
  ultimately show ?case using Cons.IH [OF _ _ _ _ _ _ rest] Cons.prems(3-5) by simp
qed

lemma keepsI_ok:
  assumes "\<And>d x d'. poll_ok d \<Longrightarrow> m d = Inr (x, d') \<Longrightarrow> poll_ok d'"
  shows "keeps poll_ok m"
  using assms by (rule keepsI)

lemma stable_ok: "stable m \<Longrightarrow> keeps poll_ok m"
  by (erule keeps_stable) (rule poll_ok_core)

lemmas stable_okD = keepsD [OF stable_ok]

lemma user_column_same: "user_column s d = Inr (u, d') \<Longrightarrow> d' = d"
  by (auto simp: user_column_def result_simps split: if_splits)

lemma core_parts:
  "core d' = core d \<longleftrightarrow> db_polls d' = db_polls d \<and> db_options d' = db_options d \<and>
   db_participants d' = db_participants d \<and> db_votes d' = db_votes d"
  by (simp add: core_def)

lemma AddParticipant_ok:
  assumes ok: "poll_ok d" and no: "\<not> signup_sheet pollID d"
    and run: "AddParticipant pollID i viewer now d = Inr (r, d')"
  shows "poll_ok d'"
  using run unfolding AddParticipant_def Let_def
proof (elim tx_InrE, goal_cases)
  case (1 poll d0 u1 d1 existing d2 u2 d3 u3 d4 pid d5 u d6 u4 d7 u5 d8 u6 d9 u7 d10)
  have same: "d4 = d" and answers: "\<forall>(oid, v) \<in> set (pi_answers i). oid \<in> o_id ` set (ListOptionsByPoll pollID d)"
    using 1(1-5) by (auto simp: result_simps)
  have d6: "core d6 = core d" using 1(6,7) by (auto simp: result_simps same core_def dest!: user_column_same)
  note same6 = d6 [unfolded core_parts]
  have "poll_ok d6" using ok poll_ok_core [OF d6] by simp
  note ins = InsertParticipant_ok [OF this 1(8)]
  have "poll_ok d8"
  proof (rule cast_votes_ok [OF _ _ _ _ _ _ 1(9)])
    show "poll_ok d7" using ins by simp
    show "\<not> signup_sheet pollID d7" using no ins by (simp add: signup_sheet_def same6)
    show "new_participant pid pollID (pi_name i) (trimmed_or_empty (pi_email i)) u (pi_locale i) now \<in> set (db_participants d7)"
      using ins by simp
    show "\<forall>(oid, v) \<in> set (pi_answers i). oid \<in> o_id ` set (ListOptionsByPoll pollID d7)"
      using answers ins by (simp add: ListOptionsByPoll_def same6)
  qed (simp_all add: new_participant_def)
  then have "poll_ok d9" by (rule stable_okD [OF stable_calls(2) _ 1(10)])
  then have "poll_ok d10" by (rule stable_okD [OF stable_statements(5) _ 1(11)])
  then show ?case using 1(12) by (simp add: ret_Inr_iff)
qed

lemma GetParticipant_in: "GetParticipant j d = Some pa \<Longrightarrow> pa \<in> set (db_participants d) \<and> pa_id pa = j"
  by (auto simp: GetParticipant_def dest: tget_Some_in)

lemma UpdateParticipant_ok:
  assumes ok: "poll_ok d" and no: "\<not> signup_sheet pollID d"
    and run: "UpdateParticipant pollID participantID i viewer now d = Inr (r, d')"
  shows "poll_ok d'"
  using run unfolding UpdateParticipant_def Let_def
proof (elim tx_InrE, goal_cases)
  case (1 pa d0 poll d1 can d2 u3 d3 u4 d4 u5 d5 u6 d6 u7 d7 u8 d8)
  have same: "d4 = d" and answers: "\<forall>(oid, v) \<in> set (pi_answers i). oid \<in> o_id ` set (ListOptionsByPoll pollID d)"
    and pa: "pa \<in> set (db_participants d)" "pa_poll pa = pollID" "pa_id pa = participantID"
    using 1(1-5) GetParticipant_in by (auto simp: result_simps)
  have "poll_ok d4" using ok by (simp add: same)
  then have "poll_ok d5" by (rule keepsD [OF keeps_rename _ 1(6)])
  then have ok6: "poll_ok d6" by (rule keepsD [OF keeps_deletes(4) _ 1(7)])
  let ?f = "\<lambda>p. p\<lparr> pa_name := if pi_name_set i then pi_name i else pa_name pa, pa_updated_at := now \<rparr>"
  have d6: "db_polls d6 = db_polls d" "db_options d6 = db_options d"
    "db_participants d6 = tupd (\<lambda>p. pa_id p = participantID) ?f (db_participants d)"
    using 1(6,7) by (auto simp: UpdateParticipantName_def DeleteVotesByParticipant_def result_simps same)
  have "poll_ok d7"
  proof (rule cast_votes_ok [OF ok6 _ _ _ _ _ 1(8)])
    show "\<not> signup_sheet pollID d6" using no by (simp add: signup_sheet_def d6)
    show "?f pa \<in> set (db_participants d6)" using pa by (auto simp: d6(3) set_tupd)
    show "\<forall>(oid, v) \<in> set (pi_answers i). oid \<in> o_id ` set (ListOptionsByPoll pollID d6)"
      using answers by (simp add: ListOptionsByPoll_def d6)
  qed (simp_all add: pa)
  then have "poll_ok d8" by (rule stable_okD [OF stable_calls(2) _ 1(9)])
  then show ?case by (rule stable_okD [OF stable_statements(5) _ 1(10)])
qed

lemma keeps_participants [keeps_intros]:
  "keeps poll_ok (RemoveParticipant pollID pid viewer)"
  "keeps poll_ok (AddComment pollID ci viewer now)"
  "keeps poll_ok (DeleteComment pollID cid viewer now)"
  unfolding RemoveParticipant_def AddComment_def DeleteComment_def Let_def
    apply (intro keeps_intros stable_ok stable_calls)
   apply (intro stable_ok stable_intros)+
  done

subsection \<open>Claims\<close>

lemma resolveClaimant_existing:
  assumes "resolveClaimant i p ci vw d = Inr (Existing pid g, d')"
  shows "\<exists>pa \<in> set (db_participants d). pa_id pa = pid \<and> pa_poll pa = i"
proof (cases "cli_participant ci = []")
  case False
  with assms show ?thesis
    by (auto simp: resolveClaimant_def result_simps dest!: GetParticipant_in)
next
  case True
  show ?thesis
  proof (cases "vw_user vw = []")
    case True
    with \<open>cli_participant ci = []\<close> assms show ?thesis by (auto simp: resolveClaimant_def result_simps)
  next
    case False
    with True assms obtain u where
      "(case GetParticipantByPollAndUser i u d of None \<Rightarrow>
          tx (prepareNewParticipant i p (cli_name ci) (cli_email ci) (cli_locale ci)) (\<lambda>p. ret (Fresh p False))
        | Some q \<Rightarrow> ret (Existing (pa_id q) False)) d = Inr (Existing pid g, d')"
      unfolding resolveClaimant_def by (auto simp: result_simps)
    then show ?thesis
      by (auto simp: result_simps GetParticipantByPollAndUser_def find_Some_iff split: option.splits
          intro: rev_bexI)
  qed
qed

lemma claimant_row:
  assumes "poll_ok d" and "core d = core d0" and "resolveClaimant i p ci vw d0 = Inr (c, d1)"
    and "insert_claimant i vw now c d = Inr (u, d')"
  shows "poll_ok d'" and "db_options d' = db_options d" and "db_votes d' = db_votes d"
    and "\<exists>pa \<in> set (db_participants d'). pa_id pa = claimant_id c \<and> pa_poll pa = i"
proof -
  have "poll_ok d' \<and> db_options d' = db_options d \<and> db_votes d' = db_votes d \<and>
      (\<exists>pa \<in> set (db_participants d'). pa_id pa = claimant_id c \<and> pa_poll pa = i)"
  proof (cases c)
  case (Existing pid g)
  with assms(4) have "d' = d" by (simp add: insert_claimant_def result_simps)
  moreover have "\<exists>pa \<in> set (db_participants d). pa_id pa = pid \<and> pa_poll pa = i"
    using resolveClaimant_existing [OF assms(3) [unfolded Existing]] assms(2) by (simp add: core_def)
  ultimately show ?thesis
    using assms(1) Existing by simp
next
  case (Fresh q g)
  then show ?thesis
    using InsertParticipant_ok [OF assms(1)] assms(4) by (auto simp: insert_claimant_def)
  qed
  then show "poll_ok d'" "db_options d' = db_options d" "db_votes d' = db_votes d"
    "\<exists>pa \<in> set (db_participants d'). pa_id pa = claimant_id c \<and> pa_poll pa = i" by simp_all
qed

lemma Claim_ok:
  assumes ok: "poll_ok d" and run: "Claim pollID optionID i viewer now d = Inr (r, d')"
  shows "poll_ok d'"
  using run unfolding Claim_def Let_def
proof (elim tx_InrE, goal_cases)
  case (1 poll d0 opt d1 u2 d2 c d3 u4 d4 votes d5 u6 d6 left d7 u8 d8)
  let ?already = "optionID \<in> set (map v_option votes)"
  have d2: "d2 = d" and opt: "GetPollOptionForUpdate optionID d = Some opt" "o_poll opt = pollID"
    using 1(1-3) by (auto simp: requireSignupPollTx_def result_simps)
  have c38: "core d8 = core d3"
    using stableD [OF stable_claimant(2) 1(5)] 1(6-9) by (simp add: reads_Inr_iff ensure_Inr_iff)
  have c3: "core d3 = core d" using stableD [OF stable_resolveClaimant 1(4)] by (simp add: d2)
  have ok8: "poll_ok d8" using ok poll_ok_core [of d8 d] c38 c3 by simp
  show ?case
  proof (cases ?already)
    case True
    with 1(10) ok8 show ?thesis by (simp add: ret_Inr_iff)
  next
    case False
    then have left: "capacity_left opt d8" and new: "\<not> optionID \<in> set (map v_option votes)"
      using 1(7-9) by (auto simp: reads_Inr_iff ensure_Inr_iff)
    from 1(10) [unfolded if_not_P [OF False]] show ?thesis
    proof (elim tx_InrE, goal_cases)
      case (1 u9 d9 u10 d10 u11 d11 u12 d12 u13 d13)
      have c8: "core d8 = core d2" using c38 c3 by (simp add: d2)
      note row = claimant_row [OF ok8 c8 \<open>resolveClaimant _ _ _ _ d2 = _\<close> 1(1)]
      have o: "opt \<in> set (db_options d8)" "o_id opt = optionID"
        using opt(1) c38 c3 tget_Some_in [of o_id optionID "db_options d" opt]
        by (auto simp: GetPollOptionForUpdate_def core_def)
      have "poll_ok d10"
      proof (rule UpsertVote_ok [OF row(1) 1(2)])
        from row(4) obtain pa where "pa \<in> set (db_participants d9)" "pa_id pa = claimant_id c" "pa_poll pa = pollID"
          by blast
        then show "vote_ok d9 \<lparr> v_participant = claimant_id c, v_option = optionID, v_answer = ''yes'' \<rparr>"
          using o opt(2) by (intro vote_okI [of pa _ opt]) (simp_all add: row(2) vote_answers_def)
        show "\<forall>po \<in> set (db_options d9). \<forall>cap. o_id po = v_option \<lparr> v_participant = claimant_id c, v_option = optionID, v_answer = ''yes'' \<rparr> \<and>
            o_capacity po = Some cap \<and> v_answer \<lparr> v_participant = claimant_id c, v_option = optionID, v_answer = ''yes'' \<rparr> = ''yes'' \<longrightarrow>
            int (CountYesVotesForOption (o_id po) d9) < cap"
        proof (intro ballI allI impI, elim conjE)
          fix po cap assume po: "po \<in> set (db_options d9)"
            "o_id po = v_option \<lparr> v_participant = claimant_id c, v_option = optionID, v_answer = ''yes'' \<rparr>"
            "o_capacity po = Some cap"
          then have "po = opt"
            using tuniq_inj [OF poll_okD(2) [OF ok8] _ o(1), of po] o(2) by (simp add: row(2))
          with left po(3) show "int (CountYesVotesForOption (o_id po) d9) < cap"
            by (simp add: capacity_left_def CountYesVotesForOption_def row(3))
        qed
      qed
      then have "poll_ok d11" by (rule stable_okD [OF stable_calls(2) _ 1(3)])
      then have "poll_ok d12" by (rule stable_okD [OF stable_calls(1) _ 1(4)])
      then have "poll_ok d13" by (rule stable_okD [OF stable_statements(5) _ 1(5)])
      then show ?thesis using 1(6) by (simp add: ret_Inr_iff)
    qed
  qed
qed

lemma keeps_unclaim: "keeps poll_ok (unclaim pollID oid pid viewer now)"
  unfolding unclaim_def by (intro keeps_intros stable_ok stable_calls stable_unclaim_target)

lemma keeps_claims [keeps_intros]:
  "keeps poll_ok (Claim pollID oid ci viewer now)" "keeps poll_ok (Unclaim pollID oid viewer now)"
  "keeps poll_ok (UnclaimFor pollID oid pid viewer now)"
  by (rule keepsI, erule Claim_ok, assumption)
     (simp_all add: Unclaim_def UnclaimFor_def keeps_unclaim keeps_raise)

subsection \<open>Options\<close>

lemma columns_capacity: "pollOptionColumns opt ty fb = Inr cols \<Longrightarrow> oc_capacity cols = option_capacity opt ty fb"
  by (auto simp: pollOptionColumns_def Let_def result_simps split: if_splits option.splits)

lemma int32_id: "0 \<le> n \<Longrightarrow> n < 2 ^ 31 \<Longrightarrow> int32 n = n"
  by (simp add: int32_def)

lemma fresh_capacity:
  assumes "shape_ok opt" and "option_capacity opt ty (Some 1) = Some c"
  shows "ty = ''signup'' \<and> 0 \<le> c"
  using assms int32_id by (auto simp: option_capacity_def shape_ok_def split: if_splits)

lemma InsertOption_step:
  assumes ok: "poll_ok d" and sheet: "ty = ''signup'' \<longrightarrow> signup_sheet i d" and "shape_ok opt"
    and cols: "pollOptionColumns opt ty (Some 1) = Inr cols"
    and run: "InsertPollOption (option_row oid i n cols) d = Inr (u, d')"
  shows "poll_ok d'" and "db_polls d' = db_polls d" and "db_votes d' = db_votes d"
    and "db_participants d' = db_participants d"
    and "db_options d' = db_options d @ [option_row oid i n cols]"
proof -
  have "\<forall>c. o_capacity (option_row oid i n cols) = Some c \<longrightarrow>
      signup_sheet (o_poll (option_row oid i n cols)) d \<and> 0 \<le> c"
    using fresh_capacity [OF assms(3)] sheet columns_capacity [OF cols] by (simp add: option_row_def)
  from InsertPollOption_ok [OF ok run this]
  show "poll_ok d'" "db_polls d' = db_polls d" "db_votes d' = db_votes d"
    "db_participants d' = db_participants d" "db_options d' = db_options d @ [option_row oid i n cols]"
    by simp_all
qed

lemma insert_options_ok:
  assumes "poll_ok d" and "ty = ''signup'' \<longrightarrow> signup_sheet i d" and "\<forall>opt \<in> set opts. shape_ok opt"
    and "insert_options ty i n opts d = Inr (u, d')"
  shows "poll_ok d'"
  using assms
proof (induction opts arbitrary: n d)
  case Nil
  then show ?case by (simp add: result_simps)
next
  case (Cons opt opts)
  from Cons.prems(4) show ?case
    unfolding insert_options.simps
  proof (elim tx_InrE, goal_cases)
    case (1 cols d0 oid d1 u2 d2)
    have c: "core d1 = core d" and cols: "pollOptionColumns opt ty (Some 1) = Inr cols"
      using 1(1,2) by (auto simp: result_simps core_def)
    have "poll_ok d1" using Cons.prems(1) poll_ok_core [OF c] by simp
    moreover have "ty = ''signup'' \<longrightarrow> signup_sheet i d1"
      using Cons.prems(2) c by (simp add: signup_sheet_def core_def)
    moreover have "shape_ok opt" using Cons.prems(3) by simp
    ultimately have st: "poll_ok d2" "db_polls d2 = db_polls d1"
      using InsertOption_step [OF _ _ _ cols 1(3)] by blast+
    have "ty = ''signup'' \<longrightarrow> signup_sheet i d2"
      using Cons.prems(2) c st(2) by (simp add: signup_sheet_def core_def)
    with Cons.prems(3) st(1) show ?case by (intro Cons.IH [OF _ _ _ 1(4)]) simp_all
  qed
qed

lemma Validate_shapes:
  "CreatePollInput_Validate lower i = Inr () \<Longrightarrow> \<forall>x \<in> set (ci_options i). shape_ok x"
  "UpdatePollInput_Validate lower j = Inr () \<Longrightarrow> ui_options j = Some opts \<Longrightarrow> \<forall>x \<in> set opts. shape_ok x"
  unfolding CreatePollInput_Validate_def UpdatePollInput_Validate_def
  by (auto simp: validationErrorFrom_def CreatePollInput_fields_Nil UpdatePollInput_fields_def Let_def
      refinePollOptions_Nil validateOptionsField_Nil split: if_splits)

lemma InsertPoll_sheet:
  assumes "poll_ok d" and "InsertPoll p d = Inr (u, d')"
  shows "poll_ok d'" and "p_type p = ''signup'' \<longrightarrow> signup_sheet (p_id p) d'"
  using InsertPoll_ok [OF assms] by (auto simp: signup_sheet_def)

lemma Create_ok:
  assumes ok: "poll_ok d" and run: "Create lower g us i now d = Inr (r, d')"
  shows "poll_ok d'"
  using run unfolding Create_def Let_def
proof (elim tx_InrE, goal_cases)
  case (1 u0 d0 org d1 user d2 dl d3 pollID d4 u5 d5 u6 d6 u7 d7 view d8 u9 d9 u10 d10)
  have shapes: "\<forall>x \<in> set (ci_options i). shape_ok x" and c4: "core d4 = core d"
    using 1(1-5) by (auto simp: result_simps core_def intro!: Validate_shapes(1))
  have "poll_ok d4" using ok poll_ok_core [OF c4] by simp
  note ins = InsertPoll_sheet [OF this 1(6)]
  have "poll_ok d6"
    by (rule insert_options_ok [OF ins(1) _ shapes 1(7)]) (use ins(2) in \<open>simp add: new_poll_def\<close>)
  moreover have st: "stable (if dl = None then ret () else armDeadline pollID dl now)" by (intro stable_intros)
  ultimately have "poll_ok d7" using stable_okD [OF st _ 1(8)] by simp
  then have "poll_ok d8" by (rule stable_okD [OF stable_calls(3) _ 1(9)])
  then have "poll_ok d9" by (rule stable_okD [OF stable_statements(5) _ 1(10)])
  then have "poll_ok d10" by (rule stable_okD [OF stable_best_effort(1) _ 1(11)])
  then show ?case using 1(12) by (simp add: ret_Inr_iff)
qed

lemma copy_options_ok:
  assumes "poll_ok d" and "\<forall>po \<in> set pos. \<forall>c. o_capacity po = Some c \<longrightarrow> 0 \<le> c \<and> signup_sheet i d"
    and "for_each (\<lambda>po. tx NewID (\<lambda>oid. InsertPollOption (po\<lparr> o_id := oid, o_poll := i \<rparr>))) pos d = Inr (u, d')"
  shows "poll_ok d'"
  using assms
proof (induction pos arbitrary: d)
  case Nil
  then show ?case by (simp add: result_simps)
next
  case (Cons po pos)
  from Cons.prems(3) show ?case
    unfolding for_each.simps
  proof (elim tx_InrE, goal_cases)
    case (1 u1 d2 oid d1)
    have c: "core d1 = core d" using 1(2) by (simp add: result_simps core_def)
    have "poll_ok d1" using Cons.prems(1) poll_ok_core [OF c] by simp
    note st = InsertPollOption_ok [OF this 1(3)]
    have sheet: "signup_sheet i d1 = signup_sheet i d" using c by (simp add: signup_sheet_def core_def)
    have ok2: "poll_ok d2 \<and> db_polls d2 = db_polls d1"
      using st Cons.prems(2) by (auto simp: sheet)
    then have "signup_sheet i d2 = signup_sheet i d" using sheet by (simp add: signup_sheet_def)
    with Cons.prems(2) ok2 show ?case by (intro Cons.IH [OF _ _ 1(1)]) simp_all
  qed
qed

lemma Duplicate_ok:
  assumes ok: "poll_ok d" and run: "Duplicate i g us now d = Inr (r, d')"
  shows "poll_ok d'"
  using run unfolding Duplicate_def Let_def
proof (elim tx_InrE, goal_cases)
  case (1 org d0 user d1 original d2 options d3 newID d4 u5 d5 u6 d6 view d7 u8 d8 u9 d9 u10 d10)
  have original: "GetPoll i d = Some original" and options: "options = ListOptionsByPoll i d"
    and c4: "core d4 = core d"
    using 1(1-5) by (auto simp: result_simps core_def)
  have "poll_ok d4" using ok poll_ok_core [OF c4] by simp
  note ins = InsertPoll_sheet [OF this 1(6)]
  have "poll_ok d6"
  proof (rule copy_options_ok [OF ins(1) _ 1(7)], intro ballI allI impI)
    fix po c assume po: "po \<in> set options" "o_capacity po = Some c"
    then have "po \<in> set (db_options d)" "o_poll po = i" by (simp_all add: options in_ListOptions)
    with poll_okD(8) [OF ok this(1)] po(2)
    have "signup_sheet i d" "int (CountYesVotesForOption (o_id po) d) \<le> c" by (auto simp: slot_ok_def)
    with GetPoll_signup [OF ok original] ins(2) show "0 \<le> c \<and> signup_sheet newID d5"
      by (auto simp: copy_poll_def)
  qed
  then have "poll_ok d7" by (rule stable_okD [OF stable_calls(3) _ 1(8)])
  then have "poll_ok d8" by (rule stable_okD [OF stable_statements(5) _ 1(9)])
  then have "poll_ok d9" by (rule stable_okD [OF stable_best_effort(1) _ 1(10)])
  then have "poll_ok d10" by (rule stable_okD [OF stable_best_effort(2) _ 1(11)])
  then show ?case using 1(12) by (simp add: ret_Inr_iff)
qed

text \<open>
  The state of the loop of \<open>replaceOptions\<close>: the votes are those the claim counts were taken from, and
  the rows the loop may update belong to the poll.
\<close>

definition replacing :: "string \<Rightarrow> string \<Rightarrow> db \<Rightarrow> db \<Rightarrow> bool" where
  "replacing i ty d0 d \<longleftrightarrow> poll_ok d \<and> db_votes d = db_votes d0 \<and> (ty = ''signup'' \<longrightarrow> signup_sheet i d) \<and>
     (\<forall>po \<in> set (db_options d). o_id po \<in> o_id ` set (ListOptionsByPoll i d0) \<longrightarrow> o_poll po = i)"

lemma claims_counted:
  assumes "poll_ok d" and "po \<in> set (ListOptionsByPoll i d)"
  shows "CountYesVotesForOption (o_id po) d = yes_count (o_id po) (ListVotesByPoll i d)"
proof -
  have po: "po \<in> set (db_options d)" "o_poll po = i" using assms(2) by (simp_all add: in_ListOptions)
  have "(case tget pa_id (v_participant v) (db_participants d) of Some p \<Rightarrow> pa_poll p = i | None \<Rightarrow> False)"
    if v: "v \<in> set (db_votes d)" "v_option v = o_id po" for v
  proof -
    obtain pa q where x: "pa \<in> set (db_participants d)" "q \<in> set (db_options d)" "pa_id pa = v_participant v"
      "o_id q = v_option v" "pa_poll pa = o_poll q"
      using poll_okD(7) [OF assms(1) v(1)] by (auto simp: vote_ok_def)
    have "q = po" using tuniq_inj [OF poll_okD(2) [OF assms(1)] x(2) po(1)] x(4) v(2) by simp
    then show ?thesis
      using tget_in_uniq [OF poll_okD(3) [OF assms(1)] x(1)] x(3,5) po(2) by simp
  qed
  then show ?thesis
    unfolding CountYesVotesForOption_def yes_count_def ListVotesByPoll_def tcount_def
    by (auto simp: filter_filter intro!: arg_cong [of _ _ length] filter_cong)
qed

lemma known_option_Some:
  "known_option existing oid = Some ex \<Longrightarrow> ex \<in> set existing \<and> o_id ex = oid"
  by (auto simp: known_option_def dest: tget_Some_in split: if_splits)

lemma update_known_ok:
  assumes ok0: "poll_ok d0" and inv: "replacing i ty d0 d"
    and known: "known_option (ListOptionsByPoll i d0) (oi_id opt) = Some ex"
    and fits: "ty = ''signup'' \<longrightarrow> \<not> below_claims (ListOptionsByPoll i d0) (ListVotesByPoll i d0) opt"
    and cols: "pollOptionColumns opt ty (o_capacity ex) = Inr cols"
    and run: "UpdatePollOption (oi_id opt) (option_row (oi_id opt) i n cols) d = Inr (u, d')"
  shows "replacing i ty d0 d'"
proof -
  note ex = known_option_Some [OF known]
  have d': "db_votes d' = db_votes d" "db_polls d' = db_polls d"
    using run by (auto simp: UpdatePollOption_def result_simps)
  have count: "CountYesVotesForOption (oi_id opt) d = yes_count (oi_id opt) (ListVotesByPoll i d0)"
    using claims_counted [OF ok0, of ex i] ex inv by (auto simp: replacing_def CountYesVotesForOption_def)
  have "poll_ok d'"
  proof (rule UpdatePollOption_ok [OF _ run])
    show "poll_ok d" using inv by (simp add: replacing_def)
    show "\<forall>po \<in> set (db_options d). \<forall>c. o_id po = oi_id opt \<and>
        o_capacity (option_row (oi_id opt) i n cols) = Some c \<longrightarrow>
        signup_sheet (o_poll po) d \<and> int (CountYesVotesForOption (oi_id opt) d) \<le> c"
    proof (intro ballI allI impI, elim conjE)
      fix po c assume po: "po \<in> set (db_options d)" "o_id po = oi_id opt"
        and c: "o_capacity (option_row (oi_id opt) i n cols) = Some c"
      have cap: "option_capacity opt ty (o_capacity ex) = Some c"
        using c columns_capacity [OF cols] by (simp add: option_row_def)
      then have ty: "ty = ''signup''" by (simp add: option_capacity_def split: if_splits)
      have "o_id po \<in> o_id ` set (ListOptionsByPoll i d0)" using po(2) ex by (metis image_eqI)
      then have "o_poll po = i" using inv po(1) unfolding replacing_def by blast
      moreover have "new_capacity opt ex = Some c" using cap by (simp add: option_capacity_def new_capacity_def ty)
      moreover have "\<not> below_claims (ListOptionsByPoll i d0) (ListVotesByPoll i d0) opt" using fits ty by simp
      ultimately show "signup_sheet (o_poll po) d \<and> int (CountYesVotesForOption (oi_id opt) d) \<le> c"
        using inv ty known by (simp add: below_claims_def count replacing_def)
    qed
  qed
  moreover have "\<forall>po \<in> set (db_options d'). o_id po \<in> o_id ` set (ListOptionsByPoll i d0) \<longrightarrow> o_poll po = i"
    using run inv by (auto simp: UpdatePollOption_def result_simps replacing_def elim!: in_tupdE split: if_splits)
  ultimately show ?thesis
    using inv by (simp add: replacing_def d' signup_sheet_def)
qed

lemma insert_new_ok:
  assumes inv: "replacing i ty d0 d" and shape: "shape_ok opt"
    and cols: "pollOptionColumns opt ty (Some 1) = Inr cols"
    and run: "InsertPollOption (option_row oid i n cols) d = Inr (u, d')"
  shows "replacing i ty d0 d'"
proof -
  note st = InsertOption_step [OF _ _ shape cols run]
  show ?thesis
    using inv st unfolding replacing_def signup_sheet_def by (auto simp: option_row_def)
qed

lemma replacing_core: "core d' = core d \<Longrightarrow> replacing i ty d0 d \<Longrightarrow> replacing i ty d0 d'"
  using poll_ok_core [of d' d] by (simp add: replacing_def core_def signup_sheet_def)

lemma write_options_ok:
  assumes "poll_ok d0" and "replacing i ty d0 d" and "\<forall>opt \<in> set opts. shape_ok opt"
    and "ty = ''signup'' \<longrightarrow> \<not> (\<exists>opt \<in> set opts. below_claims (ListOptionsByPoll i d0) (ListVotesByPoll i d0) opt)"
    and "write_options (ListOptionsByPoll i d0) ty i n opts d = Inr (keep, d')"
  shows "replacing i ty d0 d'"
  using assms(2-5)
proof (induction opts arbitrary: n d d' keep)
  case Nil
  then show ?case by (simp add: result_simps)
next
  case (Cons opt opts)
  show ?case
  proof (cases "known_option (ListOptionsByPoll i d0) (oi_id opt)")
    case (Some ex)
    from Cons.prems(4) show ?thesis
      unfolding write_options.simps Some option.case
    proof (elim tx_InrE, goal_cases)
      case (1 cols d1 u2 d2 ks d3)
      have "d1 = d" and cols: "pollOptionColumns opt ty (o_capacity ex) = Inr cols"
        using 1(1) by (auto simp: result_simps)
      with Cons.prems have "replacing i ty d0 d2"
        by (intro update_known_ok [OF assms(1) _ Some _ cols 1(2)]) simp_all
      from Cons.IH [OF this _ _ 1(3)] Cons.prems(2,3) have "replacing i ty d0 d3" by simp
      then show ?case using 1(4) by (simp add: result_simps)
    qed
  next
    case None
    from Cons.prems(4) show ?thesis
      unfolding write_options.simps None option.case
    proof (elim tx_InrE, goal_cases)
      case (1 oid d1 cols d2 u3 d3 ks d4)
      have "core d2 = core d" and cols: "pollOptionColumns opt ty (Some 1) = Inr cols"
        using 1(1,2) by (auto simp: result_simps core_def)
      with replacing_core Cons.prems(1) have "replacing i ty d0 d2" by blast
      from insert_new_ok [OF this _ cols 1(3)] Cons.prems(2) have "replacing i ty d0 d3" by simp
      from Cons.IH [OF this _ _ 1(4)] Cons.prems(2,3) have "replacing i ty d0 d4" by simp
      then show ?case using 1(5) by (simp add: result_simps)
    qed
  qed
qed

lemma replaceOptions_ok:
  assumes ok: "poll_ok d" and sheet: "ty = ''signup'' \<longrightarrow> signup_sheet i d"
    and shapes: "\<forall>opt \<in> set opts. shape_ok opt"
    and run: "replaceOptions i ty opts d = Inr (u, d')"
  shows "poll_ok d'"
  using run unfolding replaceOptions_def
proof (elim tx_InrE, goal_cases)
  case (1 existing d1 u2 d2 keep d3)
  have existing: "existing = ListOptionsByPoll i d" "d1 = d" using 1(1) by (auto simp: result_simps)
  have d2: "d2 = d" and fits: "ty = ''signup'' \<longrightarrow> \<not> (\<exists>opt \<in> set opts. below_claims existing (ListVotesByPoll i d) opt)"
    using 1(2) by (auto simp: existing(2) result_simps split: if_splits)
  have "o_poll po = i" if "po \<in> set (db_options d)" "o_id po \<in> o_id ` set (ListOptionsByPoll i d)" for po
  proof -
    from that(2) obtain q where "q \<in> set (db_options d)" "o_poll q = i" "o_id po = o_id q"
      by (auto simp: in_ListOptions)
    with tuniq_inj [OF poll_okD(2) [OF ok] that(1)] show ?thesis by metis
  qed
  with ok sheet have "replacing i ty d d" by (simp add: replacing_def)
  from write_options_ok [OF ok this shapes fits [unfolded existing(1)] 1(3) [unfolded existing(1) d2]]
  have "poll_ok d3" by (simp add: replacing_def)
  moreover have ks: "keeps poll_ok (for_each (\<lambda>ex. if o_id ex \<in> set keep then ret () else DeletePollOption (o_id ex)) existing)"
    by (intro keeps_intros)
  ultimately show ?case using keepsD [OF ks _ 1(4)] by simp
qed

lemma Update_ok:
  assumes ok: "poll_ok d" and run: "Update lower i g ui now d = Inr (r, d')"
  shows "poll_ok d'"
  using run unfolding Update_def Let_def
proof (elim tx_InrE, goal_cases)
  case (1 u0 d0 poll d1 u2 d2 dl d3 u4 d4 u5 d5 u6 d6 u7 d7)
  have d3: "d3 = d" and poll: "GetPoll i d = Some poll" and val: "UpdatePollInput_Validate lower ui = Inr ()"
    using 1(1-4) by (auto simp: result_simps)
  have ok4: "poll_ok d4" using keepsD [OF keeps_poll_updates(4) _ 1(5)] ok by (simp add: d3)
  have "p_type poll = ''signup'' \<longrightarrow> signup_sheet i d4"
  proof -
    have "signup_sheet i d4 = signup_sheet i d"
      using 1(5) signup_update_poll by (simp add: UpdatePollScalars_def update_poll_def writes_Inr_iff d3)
    then show ?thesis using GetPoll_signup [OF ok poll] by simp
  qed
  with 1(6) ok4 replaceOptions_ok Validate_shapes(2) [OF val] have "poll_ok d5"
    by (auto simp: ret_Inr_iff split: option.splits)
  moreover have st: "stable (if ui_deadline_set ui then armDeadline i (p_deadline_at (merged_poll poll ui dl now)) now else ret ())"
    by (intro stable_intros)
  ultimately have "poll_ok d6" using stable_okD [OF st _ 1(7)] by simp
  then have "poll_ok d7" by (rule stable_okD [OF stable_calls(2) _ 1(8)])
  then show ?case by (rule stable_okD [OF stable_calls(3) _ 1(9)])
qed

subsection \<open>The other operations\<close>

lemma keeps_CloseExpired [keeps_intros]: "keeps poll_ok (CloseExpired i now)"
proof (rule keepsI)
  fix d x d' assume ok: "poll_ok d" and run: "CloseExpired i now d = Inr (x, d')"
  have st: "keeps poll_ok (tx (SetPollStatus i ''closed'' now) (\<lambda>_. tx (emit_changed i ''poll'') (\<lambda>_. ret True)))"
    by (intro keeps_intros stable_ok stable_calls)
  show "poll_ok d'"
    using run ok keepsD [OF st ok] unfolding CloseExpired_def by (auto split: option.splits if_splits)
qed

lemma stable_reading [stable_intros]: "stable (GetView i vw)" "stable (mail_event source i e t now)"
proof -
  show "stable (GetView i vw)"
  proof (rule stableI)
    fix d x d' assume run: "GetView i vw d = Inr (x, d')"
    have st: "stable (tx (buildView p u) (\<lambda>v. ret (Some v)))" for p u by (intro stable_intros)
    from run show "core d' = core d"
      unfolding GetView_def by (auto split: option.splits dest: stableD [OF st])
  qed
  show "stable (mail_event source i e t now)"
  proof (rule stableI)
    fix d x d' assume run: "mail_event source i e t now d = Inr (x, d')"
    have st: "stable (for_each (\<lambda>r. enqueueMailPoll (mail_to_user i t (r_user r) []) now) rs)" for rs
      by (intro stable_intros)
    from run show "core d' = core d"
      unfolding mail_event_def by (auto split: option.splits dest: stableD [OF st])
  qed
qed

lemma keeps_poll_ops [keeps_intros]:
  "keeps poll_ok (Create lower g us i now)" "keeps poll_ok (Update lower pid g ui now)"
  "keeps poll_ok (SetStatus pid g status now)" "keeps poll_ok (Delete pid g now)"
  "keeps poll_ok (Duplicate pid g us now)"
  "keeps poll_ok (FinalizeWithCount lower source pid g oid us now)"
  "keeps poll_ok (UpdateNotificationPrefs pid g us channels now)"
  "keeps poll_ok (SetFollowing pid g us following now)"
        apply (rule keepsI, erule Create_ok, assumption)
       apply (rule keepsI, erule Update_ok, assumption)
  unfolding SetStatus_def Delete_def FinalizeWithCount_def UpdateNotificationPrefs_def SetFollowing_def
      apply (intro keeps_intros stable_ok stable_calls)
     apply (intro keeps_intros stable_ok stable_calls stable_statements)
    apply (rule keepsI, erule Duplicate_ok, assumption)
   apply (intro keeps_intros stable_ok stable_calls stable_statements stable_mail_participants
      stable_mail_owner stable_mail_subscribers)
  apply (intro keeps_intros stable_ok stable_statements)+
  done

lemma stable_fanOut: "stable (fanOutDigestItems source i items now)"
proof (rule stableI)
  fix d x d' assume run: "fanOutDigestItems source i items now d = Inr (x, d')"
  have st: "stable (for_each (\<lambda>(uid, xs). enqueueMailPoll (mail_to_user i ''digest'' uid xs) now) bs)" for bs
    by (intro stable_intros)
  from run show "core d' = core d"
    unfolding fanOutDigestItems_def by (auto split: option.splits if_splits dest: stableD [OF st])
qed

lemma stable_digest [stable_intros]: "stable (processDigestJob source jid i items now)"
proof (rule stableI)
  fix d x d' assume run: "processDigestJob source jid i items now d = Inr (x, d')"
  show "core d' = core d"
  proof (cases "\<exists>j \<in> set (db_jobs d). job_id j = jid \<and> job_kind j = ''poll.digest''")
    case True
    from run [unfolded processDigestJob_def if_P [OF True]] show ?thesis
      by (auto simp: result_simps core_def dest!: stableD [OF stable_fanOut])
  next
    case False
    with run show ?thesis by (simp add: processDigestJob_def)
  qed
qed

lemma stable_defer [stable_intros]: "stable (deferDeadlineIfSuspended i now)"
  unfolding deferDeadlineIfSuspended_def by (intro stable_intros)

lemma keeps_poll_job [keeps_intros]: "keeps poll_ok (poll_job source send j now)"
  unfolding poll_job_def Let_def handleDeadlineJob_def handleReminderJob_def
  by (intro keeps_intros stable_ok stable_intros)

lemma stable_enqueueDigest: "stable (EnqueueDigestItem i item now)"
  unfolding EnqueueDigestItem_def by (intro stable_intros)

lemma keeps_queue_digest [keeps_intros]: "keeps poll_ok (queue_digest i item now)"
  unfolding queue_digest_def enqueueDigestBestEffort_def
  by (intro keeps_writes) (metis core_commit poll_ok_core stable_enqueueDigest)

lemma delete_polls_ok:
  assumes ok: "poll_ok d"
  shows "poll_ok (delete_polls q d)"
proof -
  define gone where "gone i \<longleftrightarrow> (\<exists>p \<in> set (db_polls d). q p \<and> p_id p = i)" for i
  let ?d = "delete_polls q d"
  have parts: "db_polls ?d = tdel q (db_polls d)" "db_options ?d = tdel (\<lambda>po. gone (o_poll po)) (db_options d)"
    "db_participants ?d = tdel (\<lambda>p. gone (pa_poll p)) (db_participants d)"
    "db_votes ?d = tdel (\<lambda>v. (\<exists>p \<in> set (db_participants d). gone (pa_poll p) \<and> pa_id p = v_participant v) \<or>
        (\<exists>po \<in> set (db_options d). gone (o_poll po) \<and> o_id po = v_option v)) (db_votes d)"
    by (simp_all add: delete_polls_def Let_def gone_def)
  have stays: "i \<in> p_id ` set (db_polls ?d)" if "i \<in> p_id ` set (db_polls d)" "\<not> gone i" for i
    using that by (auto simp: parts gone_def)
  show ?thesis
  proof (rule poll_okI)
    fix v assume v: "v \<in> set (db_votes ?d)"
    then have "vote_ok d v" using poll_okD(7) [OF ok] by (simp add: parts)
    then obtain pa po where "pa \<in> set (db_participants d)" "po \<in> set (db_options d)" "pa_id pa = v_participant v"
      "o_id po = v_option v" "pa_poll pa = o_poll po" "v_answer v \<in> set vote_answers" by (auto simp: vote_ok_def)
    moreover from this v have "\<not> gone (o_poll po)" by (auto simp: parts)
    ultimately show "vote_ok ?d v" by (intro vote_okI [of pa _ po]) (simp_all add: parts)
  next
    fix po assume po: "po \<in> set (db_options ?d)"
    then have in_d: "po \<in> set (db_options d)" "\<not> gone (o_poll po)" by (simp_all add: parts)
    show "slot_ok ?d po"
    proof -
      have "slot_ok d po" by (rule poll_okD(8) [OF ok in_d(1)])
      moreover have "CountYesVotesForOption (o_id po) ?d \<le> CountYesVotesForOption (o_id po) d"
        by (simp add: CountYesVotesForOption_def parts tcount_tdel_le)
      moreover have "signup_sheet (o_poll po) d \<Longrightarrow> signup_sheet (o_poll po) ?d"
        using in_d(2) by (auto simp: signup_sheet_def parts gone_def)
      ultimately show ?thesis unfolding slot_ok_def by (meson of_nat_mono order_trans)
    qed
    show "o_poll po \<in> p_id ` set (db_polls ?d)" using poll_okD(5) [OF ok in_d(1)] in_d(2) stays by blast
  next
    fix pa assume "pa \<in> set (db_participants ?d)"
    then show "pa_poll pa \<in> p_id ` set (db_polls ?d)" using poll_okD(6) [OF ok] stays by (auto simp: parts)
  qed (use ok in \<open>auto simp: parts tuniq_tdel dest: poll_okD\<close>)
qed

lemma purge_ok: "poll_ok d \<Longrightarrow> poll_ok (purgeSoftDeleted now d)"
proof -
  assume "poll_ok d"
  then have "poll_ok (delete_polls (\<lambda>p. past_grace now (p_deleted_at p) \<and> p_suspended_at p = None) d)"
    by (rule delete_polls_ok)
  moreover have "core (e\<lparr> db_comments := c \<rparr>) = core e" for e c by (simp add: core_def)
  ultimately show ?thesis unfolding purgeSoftDeleted_def Let_def using poll_ok_core by blast
qed

end
