(* ===== verification/PollRuns.thy ===== *)
theory PollRuns
  imports SlotRuns
begin

text \<open>
  Runs of the poll service: requests, jobs and purges in any order, and what holds after every run.
\<close>

subsection \<open>Requests and runs\<close>

text \<open>
  Everything that changes the poll tables: the requests of the HTTP surface, the jobs of the worker and
  the purge. \<open>env\<close> holds what the process was started with; a request carries the answer of the captcha
  service and the identity the session and the guest token resolved to.
\<close>

record env =
  en_lower :: "string \<Rightarrow> string"
  en_parse_address :: "string \<Rightarrow> string option"
  en_source :: "(string \<Rightarrow> string) option"
  en_send :: "json \<Rightarrow> bool"

datatype request =
    CreatePoll "Session option" createPollRequest
  | UpdatePoll "Session option" string updatePollRequest
  | SetPollState "Session option" string string
  | DecidePoll "Session option" string string
  | DeletePoll "Session option" string
  | DuplicatePoll "Session option" string
  | NotificationPrefs "Session option" string "json option"
  | Following "Session option" string bool
  | AddAnswer "bool option" "Session option" string string addParticipantRequest
  | EditAnswer "Session option" string string string updateParticipantRequest
  | RemoveAnswer "Session option" string string string
  | PostComment "bool option" "Session option" string string addCommentRequest
  | RemoveComment "Session option" string string string
  | ClaimSlot "bool option" "Session option" string string string claimRequest
  | ReleaseSlot "Session option" string string string string
  | RunJob job
  | Purge

fun handle :: "env \<Rightarrow> request \<Rightarrow> instant \<Rightarrow> unit handler" where
  "handle e (CreatePoll s q) now = tx (handleCreate (en_lower e) s q now) (\<lambda>_. ret ())"
| "handle e (UpdatePoll s i q) now = tx (handleUpdate (en_lower e) s i q now) (\<lambda>_. ret ())"
| "handle e (SetPollState s i st) now = tx (handleSetStatus s i st now) (\<lambda>_. ret ())"
| "handle e (DecidePoll s i o') now = tx (handleFinalize (en_lower e) (en_source e) s i o' now) (\<lambda>_. ret ())"
| "handle e (DeletePoll s i) now = handleDelete s i now"
| "handle e (DuplicatePoll s i) now = tx (handleDuplicate s i now) (\<lambda>_. ret ())"
| "handle e (NotificationPrefs s i c) now = handleUpdateNotificationPrefs s i c now"
| "handle e (Following s i b) now = handleSetFollowing s i b now"
| "handle e (AddAnswer t s g i q) now = tx (handleAddParticipant (en_parse_address e) t s g i q now) (\<lambda>_. ret ())"
| "handle e (EditAnswer s g i p q) now = handleUpdateParticipant s g i p q now"
| "handle e (RemoveAnswer s g i p) now = handleRemoveParticipant s g i p now"
| "handle e (PostComment t s g i q) now = tx (handleAddComment t s g i q now) (\<lambda>_. ret ())"
| "handle e (RemoveComment s g i c) now = handleDeleteComment s g i c now"
| "handle e (ClaimSlot t s g i o' q) now = tx (handleClaim (en_parse_address e) t s g i o' q now) (\<lambda>_. ret ())"
| "handle e (ReleaseSlot s g i o' p) now = handleUnclaim s g i o' p now"
| "handle e (RunJob j) now = svc (poll_job (en_source e) (en_send e) j now)"
| "handle e Purge now = writes (purgeSoftDeleted now)"

definition request_step :: "env \<Rightarrow> request \<times> instant \<Rightarrow> db \<Rightarrow> db" where
  "request_step e r d = commit d (handle e (fst r) (snd r) d)"

definition run_requests :: "env \<Rightarrow> (request \<times> instant) list \<Rightarrow> db \<Rightarrow> db" where
  "run_requests e rs d = fold (request_step e) rs d"

lemma keeps_handlers:
  "keeps poll_ok (handleCreate lower s q now)" "keeps poll_ok (handleUpdate lower s i uq now)"
  "keeps poll_ok (handleSetStatus s i st now)" "keeps poll_ok (handleFinalize lower source s i oid now)"
  "keeps poll_ok (handleDelete s i now)" "keeps poll_ok (handleDuplicate s i now)"
  "keeps poll_ok (handleUpdateNotificationPrefs s i c now)" "keeps poll_ok (handleSetFollowing s i b now)"
  "keeps poll_ok (handleRemoveParticipant s g i p now)" "keeps poll_ok (handleAddComment t s g i aq now)"
  "keeps poll_ok (handleDeleteComment s g i p now)" "keeps poll_ok (handleClaim parse t s g i oid clq now)"
  "keeps poll_ok (handleUnclaim s g i oid p now)"
  unfolding handleCreate_def handleUpdate_def handleSetStatus_def handleFinalize_def handleDelete_def
    handleDuplicate_def handleUpdateNotificationPrefs_def handleSetFollowing_def handleRemoveParticipant_def
    handleAddComment_def handleDeleteComment_def handleClaim_def handleUnclaim_def Let_def
  by (intro keeps_intros stable_ok [OF stable_reading(1)])+

lemma not_signup_guard:
  assumes "poll_ok d" and "requireNotSignupPollHTTP i d = Inr (u, d')"
  shows "d' = d \<and> \<not> signup_sheet i d"
  using assms GetPoll_signup [OF assms(1)] by (auto simp: requireNotSignupPollHTTP_def result_simps)

lemma captcha_same: "RequireCaptchaIfAnon t s d = Inr (u, d') \<Longrightarrow> d' = d"
  by (auto simp: RequireCaptchaIfAnon_def result_simps split: if_splits option.splits)

lemma handleAddParticipant_ok:
  assumes ok: "poll_ok d" and run: "handleAddParticipant parse t s g i q now d = Inr (r, d')"
  shows "poll_ok d'"
  using run unfolding handleAddParticipant_def Let_def
proof (elim tx_InrE, goal_cases)
  case (1 u0 d0 u1 d1 req d2 res d3 u4 d4)
  have no: "\<not> signup_sheet i d" and "d0 = d" using not_signup_guard [OF ok] 1(1) by (auto simp: svc_Inr)
  moreover have "d1 = d0" by (rule captcha_same [OF 1(2)])
  ultimately have d2: "d2 = d" using 1(3) by (simp add: result_simps)
  have "poll_ok d3" using AddParticipant_ok [OF ok no] 1(4) by (simp add: d2 svc_Inr)
  then have "poll_ok d4" by (rule keepsD [OF keeps_queue_digest _ 1(5)])
  then show ?case using 1(6) by (simp add: ret_Inr_iff)
qed

lemma handleUpdateParticipant_ok:
  assumes ok: "poll_ok d" and run: "handleUpdateParticipant s g i p q now d = Inr (r, d')"
  shows "poll_ok d'"
  using run unfolding handleUpdateParticipant_def Let_def
proof (elim tx_InrE, goal_cases)
  case (1 u0 d0 req d1 u2 d2 name d3)
  have d1: "d1 = d" and no: "\<not> signup_sheet i d"
    using not_signup_guard [OF ok] 1(1,2) by (auto simp: result_simps)
  have "poll_ok d2" using UpdateParticipant_ok [OF ok no] 1(3) by (simp add: d1 svc_Inr)
  then have "poll_ok d3" using 1(4) by (simp add: reads_Inr_iff)
  then show ?case by (rule keepsD [OF keeps_queue_digest _ 1(5)])
qed

lemma keeps_handle: "keeps poll_ok (handle e r now)"
proof -
  have add: "keeps poll_ok (handleAddParticipant parse t s g i q now)" for parse t s g i q
    by (rule keepsI) (rule handleAddParticipant_ok)
  have edit: "keeps poll_ok (handleUpdateParticipant s g i p uq now)" for s g i p uq
    by (rule keepsI) (rule handleUpdateParticipant_ok)
  show ?thesis
    by (cases r; simp only: handle.simps;
        intro keeps_tx keeps_ret keeps_svc keeps_poll_job keeps_handlers add edit keeps_writes; (erule purge_ok)?)
qed

interpretation runs: step_machine "request_step e" poll_ok for e
proof
  fix s x assume ok: "poll_ok s"
  show "poll_ok (request_step e x s)"
    unfolding request_step_def
    by (rule commit_inv [where P = poll_ok, OF ok]) (rule keepsD [OF keeps_handle ok])
qed

text \<open>C1: No sign-up slot is ever overbooked. Start from a database without polls and serve any sequence of
  requests (creating, editing, duplicating, deciding and deleting polls, answers, comments, claims and
  releases, by anyone), jobs and purges, at any times: every option that has a capacity belongs to a
  sign-up sheet and has at most that many yes votes.\<close>

theorem slots_never_overbooked:
  assumes "db_polls d = []" "db_options d = []" "db_participants d = []" "db_votes d = []"
    and "po \<in> set (db_options (run_requests e rs d))" and "o_capacity po = Some c"
  shows "int (CountYesVotesForOption (o_id po) (run_requests e rs d)) \<le> c \<and>
    signup_sheet (o_poll po) (run_requests e rs d)"
proof -
  have "poll_ok d" by (rule poll_okI) (simp_all add: assms(1-4) tuniq_def)
  then have "poll_ok (run_requests e rs d)" unfolding run_requests_def by (rule runs.run_inv)
  from poll_okD(8) [OF this assms(5)] assms(6) show ?thesis by (simp add: slot_ok_def)
qed

subsection \<open>A run\<close>

text \<open>
  A sign-up sheet with one slot of capacity one is created and its slot claimed. The requests are run by
  rewriting with \<open>exec_simps\<close>.
\<close>

definition demo_env :: env where
  "demo_env = \<lparr> en_lower = (\<lambda>s. s), en_parse_address = Some, en_source = None, en_send = (\<lambda>_. True) \<rparr>"

definition demo_session :: "Session option" where
  "demo_session = Some \<lparr> se_user = ''7'', se_org = ''1'', se_verified = True \<rparr>"

definition demo_create :: createPollRequest where
  "demo_create = \<lparr> cq_type = ''signup'', cq_title = ''S'', cq_description = None, cq_location = None,
     cq_timezone = ''U'', cq_deadline_at = None,
     cq_options = [\<lparr> or_id = [], or_kind = ''text'', or_date = [], or_start_at = [], or_end_at = None,
       or_label = ''B'', or_capacity = Some (JNum 1) \<rparr>],
     cq_signup_max_claims = None, cq_require_email = None, cq_allow_comments = None, cq_allow_ifneedbe = None \<rparr>"

definition demo_claim :: "claimRequest" where
  "demo_claim = \<lparr> clq_option = ''b'', clq_participant = [], clq_name = ''A'', clq_email = None, clq_locale = None \<rparr>"

definition demo_start :: db where
  "demo_start = sample_db\<lparr> db_polls := [], db_options := [], db_participants := [], db_votes := [], db_jobs := [],
     db_fresh := (\<lambda>n. [CHR ''a'', CHR ''b'', CHR ''c'', CHR ''d'', CHR ''e'', CHR ''f''] ! n # []), db_next := 0 \<rparr>"

lemma demo_texts: "TrimSpace ''S'' = ''S''" "TrimSpace ''B'' = ''B''" "TrimSpace ''A'' = ''A''"
  by (simp_all add: TrimSpace_plain printable_def)
lemma demo_nums: "ParseInt ''7'' = Some 7" "ParseInt ''1'' = Some 1"
  by (simp_all add: ParseInt_def parse_nat_def digit_val_def in_int64_def)

lemma demo_input: "create_toInput demo_create = Inr \<lparr> ci_type = ''signup'', ci_title = ''S'', ci_description = None, ci_location = None,
     ci_timezone = ''U'', ci_deadline_at = None,
     ci_options = [\<lparr> oi_id = [], oi_kind = ''text'', oi_date = [], oi_start_at = [], oi_end_at = None,
       oi_label = ''B'', oi_capacity_set = True, oi_capacity = Some 1 \<rparr>],
     ci_signup_max_claims = None, ci_require_email = None, ci_allow_comments = None, ci_allow_ifneedbe = None \<rparr>"
  by (simp add: create_toInput_def demo_create_def option_toInput_def in_int64_def)

lemma demo_valid: "CreatePollInput_Validate f (projr (create_toInput demo_create)) = Inr ()"
  unfolding CreatePollInput_Validate_def validationErrorFrom_def CreatePollInput_fields_Nil CreatePollInput_scalars_Nil demo_input
  by (simp add: timezone_bad_def max_claims_bad_def demo_texts LimitTitle_def LimitOptions_def shape_ok_def kind_ok_def end_not_after_start_def same_kind_def LimitOptionLabel_def)


lemma tx_buildView: "GetOrganizationName (p_org p) d \<noteq> None \<Longrightarrow> tx (buildView p u) k d = k (fst (projr (buildView p u d))) d"
  by (auto simp: buildView_def exec_simps split: option.splits)
lemma tx_InsertPoll: "tx (InsertPoll p) k d = (case InsertPoll p d of Inl e \<Rightarrow> Inl e | Inr (u, d') \<Rightarrow> k () d')"
  by (simp add: tx_def split: sum.split)
lemma tx_InsertPollOption: "tx (InsertPollOption p) k d = (case InsertPollOption p d of Inl e \<Rightarrow> Inl e | Inr (u, d') \<Rightarrow> k () d')"
  by (simp add: tx_def split: sum.split)
lemma demo_created: "\<exists>d1. handle demo_env (CreatePoll demo_session demo_create) 0 demo_start = Inr ((), d1) \<and> db_options d1 = [sample_option\<lparr>o_id := ''b'', o_poll := ''a'', o_label := Some ''B''\<rparr>]
  \<and> db_participants d1 = [] \<and> db_votes d1 = [] \<and> (\<exists>p. db_polls d1 = [p] \<and> p_id p = ''a'' \<and> p_type p = ''signup'' \<and> p_status p = ''open'' \<and> p_signup_max_claims p = 1 \<and> live_poll p \<and> \<not> p_require_email p)"
  using demo_valid [of "\<lambda>s. s", unfolded demo_input sum.sel]
  by (simp add: demo_env_def handleCreate_def demo_session_def WithOrgSession_def exec_simps tx_svc tx_NewID tx_buildView tx_InsertPoll tx_InsertPollOption demo_input Create_def demo_texts demo_nums deadline_of_def 
   demo_start_def sample_db_def InsertPoll_def new_poll_def has_user_def sample_user_def tget_def tins_def pollOptionColumns_def
   option_capacity_def int32_def InsertPollOption_def option_row_def  recordStats_def ensureCreatorSubscriptionBestEffort_def sample_option_def or_default_def
   UpsertNotificationSubscription_def live_poll_def Let_def GetOrganizationName_def)




lemma enqueueDigest_frame: "db_options (enqueueDigestBestEffort i item now d) = db_options d"
  "db_votes (enqueueDigestBestEffort i item now d) = db_votes d"
  using core_commit [OF stable_enqueueDigest, of d i item now] by (simp_all add: enqueueDigestBestEffort_def core_def)

lemma demo_claim_valid: "claim_validate Some demo_claim = Inr demo_claim"
  by (simp add: claim_validate_def demo_claim_def demo_texts validateEmailField_def checked_def validationErrorFrom_def LimitName_def
    runes.simps rune_len.simps Let_def)

lemma exec_calls:
  "tx (schedule_job i) k d = k () (d\<lparr> db_next := db_next d + 1, db_jobs := Schedule (db_fresh d (db_next d)) i (db_jobs d) \<rparr>)"
  "tx (InsertParticipant p) k d = (case InsertParticipant p d of Inl e \<Rightarrow> Inl e | Inr (u, d') \<Rightarrow> k () d')"
  "tx (UpsertVote v) k d = (case UpsertVote v d of Inl e \<Rightarrow> Inl e | Inr (u, d') \<Rightarrow> k () d')"
  "tx (Emit r t j) k d = (case Emit r t j d of Inl e \<Rightarrow> Inl e | Inr (u, d') \<Rightarrow> k () d')"
  by (simp_all add: tx_def schedule_job_def writes_def NewID_def split: sum.split)

lemma demo_claimed:
  assumes "db_options d1 = [sample_option\<lparr>o_id := ''b'', o_poll := ''a'', o_label := Some ''B''\<rparr>]" "db_participants d1 = []" "db_votes d1 = []" 
    "db_polls d1 = [p]" "p_id p = ''a''" "p_type p = ''signup''" "p_status p = ''open''" "p_signup_max_claims p = 1" "live_poll p" "\<not> p_require_email p"
  shows "\<exists>d2. handle demo_env (ClaimSlot None None [] ''a'' [] demo_claim) 5 d1 = Inr ((), d2) \<and> db_options d2 = db_options d1 \<and> length (db_votes d2) = 1"
  using assms
  by (simp add: demo_env_def handleClaim_def exec_simps tx_svc demo_claim_valid [unfolded demo_claim_def] of_result_def lookup_or_def RequireCaptchaIfAnon_def
     viewerFromRequest_def Claim_def requireSignupPollTx_def GetPoll_def tget_def GetPollOptionForUpdate_def sample_option_def resolveClaimant_def
     prepareNewParticipant_def demo_claim_def demo_texts trimmed_or_empty_def ListParticipantsByPoll_def LimitParticipants_def lock_claimant_def ListVotesByParticipant_def
     capacity_left_def CountYesVotesForOption_def insert_claimant_def exec_calls InsertParticipant_def has_user_def tins_def UpsertVote_def vote_answers_def
     emit_changed_def Emit_def enqueueMailPoll_def recordStats_def queue_digest_def Let_def enqueueDigest_frame)

lemma slots_never_overbooked_witness:
  "\<exists>po. let d = run_requests demo_env [(CreatePoll demo_session demo_create, 0), (ClaimSlot None None [] ''a'' [] demo_claim, 5)] demo_start
     in po \<in> set (db_options d) \<and> o_capacity po = Some 1 \<and> length (db_votes d) = 1 \<and>
       int (CountYesVotesForOption (o_id po) d) \<le> 1"
proof -
  let ?po = "sample_option\<lparr> o_id := ''b'', o_poll := ''a'', o_label := Some ''B'' \<rparr>"
  let ?rs = "[(CreatePoll demo_session demo_create, 0), (ClaimSlot None None [] ''a'' [] demo_claim, 5)]"
  obtain d1 where d1: "handle demo_env (CreatePoll demo_session demo_create) 0 demo_start = Inr ((), d1)"
      "db_options d1 = [?po]" "db_participants d1 = []" "db_votes d1 = []"
    and p: "\<exists>p. db_polls d1 = [p] \<and> p_id p = ''a'' \<and> p_type p = ''signup'' \<and> p_status p = ''open'' \<and>
      p_signup_max_claims p = 1 \<and> live_poll p \<and> \<not> p_require_email p"
    using demo_created by blast
  then obtain d2 where d2: "handle demo_env (ClaimSlot None None [] ''a'' [] demo_claim) 5 d1 = Inr ((), d2)"
      "db_options d2 = [?po]" "length (db_votes d2) = 1"
    using demo_claimed [OF d1(2-4)] by metis
  have run: "run_requests demo_env ?rs demo_start = d2"
    by (simp only: run_requests_def request_step_def fold_simps fst_conv snd_conv d1(1) d2(1) commit.simps)
  have "db_polls demo_start = []" "db_options demo_start = []" "db_participants demo_start = []" "db_votes demo_start = []"
    by (simp_all add: demo_start_def)
  from slots_never_overbooked [OF this, of ?po demo_env ?rs 1] d2(2,3)
  show ?thesis unfolding run Let_def by (intro exI [of _ ?po]) (simp add: sample_option_def)
qed

end
