(* ===== verification/Decisions.thy ===== *)
theory Decisions
  imports PollRuns
begin

text \<open>
  A decision is final: what a run can still do to a poll that has been finalized. \<open>shape\<close> is the part of
  the database the argument is about; statements outside it keep \<open>decided\<close> for free.
\<close>

definition shape :: "db \<Rightarrow> Poll list \<times> PollOption list" where
  "shape d = (db_polls d, db_options d)"

definition decided :: "string \<Rightarrow> string option \<Rightarrow> PollOption list \<Rightarrow> db \<Rightarrow> bool" where
  "decided i fo opts d \<longleftrightarrow>
     (\<exists>p. tget p_id i (db_polls d) = Some p \<and> p_status p = ''finalized'' \<and> p_finalized_option p = fo) \<and>
     filter (\<lambda>po. o_poll po = i) (db_options d) = opts"

definition settled :: "string \<Rightarrow> string option \<Rightarrow> PollOption list \<Rightarrow> db \<Rightarrow> bool" where
  "settled i fo opts d \<longleftrightarrow> poll_ok d \<and> decided i fo opts d"

lemma decided_shape: "shape d = shape d' \<Longrightarrow> decided i fo opts d = decided i fo opts d'"
  by (simp add: decided_def shape_def)

lemma core_shape: "core d = core d' \<Longrightarrow> shape d = shape d'"
  by (simp add: core_def shape_def)

lemma decided_stable: "stable m \<Longrightarrow> keeps (decided i fo opts) m"
  by (erule keeps_stable) (rule decided_shape, erule core_shape)

lemma decided_stableD:
  "stable m \<Longrightarrow> m d = Inr (x, d') \<Longrightarrow> decided i fo opts d \<Longrightarrow> decided i fo opts d'"
  by (rule keepsD [OF decided_stable])

lemma keeps_shape: "(\<And>d. shape (f d) = shape d) \<Longrightarrow> keeps (decided i fo opts) (writes f)"
  by (rule keeps_writes) (metis decided_shape)

lemma keeps_shapeI:
  assumes "\<And>d x d'. m d = Inr (x, d') \<Longrightarrow> shape d' = shape d"
  shows "keeps (decided i fo opts) m"
  using assms by (intro keepsI) (metis decided_shape)

lemma shape_rows [keeps_intros]:
  "keeps (decided i fo opts) (InsertParticipant pa)" "keeps (decided i fo opts) (UpsertVote v)"
  "keeps (decided i fo opts) (DeleteParticipant j)" "keeps (decided i fo opts) (DeleteVote j k)"
  "keeps (decided i fo opts) (DeleteVotesByParticipant j)" "keeps (decided i fo opts) (UpdateParticipantName j n now)"
       apply (rule keeps_shapeI, auto simp: InsertParticipant_def shape_def split: if_splits option.splits)[1]
      apply (rule keeps_shapeI, auto simp: UpsertVote_def shape_def split: if_splits option.splits)[1]
  unfolding DeleteParticipant_def DeleteVote_def DeleteVotesByParticipant_def UpdateParticipantName_def
  by (rule keeps_shape, simp add: shape_def)+

lemma decided_update_poll:
  assumes "\<And>p. p_id (f p) = p_id p"
    and "\<And>p. j = i \<Longrightarrow> p_status p = ''finalized'' \<Longrightarrow> p_status (f p) = ''finalized'' \<and> p_finalized_option (f p) = p_finalized_option p"
  shows "keeps (decided i fo opts) (update_poll j f)"
  unfolding update_poll_def
proof (rule keeps_writes)
  fix d assume d: "decided i fo opts d"
  then obtain p where p: "tget p_id i (db_polls d) = Some p" "p_status p = ''finalized''" "p_finalized_option p = fo"
    by (auto simp: decided_def)
  have "p_id p = i" using tget_Some_in [OF p(1)] by simp
  with p d show "decided i fo opts (d\<lparr> db_polls := tupd (\<lambda>p. p_id p = j) f (db_polls d) \<rparr>)"
    using assms(2) [of p] by (auto simp: decided_def tget_tupd [where key = p_id, OF assms(1)])
qed

lemma decided_polls [keeps_intros]:
  "keeps (decided i fo opts) (SoftDeletePoll j now)" "keeps (decided i fo opts) (UpdatePollScalars j m)"
  unfolding SoftDeletePoll_def UpdatePollScalars_def by (rule decided_update_poll; simp)+

lemma decided_open_poll:
  assumes "settled i fo opts d" and "GetPoll j d = Some p" and "p_status p \<noteq> ''finalized''"
  shows "j \<noteq> i"
  using assms by (auto simp: settled_def decided_def GetPoll_Some)

lemma settled_keeps:
  assumes "keeps poll_ok m" and "keeps (decided i fo opts) m"
  shows "keeps (settled i fo opts) m"
  using assms unfolding keeps_def settled_def by blast

lemma decided_insert_option:
  assumes "decided i fo opts d" and "InsertPollOption po d = Inr (u, d')" and "o_poll po \<noteq> i"
  shows "decided i fo opts d'"
proof -
  obtain t where t: "tins o_id po (db_options d) = Some t" and d': "d' = d\<lparr> db_options := t \<rparr>"
    using assms(2) by (auto simp: InsertPollOption_def split: if_splits option.splits)
  from tins_eq [OF t] assms(1,3) show ?thesis by (auto simp: d' decided_def)
qed

lemma decided_insert_poll:
  assumes "decided i fo opts d" and "InsertPoll p d = Inr (u, d')"
  shows "decided i fo opts d'" and "p_id p \<noteq> i"
proof -
  obtain t where t: "tins p_id p (db_polls d) = Some t" and d': "d' = d\<lparr> db_polls := t \<rparr>"
    using assms(2) by (auto simp: InsertPoll_def split: if_splits option.splits)
  note eq = tins_eq [OF t]
  show "p_id p \<noteq> i" using assms(1) eq by (auto simp: decided_def dest!: tget_Some_in)
  with assms(1) show "decided i fo opts d'" by (auto simp: d' decided_def tget_tins [OF t])
qed

lemma decided_insert_options:
  "decided i fo opts d \<Longrightarrow> j \<noteq> i \<Longrightarrow> insert_options ty j n xs d = Inr (u, d') \<Longrightarrow> decided i fo opts d'"
proof (induction xs arbitrary: n d)
  case Nil
  then show ?case by (simp add: result_simps)
next
  case (Cons x xs)
  from Cons.prems(3) show ?case
    unfolding insert_options.simps
  proof (elim tx_InrE, goal_cases)
    case (1 cols d0 oid d1 u2 d2)
    have "shape d1 = shape d" using 1(1,2) by (auto simp: result_simps shape_def)
    with Cons.prems(1) have "decided i fo opts d1" using decided_shape by blast
    from decided_insert_option [OF this 1(3)] Cons.prems(2) have "decided i fo opts d2"
      by (simp add: option_row_def)
    from Cons.IH [OF this Cons.prems(2) 1(4)] show ?case .
  qed
qed

lemma decided_Create: "keeps (decided i fo opts) (Create lower g us ci now)"
proof (rule keepsI)
  fix d r d' assume d: "decided i fo opts d" and run: "Create lower g us ci now d = Inr (r, d')"
  from run show "decided i fo opts d'"
    unfolding Create_def Let_def
  proof (elim tx_InrE, goal_cases)
    case (1 u0 d0 org d1 user d2 dl d3 pollID d4 u5 d5 u6 d6 u7 d7 view d8 u9 d9 u10 d10)
    have "shape d4 = shape d" using 1(1-5) by (auto simp: result_simps shape_def)
    with d have d4: "decided i fo opts d4" using decided_shape by blast
    note ins = decided_insert_poll [OF d4 1(6)]
    have "decided i fo opts d6" by (rule decided_insert_options [OF ins(1) _ 1(7)]) (use ins(2) in \<open>simp add: new_poll_def\<close>)
    moreover have st: "stable (if dl = None then ret () else armDeadline pollID dl now)" by (intro stable_intros)
    ultimately have "decided i fo opts d7" using decided_stableD [OF st 1(8)] by simp
    then have "decided i fo opts d8" by (rule decided_stableD [OF stable_calls(3) 1(9)])
    then have "decided i fo opts d9" by (rule decided_stableD [OF stable_statements(5) 1(10)])
    then have "decided i fo opts d10" by (rule decided_stableD [OF stable_best_effort(1) 1(11)])
    then show ?case using 1(12) by (simp add: ret_Inr_iff)
  qed
qed

lemma decided_copies:
  assumes "decided i fo opts d" and "j \<noteq> i"
    and "for_each (\<lambda>po. tx NewID (\<lambda>oid. InsertPollOption (po\<lparr> o_id := oid, o_poll := j \<rparr>))) pos d = Inr (u, d')"
  shows "decided i fo opts d'"
  using assms
proof (induction pos arbitrary: d)
  case Nil
  then show ?case by (simp add: result_simps)
next
  case (Cons po pos)
  from Cons.prems(3) show ?case
    unfolding for_each.simps
  proof (elim tx_InrE, goal_cases)
    case (1 u1 d2 oid d1)
    have "shape d1 = shape d" using 1(2) by (simp add: result_simps shape_def)
    with Cons.prems(1) have "decided i fo opts d1" using decided_shape by blast
    from decided_insert_option [OF this 1(3)] Cons.prems(2) have "decided i fo opts d2" by simp
    from Cons.IH [OF this Cons.prems(2) 1(1)] show ?case .
  qed
qed

lemma decided_Duplicate: "keeps (decided i fo opts) (Duplicate j g us now)"
proof (rule keepsI)
  fix d r d' assume d: "decided i fo opts d" and run: "Duplicate j g us now d = Inr (r, d')"
  from run show "decided i fo opts d'"
    unfolding Duplicate_def Let_def
  proof (elim tx_InrE, goal_cases)
    case (1 org d0 user d1 original d2 options d3 newID d4 u5 d5 u6 d6 view d7 u8 d8 u9 d9 u10 d10)
    have "shape d4 = shape d" using 1(1-5) by (auto simp: result_simps shape_def)
    with d have d4: "decided i fo opts d4" using decided_shape by blast
    note ins = decided_insert_poll [OF d4 1(6)]
    have "decided i fo opts d6" by (rule decided_copies [OF ins(1) _ 1(7)]) (use ins(2) in \<open>simp add: copy_poll_def\<close>)
    then have "decided i fo opts d7" by (rule decided_stableD [OF stable_calls(3) 1(8)])
    then have "decided i fo opts d8" by (rule decided_stableD [OF stable_statements(5) 1(9)])
    then have "decided i fo opts d9" by (rule decided_stableD [OF stable_best_effort(1) 1(10)])
    then have "decided i fo opts d10" by (rule decided_stableD [OF stable_best_effort(2) 1(11)])
    then show ?case using 1(12) by (simp add: ret_Inr_iff)
  qed
qed

text \<open>
  Replacing the options of another poll: the loop updates only options that belonged to that poll when it
  started, inserts only into it and deletes only its own.
\<close>

definition elsewhere :: "string \<Rightarrow> string list \<Rightarrow> db \<Rightarrow> bool" where
  "elsewhere i ids d \<longleftrightarrow> (\<forall>po \<in> set (db_options d). o_id po \<in> set ids \<longrightarrow> o_poll po \<noteq> i)"

lemma decided_touch:
  assumes "decided i fo opts d" and "elsewhere i ids d" and "oid \<in> set ids"
  shows "UpdatePollOption oid row d = Inr (u, d1) \<Longrightarrow> decided i fo opts d1 \<and> elsewhere i ids d1"
    and "DeletePollOption oid d = Inr (u, d2) \<Longrightarrow> decided i fo opts d2 \<and> elsewhere i ids d2"
proof -
  let ?f = "\<lambda>po. po\<lparr> o_position := o_position row, o_kind := o_kind row, o_start_at := o_start_at row,
              o_end_at := o_end_at row, o_label := o_label row, o_capacity := o_capacity row \<rparr>"
  have off: "o_poll po \<noteq> i" if "po \<in> set (db_options d)" "o_id po = oid" for po
    using assms(2,3) that by (auto simp: elsewhere_def)
  have upd: "filter (\<lambda>po. o_poll po = i) (tupd (\<lambda>po. o_id po = oid) ?f xs) = filter (\<lambda>po. o_poll po = i) xs"
    if "\<forall>po \<in> set xs. o_id po = oid \<longrightarrow> o_poll po \<noteq> i" for xs
    using that by (induction xs) (auto simp: tupd_def)
  have del: "filter (\<lambda>po. o_poll po = i) (tdel (\<lambda>po. o_id po = oid) xs) = filter (\<lambda>po. o_poll po = i) xs"
    if "\<forall>po \<in> set xs. o_id po = oid \<longrightarrow> o_poll po \<noteq> i" for xs
    using that by (induction xs) (auto simp: tdel_def)
  show "UpdatePollOption oid row d = Inr (u, d1) \<Longrightarrow> decided i fo opts d1 \<and> elsewhere i ids d1"
    using assms(1,2) upd [of "db_options d"] off
    by (auto simp: UpdatePollOption_def result_simps decided_def elsewhere_def elim!: in_tupdE split: if_splits)
  show "DeletePollOption oid d = Inr (u, d2) \<Longrightarrow> decided i fo opts d2 \<and> elsewhere i ids d2"
    using assms(1,2) del [of "db_options d"] off
    by (auto simp: DeletePollOption_def result_simps decided_def elsewhere_def)
qed

lemma decided_write_options:
  assumes "decided i fo opts d" and "elsewhere i (map o_id existing) d" and "j \<noteq> i"
    and "write_options existing ty j n xs d = Inr (keep, d')"
  shows "decided i fo opts d' \<and> elsewhere i (map o_id existing) d'"
  using assms
proof (induction xs arbitrary: n d d' keep)
  case Nil
  then show ?case by (simp add: result_simps)
next
  case (Cons x xs)
  show ?case
  proof (cases "known_option existing (oi_id x)")
    case (Some ex)
    have known: "oi_id x \<in> set (map o_id existing)" using known_option_Some [OF Some] by (metis image_eqI list.set_map)
    from Cons.prems(4) show ?thesis
      unfolding write_options.simps Some option.case
    proof (elim tx_InrE, goal_cases)
      case (1 cols d1 u2 d2 ks d3)
      have "d1 = d" using 1(1) by (auto simp: result_simps)
      with decided_touch(1) [OF _ _ known] Cons.prems 1(2)
      have "decided i fo opts d2 \<and> elsewhere i (map o_id existing) d2" by blast
      with Cons.IH [OF _ _ Cons.prems(3) 1(3)] 1(4) show ?case by (simp add: result_simps)
    qed
  next
    case None
    from Cons.prems(4) show ?thesis
      unfolding write_options.simps None option.case
    proof (elim tx_InrE, goal_cases)
      case (1 oid d1 cols d2 u3 d3 ks d4)
      have sh: "shape d2 = shape d" using 1(1,2) by (auto simp: result_simps shape_def)
      have d2: "decided i fo opts d2" using decided_shape [OF sh] Cons.prems(1) by simp
      have "elsewhere i (map o_id existing) d2" using sh Cons.prems(2) by (simp add: elsewhere_def shape_def)
      moreover obtain t where "tins o_id (option_row oid j n cols) (db_options d2) = Some t" "d3 = d2\<lparr> db_options := t \<rparr>"
        using 1(3) by (auto simp: InsertPollOption_def split: if_splits option.splits)
      ultimately have "elsewhere i (map o_id existing) d3"
        using set_tins Cons.prems(3) by (fastforce simp: elsewhere_def option_row_def)
      moreover have "decided i fo opts d3"
        by (rule decided_insert_option [OF d2 1(3)]) (use Cons.prems(3) in \<open>simp add: option_row_def\<close>)
      ultimately show ?case using Cons.IH [OF _ _ Cons.prems(3) 1(4)] 1(5) by (simp add: result_simps)
    qed
  qed
qed

lemma decided_drop_options:
  assumes "decided i fo opts d" and "elsewhere i ids d" and "o_id ` set xs \<subseteq> set ids"
    and "for_each (\<lambda>ex. if o_id ex \<in> set keep then ret () else DeletePollOption (o_id ex)) xs d = Inr (u, d')"
  shows "decided i fo opts d'"
  using assms
proof (induction xs arbitrary: d)
  case Nil
  then show ?case by (simp add: result_simps)
next
  case (Cons x xs)
  from Cons.prems(4) show ?case
    unfolding for_each.simps
  proof (elim tx_InrE, goal_cases)
    case (1 u1 d1)
    have "decided i fo opts d1 \<and> elsewhere i ids d1"
      using 1(1) Cons.prems(1-3) decided_touch(2) [of i fo opts d ids "o_id x" "()" d1]
      by (auto simp: result_simps split: if_splits)
    with Cons.IH [OF _ _ _ 1(2)] Cons.prems(3) show ?case by simp
  qed
qed

lemma decided_replaceOptions:
  assumes "settled i fo opts d" and "j \<noteq> i" and "replaceOptions j ty xs d = Inr (u, d')"
  shows "decided i fo opts d'"
  using assms(3) unfolding replaceOptions_def
proof (elim tx_InrE, goal_cases)
  case (1 existing d1 u2 d2 keep d3)
  have ex: "existing = ListOptionsByPoll j d" and d2: "d2 = d" using 1(1,2) by (auto simp: result_simps split: if_splits)
  have ok: "poll_ok d" and d: "decided i fo opts d" using assms(1) by (simp_all add: settled_def)
  have off: "elsewhere i (map o_id existing) d"
  proof -
    have "o_poll po = j" if "po \<in> set (db_options d)" "o_id po \<in> o_id ` set existing" for po
    proof -
      from that(2) obtain q where "q \<in> set (db_options d)" "o_poll q = j" "o_id po = o_id q"
        by (auto simp: ex in_ListOptions)
      with tuniq_inj [OF poll_okD(2) [OF ok] that(1)] show ?thesis by metis
    qed
    with assms(2) show ?thesis by (auto simp: elsewhere_def)
  qed
  from decided_write_options [OF d off assms(2) 1(3) [unfolded d2]]
  show ?case using decided_drop_options [OF _ _ _ 1(4), of i fo opts "map o_id existing"] by simp
qed

lemma settledI:
  assumes "\<And>d x d'. settled i fo opts d \<Longrightarrow> m d = Inr (x, d') \<Longrightarrow> decided i fo opts d'" and "keeps poll_ok m"
  shows "keeps (settled i fo opts) m"
  using assms unfolding keeps_def settled_def by blast

lemma settled_open:
  assumes "settled i fo opts d" and "requireOrgPoll j g d = Inr (p, d')"
  shows "d' = d" and "j = i \<Longrightarrow> p_status p = ''finalized''"
  using assms decided_open_poll [OF assms(1), of j p] by (auto simp: requireOrgPoll_Inr)

lemma decided_set_status: "j \<noteq> i \<Longrightarrow> keeps (decided i fo opts) (SetPollStatus j st now)"
  and decided_finalize: "j \<noteq> i \<Longrightarrow> keeps (decided i fo opts) (FinalizePoll j oid st now)"
  unfolding SetPollStatus_def FinalizePoll_def by (rule decided_update_poll; simp)+

lemma settled_Update: "keeps (settled i fo opts) (Update lower j g ui now)"
proof (rule settledI)
  fix d r d' assume d: "settled i fo opts d" and run: "Update lower j g ui now d = Inr (r, d')"
  from run show "decided i fo opts d'"
    unfolding Update_def Let_def
  proof (elim tx_InrE, goal_cases)
    case (1 u0 d0 poll d1 u2 d2 dl d3 u4 d4 u5 d5 u6 d6 u7 d7)
    have d3: "d3 = d" and org: "requireOrgPoll j g d = Inr (poll, d)" using 1(1-4) by (auto simp: result_simps)
    have blocked: "ui_options ui = None" if "j = i"
      using 1(3) settled_open(2) [OF d org that] by (simp add: ensure_Inr_iff)
    have "settled i fo opts d4"
      using keepsD [OF settled_keeps [OF keeps_poll_updates(4) decided_polls(2)] d] 1(5) d3 by blast
    with 1(6) blocked have "decided i fo opts d5"
      by (auto simp: ret_Inr_iff settled_def split: option.splits intro: decided_replaceOptions [unfolded settled_def])
    moreover have st: "stable (if ui_deadline_set ui then armDeadline j (p_deadline_at (merged_poll poll ui dl now)) now else ret ())"
      by (intro stable_intros)
    ultimately have "decided i fo opts d6" using decided_stableD [OF st 1(7)] by simp
    then have "decided i fo opts d7" by (rule decided_stableD [OF stable_calls(2) 1(8)])
    then show ?case by (rule decided_stableD [OF stable_calls(3) 1(9)])
  qed
qed (rule keeps_poll_ops)

lemma settled_SetStatus: "keeps (settled i fo opts) (SetStatus j g st now)"
proof (rule settledI)
  fix d r d' assume d: "settled i fo opts d" and run: "SetStatus j g st now d = Inr (r, d')"
  from run show "decided i fo opts d'"
    unfolding SetStatus_def
  proof (elim tx_InrE, goal_cases)
    case (1 u0 d0 poll d1 u2 d2 u3 d3)
    have d2: "d2 = d" and org: "requireOrgPoll j g d = Inr (poll, d)" and "p_status poll \<noteq> ''finalized''"
      using 1(1-3) by (auto simp: result_simps)
    with settled_open(2) [OF d org] have "j \<noteq> i" by blast
    then have "decided i fo opts d3" using keepsD [OF decided_set_status _ 1(4)] d by (simp add: d2 settled_def)
    then show ?case by (rule decided_stableD [OF stable_calls(2) 1(5)])
  qed
qed (rule keeps_poll_ops)

lemma settled_Finalize: "keeps (settled i fo opts) (FinalizeWithCount lower source j g oid us now)"
proof (rule settledI)
  fix d r d' assume d: "settled i fo opts d"
    and run: "FinalizeWithCount lower source j g oid us now d = Inr (r, d')"
  from run show "decided i fo opts d'"
    unfolding FinalizeWithCount_def
  proof (elim tx_InrE, goal_cases)
    case (1 poll d0 u1 d1 u2 d2 options d3 u4 d4 u5 d5 u6 d6 u7 d7 u8 d8 participants d9 z d10)
    have d4: "d4 = d" and org: "requireOrgPoll j g d = Inr (poll, d)" and "p_status poll \<noteq> ''finalized''"
      using 1(1-5) by (auto simp: result_simps)
    with settled_open(2) [OF d org] have "j \<noteq> i" by blast
    then have "decided i fo opts d5" using keepsD [OF decided_finalize _ 1(6)] d by (simp add: d4 settled_def)
    then have "decided i fo opts d6" by (rule decided_stableD [OF stable_calls(2) 1(7)])
    then have "decided i fo opts d7" by (rule decided_stableD [OF stable_statements(3) 1(8)])
    then have "decided i fo opts d8" by (rule decided_stableD [OF stable_statements(3) 1(9)])
    then have "decided i fo opts d9" using 1(10) by (simp add: reads_Inr_iff)
    then have d10: "decided i fo opts d10" by (rule decided_stableD [OF stable_mail_participants 1(11)])
    from 1(12) show ?case
    proof (cases z)
      case (Pair seenEmail sent)
      have st: "stable (tx (mail_owner lower poll now seenEmail sent) (\<lambda>(seenUserID, sent).
          tx (reads (resolveRecipients source (p_org poll) j ''poll.finalized'' us)) (\<lambda>recipients.
          tx (mail_subscribers j now recipients seenUserID sent) (\<lambda>sent.
          tx (writes (recordStats [(StatsPollsFinalized, 1)])) (\<lambda>_. ret sent)))))"
        by (intro stable_intros)
      from decided_stableD [OF st _ d10] 1(12) show ?thesis by (simp add: Pair)
    qed
  qed
qed (rule keeps_poll_ops)

lemma settled_CloseExpired: "keeps (settled i fo opts) (CloseExpired j now)"
proof (rule settledI)
  fix d r d' assume d: "settled i fo opts d" and run: "CloseExpired j now d = Inr (r, d')"
  show "decided i fo opts d'"
  proof (cases "j = i")
    case True
    with run d have "d' = d"
      by (auto simp: CloseExpired_def settled_def decided_def GetPoll_Some split: option.splits if_splits)
    with d show ?thesis by (simp add: settled_def)
  next
    case False
    have st: "keeps (decided i fo opts) (tx (SetPollStatus j ''closed'' now) (\<lambda>_. tx (emit_changed j ''poll'') (\<lambda>_. ret True)))"
      by (intro keeps_intros decided_set_status [OF False] decided_stable stable_calls)
    from run d keepsD [OF st] show ?thesis
      unfolding CloseExpired_def settled_def by (auto split: option.splits if_splits)
  qed
qed (rule keeps_CloseExpired)

lemma settled_stable: "stable m \<Longrightarrow> keeps (settled i fo opts) m"
  by (rule settled_keeps [OF stable_ok decided_stable])

lemma decided_digest: "keeps (decided i fo opts) (queue_digest j item now)"
  unfolding queue_digest_def
proof (rule keeps_shape)
  fix d show "shape (enqueueDigestBestEffort j item now d) = shape d"
    unfolding enqueueDigestBestEffort_def by (rule core_shape, rule core_commit, rule stable_enqueueDigest)
qed

lemma decided_participants:
  "keeps (decided i fo opts) (AddParticipant j pi' vw now)" "keeps (decided i fo opts) (UpdateParticipant j q pi' vw now)"
  "keeps (decided i fo opts) (RemoveParticipant j q vw)" "keeps (decided i fo opts) (AddComment j ci vw now)"
  "keeps (decided i fo opts) (DeleteComment j q vw now)" "keeps (decided i fo opts) (Claim j oid cl vw now)"
  "keeps (decided i fo opts) (unclaim j oid q vw now)"
proof -
  have ins: "keeps (decided i fo opts) (insert_claimant j vw now c)" for c
    by (cases c) (auto simp: insert_claimant_def intro!: keeps_intros)
  have votes: "keeps (decided i fo opts) (cast_votes q answers)" for q answers
    unfolding cast_votes_def by (intro keeps_intros)
  show "keeps (decided i fo opts) (AddParticipant j pi' vw now)"
    unfolding AddParticipant_def Let_def
    by (intro keeps_intros votes; rule decided_stable; intro stable_intros)
  show "keeps (decided i fo opts) (UpdateParticipant j q pi' vw now)"
    unfolding UpdateParticipant_def Let_def
    by (intro keeps_intros votes; rule decided_stable; intro stable_intros)
  show "keeps (decided i fo opts) (RemoveParticipant j q vw)" "keeps (decided i fo opts) (AddComment j ci vw now)"
    "keeps (decided i fo opts) (DeleteComment j q vw now)" "keeps (decided i fo opts) (unclaim j oid q vw now)"
    unfolding RemoveParticipant_def AddComment_def DeleteComment_def unclaim_def Let_def
    by (intro keeps_intros; rule decided_stable; intro stable_intros)+
  show "keeps (decided i fo opts) (Claim j oid cl vw now)"
    unfolding Claim_def Let_def
    by (intro keeps_intros ins; rule decided_stable; intro stable_intros)
qed

lemma decided_handlers:
  "keeps (decided i fo opts) (handleAddParticipant parse t s g j q now)"
  "keeps (decided i fo opts) (handleUpdateParticipant s g j pid uq now)"
  "keeps (decided i fo opts) (handleRemoveParticipant s g j pid now)"
  "keeps (decided i fo opts) (handleAddComment t s g j aq now)" "keeps (decided i fo opts) (handleDeleteComment s g j pid now)"
  "keeps (decided i fo opts) (handleClaim parse t s g j oid clq now)" "keeps (decided i fo opts) (handleUnclaim s g j oid pid now)"
  unfolding handleAddParticipant_def handleUpdateParticipant_def handleRemoveParticipant_def handleAddComment_def
    handleDeleteComment_def handleClaim_def handleUnclaim_def Let_def Unclaim_def UnclaimFor_def
  by (intro keeps_intros decided_participants decided_digest decided_stable [OF stable_guards(7)])+

lemma settled_handle:
  assumes "r \<noteq> Purge"
  shows "keeps (settled i fo opts) (handle e r now)"
proof -
  note lift = settled_keeps [OF keeps_handle]
  note decided_create = settled_keeps [OF keeps_poll_ops(1) decided_Create] settled_keeps [OF keeps_poll_ops(5) decided_Duplicate]
  have del: "keeps (settled i fo opts) (Delete j g now)" for j g
    unfolding Delete_def
    by (intro keeps_intros settled_stable stable_calls stable_statements settled_keeps [OF keeps_poll_updates(3) decided_polls(1)])
  have subs: "keeps (settled i fo opts) (UpdateNotificationPrefs j g us c now)"
    "keeps (settled i fo opts) (SetFollowing j g us b now)" for j g us c b
    unfolding UpdateNotificationPrefs_def SetFollowing_def by (intro keeps_intros settled_stable stable_statements)+
  have job: "keeps (settled i fo opts) (poll_job source send j now)" for source send j
    unfolding poll_job_def Let_def handleDeadlineJob_def handleReminderJob_def
    by (intro keeps_intros settled_CloseExpired settled_stable stable_intros)
  show ?thesis
  proof (cases r)
    case (AddAnswer t s g j q)
    show ?thesis unfolding AddAnswer by (rule lift) (simp only: handle.simps, intro keeps_intros decided_handlers)
  next
    case (EditAnswer s g j p q)
    show ?thesis unfolding EditAnswer by (rule lift) (simp only: handle.simps, intro decided_handlers)
  next
    case (RemoveAnswer s g j p)
    show ?thesis unfolding RemoveAnswer by (rule lift) (simp only: handle.simps, intro decided_handlers)
  next
    case (PostComment t s g j q)
    show ?thesis unfolding PostComment by (rule lift) (simp only: handle.simps, intro keeps_intros decided_handlers)
  next
    case (RemoveComment s g j q)
    show ?thesis unfolding RemoveComment by (rule lift) (simp only: handle.simps, intro decided_handlers)
  next
    case (ClaimSlot t s g j oid q)
    show ?thesis unfolding ClaimSlot by (rule lift) (simp only: handle.simps, intro keeps_intros decided_handlers)
  next
    case (ReleaseSlot s g j oid q)
    show ?thesis unfolding ReleaseSlot by (rule lift) (simp only: handle.simps, intro decided_handlers)
  qed (use assms in \<open>simp_all only: handle.simps handleCreate_def handleUpdate_def handleSetStatus_def handleFinalize_def
        handleDelete_def handleDuplicate_def handleUpdateNotificationPrefs_def handleSetFollowing_def\<close>,
      (intro keeps_intros decided_create settled_Update settled_SetStatus settled_Finalize del subs job
        settled_stable [OF stable_reading(1)])+)
qed

lemma settled_run:
  "settled i fo opts d \<Longrightarrow> list_all (\<lambda>(r, _). r \<noteq> Purge) rs \<Longrightarrow> settled i fo opts (run_requests e rs d)"
  unfolding run_requests_def
proof (induction rs arbitrary: d)
  case (Cons x rs)
  have "settled i fo opts (request_step e x d)"
    unfolding request_step_def
  proof (rule commit_inv [where P = "settled i fo opts"])
    fix u d' assume "handle e (fst x) (snd x) d = Inr (u, d')"
    with Cons.prems show "settled i fo opts d'" by (auto dest: keepsD [OF settled_handle])
  qed (rule Cons.prems(1))
  with Cons show ?case by simp
qed simp


definition decided_db :: db where
  "decided_db = sample_db\<lparr> db_polls := [sample_poll\<lparr> p_type := ''options'', p_status := ''finalized'',
       p_finalized_option := Some ''o1'' \<rparr>],
     db_options := [sample_option\<lparr> o_capacity := None \<rparr>] \<rparr>"

lemma decided_db_ok: "poll_ok decided_db"
  by (simp add: poll_ok_defs decided_db_def sample_defs tuniq_def)


end
