(* ===== verification/ClaimRules.thy ===== *)
theory ClaimRules
  imports PollRuns
begin

text \<open>
  What a claim does, branch by branch, when a full sheet is announced, and whose vote a release deletes.
\<close>

definition claims_of :: "string \<Rightarrow> db \<Rightarrow> string list" where
  "claims_of pid d = map v_option (ListVotesByParticipant pid d)"

definition returning :: "string \<Rightarrow> ClaimInput" where
  "returning pid = \<lparr> cli_participant = pid, cli_name = [], cli_email = None, cli_locale = None \<rparr>"

definition guest :: "string \<Rightarrow> Viewer" where
  "guest pid = \<lparr> vw_user = [], vw_guest = pid \<rparr>"

lemma resolve_returning:
  assumes "GetParticipant pid d = Some pa" and "pa_poll pa = i" and "pid \<noteq> []"
  shows "resolveClaimant i p (returning pid) (guest pid) d = Inr (Existing pid (pa_user pa = None), d)"
  using assms GetParticipant_in [OF assms(1)]
  by (simp add: resolveClaimant_def returning_def guest_def exec_simps participantAuthorized_def)

lemma UpsertVote_new:
  assumes "pa \<in> set (db_participants d)" "pa_id pa = v_participant v" "po \<in> set (db_options d)" "o_id po = v_option v"
    and "v_answer v \<in> set vote_answers" and "\<forall>w \<in> set (db_votes d). v_key w \<noteq> v_key v"
  shows "UpsertVote v d = Inr ((), d\<lparr> db_votes := db_votes d @ [v] \<rparr>)"
proof -
  have "tget pa_id (v_participant v) (db_participants d) \<noteq> None" "tget o_id (v_option v) (db_options d) \<noteq> None"
    using assms(1-4) by (auto simp: tget_None_iff)
  moreover have "tins v_key v (db_votes d) = Some (db_votes d @ [v])"
    using assms(6) by (simp add: tins_def tget_None_iff)
  ultimately show ?thesis using assms(5) by (simp add: UpsertVote_def)
qed

lemma recordStats_one: "recordStats [(k, n)] d = d\<lparr> db_stats := (db_stats d)(k := db_stats d k + n) \<rparr>"
proof -
  have "(\<lambda>f. db_stats d f + sum_list (map snd (filter (\<lambda>(g, _). g = f) [(k, n)]))) = (db_stats d)(k := db_stats d k + n)"
    by (rule ext) simp
  then show ?thesis unfolding recordStats_def by (rule arg_cong)
qed

lemma claim_by_returning:
  assumes "GetPoll i d = Some p" "p_type p = ''signup''" "p_status p = ''open''"
    and "GetPollOptionForUpdate oid d = Some opt" "o_poll opt = i"
    and "GetParticipant pid d = Some pa" "pa_poll pa = i" "pid \<noteq> []"
  shows "Claim i oid (returning pid) (guest pid) now d =
    (let held = claims_of pid d; g = (pa_user pa = None) in
     if oid \<in> set held then Inr (claim_result (Existing pid g) held False, d)
     else if p_signup_max_claims p \<le> int (length held) then Inl ErrClaimLimitReached
     else if (case o_capacity opt of None \<Rightarrow> False | Some c \<Rightarrow> c \<le> int (CountYesVotesForOption oid d)) then Inl ErrCapacityFull
     else Inr (claim_result (Existing pid g) (held @ [oid]) True,
       d\<lparr> db_votes := db_votes d @ [\<lparr> v_participant = pid, v_option = oid, v_answer = ''yes'' \<rparr>],
          db_event_seq := db_event_seq d + 1,
          db_events := db_events d @ [\<lparr> ev_id = db_event_seq d + 1, ev_room = poll_room i, ev_type = ''poll.changed'', ev_data = entity ''vote'' \<rparr>],
          db_next := db_next d + 1,
          db_jobs := Schedule (db_fresh d (db_next d))
            \<lparr> si_kind = ''mail:poll'', si_room = None, si_run_at = now,
              si_payload = Some (json_of_mail (mail_to_participant i ''claim_confirmation'' pid)), si_max_attempts = 10 \<rparr> (db_jobs d),
          db_stats := (db_stats d)(''responsesYes'' := db_stats d ''responsesYes'' + 1) \<rparr>))"
proof -
  have opt: "opt \<in> set (db_options d)" "o_id opt = oid"
    using assms(4) by (auto simp: GetPollOptionForUpdate_def dest: tget_Some_in)
  note pa = GetParticipant_in [OF assms(6)]
  have new: "\<forall>w \<in> set (db_votes d). v_key w \<noteq> (pid, oid)" if "oid \<notin> set (claims_of pid d)"
    using that by (auto simp: claims_of_def ListVotesByParticipant_def v_key_def)
  have resolve: "tx (resolveClaimant i q (returning pid) (guest pid)) k d = k (Existing pid (pa_user pa = None)) d"
    for q and k :: "claimant \<Rightarrow> ClaimResult poll_tx"
    by (rule tx_apply) (rule resolve_returning [OF assms(6-8)])
  have found: "GetParticipantForUpdate pid d = Some pa"
    using assms(6) by (simp add: GetParticipantForUpdate_def GetParticipant_def)
  have vote: "tx (UpsertVote \<lparr> v_participant = pid, v_option = oid, v_answer = ''yes'' \<rparr>) k d =
      k () (d\<lparr> db_votes := db_votes d @ [\<lparr> v_participant = pid, v_option = oid, v_answer = ''yes'' \<rparr>] \<rparr>)"
    if "oid \<notin> set (claims_of pid d)" for k :: "unit \<Rightarrow> ClaimResult poll_tx"
    using pa opt new [OF that]
    by (intro tx_apply UpsertVote_new [of pa _ _ opt]) (simp_all add: vote_answers_def v_key_def)
  have run: "Claim i oid (returning pid) (guest pid) now d =
      (let held = claims_of pid d; already = (oid \<in> set held); g = (pa_user pa = None); c = Existing pid g in
       tx (ensure (already \<or> int (length held) < p_signup_max_claims p) ErrClaimLimitReached) (\<lambda>_.
       tx (ensure (already \<or> capacity_left opt d) ErrCapacityFull) (\<lambda>_.
       if already then ret (claim_result c held False)
       else
         tx (UpsertVote \<lparr> v_participant = pid, v_option = oid, v_answer = ''yes'' \<rparr>) (\<lambda>_.
         tx (emit_changed i ''vote'') (\<lambda>_.
         tx (enqueueMailPoll (mail_to_participant i ''claim_confirmation'' pid) now) (\<lambda>_.
         tx (writes (recordStats [(StatsResponsesYes, 1)])) (\<lambda>_.
         ret (claim_result c (held @ [oid]) True))))))) d)"
    using assms(1-5) found
    by (simp add: Claim_def requireSignupPollTx_def exec_simps resolve
        lock_claimant_def insert_claimant_def claims_of_def Let_def)
  show ?thesis
  proof (cases "oid \<in> set (claims_of pid d)")
    case True
    then show ?thesis by (simp add: run exec_simps Let_def)
  next
    case False
    note new = False
    show ?thesis
    proof (cases "int (length (claims_of pid d)) < p_signup_max_claims p \<and> capacity_left opt d")
      case True
      with new show ?thesis
        by (simp add: run exec_simps vote emit_changed_def Emit_def enqueueMailPoll_def exec_calls(1)
            recordStats_one StatsResponsesYes_def mailPollMaxAttempts_def capacity_left_def opt Let_def split: option.splits)
    next
      case False
      with new show ?thesis by (auto simp: run exec_simps capacity_left_def opt Let_def split: option.splits)
    qed
  qed
qed



subsection \<open>Announcing a full sheet\<close>

lemma Claim_changed:
  assumes "Claim i oid ci vw now d = Inr (r, d')" and "cr_changed r" and "poll_ok d"
  obtains opt where "opt \<in> set (ListOptionsByPoll i d)" and "capacity_left opt d"
  using assms(1) unfolding Claim_def Let_def
proof (elim tx_InrE, goal_cases)
  case (1 poll d0 opt d1 u2 d2 c d3 u4 d4 votes d5 u6 d6 left d7 u8 d8)
  have d2: "d2 = d" and opt: "GetPollOptionForUpdate oid d = Some opt" "o_poll opt = i"
    using 1(2-4) by (auto simp: requireSignupPollTx_def result_simps)
  have c3: "core d3 = core d" using stableD [OF stable_resolveClaimant 1(5)] by (simp add: d2)
  have c4: "core d4 = core d" using stableD [OF stable_claimant(2) 1(6)] c3 by simp
  have new: "oid \<notin> set (map v_option votes)"
    using 1(11) assms(2) by (cases c) (auto simp: ret_Inr_iff split: if_splits)
  then have "capacity_left opt d4" using 1(7-10) by (simp add: reads_Inr_iff ensure_Inr_iff)
  moreover have "CountYesVotesForOption (o_id opt) d4 = CountYesVotesForOption (o_id opt) d"
    using c4 by (simp add: CountYesVotesForOption_def core_def)
  ultimately have "capacity_left opt d" by (cases "o_capacity opt") (simp_all add: capacity_left_def)
  moreover have "opt \<in> set (ListOptionsByPoll i d)"
    using opt tget_Some_in by (force simp: in_ListOptions GetPollOptionForUpdate_def)
  ultimately show thesis by (rule 1(1) [rotated])
qed


lemma sample_db_ok: "poll_ok sample_db"
  by (simp add: poll_ok_defs sample_defs tuniq_def CountYesVotesForOption_def tcount_def)


subsection \<open>Whose vote a release deletes\<close>

text \<open>C31: A release by a guest is checked against the sheet in the URL, not against the sheet of the slot. With the
  URL of any open sign-up sheet, a guest token deletes its participant's vote on whatever option is named,
  even one of another sheet that has been closed and would itself refuse the release.\<close>

theorem guest_release_unscoped:
  assumes "GetPoll i d = Some p" "p_type p = ''signup''" "p_status p = ''open''" and "pid \<noteq> []"
  shows "\<exists>d'. Unclaim i oid (guest pid) now d = Inr ((), d') \<and>
    db_votes d' = tdel (\<lambda>v. v_key v = (pid, oid)) (db_votes d)"
  using assms
  by (simp add: Unclaim_def unclaim_def exec_simps unclaim_target_def guest_def DeleteVote_def emit_changed_def Emit_def
      enqueueMailPoll_def Let_def schedule_job_def tx_apply [OF schedule_job_Inr [THEN iffD2]])

definition two_sheets :: db where
  "two_sheets = sample_db\<lparr> db_polls := [sample_poll\<lparr> p_status := ''closed'' \<rparr>, sample_poll\<lparr> p_id := ''p2'' \<rparr>],
     db_votes := [\<lparr> v_participant = ''g1'', v_option = ''o1'', v_answer = ''yes'' \<rparr>] \<rparr>"

lemma guest_release_unscoped_witness:
  "Unclaim ''p1'' ''o1'' (guest ''g1'') 5 two_sheets = Inl ErrPollClosed \<and>
   (\<exists>d'. Unclaim ''p2'' ''o1'' (guest ''g1'') 5 two_sheets = Inr ((), d') \<and> db_votes d' = [])"
proof
  have p1: "GetPoll ''p1'' two_sheets = Some (sample_poll\<lparr> p_status := ''closed'' \<rparr>)"
    and p2: "GetPoll ''p2'' two_sheets = Some (sample_poll\<lparr> p_id := ''p2'' \<rparr>)"
    by (simp_all add: two_sheets_def sample_defs GetPoll_def tget_def live_poll_def)
  show "Unclaim ''p1'' ''o1'' (guest ''g1'') 5 two_sheets = Inl ErrPollClosed"
    by (simp add: Unclaim_def unclaim_def exec_simps p1 unclaim_target_def guest_def sample_poll_def canManagePoll_def)
  show "\<exists>d'. Unclaim ''p2'' ''o1'' (guest ''g1'') 5 two_sheets = Inr ((), d') \<and> db_votes d' = []"
    using guest_release_unscoped [OF p2, of "''g1''" "''o1''" 5]
    by (simp add: sample_poll_def two_sheets_def v_key_def tdel_def)
qed

end
