(* ===== verification/DigestRuns.thy ===== *)
theory DigestRuns
  imports Digest
begin

text \<open>
  The life of one poll's digest accumulator: items are queued, workers claim the row, take its items or
  fail, finish or crash, in any order. A worker holds the job as it was when claimed: its id and the items
  it read, with whether it has run the handler. \<open>dr_offered\<close> and \<open>dr_taken\<close> record what was queued and what
  was handed to the fan-out.
\<close>

record digest_run =
  dr_db :: db
  dr_held :: "(string \<times> DigestItem list \<times> bool) list"
  dr_offered :: "DigestItem list"
  dr_taken :: "DigestItem list"

abbreviation digest_slot :: "string \<Rightarrow> job \<Rightarrow> bool" where
  "digest_slot i \<equiv> same_slot ''poll.digest'' (Some (poll_room i))"

abbreviation digest_row :: "string \<Rightarrow> db \<Rightarrow> job option" where
  "digest_row i d \<equiv> pending ''poll.digest'' (poll_room i) (db_jobs d)"

definition ids_ok :: "db \<Rightarrow> bool" where
  "ids_ok d \<longleftrightarrow> jobs_ok (db_jobs d) \<and> inj (db_fresh d) \<and>
     (\<forall>j \<in> set (db_jobs d). \<exists>n < db_next d. job_id j = db_fresh d n)"

definition held_of :: "string \<Rightarrow> job list \<Rightarrow> (string \<times> DigestItem list \<times> bool) list" where
  "held_of i cl = List.map_filter (\<lambda>j. if digest_slot i j then map_option (\<lambda>xs. (job_id j, xs, False)) (digest_items j)
     else None) cl"

definition release :: "string \<Rightarrow> (string \<times> DigestItem list \<times> bool) list \<Rightarrow> (string \<times> DigestItem list \<times> bool) list" where
  "release jid held = filter (\<lambda>h. fst h \<noteq> jid) held"

inductive digest_step :: "(string \<Rightarrow> string) option \<Rightarrow> string \<Rightarrow> digest_run \<Rightarrow> digest_run \<Rightarrow> bool"
  for source :: "(string \<Rightarrow> string) option" and i :: string where
  offer: "EnqueueDigestItem i item now (dr_db s) = Inr ((), d') \<Longrightarrow>
    digest_step source i s (s\<lparr> dr_db := d', dr_offered := dr_offered s @ [item] \<rparr>)"
| claim: "ClaimDue busy now replica limit (db_jobs (dr_db s)) = (cl, js) \<Longrightarrow>
    job_id ` set cl \<inter> fst ` set (dr_held s) = {} \<Longrightarrow>
    digest_step source i s (s\<lparr> dr_db := (dr_db s)\<lparr> db_jobs := js \<rparr>, dr_held := held_of i cl @ dr_held s \<rparr>)"
| handler: "(jid, xs, False) \<in> set (dr_held s) \<Longrightarrow> processDigestJob source jid i xs now (dr_db s) = Inr ((), d') \<Longrightarrow>
    digest_step source i s (s\<lparr> dr_db := d', dr_held := (jid, xs, True) # release jid (dr_held s),
      dr_taken := dr_taken s @ (if jid \<in> job_id ` set (db_jobs (dr_db s)) then xs else []) \<rparr>)"
| finish: "(jid, xs, True) \<in> set (dr_held s) \<Longrightarrow>
    digest_step source i s (s\<lparr> dr_db := (dr_db s)\<lparr> db_jobs := Complete jid (db_jobs (dr_db s)) \<rparr>,
      dr_held := release jid (dr_held s) \<rparr>)"
| failed: "(jid, xs, False) \<in> set (dr_held s) \<Longrightarrow> fail now jid msg (db_jobs (dr_db s)) = Inr (r, js) \<Longrightarrow>
    digest_step source i s (s\<lparr> dr_db := (dr_db s)\<lparr> db_jobs := js \<rparr>, dr_held := release jid (dr_held s) \<rparr>)"
| crash: "digest_step source i s (s\<lparr> dr_held := release jid (dr_held s) \<rparr>)"
| elsewhere: "ids_ok d' \<Longrightarrow> db_fresh d' = db_fresh (dr_db s) \<Longrightarrow> db_next (dr_db s) \<le> db_next d' \<Longrightarrow>
    digest_row i d' = digest_row i (dr_db s) \<Longrightarrow>
    \<forall>h \<in> set (dr_held s). \<forall>j \<in> set (db_jobs d'). job_id j = fst h \<longrightarrow> j \<in> set (db_jobs (dr_db s)) \<Longrightarrow>
    digest_step source i s (s\<lparr> dr_db := d' \<rparr>)"

subsection \<open>The invariant\<close>

text \<open>
  The row holds exactly the items that were queued and not yet taken; a held claim whose row still exists
  read exactly what the row holds, or has emptied it.
\<close>

definition row_items :: "string \<Rightarrow> db \<Rightarrow> DigestItem list option" where
  "row_items i d = (case digest_row i d of None \<Rightarrow> Some [] | Some j \<Rightarrow> digest_items j)"

definition held_ok :: "string \<Rightarrow> db \<Rightarrow> string \<times> DigestItem list \<times> bool \<Rightarrow> bool" where
  "held_ok i d = (\<lambda>(jid, xs, taken). (\<exists>n < db_next d. jid = db_fresh d n) \<and>
     (\<forall>j \<in> set (db_jobs d). job_id j = jid \<longrightarrow>
        digest_slot i j \<and> digest_items j = Some (if taken then [] else xs)))"

definition digest_ok :: "string \<Rightarrow> digest_run \<Rightarrow> bool" where
  "digest_ok i s \<longleftrightarrow> ids_ok (dr_db s) \<and> distinct (map fst (dr_held s)) \<and>
     (\<forall>h \<in> set (dr_held s). held_ok i (dr_db s) h) \<and>
     (\<exists>xs. row_items i (dr_db s) = Some xs \<and> dr_offered s = dr_taken s @ xs)"

lemma digest_okD:
  assumes "digest_ok i s"
  shows "jobs_ok (db_jobs (dr_db s))" "inj (db_fresh (dr_db s))" "distinct (map fst (dr_held s))"
    "h \<in> set (dr_held s) \<Longrightarrow> held_ok i (dr_db s) h"
    "j \<in> set (db_jobs (dr_db s)) \<Longrightarrow> \<exists>n < db_next (dr_db s). job_id j = db_fresh (dr_db s) n"
  using assms by (auto simp: digest_ok_def ids_ok_def)

lemma digest_row_iff:
  assumes "jobs_ok (db_jobs d)"
  shows "digest_row i d = Some j \<longleftrightarrow> j \<in> set (db_jobs d) \<and> digest_slot i j"
proof
  assume "digest_row i d = Some j"
  then show "j \<in> set (db_jobs d) \<and> digest_slot i j" by (auto simp: pending_def dest: find_SomeD)
next
  assume j: "j \<in> set (db_jobs d) \<and> digest_slot i j"
  then obtain k where k: "digest_row i d = Some k"
    by (cases "digest_row i d") (auto simp: pending_def find_None_iff)
  then have "k \<in> set (db_jobs d) \<and> digest_slot i k" by (auto simp: pending_def dest: find_SomeD)
  with j k show "digest_row i d = Some j" using slot_uniqD [OF jobs_okD(2) [OF assms]] by blast
qed

lemma held_release: "h \<in> set (release jid held) \<longleftrightarrow> h \<in> set held \<and> fst h \<noteq> jid"
  by (auto simp: release_def)

lemma distinct_release: "distinct (map fst held) \<Longrightarrow> distinct (map fst (release jid held))"
  by (simp add: release_def distinct_map_filter)

lemma fresh_id_new:
  assumes "inj (db_fresh d)" and "\<exists>n < db_next d. jid = db_fresh d n"
  shows "jid \<noteq> db_fresh d (db_next d)"
  using assms by (auto simp: inj_eq)

lemma find_tupd_keep:
  "(\<And>r. q (f r) = q r) \<Longrightarrow> find q (tupd p f t) = map_option (\<lambda>r. if p r then f r else r) (find q t)"
  by (induction t) (auto simp: tupd_def)

text \<open>Rewriting the table row by row, keeping ids, slots and payloads.\<close>

lemma digest_rows_update:
  assumes ok: "digest_ok i s"
    and "\<And>j. job_id (f j) = job_id j" "\<And>j. job_kind (f j) = job_kind j" "\<And>j. job_room (f j) = job_room j"
      "\<And>j. job_payload (f j) = job_payload j"
    and js: "db_jobs d' = tupd p f (db_jobs (dr_db s))" "jobs_ok (db_jobs d')"
      "db_fresh d' = db_fresh (dr_db s)" "db_next d' = db_next (dr_db s)"
  shows "ids_ok d'" "row_items i d' = row_items i (dr_db s)" "held_ok i (dr_db s) h \<Longrightarrow> held_ok i d' h"
proof -
  have rows: "\<exists>j0 \<in> set (db_jobs (dr_db s)). job_id j = job_id j0 \<and> job_payload j = job_payload j0 \<and> digest_slot i j = digest_slot i j0"
    if "j \<in> set (db_jobs d')" for j
    using that assms(2-5) unfolding js(1) by (auto elim!: in_tupdE simp: same_slot_def split: if_splits)
  show "ids_ok d'" using ok rows js unfolding ids_ok_def digest_ok_def by metis
  have "digest_row i d' = map_option (\<lambda>j. if p j then f j else j) (digest_row i (dr_db s))"
    unfolding js(1) pending_def by (rule find_tupd_keep) (simp add: same_slot_def assms(3,4))
  then show "row_items i d' = row_items i (dr_db s)"
    by (simp add: row_items_def digest_items_def assms(5) split: option.split)
  show "held_ok i d' h" if h: "held_ok i (dr_db s) h"
  proof -
    obtain jid xs b where [simp]: "h = (jid, xs, b)" by (cases h)
    have "digest_slot i j \<and> digest_items j = Some (if b then [] else xs)" if "j \<in> set (db_jobs d')" "job_id j = jid" for j
      using rows [OF that(1)] that(2) h by (auto simp: held_ok_def digest_items_def)
    with h js show ?thesis by (simp add: held_ok_def)
  qed
qed

lemma digest_ok_rows:
  assumes ok: "digest_ok i s"
    and "\<And>j. job_id (f j) = job_id j" "\<And>j. job_kind (f j) = job_kind j" "\<And>j. job_room (f j) = job_room j"
      "\<And>j. job_payload (f j) = job_payload j"
    and js: "js = tupd p f (db_jobs (dr_db s))" "jobs_ok js"
    and held: "distinct (map fst held)" "\<And>h. h \<in> set held \<Longrightarrow> held_ok i (dr_db s) h"
  shows "digest_ok i (s\<lparr> dr_db := (dr_db s)\<lparr> db_jobs := js \<rparr>, dr_held := held \<rparr>)"
proof -
  let ?d = "(dr_db s)\<lparr> db_jobs := js \<rparr>"
  note upd = digest_rows_update [OF ok assms(2-5), of ?d p, simplified, OF js(1)]
  show ?thesis using ok upd js held by (auto simp: digest_ok_def)
qed

lemma digest_ok_release: "digest_ok i s \<Longrightarrow> digest_ok i (s\<lparr> dr_held := release jid (dr_held s) \<rparr>)"
  by (auto simp: digest_ok_def held_release distinct_release)

lemma digest_ok_fail:
  assumes ok: "digest_ok i s" and run: "fail now jid msg (db_jobs (dr_db s)) = Inr (r, js)"
  shows "digest_ok i (s\<lparr> dr_db := (dr_db s)\<lparr> db_jobs := js \<rparr>, dr_held := release jid (dr_held s) \<rparr>)"
  using fail_cases [OF run]
proof (elim disjE exE)
  assume "js = db_jobs (dr_db s)"
  then show ?thesis using digest_ok_release [OF ok] by simp
next
  fix t
  assume js: "js = tupd (\<lambda>j. job_id j = jid)
      (\<lambda>j. j\<lparr> job_locked_by := None, job_locked_at := None,
              job_last_error := Some (truncateLastError msg), job_run_at := t \<rparr>) (db_jobs (dr_db s))"
  show ?thesis
    by (rule digest_ok_rows [OF ok _ _ _ _ js jobs_ok_fail [OF digest_okD(1) [OF ok] run]])
       (use digest_okD(3,4) [OF ok] in \<open>auto simp: held_release distinct_release\<close>)
qed

lemma digest_ok_finish:
  assumes ok: "digest_ok i s" and held: "(jid, xs, True) \<in> set (dr_held s)"
  shows "digest_ok i (s\<lparr> dr_db := (dr_db s)\<lparr> db_jobs := Complete jid (db_jobs (dr_db s)) \<rparr>, dr_held := release jid (dr_held s) \<rparr>)"
proof -
  let ?d = "(dr_db s)\<lparr> db_jobs := Complete jid (db_jobs (dr_db s)) \<rparr>"
  have jobs: "jobs_ok (db_jobs ?d)" using jobs_ok_Complete [OF digest_okD(1) [OF ok]] by simp
  have ids: "ids_ok ?d" using ok jobs by (auto simp: digest_ok_def ids_ok_def Complete_def)
  have "row_items i ?d = row_items i (dr_db s)"
  proof (cases "digest_row i (dr_db s)")
    case None
    then have "digest_row i ?d = None" by (auto simp: pending_def find_None_iff Complete_def)
    with None show ?thesis by (simp add: row_items_def)
  next
    case (Some j)
    then have j: "j \<in> set (db_jobs (dr_db s))" "digest_slot i j"
      using digest_row_iff [OF digest_okD(1) [OF ok]] by auto
    show ?thesis
    proof (cases "job_id j = jid")
      case True
      have "digest_items j = Some []" using digest_okD(4) [OF ok held] j(1) True by (auto simp: held_ok_def)
      moreover have "digest_row i ?d = None"
      proof (rule ccontr)
        assume "digest_row i ?d \<noteq> None"
        then obtain k where "digest_row i ?d = Some k" by blast
        then have k: "k \<in> set (db_jobs (dr_db s))" "job_id k \<noteq> jid" "digest_slot i k"
          using digest_row_iff [OF jobs] by (auto simp: Complete_def)
        with j True show False using slot_uniqD [OF jobs_okD(2) [OF digest_okD(1) [OF ok]]] by blast
      qed
      ultimately show ?thesis using Some by (simp add: row_items_def)
    next
      case False
      with j have "digest_row i ?d = Some j" using digest_row_iff [OF jobs] by (simp add: Complete_def)
      with Some show ?thesis by (simp add: row_items_def)
    qed
  qed
  moreover have "held_ok i ?d h" if "h \<in> set (dr_held s)" for h
    using digest_okD(4) [OF ok that] by (cases h) (auto simp: held_ok_def Complete_def)
  ultimately show ?thesis using ok ids by (auto simp: digest_ok_def held_release distinct_release)
qed

lemma held_of_in: "h \<in> set (held_of i cl) \<Longrightarrow>
  \<exists>j \<in> set cl. digest_slot i j \<and> h = (job_id j, the (digest_items j), False) \<and> digest_items j \<noteq> None"
  by (auto simp: held_of_def set_map_filter split: if_splits)

lemma digest_ok_claim:
  assumes ok: "digest_ok i s" and run: "ClaimDue busy now replica limit (db_jobs (dr_db s)) = (cl, js)"
    and new: "job_id ` set cl \<inter> fst ` set (dr_held s) = {}"
  shows "digest_ok i (s\<lparr> dr_db := (dr_db s)\<lparr> db_jobs := js \<rparr>, dr_held := held_of i cl @ dr_held s \<rparr>)"
proof (rule digest_ok_rows [OF ok _ _ _ _ ClaimDue_snd [OF run] jobs_ok_ClaimDue [OF digest_okD(1) [OF ok] run]])
  have keys: "fst ` set (held_of i cl) \<subseteq> job_id ` set cl" by (auto dest!: held_of_in)
  have "distinct (map fst (held_of i cl))"
    unfolding held_of_def
    by (rule distinct_map_filter_key [where g = job_id and k = id and h = fst])
       (use ClaimDue_distinct(1) [OF digest_okD(1) [OF ok] run] in \<open>auto split: if_splits\<close>)
  with digest_okD(3) [OF ok] keys new show "distinct (map fst (held_of i cl @ dr_held s))" by auto
  show "held_ok i (dr_db s) h" if "h \<in> set (held_of i cl @ dr_held s)" for h
  proof (cases "h \<in> set (dr_held s)")
    case True
    then show ?thesis by (rule digest_okD(4) [OF ok])
  next
    case False
    with that obtain c where c: "c \<in> set cl" "digest_slot i c" "h = (job_id c, the (digest_items c), False)" "digest_items c \<noteq> None"
      using held_of_in by (metis Un_iff set_append)
    obtain j where j: "j \<in> set (db_jobs (dr_db s))" "c = claim_row now replica j" using claimed_due [OF run c(1)] .
    have "k = j" if "k \<in> set (db_jobs (dr_db s))" "job_id k = job_id c" for k
      using tuniq_inj [OF jobs_okD(1) [OF digest_okD(1) [OF ok]] that(1) j(1)] that(2) j(2) by simp
    moreover have "digest_slot i j" "digest_items j = Some (the (digest_items c))"
      using c(2,4) by (auto simp: j(2) same_slot_def digest_items_def claim_row_def)
    ultimately show ?thesis using c(3) digest_okD(5) [OF ok j(1)] j(2) by (auto simp: held_ok_def)
  qed
qed (simp_all add: claim_row_def)

subsection \<open>Queueing\<close>

lemma set_Schedule: "j \<in> set (Schedule nid si js) \<Longrightarrow> j = fresh_job nid si \<or> j \<in> set js"
  by (auto simp: Schedule_def elim!: in_tupdE split: if_splits)

lemma ids_ok_Schedule:
  assumes "ids_ok d"
  shows "ids_ok (d\<lparr> db_next := db_next d + 1, db_jobs := Schedule (db_fresh d (db_next d)) si (db_jobs d) \<rparr>)"
proof -
  have "db_fresh d (db_next d) \<notin> job_id ` set (db_jobs d)"
    using assms fresh_id_new by (fastforce simp: ids_ok_def)
  then have "jobs_ok (Schedule (db_fresh d (db_next d)) si (db_jobs d))"
    using assms jobs_ok_Schedule by (simp add: ids_ok_def)
  moreover have "\<exists>n < db_next d + 1. job_id j = db_fresh d n"
    if "j \<in> set (Schedule (db_fresh d (db_next d)) si (db_jobs d))" for j
  proof (cases "j \<in> set (db_jobs d)")
    case True
    with assms obtain n where "n < db_next d" "job_id j = db_fresh d n" by (auto simp: ids_ok_def)
    then show ?thesis by (intro exI [of _ n]) simp
  next
    case False
    with set_Schedule [OF that] show ?thesis by (intro exI [of _ "db_next d"]) simp
  qed
  ultimately show ?thesis using assms by (simp add: ids_ok_def)
qed

lemma EnqueueDigestItem_run:
  assumes "EnqueueDigestItem i item now d = Inr (u, d')"
  obtains items at where "row_items i d = Some items"
    and "d' = d\<lparr> db_next := db_next d + 1, db_jobs := Schedule (db_fresh d (db_next d))
      \<lparr> si_kind = ''poll.digest'', si_room = Some (poll_room i), si_run_at = at,
        si_payload = Some (json_of_digest i (items @ [item])), si_max_attempts = 0 \<rparr> (db_jobs d) \<rparr>"
  using assms unfolding EnqueueDigestItem_def
proof (elim tx_InrE, goal_cases)
  case (1 u1 d1 row d2 items d3)
  then show ?case by (cases row) (auto simp: result_simps row_items_def)
qed

lemma digest_ok_offer:
  assumes ok: "digest_ok i s" and run: "EnqueueDigestItem i item now (dr_db s) = Inr ((), d')"
  shows "digest_ok i (s\<lparr> dr_db := d', dr_offered := dr_offered s @ [item] \<rparr>)"
proof -
  let ?d = "dr_db s"
  obtain items at where items: "row_items i ?d = Some items"
    and d': "d' = ?d\<lparr> db_next := db_next ?d + 1, db_jobs := Schedule (db_fresh ?d (db_next ?d))
      \<lparr> si_kind = ''poll.digest'', si_room = Some (poll_room i), si_run_at = at,
        si_payload = Some (json_of_digest i (items @ [item])), si_max_attempts = 0 \<rparr> (db_jobs ?d) \<rparr>"
    using EnqueueDigestItem_run [OF run] .
  have ids: "ids_ok ?d" using ok by (simp add: digest_ok_def)
  have "row_items i d' = Some (items @ [item])"
    by (simp add: d' row_items_def pending_Schedule digest_items_def decode_digest_payload)
  moreover have "ids_ok d'" unfolding d' by (rule ids_ok_Schedule [OF ids])
  moreover have "held_ok i d' h" if h: "h \<in> set (dr_held s)" for h
  proof -
    obtain jid xs b where [simp]: "h = (jid, xs, b)" by (cases h)
    note held = digest_okD(4) [OF ok h]
    have "jid \<noteq> db_fresh ?d (db_next ?d)"
      using fresh_id_new [OF digest_okD(2) [OF ok]] held by (simp add: held_ok_def)
    then have "j \<in> set (db_jobs ?d)" if "j \<in> set (db_jobs d')" "job_id j = jid" for j
      using that(2) set_Schedule [OF that(1) [unfolded d', simplified]] by auto
    then show ?thesis using held by (auto simp: held_ok_def d' intro: less_SucI)
  qed
  ultimately show ?thesis using ok items by (auto simp: digest_ok_def)
qed

subsection \<open>Taking\<close>

definition more_mail :: "db \<Rightarrow> db \<Rightarrow> bool" where
  "more_mail d d' \<longleftrightarrow> ids_ok d' \<and> db_fresh d' = db_fresh d \<and> db_next d \<le> db_next d' \<and>
     (\<exists>new. db_jobs d' = db_jobs d @ new \<and>
        (\<forall>j \<in> set new. job_room j = None \<and> (\<exists>n. db_next d \<le> n \<and> job_id j = db_fresh d n)))"

lemma more_mail_trans: "more_mail d d1 \<Longrightarrow> more_mail d1 d2 \<Longrightarrow> more_mail d d2"
  unfolding more_mail_def by (auto intro: order_trans) (metis order_trans)

lemma more_mail_enqueue:
  assumes "ids_ok d" and "enqueueMailPoll m now d = Inr (u, d')"
  shows "more_mail d d'"
proof -
  obtain si where si: "si_room si = None"
    and d': "d' = d\<lparr> db_next := db_next d + 1, db_jobs := Schedule (db_fresh d (db_next d)) si (db_jobs d) \<rparr>"
    using assms(2) unfolding enqueueMailPoll_def schedule_job_Inr by (rule that [rotated]) simp
  have "Schedule (db_fresh d (db_next d)) si (db_jobs d) = db_jobs d @ [fresh_job (db_fresh d (db_next d)) si]"
    by (simp add: Schedule_def si same_slot_def)
  with ids_ok_Schedule [OF assms(1), of si] si show ?thesis by (auto simp: more_mail_def d')
qed

lemma more_mail_refl: "ids_ok d \<Longrightarrow> more_mail d d"
  by (auto simp: more_mail_def)

lemma more_mail_each:
  "ids_ok d \<Longrightarrow> for_each (\<lambda>(uid, xs). enqueueMailPoll (mail_to_user i ''digest'' uid xs) now) bs d = Inr (u, d') \<Longrightarrow>
   more_mail d d'"
proof (induction bs arbitrary: d)
  case Nil
  then show ?case by (simp add: result_simps more_mail_refl)
next
  case (Cons b bs)
  obtain uid xs where b: "b = (uid, xs)" by (cases b)
  from Cons.prems(2) obtain u1 d1 where d1: "enqueueMailPoll (mail_to_user i ''digest'' uid xs) now d = Inr (u1, d1)"
    and rest: "for_each (\<lambda>(uid, xs). enqueueMailPoll (mail_to_user i ''digest'' uid xs) now) bs d1 = Inr (u, d')"
    by (auto simp: b tx_Inr_iff)
  have "more_mail d d1" by (rule more_mail_enqueue [OF Cons.prems(1) d1])
  moreover from this have "more_mail d1 d'" by (intro Cons.IH [OF _ rest]) (simp add: more_mail_def)
  ultimately show ?case by (rule more_mail_trans)
qed

lemma more_mail_fanOut:
  "ids_ok d \<Longrightarrow> fanOutDigestItems source i xs now d = Inr (u, d') \<Longrightarrow> more_mail d d'"
  unfolding fanOutDigestItems_def
  by (auto split: option.splits if_splits dest: more_mail_each more_mail_refl)

lemma more_mail_row: "more_mail d d' \<Longrightarrow> digest_row i d' = digest_row i d"
proof -
  assume "more_mail d d'"
  then obtain new where "db_jobs d' = db_jobs d @ new" "\<forall>j \<in> set new. job_room j = None"
    unfolding more_mail_def by blast
  moreover have "find (digest_slot i) (xs @ ys) = find (digest_slot i) xs" if "\<forall>j \<in> set ys. job_room j = None" for xs ys
    using that by (induction xs) (auto simp: find_None_iff same_slot_def)
  ultimately show ?thesis by (simp add: pending_def)
qed

lemma more_mail_held:
  assumes "more_mail d d'" and "inj (db_fresh d)" and "held_ok i d h"
  shows "held_ok i d' h"
proof -
  obtain jid xs b where [simp]: "h = (jid, xs, b)" by (cases h)
  obtain new where new: "db_jobs d' = db_jobs d @ new" "\<forall>j \<in> set new. \<exists>n. db_next d \<le> n \<and> job_id j = db_fresh d n"
    using assms(1) unfolding more_mail_def by blast
  obtain n where n: "n < db_next d" "jid = db_fresh d n" using assms(3) by (auto simp: held_ok_def)
  have "j \<notin> set new" if "job_id j = jid" for j
    using new(2) n that assms(2) by (auto simp: inj_eq dest!: bspec)
  moreover have "\<exists>n < db_next d'. jid = db_fresh d' n"
    using n assms(1) unfolding more_mail_def by (metis less_le_trans)
  ultimately show ?thesis using assms(3) by (auto simp: held_ok_def new(1))
qed

lemma processDigestJob_gone:
  assumes "jid \<notin> job_id ` set (db_jobs d)" and "processDigestJob source jid i xs now d = Inr (u, d')"
  shows "d' = d"
proof -
  have "\<not> (\<exists>j \<in> set (db_jobs d). job_id j = jid \<and> job_kind j = ''poll.digest'')" using assms(1) by auto
  with assms(2) show ?thesis by (simp add: processDigestJob_def)
qed

lemma digest_ok_handler:
  assumes ok: "digest_ok i s" and held: "(jid, xs, False) \<in> set (dr_held s)"
    and run: "processDigestJob source jid i xs now (dr_db s) = Inr ((), d')"
  shows "digest_ok i (s\<lparr> dr_db := d', dr_held := (jid, xs, True) # release jid (dr_held s),
      dr_taken := dr_taken s @ (if jid \<in> job_id ` set (db_jobs (dr_db s)) then xs else []) \<rparr>)"
proof (cases "jid \<in> job_id ` set (db_jobs (dr_db s))")
  case False
  note same = processDigestJob_gone [OF False run]
  have "job_id j \<noteq> jid" if "j \<in> set (db_jobs (dr_db s))" for j using False that by auto
  then have "held_ok i (dr_db s) (jid, xs, True)"
    using digest_okD(4) [OF ok held] by (simp add: held_ok_def)
  with ok False same show ?thesis
    by (auto simp: digest_ok_def held_release distinct_release)
next
  case True
  let ?d = "dr_db s"
  let ?p = "\<lambda>j. job_id j = jid \<and> job_kind j = ''poll.digest''"
  let ?f = "\<lambda>j. j\<lparr> job_payload := Some (json_of_digest i []) \<rparr>"
  let ?d1 = "?d\<lparr> db_jobs := tupd ?p ?f (db_jobs ?d) \<rparr>"
  obtain j where j: "j \<in> set (db_jobs ?d)" "job_id j = jid" using True by auto
  have jobs: "jobs_ok (db_jobs ?d)" by (rule digest_okD(1) [OF ok])
  have slot: "digest_slot i j" and items: "digest_items j = Some xs"
    using digest_okD(4) [OF ok held] j by (auto simp: held_ok_def)
  have row: "digest_row i ?d = Some j" using digest_row_iff [OF jobs] j(1) slot by simp
  have fan: "fanOutDigestItems source i xs now ?d1 = Inr ((), d')"
  proof -
    have "\<exists>j \<in> set (db_jobs ?d). ?p j" using j slot by (auto simp: same_slot_def)
    from run [unfolded processDigestJob_def if_P [OF this]] show ?thesis by (simp add: exec_simps)
  qed
  have jobs1: "jobs_ok (db_jobs ?d1)" using jobs_ok_tupd [OF jobs, of ?f ?p] jobs_okD(3) [OF jobs] by simp
  have ids1: "ids_ok ?d1"
    using jobs1 ok by (auto simp: digest_ok_def ids_ok_def elim!: in_tupdE split: if_splits)
  have empty: "row_items i ?d1 = Some []"
  proof -
    have "digest_row i ?d1 = map_option (\<lambda>j. if ?p j then ?f j else j) (digest_row i ?d)"
      unfolding pending_def by (simp, rule find_tupd_keep) (simp add: same_slot_def)
    then show ?thesis
      using row j slot by (simp add: row_items_def digest_items_def decode_digest_payload same_slot_def)
  qed
  have mine: "held_ok i ?d1 (jid, xs, True)"
  proof -
    have "digest_slot i k \<and> digest_items k = Some []" if k: "k \<in> set (db_jobs ?d1)" "job_id k = jid" for k
    proof -
      from k(1) obtain k0 where k0: "k0 \<in> set (db_jobs ?d)" "k = (if ?p k0 then ?f k0 else k0)"
        by (auto elim: in_tupdE)
      then have "k0 = j" using tuniq_inj [OF jobs_okD(1) [OF jobs] k0(1) j(1)] k(2) j(2) by (simp split: if_splits)
      with k0(2) slot j(2) show ?thesis
        by (simp add: digest_items_def decode_digest_payload same_slot_def)
    qed
    then show ?thesis using digest_okD(4) [OF ok held] by (auto simp: held_ok_def)
  qed
  have others: "held_ok i ?d1 h" if h: "h \<in> set (release jid (dr_held s))" for h
  proof -
    obtain k ys b where [simp]: "h = (k, ys, b)" by (cases h)
    have "k \<noteq> jid" and ho: "held_ok i ?d (k, ys, b)" using h digest_okD(4) [OF ok] by (auto simp: held_release)
    then show ?thesis
      by (fastforce simp: held_ok_def elim!: in_tupdE split: if_splits)
  qed
  have more: "more_mail ?d1 d'" by (rule more_mail_fanOut [OF ids1 fan])
  have inj: "inj (db_fresh ?d1)" using digest_okD(2) [OF ok] by simp
  have "row_items i d' = Some []" using empty more_mail_row [OF more] by (simp add: row_items_def)
  moreover have "ids_ok d'" using more by (simp add: more_mail_def)
  moreover have "held_ok i d' h" if "h \<in> set ((jid, xs, True) # release jid (dr_held s))" for h
  proof (rule more_mail_held [OF more inj])
    show "held_ok i ?d1 h"
    proof (cases "h = (jid, xs, True)")
      case True
      show ?thesis unfolding True by (rule mine)
    next
      case False
      with that show ?thesis by (intro others) simp
    qed
  qed
  moreover have "dr_offered s = dr_taken s @ xs" using ok row items by (auto simp: digest_ok_def row_items_def)
  moreover have "distinct (map fst ((jid, xs, True) # release jid (dr_held s)))"
    using distinct_release [OF digest_okD(3) [OF ok]] by (auto simp: release_def)
  ultimately show ?thesis using True by (simp add: digest_ok_def)
qed

lemma digest_ok_elsewhere:
  assumes ok: "digest_ok i s" and "ids_ok d'" "db_fresh d' = db_fresh (dr_db s)" "db_next (dr_db s) \<le> db_next d'"
    and row: "digest_row i d' = digest_row i (dr_db s)"
    and kept: "\<forall>h \<in> set (dr_held s). \<forall>j \<in> set (db_jobs d'). job_id j = fst h \<longrightarrow> j \<in> set (db_jobs (dr_db s))"
  shows "digest_ok i (s\<lparr> dr_db := d' \<rparr>)"
proof -
  have "held_ok i d' h" if h: "h \<in> set (dr_held s)" for h
  proof -
    obtain jid xs b where [simp]: "h = (jid, xs, b)" by (cases h)
    note held = digest_okD(4) [OF ok h]
    then obtain n where "n < db_next (dr_db s)" "jid = db_fresh (dr_db s) n" by (auto simp: held_ok_def)
    then have "n < db_next d' \<and> jid = db_fresh d' n" using assms(3,4) by simp
    moreover have "j \<in> set (db_jobs (dr_db s))" if "j \<in> set (db_jobs d')" "job_id j = jid" for j
      using kept h that by auto
    ultimately show ?thesis using held unfolding held_ok_def by auto
  qed
  with ok assms(2) row show ?thesis by (simp add: digest_ok_def row_items_def)
qed

inductive_cases digest_stepE: "digest_step source i s s'"

lemma digest_step_ok:
  assumes "digest_step source i s s'" and "digest_ok i s"
  shows "digest_ok i s'"
  using assms(1)
proof (cases rule: digest_step.cases)
  case (offer item now d')
  show ?thesis unfolding offer(1) by (rule digest_ok_offer [OF assms(2) offer(2-)])
next
  case (claim busy now replica limit cl js)
  show ?thesis unfolding claim(1) by (rule digest_ok_claim [OF assms(2) claim(2-)])
next
  case (handler jid xs now d')
  show ?thesis unfolding handler(1) by (rule digest_ok_handler [OF assms(2) handler(2-)])
next
  case (finish jid xs)
  show ?thesis unfolding finish(1) by (rule digest_ok_finish [OF assms(2) finish(2-)])
next
  case (failed jid xs now msg r js)
  show ?thesis unfolding failed(1) by (rule digest_ok_fail [OF assms(2) failed(3)])
next
  case (crash jid)
  show ?thesis unfolding crash by (rule digest_ok_release [OF assms(2)])
next
  case (elsewhere d')
  show ?thesis unfolding elsewhere(1) by (rule digest_ok_elsewhere [OF assms(2) elsewhere(2-)])
qed


definition demo_item :: DigestItem where
  "demo_item = \<lparr> di_event = ''comment.created'', di_name = ''B'', di_actor = ''8'' \<rparr>"

definition demo_digest :: digest_run where
  "demo_digest = \<lparr> dr_db = sample_db, dr_held = [], dr_offered = [], dr_taken = [] \<rparr>"

lemma sample_ids: "ids_ok sample_db"
proof -
  have "inj (\<lambda>n. ''n'' @ format_nat n)"
    by (rule injI) (metis append_same_eq same_append_eq parse_digits_format_nat option.inject)
  then show ?thesis by (simp add: ids_ok_def sample_db_def)
qed


end
