(* ===== verification/FinalizeMail.thy ===== *)
theory FinalizeMail
  imports Digest
begin

text \<open>
  Who is told about a decision, and when a poll closes by itself: what \<open>FinalizeWithCount\<close> and \<open>CloseExpired\<close>
  leave behind, against a description that does not mention their loops.
\<close>

definition mails :: "db \<Rightarrow> json option list" where
  "mails d = map job_payload (filter (\<lambda>j. job_kind j = ''mail:poll'') (db_jobs d))"

definition people :: "db \<Rightarrow> NotificationSubscription list \<times> OrganizationMember list \<times> User list \<times> (int \<times> NotificationGrid option) list" where
  "people d = (db_subs d, db_members d, db_users d, db_prefs d)"

definition timer :: "db \<Rightarrow> string \<Rightarrow> string \<Rightarrow> job option" where
  "timer d kind room = (if kind = ''mail:poll'' then None else pending kind room (db_jobs d))"

lemma resolveRecipients_people:
  "people d = people d' \<Longrightarrow> resolveRecipients source g i event actor d = resolveRecipients source g i event actor d'"
proof -
  assume "people d = people d'"
  then have same: "IsOrgMember h u d = IsOrgMember h u d'" "GetUser u d = GetUser u d'"
    "GetNotificationPref u d = GetNotificationPref u d'"
    "ListSubscriptionsByScope ty i d = ListSubscriptionsByScope ty i d'" for h u ty
    by (simp_all add: people_def IsOrgMember_def GetUser_def GetNotificationPref_def ListSubscriptionsByScope_def)
  have "recipient_of source g event actor d = recipient_of source g event actor d'"
    by (intro ext) (simp only: recipient_of_def same)
  then show ?thesis by (simp add: resolveRecipients_def same)
qed

lemma enqueue_mail:
  assumes "enqueueMailPoll m now d = Inr (u, d')"
  shows "mails d' = mails d @ [Some (json_of_mail m)]" and "people d' = people d"
    and "db_participants d' = db_participants d"
    and "timer d' = timer d"
  using assms
  by (auto simp: enqueueMailPoll_def schedule_job_Inr mails_def Schedule_def same_slot_def people_def pending_def find_snoc
      timer_def fun_eq_iff split: option.splits)

definition first_mails :: "(string \<Rightarrow> string) \<Rightarrow> Participant list \<Rightarrow> string list \<Rightarrow> Participant list \<Rightarrow> bool" where
  "first_mails lower ps seen told \<longleftrightarrow> set told \<subseteq> set ps \<and> (\<forall>p \<in> set told. pa_email p \<noteq> None) \<and>
     distinct (map (lower \<circ> the \<circ> pa_email) told) \<and>
     (lower \<circ> the \<circ> pa_email) ` set told =
       {lower e | e p. p \<in> set ps \<and> pa_email p = Some e \<and> lower e \<notin> set seen}"

lemma mail_participants_run:
  assumes "mail_participants lower i now ps seen n d = Inr ((seen', n'), d')"
  shows "\<exists>told. first_mails lower ps seen told \<and>
    mails d' = mails d @ map (\<lambda>p. Some (json_of_mail (mail_to_participant i ''finalized'' (pa_id p)))) told \<and>
    n' = n + length told \<and> set seen' = set seen \<union> {lower e | e p. p \<in> set ps \<and> pa_email p = Some e} \<and>
    people d' = people d \<and> timer d' = timer d"
  using assms
proof (induction ps arbitrary: seen n d)
  case Nil
  then show ?case by (intro exI [of _ "[]"]) (auto simp: result_simps first_mails_def)
next
  case (Cons p ps)
  show ?case
  proof (cases "\<exists>e. pa_email p = Some e \<and> lower e \<notin> set seen")
    case False
    then have "mail_participants lower i now ps seen n d = Inr ((seen', n'), d')"
      using Cons.prems by (auto split: option.splits if_splits)
    from Cons.IH [OF this] obtain told where told: "first_mails lower ps seen told"
      "mails d' = mails d @ map (\<lambda>p. Some (json_of_mail (mail_to_participant i ''finalized'' (pa_id p)))) told"
      "n' = n + length told" "set seen' = set seen \<union> {lower e | e p. p \<in> set ps \<and> pa_email p = Some e}"
      "people d' = people d" "timer d' = timer d" by blast
    have "{lower e | e q. q \<in> set (p # ps) \<and> pa_email q = Some e \<and> lower e \<notin> set seen} =
        {lower e | e q. q \<in> set ps \<and> pa_email q = Some e \<and> lower e \<notin> set seen}" using False by auto
    moreover have "set seen \<union> {lower e | e q. q \<in> set (p # ps) \<and> pa_email q = Some e} =
        set seen \<union> {lower e | e q. q \<in> set ps \<and> pa_email q = Some e}" using False by auto
    ultimately show ?thesis using told by (intro exI [of _ told]) (auto simp: first_mails_def)
  next
    case True
    then obtain e where e: "pa_email p = Some e" "lower e \<notin> set seen" by blast
    with Cons.prems obtain u d1 where d1: "enqueueMailPoll (mail_to_participant i ''finalized'' (pa_id p)) now d = Inr (u, d1)"
      and rest: "mail_participants lower i now ps (lower e # seen) (Suc n) d1 = Inr ((seen', n'), d')"
      by (auto simp: tx_Inr_iff)
    from Cons.IH [OF rest] obtain told where told: "first_mails lower ps (lower e # seen) told"
      "mails d' = mails d1 @ map (\<lambda>p. Some (json_of_mail (mail_to_participant i ''finalized'' (pa_id p)))) told"
      "n' = Suc n + length told" "set seen' = set (lower e # seen) \<union> {lower e | e p. p \<in> set ps \<and> pa_email p = Some e}"
      "people d' = people d1" "timer d' = timer d1" by blast
    have "{lower e' | e' q. q \<in> set (p # ps) \<and> pa_email q = Some e' \<and> lower e' \<notin> set seen} =
        insert (lower e) {lower e' | e' q. q \<in> set ps \<and> pa_email q = Some e' \<and> lower e' \<notin> set (lower e # seen)}"
      using e by auto
    then have "first_mails lower (p # ps) seen (p # told)"
      using told(1) e unfolding first_mails_def by auto
    moreover have "set seen' = set seen \<union> {lower e | e q. q \<in> set (p # ps) \<and> pa_email q = Some e}"
      using told(4) e(1) by auto
    ultimately show ?thesis
      using told(2,3,5,6) enqueue_mail(1,2,4) [OF d1] by (intro exI [of _ "p # told"]) simp
  qed
qed

lemma mail_subscribers_run:
  assumes "mail_subscribers i now rs seen n d = Inr (n', d')"
  shows "\<exists>told. set told = r_user ` set rs - set seen \<and> distinct told \<and>
    mails d' = mails d @ map (\<lambda>u. Some (json_of_mail (mail_to_user i ''finalized'' u []))) told \<and> n' = n + length told \<and>
    timer d' = timer d"
  using assms
proof (induction rs arbitrary: seen n d)
  case Nil
  then show ?case by (auto simp: result_simps)
next
  case (Cons r rs)
  show ?case
  proof (cases "r_user r \<in> set seen")
    case True
    with Cons.prems have "mail_subscribers i now rs seen n d = Inr (n', d')" by simp
    from Cons.IH [OF this] True show ?thesis by (auto simp: insert_absorb)
  next
    case False
    with Cons.prems obtain u d1 where d1: "enqueueMailPoll (mail_to_user i ''finalized'' (r_user r) []) now d = Inr (u, d1)"
      and rest: "mail_subscribers i now rs (r_user r # seen) (Suc n) d1 = Inr (n', d')" by (auto simp: tx_Inr_iff)
    from Cons.IH [OF rest] obtain told where "set told = r_user ` set rs - set (r_user r # seen)" "distinct told"
      "mails d' = mails d1 @ map (\<lambda>u. Some (json_of_mail (mail_to_user i ''finalized'' u []))) told" "n' = Suc n + length told"
      "timer d' = timer d1" by blast
    with False enqueue_mail(1,4) [OF d1] show ?thesis by (intro exI [of _ "r_user r # told"]) auto
  qed
qed

text \<open>The owner is told unless an account is missing or a participant's mail already went to that address.\<close>

definition owner_told :: "(string \<Rightarrow> string) \<Rightarrow> string \<Rightarrow> Poll \<Rightarrow> db \<Rightarrow> string list" where
  "owner_told lower i p d = (case Option.bind (p_created_by p) (\<lambda>u. GetUser u d) of
     None \<Rightarrow> []
   | Some owner \<Rightarrow> if \<exists>pa e. pa \<in> set (ListParticipantsByPoll i d) \<and> pa_email pa = Some e \<and> lower e = lower (u_email owner)
                   then [] else [FormatInt (u_id owner)])"

definition owner_ids :: "Poll \<Rightarrow> db \<Rightarrow> string list" where
  "owner_ids p d = (case Option.bind (p_created_by p) (\<lambda>u. GetUser u d) of None \<Rightarrow> [] | Some owner \<Rightarrow> [FormatInt (u_id owner)])"

lemma mail_owner_run:
  assumes "mail_owner lower p now seen n d = Inr ((ids, n'), d')"
    and "set seen = {lower e | e pa. pa \<in> set (ListParticipantsByPoll (p_id p) d0) \<and> pa_email pa = Some e}"
    and "people d = people d0"
  shows "ids = owner_ids p d0" and "people d' = people d" and "timer d' = timer d"
    and "mails d' = mails d @ map (\<lambda>u. Some (json_of_mail (mail_to_user (p_id p) ''finalized'' u []))) (owner_told lower (p_id p) p d0)"
    and "n' = n + length (owner_told lower (p_id p) p d0)"
proof -
  have users: "GetUser u d = GetUser u d0" for u using assms(3) by (simp add: GetUser_def people_def)
  show "ids = owner_ids p d0" "people d' = people d" "timer d' = timer d"
    "mails d' = mails d @ map (\<lambda>u. Some (json_of_mail (mail_to_user (p_id p) ''finalized'' u []))) (owner_told lower (p_id p) p d0)"
    "n' = n + length (owner_told lower (p_id p) p d0)"
    using assms(1,2) enqueue_mail(1,2,4)
    by (auto simp: mail_owner_def owner_ids_def owner_told_def users Let_def result_simps split: option.splits if_splits)
qed

text \<open>C28: Finalizing a poll tells each person once per role, and the count it reports is the number of mails it
  queued. When \<open>FinalizeWithCount\<close> succeeds it has queued, after whatever was queued before: one mail for each
  distinct participant address (compared after lower-casing), one for the owner unless their account is gone
  or a participant's mail already goes to their address, and one for each remaining recipient of the
  \<open>poll.finalized\<close> notification other than the owner. The deadline and reminder timers of the poll are gone.\<close>

theorem finalize_mails:
  assumes run: "FinalizeWithCount lower source i g opt actor now d = Inr (sent, d')"
  shows "\<exists>p told subs. GetPoll i d = Some p \<and> first_mails lower (ListParticipantsByPoll i d) [] told \<and> distinct subs \<and>
    set subs = r_user ` set (resolveRecipients source (p_org p) i ''poll.finalized'' actor d) - set (owner_ids p d) \<and>
    mails d' = mails d @ map (\<lambda>q. Some (json_of_mail (mail_to_participant i ''finalized'' (pa_id q)))) told @
      map (\<lambda>u. Some (json_of_mail (mail_to_user i ''finalized'' u []))) (owner_told lower i p d @ subs) \<and>
    sent = length told + length (owner_told lower i p d) + length subs \<and>
    pending ''poll.deadline'' (poll_room i) (db_jobs d') = None \<and>
    pending ''poll.reminder'' (poll_room i) (db_jobs d') = None"
  using run unfolding FinalizeWithCount_def
proof (elim tx_InrE, goal_cases)
  case (1 p d0 u1 d1 u2 d2 options d3 u3 d4 u4 d5 u5 d6 u6 d7 u7 d8 ps d9 first d10)
  have p: "GetPoll i d = Some p" and d3: "d3 = d" and ps: "ps = ListParticipantsByPoll i d8" "d9 = d8"
    using 1(1-4,10) by (auto simp: result_simps)
  have jobs: "db_jobs d8 = Cancel ''poll.reminder'' (poll_room i) (Cancel ''poll.deadline'' (poll_room i) (db_jobs d))"
    and rows: "people d8 = people d" "db_participants d8 = db_participants d"
    using 1(5-9) d3 by (auto simp: result_simps FinalizePoll_def update_poll_def emit_changed_def Emit_def cancel_job_def
        people_def Let_def)
  have d8: "mails d8 = mails d" "people d8 = people d" "ListParticipantsByPoll i d8 = ListParticipantsByPoll i d"
    "timer d8 ''poll.deadline'' (poll_room i) = None" "timer d8 ''poll.reminder'' (poll_room i) = None"
    by (simp_all add: mails_def timer_def rows jobs ListParticipantsByPoll_def pending_Cancel)
      (auto simp: Cancel_def tdel_def intro!: arg_cong [of _ _ "map job_payload"] filter_cong)
  obtain seen n where first: "first = (seen, n)" by (cases first)
  from mail_participants_run [OF 1(11) [unfolded first]] ps d8 obtain told where
    told: "first_mails lower (ListParticipantsByPoll i d) [] told"
      "mails d10 = mails d @ map (\<lambda>q. Some (json_of_mail (mail_to_participant i ''finalized'' (pa_id q)))) told"
      "n = length told" "set seen = {lower e | e q. q \<in> set (ListParticipantsByPoll i d) \<and> pa_email q = Some e}"
      "people d10 = people d" "timer d10 = timer d8" by auto
  show ?case using 1(12) unfolding first prod.case
  proof (elim tx_InrE, goal_cases)
    case (1 second d11)
    obtain ids n2 where second: "second = (ids, n2)" by (cases second)
    have "p_id p = i" using p by (auto simp: GetPoll_def split: option.splits if_splits dest: tget_Some_in)
    with told have owner: "ids = owner_ids p d" "people d11 = people d" "timer d11 = timer d8"
      "mails d11 = mails d10 @ map (\<lambda>u. Some (json_of_mail (mail_to_user i ''finalized'' u []))) (owner_told lower i p d)"
      "n2 = n + length (owner_told lower i p d)"
      using mail_owner_run [OF 1(1) [unfolded second], of d] by auto
    show ?case using 1(2) unfolding second prod.case
    proof (elim tx_InrE, goal_cases)
      case (1 rs d12 n3 d13 u8 d14)
      have rs: "rs = resolveRecipients source (p_org p) i ''poll.finalized'' actor d" "d12 = d11"
        using 1(1) resolveRecipients_people [OF owner(2)] by (auto simp: result_simps)
      from mail_subscribers_run [OF 1(2)] obtain subs where
        subs: "set subs = r_user ` set rs - set ids" "distinct subs"
          "mails d13 = mails d11 @ map (\<lambda>u. Some (json_of_mail (mail_to_user i ''finalized'' u []))) subs"
          "n3 = n2 + length subs" "timer d13 = timer d11" by (auto simp: rs)
      have last: "db_jobs d' = db_jobs d13" "sent = n3" using 1(3,4) by (auto simp: result_simps recordStats_def)
      have "timer d' = timer d13" using last(1) by (intro ext) (simp add: timer_def)
      then have "timer d' = timer d8" using subs(5) owner(3) told(6) by simp
      then have gone: "timer d' ''poll.deadline'' (poll_room i) = None" "timer d' ''poll.reminder'' (poll_room i) = None"
        using d8(4,5) by simp_all
      moreover have "mails d' = mails d13" using last(1) by (simp add: mails_def)
      ultimately show ?case
        using p told owner subs last(2)
        by (intro exI [of _ p] exI [of _ told] exI [of _ subs]) (simp add: rs timer_def)
    qed
  qed
qed


text \<open>Past its guards \<open>FinalizeWithCount\<close> cannot fail.\<close>

lemma isl_tx: "isl (tx m k s) \<longleftrightarrow> isl (m s) \<or> (\<exists>x s'. m s = Inr (x, s') \<and> isl (k x s'))"
  by (auto simp: tx_def split: sum.split)

lemma enqueue_succeeds [simp]: "\<not> isl (enqueueMailPoll m now d)"
  by (simp add: enqueueMailPoll_def schedule_job_def exec_simps)

lemma mail_participants_succeeds [simp]: "\<not> isl (mail_participants lower i now ps seen n d)"
  by (induction ps arbitrary: seen n d) (auto simp: exec_simps  isl_tx split: option.split)

lemma mail_owner_succeeds [simp]: "\<not> isl (mail_owner lower p now seen n d)"
  by (auto simp: mail_owner_def exec_simps Let_def  isl_tx split: option.split)

lemma mail_subscribers_succeeds [simp]: "\<not> isl (mail_subscribers i now rs seen n d)"
  by (induction rs arbitrary: seen n d) (auto simp: exec_simps isl_tx)

lemma FinalizeWithCount_succeeds:
  assumes "GetPoll i d = Some p" and "ParseInt g = Some (p_org p)" and "p_type p \<noteq> ''signup''"
    and "p_status p \<noteq> ''finalized''" and "\<exists>po \<in> set (ListOptionsByPoll i d). o_id po = opt"
  shows "\<exists>sent d'. FinalizeWithCount lower source i g opt actor now d = Inr (sent, d')"
proof -
  have "\<not> isl (FinalizeWithCount lower source i g opt actor now d)"
    unfolding FinalizeWithCount_def requireOrgPoll_def FinalizePoll_def update_poll_def emit_changed_def Emit_def cancel_job_def
    using assms by (auto simp: exec_simps Let_def isl_tx split: prod.split)
  then show ?thesis by (cases "FinalizeWithCount lower source i g opt actor now d") auto
qed

definition undecided_db :: db where
  "undecided_db = sample_db\<lparr> db_polls := [sample_poll\<lparr> p_type := ''options'', p_finalized_option := None \<rparr>],
     db_participants := [sample_participant\<lparr> pa_email := Some ''bo@example.org'' \<rparr>] \<rparr>"

lemma finalize_mails_witness:
  "\<exists>sent d' p (told :: Participant list) (subs :: string list). FinalizeWithCount id None ''p1'' ''1'' ''o1'' ''9'' 7 undecided_db = Inr (sent, d') \<and>
     GetPoll ''p1'' undecided_db = Some p \<and> sent = length told + length (owner_told id ''p1'' p undecided_db) + length subs \<and>
     pending ''poll.deadline'' (poll_room ''p1'') (db_jobs d') = None"
proof -
  have "ParseInt ''1'' = Some 1" by (simp add: ParseInt_def parse_nat_def digit_val_def in_int64_def)
  then have "\<exists>sent d'. FinalizeWithCount id None ''p1'' ''1'' ''o1'' ''9'' 7 undecided_db = Inr (sent, d')"
    by (intro FinalizeWithCount_succeeds [where p = "hd (db_polls undecided_db)"])
      (simp_all add: undecided_db_def sample_defs GetPoll_def tget_def live_poll_def ListOptionsByPoll_def)
  then obtain sent d' where run: "FinalizeWithCount id None ''p1'' ''1'' ''o1'' ''9'' 7 undecided_db = Inr (sent, d')" by blast
  obtain p and told :: "Participant list" and subs :: "string list" where "GetPoll ''p1'' undecided_db = Some p" "pending ''poll.deadline'' (poll_room ''p1'') (db_jobs d') = None"
    "sent = length told + length (owner_told id ''p1'' p undecided_db) + length subs"
    using finalize_mails [OF run] by (elim exE conjE) (rule that)
  with run show ?thesis by blast
qed

end
