(* ===== verification/SlotSpec.thy ===== *)
theory SlotSpec
  imports Availability
begin

text \<open>
  What the slot generator is for: \<open>offered\<close> says which instants a page offers, day by day and without any
  loop, window string or duplicate check; the loops of \<open>Slots\<close> compute exactly these, in order, without
  repetition, and \<open>IsSlotAvailable\<close> decides them one at a time.
\<close>

section \<open>The loop over a range\<close>

lemma grid_Nil: "stop < start + dur \<Longrightarrow> grid start dur stop = Some []"
  by (subst grid.simps) simp

lemma grid_Some:
  assumes "0 < dur"
  shows "\<exists>ts. grid start dur stop = Some ts \<and>
    set ts = {t. \<exists>k. 0 \<le> k \<and> t = start + k * dur \<and> t + dur \<le> stop}"
proof (induction "nat (stop - start)" arbitrary: start rule: less_induct)
  case less
  show ?case
  proof (cases "stop < start + dur")
    case True
    have "start + k * dur + dur \<le> stop \<Longrightarrow> k < 0" for k
      using True assms by (smt (verit) mult_nonneg_nonneg)
    with True show ?thesis by (subst grid.simps) force
  next
    case False
    with assms have "nat (stop - (start + dur)) < nat (stop - start)" by auto
    from less [OF this] obtain ts where ts: "grid (start + dur) dur stop = Some ts"
      "set ts = {t. \<exists>k. 0 \<le> k \<and> t = start + dur + k * dur \<and> t + dur \<le> stop}" by blast
    have "(\<exists>k. 0 \<le> k \<and> t = start + k * dur \<and> t + dur \<le> stop) \<longleftrightarrow>
        t = start \<or> (\<exists>k. 0 \<le> k \<and> t = start + dur + k * dur \<and> t + dur \<le> stop)" for t
    proof
      assume "\<exists>k. 0 \<le> k \<and> t = start + k * dur \<and> t + dur \<le> stop"
      then obtain k where k: "0 \<le> k" "t = start + k * dur" "t + dur \<le> stop" by blast
      show "t = start \<or> (\<exists>k. 0 \<le> k \<and> t = start + dur + k * dur \<and> t + dur \<le> stop)"
      proof (cases "k = 0")
        case True
        then show ?thesis using k by simp
      next
        case False
        with k have "0 \<le> k - 1 \<and> t = start + dur + (k - 1) * dur \<and> t + dur \<le> stop" by (simp add: algebra_simps)
        then show ?thesis by blast
      qed
    next
      assume "t = start \<or> (\<exists>k. 0 \<le> k \<and> t = start + dur + k * dur \<and> t + dur \<le> stop)"
      then show "\<exists>k. 0 \<le> k \<and> t = start + k * dur \<and> t + dur \<le> stop"
      proof
        assume "t = start"
        with False show ?thesis by (intro exI [of _ 0]) simp
      next
        assume "\<exists>k. 0 \<le> k \<and> t = start + dur + k * dur \<and> t + dur \<le> stop"
        then obtain k where "0 \<le> k" "t = start + dur + k * dur" "t + dur \<le> stop" by blast
        then show ?thesis by (intro exI [of _ "k + 1"]) (simp add: algebra_simps)
      qed
    qed
    with ts False show ?thesis by (subst grid.simps) auto
  qed
qed

section \<open>Collecting slots\<close>

abbreviation slot_dur :: "PageRules \<Rightarrow> duration" where
  "slot_dur rules \<equiv> ru_slotDurationMin rules * Minute"

definition bookable :: "PageRules \<Rightarrow> Interval list \<Rightarrow> instant \<Rightarrow> instant \<Rightarrow> bool" where
  "bookable rules booked now t \<longleftrightarrow> now + ru_minNoticeMin rules * Minute \<le> t \<and>
     t + slot_dur rules \<le> now + ru_maxDaysAhead rules * 24 * Hour \<and> slot_free rules booked t (t + slot_dur rules)"

definition acc_ok :: "PageRules \<Rightarrow> slot_acc \<Rightarrow> bool" where
  "acc_ok rules acc \<longleftrightarrow> distinct (snd acc) \<and> (\<forall>t \<in> set (snd acc). Second dvd t) \<and>
     set (fst acc) = (\<lambda>t. (t div 1000000, (t + slot_dur rules) div 1000000)) ` set (snd acc)"

lemma ms_inj: "Second dvd t \<Longrightarrow> Second dvd u \<Longrightarrow> t div 1000000 = u div 1000000 \<Longrightarrow> (t::int) = u"
  by (auto simp: Second_def dvd_def)

lemma slot_step_ok:
  assumes "acc_ok rules acc" and "Second dvd t"
  shows "acc_ok rules (slot_step rules booked now t acc) \<and>
    set (snd (slot_step rules booked now t acc)) =
      set (snd acc) \<union> (if bookable rules booked now t then {t} else {})"
proof -
  have "(t div 1000000, (t + slot_dur rules) div 1000000) \<in> set (fst acc) \<longleftrightarrow> t \<in> set (snd acc)"
  proof
    assume "(t div 1000000, (t + slot_dur rules) div 1000000) \<in> set (fst acc)"
    then obtain u where "u \<in> set (snd acc)" "t div 1000000 = u div 1000000"
      using assms(1) by (auto simp: acc_ok_def)
    moreover from this have "Second dvd u" using assms(1) by (simp add: acc_ok_def)
    ultimately show "t \<in> set (snd acc)" using ms_inj [OF assms(2)] by blast
  next
    assume "t \<in> set (snd acc)"
    then show "(t div 1000000, (t + slot_dur rules) div 1000000) \<in> set (fst acc)"
      using assms(1) by (simp add: acc_ok_def)
  qed
  then have step: "slot_step rules booked now t acc =
      (if bookable rules booked now t \<and> t \<notin> set (snd acc)
       then ((t div 1000000, (t + slot_dur rules) div 1000000) # fst acc, snd acc @ [t]) else acc)"
    by (simp add: slot_step_def bookable_def Let_def not_less)
  show ?thesis
  proof (cases "bookable rules booked now t \<and> t \<notin> set (snd acc)")
    case True
    then show ?thesis using assms unfolding step acc_ok_def by simp
  next
    case False
    then show ?thesis using assms(1) unfolding step by auto
  qed
qed

lemma slot_steps_ok:
  assumes "acc_ok rules acc" and "\<forall>t \<in> set ts. Second dvd t"
  shows "acc_ok rules (fold (slot_step rules booked now) ts acc) \<and>
    set (snd (fold (slot_step rules booked now) ts acc)) = set (snd acc) \<union> {t \<in> set ts. bookable rules booked now t}"
  using assms
proof (induction ts arbitrary: acc)
  case (Cons t ts)
  from slot_step_ok [OF Cons.prems(1), of t booked now] Cons.prems(2)
  have step: "acc_ok rules (slot_step rules booked now t acc)"
    "set (snd (slot_step rules booked now t acc)) = set (snd acc) \<union> (if bookable rules booked now t then {t} else {})"
    by auto
  from Cons.IH [OF step(1)] Cons.prems(2) step(2) show ?case by auto
qed simp

definition in_range :: "PageRules \<Rightarrow> location \<Rightarrow> string \<Rightarrow> TimeRange \<Rightarrow> instant \<Rightarrow> bool" where
  "in_range rules loc dateStr r t \<longleftrightarrow>
     (\<exists>a b k. localToUTC dateStr (tr_start r) loc = Some a \<and> localToUTC dateStr (tr_end r) loc = Some b \<and>
        0 \<le> k \<and> t = a + k * slot_dur rules \<and> t + slot_dur rules \<le> b)"

definition on_day :: "PageRules \<Rightarrow> location \<Rightarrow> string \<Rightarrow> instant \<Rightarrow> bool" where
  "on_day rules loc dateStr t \<longleftrightarrow> (\<exists>r \<in> set (ranges_on rules dateStr). in_range rules loc dateStr r t)"

lemma localToUTC_dvd: "localToUTC dateStr hhmm loc = Some a \<Longrightarrow> Second dvd a"
  by (auto simp: localToUTC_def split: option.splits prod.splits if_splits)

lemma grid_steps:
  assumes "0 < ru_slotDurationMin rules" and "acc_ok rules acc" and "Second dvd a"
  shows "\<exists>ts. grid a (slot_dur rules) b = Some ts \<and> acc_ok rules (fold (slot_step rules booked now) ts acc) \<and>
    set (snd (fold (slot_step rules booked now) ts acc)) = set (snd acc) \<union>
      {t. (\<exists>k. 0 \<le> k \<and> t = a + k * slot_dur rules \<and> t + slot_dur rules \<le> b) \<and> bookable rules booked now t}"
proof -
  have "0 < slot_dur rules" using assms(1) by (simp add: duration_nums)
  from grid_Some [OF this, of a b] obtain ts where ts: "grid a (slot_dur rules) b = Some ts"
    "set ts = {t. \<exists>k. 0 \<le> k \<and> t = a + k * slot_dur rules \<and> t + slot_dur rules \<le> b}" by blast
  have "Second dvd slot_dur rules" by (simp add: Minute_def)
  then have "\<forall>t \<in> set ts. Second dvd t" using ts(2) assms(3) by (auto intro!: dvd_add)
  from slot_steps_ok [OF assms(2) this, of booked now] ts show ?thesis by auto
qed

lemma ranges_loop_ok:
  assumes "0 < ru_slotDurationMin rules" and "acc_ok rules acc"
  shows "\<exists>acc'. ranges_loop rules booked now loc dateStr rs acc = Some acc' \<and> acc_ok rules acc' \<and>
    set (snd acc') = set (snd acc) \<union> {t. (\<exists>r \<in> set rs. in_range rules loc dateStr r t) \<and> bookable rules booked now t}"
  using assms(2)
proof (induction rs arbitrary: acc)
  case (Cons r rs)
  note dur = assms(1)
  consider (skip) "ranges_loop rules booked now loc dateStr (r # rs) acc = ranges_loop rules booked now loc dateStr rs acc"
      "\<forall>t. \<not> in_range rules loc dateStr r t"
    | (lay) a b where "localToUTC dateStr (tr_start r) loc = Some a" "localToUTC dateStr (tr_end r) loc = Some b" "a < b"
  proof (cases "\<exists>a b. localToUTC dateStr (tr_start r) loc = Some a \<and> localToUTC dateStr (tr_end r) loc = Some b \<and> a < b")
    case False
    have "\<not> in_range rules loc dateStr r t" for t
    proof
      assume "in_range rules loc dateStr r t"
      then obtain a b k where t: "localToUTC dateStr (tr_start r) loc = Some a" "localToUTC dateStr (tr_end r) loc = Some b"
        "0 \<le> k" "t = a + k * slot_dur rules" "t + slot_dur rules \<le> b" by (auto simp: in_range_def)
      have "0 < slot_dur rules" using dur by (simp add: duration_nums)
      with t(3-5) have "a < b" by (smt (verit) mult_nonneg_nonneg)
      with t False show False by blast
    qed
    with False that(1) show ?thesis by (auto split: option.splits)
  qed blast
  then show ?case
  proof cases
    case skip
    with Cons.IH [OF Cons.prems] show ?thesis by auto
  next
    case lay
    from grid_steps [OF dur Cons.prems localToUTC_dvd [OF lay(1)], of b booked now] obtain ts where
      ts: "grid a (slot_dur rules) b = Some ts" "acc_ok rules (fold (slot_step rules booked now) ts acc)"
        "set (snd (fold (slot_step rules booked now) ts acc)) = set (snd acc) \<union>
          {t. (\<exists>k. 0 \<le> k \<and> t = a + k * slot_dur rules \<and> t + slot_dur rules \<le> b) \<and> bookable rules booked now t}" by blast
    have "in_range rules loc dateStr r t \<longleftrightarrow> (\<exists>k. 0 \<le> k \<and> t = a + k * slot_dur rules \<and> t + slot_dur rules \<le> b)" for t
      using lay by (simp add: in_range_def)
    with Cons.IH [OF ts(2)] ts lay show ?thesis by auto
  qed
qed simp


section \<open>Days\<close>

lemma days_loop_ok:
  assumes "0 < ru_slotDurationMin rules" and "four_digit_day f" and "four_digit_day h"
    and "acc_ok rules acc" and "sorted is" and "\<forall>i \<in> set is. four_digit_day (f + i)"
  shows "\<exists>acc'. days_loop rules booked now loc (formatDate f) (formatDate h) is acc = Some acc' \<and> acc_ok rules acc' \<and>
    set (snd acc') = set (snd acc) \<union>
      {t. \<exists>i \<in> set is. f + i \<le> h \<and> on_day rules loc (formatDate (f + i)) t \<and> bookable rules booked now t}"
  using assms(4-6)
proof (induction "is" arbitrary: acc)
  case (Cons i "is")
  have date: "addDaysToDateStr (formatDate f) i = formatDate (f + i)"
    using assms(2) by (simp add: addDaysToDateStr_def dateOnlyUTC_def parseDay_formatDate)
  have less: "str_less (formatDate h) (formatDate (f + i)) \<longleftrightarrow> h < f + i"
    using assms(3) Cons.prems(3) by (simp add: formatDate_less)
  show ?case
  proof (cases "h < f + i")
    case True
    then have "\<forall>j \<in> set (i # is). \<not> f + j \<le> h" using Cons.prems(2) by force
    with True Cons.prems(1) show ?thesis by (auto simp: date less Let_def)
  next
    case False
    from ranges_loop_ok [OF assms(1) Cons.prems(1)] obtain acc1 where
      acc1: "ranges_loop rules booked now loc (formatDate (f + i)) (ranges_on rules (formatDate (f + i))) acc = Some acc1"
        "acc_ok rules acc1" "set (snd acc1) = set (snd acc) \<union>
          {t. on_day rules loc (formatDate (f + i)) t \<and> bookable rules booked now t}"
      unfolding on_day_def by blast
    from Cons.IH [OF acc1(2)] Cons.prems(2,3) obtain acc2 where
      acc2: "days_loop rules booked now loc (formatDate f) (formatDate h) is acc1 = Some acc2" "acc_ok rules acc2"
        "set (snd acc2) = set (snd acc1) \<union>
          {t. \<exists>i \<in> set is. f + i \<le> h \<and> on_day rules loc (formatDate (f + i)) t \<and> bookable rules booked now t}" by auto
    have "days_loop rules booked now loc (formatDate f) (formatDate h) (i # is) acc = Some acc2"
      using False acc1(1) acc2(1) by (simp add: date less Let_def)
    moreover have "set (snd acc2) = set (snd acc) \<union>
        {t. \<exists>i \<in> set (i # is). f + i \<le> h \<and> on_day rules loc (formatDate (f + i)) t \<and> bookable rules booked now t}"
      using False acc1(3) acc2(3) by auto
    ultimately show ?thesis using acc2(2) by blast
  qed
qed simp

subsection \<open>Days and instants\<close>

text \<open>What is needed of a zone: its offsets never differ by more than a day. What is needed of the rules: a
  positive duration and clock times of one day.\<close>

definition sane :: "location \<Rightarrow> bool" where
  "sane loc \<longleftrightarrow> (\<forall>x y. z_offset (loc x) - z_offset (loc y) \<le> 86400)"

definition clock_time :: "string \<Rightarrow> bool" where
  "clock_time s \<longleftrightarrow> (case scan_hhmm s of (n, h, m) \<Rightarrow> n = 2 \<and> 0 \<le> h * 60 + m \<and> h * 60 + m < 1440)"

definition ranges_map_ok :: "ranges_map \<Rightarrow> bool" where
  "ranges_map_ok rm \<longleftrightarrow> list_all (\<lambda>(k, rs). list_all (\<lambda>r. clock_time (tr_start r) \<and> clock_time (tr_end r)) rs) rm"

definition rules_ok :: "PageRules \<Rightarrow> bool" where
  "rules_ok rules \<longleftrightarrow> 0 < ru_slotDurationMin rules \<and> ranges_map_ok (ru_availability rules) \<and>
     ranges_map_ok (ru_dateOverrides rules)"

lemma ranges_on_ok:
  assumes "rules_ok rules" and "r \<in> set (ranges_on rules dateStr)"
  shows "clock_time (tr_start r)" and "clock_time (tr_end r)"
proof -
  have "\<exists>m k. ranges_map_ok m \<and> (k, ranges_on rules dateStr) \<in> set m"
    using assms by (auto simp: ranges_on_def rules_ok_def split: option.splits dest!: map_of_SomeD)
  then have "list_all (\<lambda>r. clock_time (tr_start r) \<and> clock_time (tr_end r)) (ranges_on rules dateStr)"
    by (auto simp: ranges_map_ok_def list_all_iff)
  with assms(2) show "clock_time (tr_start r)" "clock_time (tr_end r)" by (simp_all add: list_all_iff)
qed

lemma date_in_offset: "\<exists>x. date_in loc wall = wall - z_offset (loc x)"
  by (auto simp: date_in_def Let_def)

lemma localToUTC_bounds:
  assumes "clock_time s" and "four_digit_day d" and "localToUTC (formatDate d) s loc = Some a"
  shows "\<exists>x. d * day_ns - z_offset (loc x) * Second \<le> a \<and> a < (d + 1) * day_ns - z_offset (loc x) * Second"
proof -
  obtain h m where hm: "scan_hhmm s = (2, h, m)" "0 \<le> h * 60 + m" "h * 60 + m < 1440"
    using assms(1) by (auto simp: clock_time_def split: prod.splits)
  obtain x where x: "date_in loc (d * 86400 + h * 3600 + m * 60) = d * 86400 + h * 3600 + m * 60 - z_offset (loc x)"
    using date_in_offset by blast
  have a: "a = (d * 86400 + h * 3600 + m * 60 - z_offset (loc x)) * Second"
    using assms(2,3) hm by (simp add: localToUTC_def dateOnlyUTC_def parseDay_formatDate x)
  have "0 \<le> (h * 60 + m) * (60 * Second)" "(h * 60 + m) * (60 * Second) < 1440 * (60 * Second)"
    using hm by (simp_all add: Second_def)
  then show ?thesis by (intro exI [of _ x]) (simp add: a duration_defs algebra_simps)
qed

lemma on_day_bounds:
  assumes "rules_ok rules" and "four_digit_day d" and "on_day rules loc (formatDate d) t"
  shows "\<exists>x y. d * day_ns - z_offset (loc x) * Second \<le> t \<and> t + slot_dur rules < (d + 1) * day_ns - z_offset (loc y) * Second"
proof -
  from assms(3) obtain r a b k where r: "r \<in> set (ranges_on rules (formatDate d))"
    "localToUTC (formatDate d) (tr_start r) loc = Some a" "localToUTC (formatDate d) (tr_end r) loc = Some b"
    "0 \<le> k" "t = a + k * slot_dur rules" "t + slot_dur rules \<le> b" by (auto simp: on_day_def in_range_def)
  note clocks = ranges_on_ok [OF assms(1) r(1)]
  have "0 \<le> k * slot_dur rules" using r(4) assms(1) by (simp add: rules_ok_def duration_nums)
  then have "a \<le> t" using r(5) by simp
  with localToUTC_bounds [OF clocks(1) assms(2) r(2)] localToUTC_bounds [OF clocks(2) assms(2) r(3)] r(6)
  show ?thesis by (smt (verit))
qed

lemma local_day_le: "local_day loc t \<le> d \<longleftrightarrow> t + offset_at loc t < (d + 1) * day_ns"
  by (simp add: local_day_def day_of_def duration_defs) linarith

lemma le_local_day: "d \<le> local_day loc t \<longleftrightarrow> d * day_ns \<le> t + offset_at loc t"
  by (simp add: local_day_def day_of_def duration_defs) linarith

lemma sane_offset: "sane loc \<Longrightarrow> offset_at loc t - z_offset (loc x) * Second \<le> day_ns"
  "sane loc \<Longrightarrow> z_offset (loc x) * Second - offset_at loc t \<le> day_ns"
proof -
  have "\<And>a b. a - b \<le> (86400::int) \<Longrightarrow> a * Second - b * Second \<le> day_ns" by (simp add: duration_defs)
  then show "sane loc \<Longrightarrow> offset_at loc t - z_offset (loc x) * Second \<le> day_ns"
    "sane loc \<Longrightarrow> z_offset (loc x) * Second - offset_at loc t \<le> day_ns"
    unfolding sane_def offset_at_def by blast+
qed

lemma on_day_near:
  assumes "rules_ok rules" and "sane loc" and "four_digit_day d" and "on_day rules loc (formatDate d) t"
  shows "local_day loc (t - 24 * Hour) \<le> d" and "d \<le> local_day loc (t + 24 * Hour)"
    and "t + slot_dur rules \<le> u \<Longrightarrow> d \<le> local_day loc (u + 24 * Hour)"
proof -
  from on_day_bounds [OF assms(1,3,4)] obtain x y where
    b: "d * day_ns - z_offset (loc x) * Second \<le> t" "t + slot_dur rules < (d + 1) * day_ns - z_offset (loc y) * Second" by blast
  have dur: "0 < slot_dur rules" using assms(1) by (simp add: rules_ok_def duration_nums)
  have day: "day_ns = 24 * Hour" by (simp add: day_ns_def)
  note sane = sane_offset [OF assms(2)]
  show "local_day loc (t - 24 * Hour) \<le> d"
    unfolding local_day_le using b(2) dur sane(1) [of "t - 24 * Hour" y] by (simp add: day)
  show "d \<le> local_day loc (t + 24 * Hour)"
    unfolding le_local_day using b(1) sane(2) [of x "t + 24 * Hour"] by (simp add: day)
  show "d \<le> local_day loc (u + 24 * Hour)" if "t + slot_dur rules \<le> u"
    unfolding le_local_day using b(1) that dur sane(2) [of x "u + 24 * Hour"] by (simp add: day)
qed


section \<open>The generator\<close>

lemma four_digit_between: "four_digit_day a \<Longrightarrow> four_digit_day b \<Longrightarrow> a \<le> d \<Longrightarrow> d \<le> b \<Longrightarrow> four_digit_day d"
  by (simp add: four_digit_day_def)

definition horizon :: "PageRules \<Rightarrow> instant \<Rightarrow> instant" where
  "horizon rules now = now + (ru_maxDaysAhead rules + 1) * 24 * Hour"

lemma Slots_in:
  "tzdb (ru_timezone rules) = Some loc \<Longrightarrow> Slots tzdb rules booked now from to =
     (if daysBetween (localDateStr from loc) (localDateStr to loc) < 0 then Some []
      else map_option (\<lambda>(seen, results). sort results)
             (days_loop rules booked now loc (localDateStr from loc) (localDateStr (horizon rules now) loc)
               [0..daysBetween (localDateStr from loc) (localDateStr to loc)] ([], [])))"
  by (simp add: Slots_def horizon_def Let_def)

lemma Slots_run:
  assumes "tzdb (ru_timezone rules) = Some loc" and "sane loc" and "rules_ok rules"
    and "four_digit_day (local_day loc from)" and "four_digit_day (local_day loc to)"
    and "four_digit_day (local_day loc (horizon rules now))"
    and "local_day loc to - local_day loc from \<le> 106751"
  shows "\<exists>ts. Slots tzdb rules booked now from to = Some ts \<and> sorted ts \<and> distinct ts \<and>
    set ts = {t. bookable rules booked now t \<and>
      (\<exists>d. local_day loc from \<le> d \<and> d \<le> local_day loc to \<and> on_day rules loc (formatDate d) t)}"
proof -
  let ?f = "local_day loc from" and ?h = "local_day loc (horizon rules now)"
  have dates: "localDateStr from loc = formatDate ?f" "localDateStr to loc = formatDate (local_day loc to)"
    "localDateStr (horizon rules now) loc = formatDate ?h"
    by (simp_all add: localDateStr_def)
  have span: "daysBetween (formatDate ?f) (formatDate (local_day loc to)) = max (- 106751) (local_day loc to - ?f)"
    using assms(4,5,7) by (simp add: daysBetween_def dateOnlyUTC_def parseDay_formatDate)
  have in_horizon: "d \<le> ?h" if "bookable rules booked now t" "on_day rules loc (formatDate d) t" "four_digit_day d" for d t
  proof -
    have "t + slot_dur rules \<le> now + ru_maxDaysAhead rules * 24 * Hour" using that(1) by (simp add: bookable_def)
    from on_day_near(3) [OF assms(3,2) that(3,2) this] show ?thesis by (simp add: horizon_def algebra_simps)
  qed
  show ?thesis
  proof (cases "local_day loc to < ?f")
    case True
    then show ?thesis using assms(1) by (intro exI [of _ "[]"]) (simp add: Slots_in [where tzdb = tzdb, OF assms(1)] dates span)
  next
    case False
    let ?is = "[0..local_day loc to - ?f]"
    have four: "four_digit_day (?f + i)" if "i \<in> set ?is" for i
      using four_digit_between [OF assms(4,5)] that by simp
    have "acc_ok rules ([], [])" by (simp add: acc_ok_def)
    from days_loop_ok [OF _ assms(4,6) this, of ?is booked now loc] four assms(3) obtain seen ts where
      run: "days_loop rules booked now loc (formatDate ?f) (formatDate ?h) ?is ([], []) = Some (seen, ts)"
        "acc_ok rules (seen, ts)"
        "set ts = {t. \<exists>i \<in> set ?is. ?f + i \<le> ?h \<and> on_day rules loc (formatDate (?f + i)) t \<and> bookable rules booked now t}"
      by (auto simp: rules_ok_def)
    have "Slots tzdb rules booked now from to = Some (sort ts)"
      using False run(1) by (simp add: Slots_in [where tzdb = tzdb, OF assms(1)] dates span)
    moreover have "distinct (sort ts)" using run(2) by (simp add: acc_ok_def)
    moreover have "set ts = {t. bookable rules booked now t \<and>
      (\<exists>d. ?f \<le> d \<and> d \<le> local_day loc to \<and> on_day rules loc (formatDate d) t)}"
    proof (intro set_eqI iffI)
      fix t assume "t \<in> set ts"
      then obtain i where "i \<in> set ?is" "on_day rules loc (formatDate (?f + i)) t" "bookable rules booked now t"
        using run(3) by blast
      then show "t \<in> {t. bookable rules booked now t \<and>
          (\<exists>d. ?f \<le> d \<and> d \<le> local_day loc to \<and> on_day rules loc (formatDate d) t)}"
        by (auto intro!: exI [of _ "?f + i"])
    next
      fix t assume "t \<in> {t. bookable rules booked now t \<and>
          (\<exists>d. ?f \<le> d \<and> d \<le> local_day loc to \<and> on_day rules loc (formatDate d) t)}"
      then obtain d where d: "bookable rules booked now t" "?f \<le> d" "d \<le> local_day loc to"
        "on_day rules loc (formatDate d) t" by blast
      then have "d \<le> ?h" using in_horizon four_digit_between [OF assms(4,5)] by blast
      with d show "t \<in> set ts" unfolding run(3) by (intro CollectI bexI [of _ "d - ?f"]) simp_all
    qed
    ultimately show ?thesis by (intro exI [of _ "sort ts"]) simp
  qed
qed

definition offered :: "PageRules \<Rightarrow> location \<Rightarrow> Interval list \<Rightarrow> instant \<Rightarrow> instant \<Rightarrow> bool" where
  "offered rules loc booked now t \<longleftrightarrow> bookable rules booked now t \<and>
     (\<exists>d. four_digit_day d \<and> on_day rules loc (formatDate d) t)"

definition calendar_ok :: "location \<Rightarrow> instant \<Rightarrow> bool" where
  "calendar_ok loc t \<longleftrightarrow> four_digit_day (local_day loc t)"

lemma local_day_span:
  assumes "sane loc"
  shows "local_day loc (t + 24 * Hour) - local_day loc (t - 24 * Hour) \<le> 106751"
proof -
  let ?d = "local_day loc (t - 24 * Hour)"
  have "t - 24 * Hour + offset_at loc (t - 24 * Hour) < (?d + 1) * day_ns" using local_day_le [of loc "t - 24 * Hour" ?d] by simp
  moreover have "offset_at loc (t + 24 * Hour) - offset_at loc (t - 24 * Hour) \<le> day_ns"
    using sane_offset(1) [OF assms, of "t + 24 * Hour" "(t - 24 * Hour) div Second"] by (simp add: offset_at_def)
  ultimately have "local_day loc (t + 24 * Hour) \<le> ?d + 3" unfolding local_day_le by (simp add: day_ns_def algebra_simps)
  then show ?thesis by simp
qed

lemma slot_check_offered:
  assumes "tzdb (ru_timezone rules) = Some loc" and "sane loc" and "rules_ok rules"
    and "calendar_ok loc (t - 24 * Hour)" and "calendar_ok loc (t + 24 * Hour)" and "calendar_ok loc (horizon rules now)"
  shows "IsSlotAvailable tzdb rules t now booked = Some (offered rules loc booked now t)"
proof -
  note four = assms(4-6) [unfolded calendar_ok_def]
  from Slots_run [where tzdb = tzdb, OF assms(1-3) four local_day_span [OF assms(2)], of booked] obtain ts where
    ts: "Slots tzdb rules booked now (t - 24 * Hour) (t + 24 * Hour) = Some ts"
      "set ts = {u. bookable rules booked now u \<and> (\<exists>d. local_day loc (t - 24 * Hour) \<le> d \<and>
        d \<le> local_day loc (t + 24 * Hour) \<and> on_day rules loc (formatDate d) u)}" by blast
  have "t \<in> set ts \<longleftrightarrow> offered rules loc booked now t"
    unfolding ts(2) offered_def
    using on_day_near(1,2) [OF assms(3,2)] four_digit_between [OF four(1,2)] by blast
  then show ?thesis by (simp add: IsSlotAvailable_def ts(1) list_ex_iff)
qed

text \<open>C9: The check made when a slot is booked is exact: it always answers, and it accepts an instant precisely when
  some day's ranges (the date's override where there is one, the weekday's ranges otherwise) lay a slot
  starting there on their grid, the slot respects the notice and the horizon, and its buffered span meets no
  busy interval. Neither the one-day window around the instant, nor the horizon cut of the day loop, nor the
  duplicate check changes the answer, whatever the zone does in between, as long as its offsets differ by at
  most a day and the calendar years have four digits.\<close>

theorem IsSlotAvailable_exact:
  assumes "tzdb (ru_timezone rules) = Some loc" and "sane loc" and "rules_ok rules"
    and "calendar_ok loc (t - 24 * Hour)" and "calendar_ok loc (t + 24 * Hour)" and "calendar_ok loc (horizon rules now)"
  shows "IsSlotAvailable tzdb rules t now booked = Some (offered rules loc booked now t)"
  using assms by (rule slot_check_offered)

text \<open>C26: The public slot list is exact: it always comes back, in ascending order and without repetitions, and it
  holds precisely the offered instants whose day lies between the local dates of the two ends of the window.
  Every instant on it passes the check made on booking against the same busy intervals.\<close>

theorem Slots_exact:
  assumes "tzdb (ru_timezone rules) = Some loc" and "sane loc" and "rules_ok rules"
    and "calendar_ok loc from" and "calendar_ok loc to" and "calendar_ok loc (horizon rules now)"
    and "local_day loc to - local_day loc from \<le> 106751"
  shows "\<exists>ts. Slots tzdb rules booked now from to = Some ts \<and> sorted ts \<and> distinct ts \<and>
    set ts = {t. bookable rules booked now t \<and>
      (\<exists>d. local_day loc from \<le> d \<and> d \<le> local_day loc to \<and> on_day rules loc (formatDate d) t)} \<and>
    list_all (offered rules loc booked now) ts"
proof -
  note four = assms(4-6) [unfolded calendar_ok_def]
  from Slots_run [where tzdb = tzdb, OF assms(1-3) four assms(7), of booked] obtain ts where
    ts: "Slots tzdb rules booked now from to = Some ts" "sorted ts" "distinct ts"
      "set ts = {t. bookable rules booked now t \<and>
        (\<exists>d. local_day loc from \<le> d \<and> d \<le> local_day loc to \<and> on_day rules loc (formatDate d) t)}" by blast
  have "list_all (offered rules loc booked now) ts"
    using four_digit_between [OF four(1,2)] by (auto simp: list_all_iff ts(4) offered_def)
  with ts show ?thesis by blast
qed


subsection \<open>A page in a fixed zone\<close>

definition demo_rules :: PageRules where
  "demo_rules = \<lparr> ru_timezone = ''X'', ru_slotDurationMin = 30, ru_bufferBeforeMin = 0, ru_bufferAfterMin = 15,
     ru_minNoticeMin = 0, ru_maxDaysAhead = 30,
     ru_availability = [(''4'', [\<lparr> tr_start = ''09:00'', tr_end = ''10:00'' \<rparr>])], ru_dateOverrides = [] \<rparr>"

definition demo_zones :: "string \<Rightarrow> location option" where
  "demo_zones tz = (if tz = ''X'' then Some (fixed_zone 3600) else None)"

lemma demo_rules_ok: "rules_ok demo_rules" by code_simp

lemma demo_sane: "sane (fixed_zone off)" by (simp add: sane_def fixed_zone_def)

lemma demo_calendar: "calendar_ok (fixed_zone 3600) (9 * Hour)" "calendar_ok (fixed_zone 3600) (8 * Hour - 24 * Hour)"
  "calendar_ok (fixed_zone 3600) (8 * Hour + 24 * Hour)" "calendar_ok (fixed_zone 3600) (horizon demo_rules 0)"
  by code_simp+

lemma demo_clock: "scan_hhmm ''09:00'' = (2, 9, 0)" "scan_hhmm ''10:00'' = (2, 10, 0)"
  by code_simp+

lemma demo_day: "four_digit_day 0" "ranges_on demo_rules (formatDate 0) = [\<lparr> tr_start = ''09:00'', tr_end = ''10:00'' \<rparr>]"
  "localToUTC (formatDate 0) ''09:00'' (fixed_zone 3600) = Some (8 * Hour)"
  "localToUTC (formatDate 0) ''10:00'' (fixed_zone 3600) = Some (9 * Hour)"
proof -
  show four: "four_digit_day 0" by code_simp
  then have day: "dateOnlyUTC (formatDate 0) = Some 0" by (simp add: dateOnlyUTC_def parseDay_formatDate)
  have "digit_char 4 = CHR ''4''" by code_simp
  with day show "ranges_on demo_rules (formatDate 0) = [\<lparr> tr_start = ''09:00'', tr_end = ''10:00'' \<rparr>]"
    by (simp add: ranges_on_def demo_rules_def weekdayKey_def weekday_def)
  show "localToUTC (formatDate 0) ''09:00'' (fixed_zone 3600) = Some (8 * Hour)"
    "localToUTC (formatDate 0) ''10:00'' (fixed_zone 3600) = Some (9 * Hour)"
    by (simp_all add: localToUTC_def day demo_clock date_in_def fixed_zone_def duration_nums)
qed

lemma demo_offered: "offered demo_rules (fixed_zone 3600) [] 0 (8 * Hour)"
proof -
  have "on_day demo_rules (fixed_zone 3600) (formatDate 0) (8 * Hour)"
    unfolding on_day_def demo_day(2) in_range_def
    by (auto simp: demo_day demo_rules_def duration_nums intro!: exI [of _ 0])
  moreover have "bookable demo_rules [] 0 (8 * Hour)"
    by (simp add: bookable_def slot_free_def demo_rules_def duration_nums)
  ultimately show ?thesis unfolding offered_def using demo_day(1) by blast
qed

lemma IsSlotAvailable_exact_witness: "IsSlotAvailable demo_zones demo_rules (8 * Hour) 0 [] = Some True"
proof -
  have "demo_zones (ru_timezone demo_rules) = Some (fixed_zone 3600)" by (simp add: demo_zones_def demo_rules_def)
  from IsSlotAvailable_exact [where tzdb = demo_zones, OF this demo_sane demo_rules_ok demo_calendar(2-4), of "[]"] demo_offered
  show ?thesis by simp
qed

lemma Slots_exact_witness:
  "\<exists>ts. Slots demo_zones demo_rules [] 0 (9 * Hour) (9 * Hour) = Some ts \<and> 8 * Hour \<in> set ts \<and> sorted ts"
proof -
  have tz: "demo_zones (ru_timezone demo_rules) = Some (fixed_zone 3600)" by (simp add: demo_zones_def demo_rules_def)
  have day: "local_day (fixed_zone 3600) (9 * Hour) = 0" by code_simp
  have "on_day demo_rules (fixed_zone 3600) (formatDate 0) (8 * Hour)" "bookable demo_rules [] 0 (8 * Hour)"
    using demo_offered unfolding on_day_def demo_day(2) in_range_def
    by (auto simp: demo_day demo_rules_def duration_nums offered_def intro!: exI [of _ 0])
  with Slots_exact [where tzdb = demo_zones, OF tz demo_sane demo_rules_ok demo_calendar(1) demo_calendar(1) demo_calendar(4), of "[]"]
  show ?thesis by (auto simp: day)
qed

section \<open>Clock changes\<close>

text \<open>What a clock time means on the day of a clock change depends on the sign of the zone's offsets. East of
  Greenwich a time that is skipped is moved forward by the gap and one that occurs twice is its second
  occurrence; west of Greenwich a skipped time is moved back by the gap and a repeated one is its first
  occurrence. The comment above \<open>localToUTC\<close> promises forward and first for every zone.\<close>

lemma localToUTC_at_change:
  assumes "dateOnlyUTC dateStr = Some d" and "scan_hhmm hhmm = (2, h, m)"
    and "\<bar>at\<bar> < 2 ^ 40" and "\<bar>before\<bar> < 2 ^ 20" and "\<bar>after\<bar> < 2 ^ 20"
  shows "let wall = d * 86400 + h * 3600 + m * 60; found = localToUTC dateStr hhmm (one_change at before after)
    in (at + before \<le> wall \<and> wall < at + after \<longrightarrow>
          (0 < before \<longrightarrow> found = Some ((wall - before) * Second)) \<and> (after < 0 \<longrightarrow> found = Some ((wall - after) * Second))) \<and>
       (at + after \<le> wall \<and> wall < at + before \<longrightarrow>
          (0 < after \<longrightarrow> found = Some ((wall - after) * Second)) \<and> (before < 0 \<longrightarrow> found = Some ((wall - before) * Second)))"
  using assms by (auto simp: localToUTC_def date_in_def one_change_def Let_def)

text \<open>New York, 8 March 2026, 02:30: the comment's reading would be 07:30 UTC, it is 06:30 UTC. Oslo, 25 October
  2026, 02:30: it is the second occurrence, 01:30 UTC.\<close>

lemma localToUTC_at_change_witness:
  "localToUTC ''2026-03-08'' ''02:30'' (one_change 1772953200 (- 18000) (- 14400)) = Some (1772951400 * Second) \<and>
   localToUTC ''2026-10-25'' ''02:30'' (one_change 1792890000 7200 3600) = Some (1792891800 * Second)"
proof -
  have "dateOnlyUTC ''2026-03-08'' = Some 20520" "dateOnlyUTC ''2026-10-25'' = Some 20751" "scan_hhmm ''02:30'' = (2, 2, 30)"
    by code_simp+
  with localToUTC_at_change [of "''2026-03-08''" 20520 "''02:30''" 2 30 1772953200 "- 18000" "- 14400"]
    localToUTC_at_change [of "''2026-10-25''" 20751 "''02:30''" 2 30 1792890000 7200 3600]
  show ?thesis by (simp add: Let_def)
qed

end
