(* ===== verification/BookSafety.thy ===== *)
theory BookSafety
  imports BookHandlers SlotSpec
begin

text \<open>
  No page is ever double-booked. The slot check is stated as an interface: whatever accepts a start must leave it
  clear of every busy interval. The booking operations rest on that law alone, and \<open>IsSlotAvailable\<close> keeps it in
  any zone and for any rules.
\<close>

section \<open>What the slot check guarantees\<close>

locale slot_checker =
  fixes accepts :: "PageRules \<Rightarrow> instant \<Rightarrow> instant \<Rightarrow> Interval list \<Rightarrow> bool option"
  assumes accepted_free: "accepts rules t now booked = Some True \<Longrightarrow> slot_free rules booked t (t + slot_dur rules)"
begin

lemma accepted_apart:
  assumes "accepts rules t now booked = Some True" and "b \<in> set booked"
    and "0 \<le> ru_bufferBeforeMin rules" and "0 \<le> ru_bufferAfterMin rules"
  shows "\<not> overlaps t (t + slot_dur rules) (iv_start b) (iv_end b)"
proof -
  have "\<not> overlaps (t - ru_bufferBeforeMin rules * Minute) (t + slot_dur rules + ru_bufferAfterMin rules * Minute)
      (iv_start b) (iv_end b)"
    using accepted_free [OF assms(1)] assms(2) by (auto simp: slot_free_def list_ex_iff)
  moreover have "0 \<le> ru_bufferBeforeMin rules * Minute" "0 \<le> ru_bufferAfterMin rules * Minute"
    using assms(3,4) by (simp_all add: duration_nums)
  ultimately show ?thesis by (auto simp: overlaps_def)
qed

end

definition all_free :: "PageRules \<Rightarrow> Interval list \<Rightarrow> slot_acc \<Rightarrow> bool" where
  "all_free rules booked acc \<longleftrightarrow> list_all (\<lambda>t. slot_free rules booked t (t + slot_dur rules)) (snd acc)"

lemma slot_step_free: "all_free rules booked acc \<Longrightarrow> all_free rules booked (slot_step rules booked now t acc)"
  by (auto simp: slot_step_def all_free_def Let_def)

lemma slot_steps_free: "all_free rules booked acc \<Longrightarrow> all_free rules booked (fold (slot_step rules booked now) ts acc)"
  by (induction ts arbitrary: acc) (simp_all add: slot_step_free)

lemma ranges_loop_free:
  "ranges_loop rules booked now loc dateStr rs acc = Some acc' \<Longrightarrow> all_free rules booked acc \<Longrightarrow> all_free rules booked acc'"
proof (induction rs arbitrary: acc)
  case (Cons r rs)
  from Cons.prems(1) consider "ranges_loop rules booked now loc dateStr rs acc = Some acc'"
    | ts where "ranges_loop rules booked now loc dateStr rs (fold (slot_step rules booked now) ts acc) = Some acc'"
    by (auto split: option.splits if_splits bind_splits)
  then show ?case using Cons.IH Cons.prems(2) slot_steps_free by cases blast+
qed simp

lemma days_loop_free:
  "days_loop rules booked now loc f h is acc = Some acc' \<Longrightarrow> all_free rules booked acc \<Longrightarrow> all_free rules booked acc'"
proof (induction "is" arbitrary: acc)
  case (Cons i "is")
  from Cons.prems(1) consider "acc' = acc"
    | acc1 ds where "ranges_loop rules booked now loc ds (ranges_on rules ds) acc = Some acc1"
        "days_loop rules booked now loc f h is acc1 = Some acc'"
    by (auto simp: Let_def split: if_splits bind_splits)
  then show ?case using Cons.IH Cons.prems(2) ranges_loop_free by cases blast+
qed simp

lemma Slots_free:
  "Slots tzdb rules booked now from to = Some ts \<Longrightarrow> t \<in> set ts \<Longrightarrow> slot_free rules booked t (t + slot_dur rules)"
  using days_loop_free [of rules booked now _ _ _ _ "([], [])"]
  by (fastforce simp: Slots_def Let_def all_free_def list_all_iff split: option.splits if_splits)

interpretation generated: slot_checker "\<lambda>rules t now booked. IsSlotAvailable tzdb rules t now booked"
  for tzdb :: "string \<Rightarrow> location option"
  by unfold_locales (auto simp: IsSlotAvailable_def list_ex_iff intro: Slots_free)

section \<open>The invariant\<close>

definition clash :: "Booking \<Rightarrow> Booking \<Rightarrow> bool" where
  "clash b c \<longleftrightarrow> bk_page b = bk_page c \<and> bk_status b = ''confirmed'' \<and> bk_status c = ''confirmed'' \<and>
     overlaps (bk_start_at b) (bk_end_at b) (bk_start_at c) (bk_end_at c)"

definition page_ok :: "BookingPage \<Rightarrow> bool" where
  "page_ok p \<longleftrightarrow> 15 \<le> bp_slot_duration p \<and> bp_slot_duration p \<le> 480 \<and> bp_buffer_before p \<in> {0..120} \<and> bp_buffer_after p \<in> {0..120} \<and>
     rules_ok (pageRulesFrom p)"

definition book_ok :: "bdb \<Rightarrow> bool" where
  "book_ok d \<longleftrightarrow> tuniq bk_id (b_bookings d) \<and> tuniq bp_id (b_pages d) \<and> list_all page_ok (b_pages d) \<and>
     (\<forall>n. b_fresh d n \<noteq> []) \<and> (\<forall>b \<in> set (b_bookings d). bk_id b \<noteq> []) \<and>
     (\<forall>b \<in> set (b_bookings d). \<forall>c \<in> set (b_bookings d). bk_id b \<noteq> bk_id c \<longrightarrow> \<not> clash b c)"

lemma clash_sym: "clash b c \<longleftrightarrow> clash c b"
  by (auto simp: clash_def overlaps_def)

lemma book_okD:
  assumes "book_ok d"
  shows "tuniq bk_id (b_bookings d)" "tuniq bp_id (b_pages d)" "p \<in> set (b_pages d) \<Longrightarrow> page_ok p"
    "b_fresh d n \<noteq> []" "b \<in> set (b_bookings d) \<Longrightarrow> bk_id b \<noteq> []"
    "b \<in> set (b_bookings d) \<Longrightarrow> c \<in> set (b_bookings d) \<Longrightarrow> bk_id b \<noteq> bk_id c \<Longrightarrow> \<not> clash b c"
  using assms by (auto simp: book_ok_def list_all_iff)

definition same_book :: "bdb \<Rightarrow> bdb \<Rightarrow> bool" where
  "same_book d d' \<longleftrightarrow> b_fresh d' = b_fresh d \<and> b_pages d' = b_pages d \<and> b_bookings d' = b_bookings d"

lemma book_ok_same: "same_book d d' \<Longrightarrow> book_ok d \<Longrightarrow> book_ok d'"
  by (simp add: same_book_def book_ok_def)

text \<open>Steps that leave pages and bookings alone.\<close>

definition aside :: "'a book_tx \<Rightarrow> bool" where
  "aside m \<longleftrightarrow> (\<forall>d x d'. m d = Inr (x, d') \<longrightarrow> same_book d d')"

lemma asideD: "aside m \<Longrightarrow> m d = Inr (x, d') \<Longrightarrow> same_book d d'"
  by (auto simp: aside_def)

lemma aside_tx: "aside m \<Longrightarrow> (\<And>x. aside (k x)) \<Longrightarrow> aside (tx m k)"
  unfolding aside_def tx_Inr_iff same_book_def by metis

lemma aside_for_each: "(\<And>x. aside (f x)) \<Longrightarrow> aside (for_each f xs)"
proof (induction xs)
  case Nil
  show ?case by (simp add: aside_def same_book_def result_simps)
next
  case (Cons x xs)
  then show ?case unfolding for_each.simps by (intro aside_tx) blast+
qed

lemma aside_basic:
  "aside (ret x)" "aside (ensure b e)" "aside (lookup_or e f)" "aside (reads g)" "aside (of_result r)" "aside booking_id"
  by (auto simp: aside_def same_book_def result_simps booking_id_def)

lemma aside_jobs: "aside (book_schedule i)" "aside (book_cancel_job k r)" "aside (page_changed p)"
  by (auto simp: aside_def same_book_def result_simps book_schedule_def book_cancel_job_def page_changed_def booking_id_def Let_def)

lemma aside_if: "aside m \<Longrightarrow> aside m' \<Longrightarrow> aside (if b then m else m')"
  by simp

lemma aside_calls:
  "aside (enqueueMailBooking k i p n)" "aside (armBookingReminder i t)" "aside (cancelBookingReminder i)"
  "aside (enqueueGoogleSync k i n)" "aside (check_slot env page t n busy)" "aside (token_guard env i tok o')"
proof -
  show "aside (enqueueMailBooking k i p n)"
    unfolding enqueueMailBooking_def by (intro aside_for_each) (simp add: enqueueMailBookingTo_def aside_jobs)
  show "aside (armBookingReminder i t)" "aside (cancelBookingReminder i)" "aside (enqueueGoogleSync k i n)"
    by (simp_all add: armBookingReminder_def cancelBookingReminder_def enqueueGoogleSync_def aside_jobs)
  show "aside (check_slot env page t n busy)"
    by (auto simp: check_slot_def aside_def same_book_def result_simps split: option.splits)
  show "aside (token_guard env i tok o')" by (simp add: token_guard_def aside_basic)
qed

lemma keeps_aside: "aside m \<Longrightarrow> keeps book_ok m"
  by (rule keepsI) (blast intro: book_ok_same dest: asideD)

section \<open>Bookings come and go\<close>

lemma book_ok_insert:
  assumes "book_ok d" and "InsertBooking b d = Inr (u, d')" and "bk_id b \<noteq> []"
    and "\<And>c. c \<in> set (b_bookings d) \<Longrightarrow> \<not> clash b c"
  shows "book_ok d'"
proof -
  obtain t where t: "tins bk_id b (b_bookings d) = Some t" "d' = d\<lparr> b_bookings := t \<rparr>"
    using assms(2) by (auto simp: InsertBooking_def split: if_splits option.splits)
  then have d': "b_pages d' = b_pages d" "b_bookings d' = b_bookings d @ [b]" "tuniq bk_id (b_bookings d')"
      "b_fresh d' = b_fresh d"
    using tuniq_tins [OF t(1) book_okD(1) [OF assms(1)]] by (auto simp: tins_def split: if_splits)
  show ?thesis
    unfolding book_ok_def d'(1,4) using d'(2,3) assms(1,3,4) clash_sym by (auto simp: book_ok_def)
qed

lemma book_ok_reschedule:
  assumes "book_ok d"
    and "\<And>b c. b \<in> set (b_bookings d) \<Longrightarrow> bk_id b = i \<Longrightarrow> c \<in> set (b_bookings d) \<Longrightarrow> bk_id c \<noteq> i \<Longrightarrow>
      \<not> clash (b\<lparr> bk_start_at := s, bk_end_at := e, bk_updated_at := n \<rparr>) c"
  shows "book_ok (d\<lparr> b_bookings := tupd (\<lambda>b. bk_id b = i)
    (\<lambda>b. b\<lparr> bk_start_at := s, bk_end_at := e, bk_updated_at := n \<rparr>) (b_bookings d) \<rparr>)"
proof -
  let ?f = "\<lambda>b. b\<lparr> bk_start_at := s, bk_end_at := e, bk_updated_at := n \<rparr>"
  have apart: "\<not> clash (if bk_id b = i then ?f b else b) (if bk_id c = i then ?f c else c)"
    if "b \<in> set (b_bookings d)" "c \<in> set (b_bookings d)" "bk_id b \<noteq> bk_id c" for b c
  proof (cases "bk_id b = i")
    case True
    with that assms(2) [OF that(1) True that(2)] show ?thesis by auto
  next
    case False
    show ?thesis
    proof (cases "bk_id c = i")
      case True
      with False assms(2) [OF that(2) True that(1)] show ?thesis using clash_sym by auto
    next
      case False
      with \<open>bk_id b \<noteq> i\<close> book_okD(6) [OF assms(1) that] show ?thesis by simp
    qed
  qed
  have "tuniq bk_id (tupd (\<lambda>b. bk_id b = i) ?f (b_bookings d))"
    using book_okD(1) [OF assms(1)] by (simp add: tuniq_tupd)
  moreover have "\<forall>b \<in> set (tupd (\<lambda>b. bk_id b = i) ?f (b_bookings d)). \<forall>c \<in> set (tupd (\<lambda>b. bk_id b = i) ?f (b_bookings d)).
      bk_id b \<noteq> bk_id c \<longrightarrow> \<not> clash b c"
    using apart by (fastforce simp: tupd_def split: if_splits)
  moreover have "\<forall>b \<in> set (tupd (\<lambda>b. bk_id b = i) ?f (b_bookings d)). bk_id b \<noteq> []"
    using book_okD(5) [OF assms(1)] by (auto simp: tupd_def)
  ultimately show ?thesis using assms(1) by (simp add: book_ok_def)
qed


text \<open>An accepted start is clear of every confirmed booking of the page, inside the one-day window and outside it.\<close>

lemma accepted_no_clash:
  assumes ok: "book_ok d" and page: "p \<in> set (b_pages d)"
    and yes: "IsSlotAvailable tzdb (pageRulesFrom p) t now busy = Some True"
    and busy: "set (bookedIntervalsForPage (bp_id p) (t - 24 * Hour) (t + 24 * Hour) x d) \<subseteq> set busy"
    and c: "c \<in> set (b_bookings d)" "bk_id c \<noteq> x"
    and b: "bk_page b = bp_id p" "bk_start_at b = t" "bk_end_at b = t + bp_slot_duration p * Minute"
  shows "\<not> clash b c"
proof
  assume clash: "clash b c"
  have p: "15 \<le> bp_slot_duration p" "bp_slot_duration p \<le> 480" "0 \<le> bp_buffer_before p" "0 \<le> bp_buffer_after p"
    using book_okD(3) [OF ok page] by (simp_all add: page_ok_def)
  have rules: "slot_dur (pageRulesFrom p) = bp_slot_duration p * Minute"
    "ru_bufferBeforeMin (pageRulesFrom p) = bp_buffer_before p" "ru_bufferAfterMin (pageRulesFrom p) = bp_buffer_after p"
    by (simp_all add: pageRulesFrom_def)
  show False
  proof (cases "in_span (t - 24 * Hour) (t + 24 * Hour) c")
    case True
    then have "booking_interval c \<in> set busy"
      using busy c b(1) clash
      by (auto simp: bookedIntervalsForPage_def ListConfirmedBookingsInRange_def clash_def)
    from generated.accepted_apart [OF yes this, unfolded rules, OF p(3,4)] clash b(2,3) show False
      by (simp add: clash_def booking_interval_def)
  next
    case False
    moreover have "bp_slot_duration p * Minute < 24 * Hour" using p(2) by (simp add: duration_nums)
    ultimately show False using clash b(2,3) p(1) by (auto simp: in_span_def clash_def overlaps_def duration_nums)
  qed
qed

lemma check_slot_Inr:
  "check_slot env page t now busy d = Inr (u, d') \<longleftrightarrow>
   IsSlotAvailable (be_tzdb env) (pageRulesFrom page) t now busy = Some True \<and> d' = d"
  by (auto simp: check_slot_def result_simps split: option.splits)

lemma page_lookups:
  "GetBookingPage i d = Some p \<Longrightarrow> p \<in> set (b_pages d) \<and> bp_id p = i"
  "GetBookingPageByOrgSlug g s d = Some p \<Longrightarrow> p \<in> set (b_pages d)"
  by (auto simp: GetBookingPage_def GetBookingPageByOrgSlug_def dest: find_SomeD)

lemma Book_ok: "keeps book_ok (Book env orgSlug pageSlug i now)"
proof (rule keepsI)
  fix d r d' assume ok: "book_ok d" and run: "Book env orgSlug pageSlug i now d = Inr (r, d')"
  show "book_ok d'"
    using run unfolding Book_def bookingWindow_def Let_def prod.case
  proof (elim tx_InrE, goal_cases)
    case (1 u0 d0 u1 d1 org d2 pre d3 page d4 u5 d5 u6 d6 existing d7 u8 d8 bid d9 u10 d10 u11 d11 u12 d12 u13 d13 u14 d14)
    have d7: "d7 = d" and page: "page \<in> set (b_pages d)"
      and existing: "existing = bookedIntervalsForPage (bp_id page) (in_start_at i - 24 * Hour) (in_start_at i + 24 * Hour) [] d"
      using 1(1-8) by (auto simp: result_simps GetBookingPageByOrgSlugForUpdate_def dest: page_lookups)
    have yes: "IsSlotAvailable (be_tzdb env) (pageRulesFrom page) (in_start_at i) now
        (in_busy i @ existing @ (if bp_status pre \<noteq> ''paused'' then googleBusyForPage (be_google env) pre
          (in_start_at i - 24 * Hour) (in_start_at i + 24 * Hour) [] else [])) = Some True" and d8: "d8 = d"
      using 1(9) d7 by (auto simp: check_slot_Inr)
    have same: "same_book d d9" using 1(10) d8 by (auto simp: booking_id_def same_book_def)
    then have ok9: "book_ok d9" using ok by (rule book_ok_same)
    have bid: "bid \<noteq> []" using 1(10) book_okD(4) [OF ok] d8 by (auto simp: booking_id_def)
    have ok10: "book_ok d10"
    proof (rule book_ok_insert [OF ok9 1(11)])
      show "bk_id (new_booking bid page i now) \<noteq> []" using bid by (simp add: new_booking_def)
      fix c assume "c \<in> set (b_bookings d9)"
      then have c: "c \<in> set (b_bookings d)" using same by (simp add: same_book_def)
      show "\<not> clash (new_booking bid page i now) c"
        by (rule accepted_no_clash [OF ok page yes _ c book_okD(5) [OF ok c]]) (auto simp: existing new_booking_def)
    qed
    have rest: "aside (if b then armBookingReminder k x else ret ())" "aside (if b then enqueueGoogleSync e k n else ret ())"
      for b k x e n by (simp_all add: aside_if aside_calls aside_basic)
    show ?case
      using ok10 asideD [OF aside_jobs(3) 1(12)] asideD [OF aside_calls(1) 1(13)] asideD [OF rest(1) 1(14)]
        asideD [OF rest(2) 1(15)] asideD [OF aside_basic(1) 1(16)] book_ok_same by metis
  qed
qed



lemma Reschedule_ok: "keeps book_ok (Reschedule env i tok start o' now)"
proof (rule keepsI)
  fix d r d' assume ok: "book_ok d" and run: "Reschedule env i tok start o' now d = Inr (r, d')"
  show "book_ok d'"
    using run unfolding Reschedule_def bookingWindow_def Let_def prod.case
  proof (elim tx_InrE, goal_cases)
    case (1 pre d0 u1 d1 prePage d2 page d3 u4 d4 bk d5 u6 d6 u7 d7 u8 d8 existing d9 u10 d10 u11 d11 u12 d12 u13 d13 u14 d14 u15 d15)
    have d9: "d9 = d" and page: "page \<in> set (b_pages d)" "bp_id page = bk_page pre"
      and pre: "GetBooking i d = Some pre"
      and existing: "existing = bookedIntervalsForPage (bp_id page) (start - 24 * Hour) (start + 24 * Hour) i d"
      using 1(1-10) by (auto simp: result_simps token_guard_def GetBookingPageForUpdate_def dest: page_lookups)
    have yes: "IsSlotAvailable (be_tzdb env) (pageRulesFrom page) start now (existing @ (case prePage of
          None \<Rightarrow> [] | Some p \<Rightarrow> if bk_status pre \<noteq> ''cancelled'' \<and> bp_status p \<noteq> ''paused''
            then googleBusyForPage (be_google env) p (start - 24 * Hour) (start + 24 * Hour) [] else [])) = Some True"
      and d10: "d10 = d"
      using 1(11) d9 by (auto simp: check_slot_Inr)
    have d11: "d11 = d\<lparr> b_bookings := tupd (\<lambda>b. bk_id b = i) (\<lambda>b. b\<lparr> bk_start_at := start,
        bk_end_at := start + bp_slot_duration page * Minute, bk_updated_at := now \<rparr>) (b_bookings d) \<rparr>"
      using 1(12) d10 by (simp add: UpdateBookingSchedule_def result_simps)
    have ok11: "book_ok d11"
      unfolding d11
    proof (rule book_ok_reschedule [OF ok])
      fix b c assume b: "b \<in> set (b_bookings d)" "bk_id b = i" and c: "c \<in> set (b_bookings d)" "bk_id c \<noteq> i"
      have "tget bk_id i (b_bookings d) = Some b" using tget_in_uniq [OF book_okD(1) [OF ok] b(1)] b(2) by simp
      then have "bk_page b = bp_id page" using pre page(2) by (simp add: GetBooking_def)
      then show "\<not> clash (b\<lparr> bk_start_at := start, bk_end_at := start + bp_slot_duration page * Minute, bk_updated_at := now \<rparr>) c"
        by (intro accepted_no_clash [OF ok page(1) yes _ c]) (auto simp: existing)
    qed
    have rest: "aside (if b then armBookingReminder k x else cancelBookingReminder k)"
      "aside (if b then enqueueGoogleSync e k n else ret ())" for b k x e n
      by (simp_all add: aside_if aside_calls aside_basic)
    show ?case
      using ok11 asideD [OF aside_jobs(3) 1(13)] asideD [OF aside_calls(1) 1(14)] asideD [OF rest(1) 1(15)]
        asideD [OF rest(2) 1(16)] asideD [OF aside_basic(1) 1(17)] book_ok_same by metis
  qed
qed

lemma keeps_cancelled: "keeps book_ok (UpdateBookingStatus i ''cancelled'' by now)"
proof -
  let ?f = "\<lambda>b. b\<lparr> bk_status := ''cancelled'', bk_cancelled_by := by, bk_updated_at := now \<rparr>"
  have "book_ok (d\<lparr> b_bookings := tupd (\<lambda>b. bk_id b = i) ?f (b_bookings d) \<rparr>)" if ok: "book_ok d" for d
  proof -
    have "\<forall>b \<in> set (tupd (\<lambda>b. bk_id b = i) ?f (b_bookings d)). bk_id b \<noteq> [] \<and>
        (\<forall>c \<in> set (tupd (\<lambda>b. bk_id b = i) ?f (b_bookings d)). bk_id b \<noteq> bk_id c \<longrightarrow> \<not> clash b c)"
      using book_okD(5,6) [OF ok] by (fastforce simp: tupd_def clash_def)
    with ok show ?thesis by (auto simp: book_ok_def tuniq_tupd)
  qed
  then show ?thesis unfolding UpdateBookingStatus_def by (rule keeps_writes)
qed

lemma Cancel_ok: "keeps book_ok (BookingCancel env i tok o' now)"
  unfolding BookingCancel_def
  by (intro keeps_intros keeps_cancelled keeps_aside aside_calls aside_jobs)

section \<open>Pages come and go\<close>

lemma book_ok_pages:
  assumes "book_ok d" and "b_bookings d' = b_bookings d" and "b_fresh d' = b_fresh d" and "tuniq bp_id (b_pages d')"
    and "\<And>p. p \<in> set (b_pages d') \<Longrightarrow> page_ok p"
  shows "book_ok d'"
  using assms by (simp add: book_ok_def list_all_iff)

lemma day_ok_clock: "day_ok rs \<Longrightarrow> list_all (\<lambda>r. clock_time (tr_start r) \<and> clock_time (tr_end r)) rs"
  by (auto simp: day_ok_def range_ok_def list_all_iff clock_time_def dest!: hhmm_clock)

lemma days_ok_clock: "list_all (\<lambda>(k, rs). pat k \<and> day_ok rs) m \<Longrightarrow> ranges_map_ok m"
  using day_ok_clock by (fastforce simp: ranges_map_ok_def list_all_iff)

lemma Validate_page_ok:
  assumes "PageInput_Validate tzdb i = Inr ()"
  shows "page_ok ((with_input i now p)\<lparr> bp_status := st \<rparr>) \<and> page_ok (with_input i now p)"
proof -
  have "page_numbers i [] = []" and days: "page_days i [] = []"
    using assms by (auto simp: PageInput_Validate_def PageInput_fields_def Let_def page_days_Nil page_numbers_Nil split: if_splits)
  then have numbers: "pg_slot_duration i \<in> {15..480}" "pg_buffer_before i \<in> {0..120}" "pg_buffer_after i \<in> {0..120}"
    by (simp_all add: page_numbers_Nil)
  have "ranges_map_ok (case pg_availability i of None \<Rightarrow> [] | Some m \<Rightarrow> m)"
    "ranges_map_ok (case pg_date_overrides i of None \<Rightarrow> [] | Some m \<Rightarrow> m)"
    using days days_ok_clock by (auto simp: page_days_Nil ranges_map_ok_def [of "[]"] split: option.splits)
  then show ?thesis using numbers by (simp add: page_ok_def with_input_def rules_ok_def pageRulesFrom_def)
qed

lemma CreatePage_ok: "keeps book_ok (CreatePage tzdb g u i now)"
proof (rule keepsI)
  fix d r d' assume ok: "book_ok d" and run: "CreatePage tzdb g u i now d = Inr (r, d')"
  show "book_ok d'"
    using run unfolding CreatePage_def Let_def
  proof (elim tx_InrE, goal_cases)
    case (1 u0 d0 gid d1 uid d2 pid d3 u4 d4)
    have valid: "PageInput_Validate tzdb i = Inr ()" and d2: "d2 = d" using 1(1-3) by (auto simp: result_simps)
    have same: "same_book d d3" using 1(4) d2 by (auto simp: booking_id_def same_book_def)
    let ?p = "(with_input i now (blank_page pid gid uid now))\<lparr> bp_status := ''active'' \<rparr>"
    have d4: "d' = d4" "b_pages d4 = b_pages d3 @ [?p]" "b_bookings d4 = b_bookings d3" "b_fresh d4 = b_fresh d3"
      "tget bp_id (bp_id ?p) (b_pages d3) = None"
      using 1(5,6) by (auto simp: result_simps InsertBookingPage_def split: if_splits)
    have "tuniq bp_id (b_pages d4)"
      using d4(2,5) same book_okD(2) [OF ok] by (auto simp: tuniq_def same_book_def tget_None_iff)
    then show ?case
      using d4 same book_okD(3) [OF ok] Validate_page_ok [OF valid]
      by (intro book_ok_pages [OF ok]) (auto simp: same_book_def)
  qed
qed

lemma UpdateBookingPage_run:
  assumes "UpdateBookingPage i arg d = Inr (u, d')"
  shows "b_bookings d' = b_bookings d \<and> b_fresh d' = b_fresh d \<and> map bp_id (b_pages d') = map bp_id (b_pages d) \<and>
    (\<forall>p \<in> set (b_pages d'). p \<in> set (b_pages d) \<or> (page_ok arg \<longrightarrow> page_ok p))"
  using assms
  by (auto simp: UpdateBookingPage_def tupd_def page_ok_def rules_ok_def pageRulesFrom_def split: option.splits if_splits)

lemma UpdatePage_ok: "keeps book_ok (UpdatePage tzdb pid g i now)"
proof (rule keepsI)
  fix d r d' assume ok: "book_ok d" and run: "UpdatePage tzdb pid g i now d = Inr (r, d')"
  show "book_ok d'"
    using run unfolding UpdatePage_def
  proof (elim tx_InrE, goal_cases)
    case (1 u0 d0 u1 d1 existing d2 u3 d3 u4 d4)
    have valid: "PageInput_Validate tzdb i = Inr ()" and d2: "d2 = d"
      using 1(1-3) by (auto simp: result_simps requireOrgPage_def)
    have "book_ok d3"
      using UpdateBookingPage_run [OF 1(4)] Validate_page_ok [OF valid] book_okD(2,3) [OF ok] d2
      by (intro book_ok_pages [OF ok]) (auto simp: tuniq_def)
    then show ?case
      using asideD [OF aside_jobs(3) 1(5)] asideD [OF aside_basic(1) 1(6)] book_ok_same by metis
  qed
qed

lemma keeps_page_columns:
  assumes "\<And>p. bp_id (f p) = bp_id p" and "\<And>p. page_ok p \<Longrightarrow> page_ok (f p)"
  shows "keeps book_ok (writes (\<lambda>d. d\<lparr> b_pages := tupd q f (b_pages d) \<rparr>))"
proof (rule keeps_writes)
  fix d assume ok: "book_ok d"
  show "book_ok (d\<lparr> b_pages := tupd q f (b_pages d) \<rparr>)"
  proof (rule book_ok_pages [OF ok], goal_cases)
    case 3
    show ?case using book_okD(2) [OF ok] by (simp add: tuniq_tupd assms(1))
  next
    case (4 p)
    then show ?case using book_okD(3) [OF ok] assms(2) by (auto simp: tupd_def)
  qed simp_all
qed

lemma keeps_page_ops [keeps_intros]:
  "keeps book_ok (requireOrgPage i g)" "keeps book_ok (RequireManageablePage i g u)"
  "keeps book_ok (RequireManageableBooking j g u)" "keeps book_ok (RequireOwnerRole g u)"
  "keeps book_ok (DeletePage i g now)" "keeps book_ok (ListMyPages g now)" "keeps book_ok (GetOwnedPage i g)"
  "keeps book_ok (SetOrgSlug g s)" "keeps book_ok (DisableGoogleSyncForMember n now)"
  "keeps book_ok (CreatePage tzdb g u inp now)" "keeps book_ok (UpdatePage tzdb i g inp now)"
proof -
  have deleted: "keeps book_ok (SoftDeleteBookingPage i now)"
    unfolding SoftDeleteBookingPage_def by (rule keeps_page_columns) (simp_all add: page_ok_def pageRulesFrom_def)
  have slug: "keeps book_ok (UpdateOrganizationSlug m s)" for m
    by (auto simp: keeps_def UpdateOrganizationSlug_def book_ok_def split: if_splits)
  show "keeps book_ok (requireOrgPage i g)" "keeps book_ok (RequireManageablePage i g u)"
    "keeps book_ok (RequireManageableBooking j g u)" "keeps book_ok (RequireOwnerRole g u)"
    "keeps book_ok (ListMyPages g now)" "keeps book_ok (GetOwnedPage i g)"
    unfolding requireOrgPage_def RequireManageablePage_def RequireManageableBooking_def RequireOwnerRole_def
      ListMyPages_def GetOwnedPage_def by (intro keeps_intros)+
  show "keeps book_ok (DeletePage i g now)"
    unfolding DeletePage_def requireOrgPage_def by (intro keeps_intros deleted keeps_aside [OF aside_jobs(3)])
  show "keeps book_ok (SetOrgSlug g s)" unfolding SetOrgSlug_def by (intro keeps_intros slug)
  show "keeps book_ok (DisableGoogleSyncForMember n now)"
    unfolding DisableGoogleSyncForMember_def by (rule keeps_page_columns) (simp_all add: page_ok_def pageRulesFrom_def)
qed (rule CreatePage_ok UpdatePage_ok)+

end
