(* ===== verification/BookRuns.thy ===== *)
theory BookRuns
  imports BookSafety
begin

text \<open>
  Runs of the booking service: requests of organisers and visitors, reminders and the purge, in any order, and what
  holds after every run; and what a booking call does on every branch, in terms of the offered slots.
\<close>

section \<open>Requests and runs\<close>

text \<open>What the purge does to pages: those deleted longer than the grace period ago go, unless staff suspended
  them, and their bookings with them (\<^verbatim>\<open>purgeSoftDeleted\<close>).\<close>

definition purged_page :: "instant \<Rightarrow> BookingPage \<Rightarrow> bool" where
  "purged_page now p \<longleftrightarrow> past_grace now (bp_deleted_at p) \<and> bp_suspended_at p = None"

definition purgeBookingPages :: "instant \<Rightarrow> bdb \<Rightarrow> bdb" where
  "purgeBookingPages now d = (let gone = map bp_id (filter (purged_page now) (b_pages d))
     in d\<lparr> b_pages := tdel (purged_page now) (b_pages d),
           b_bookings := tdel (\<lambda>b. bk_page b \<in> set gone) (b_bookings d) \<rparr>)"

datatype book_request =
    NewPage "Session option" PageInput
  | EditPage "Session option" string PageInput
  | DropPage "Session option" string
  | OrgHandle "Session option" string
  | BookSlot "bool option" "Session option" string string bookRequest
  | CancelBooking string "Session option" string
  | MoveBooking string "Session option" string string
  | Remind string
  | PurgePages

fun book_handle :: "book_env \<Rightarrow> (string \<Rightarrow> instant option) \<Rightarrow> book_request \<Rightarrow> instant \<Rightarrow> unit book_handler" where
  "book_handle env parse_time (NewPage s i) now = tx (handleCreatePage (be_tzdb env) s i now) (\<lambda>_. ret ())"
| "book_handle env parse_time (EditPage s p i) now = tx (handleUpdatePage (be_tzdb env) s p i now) (\<lambda>_. ret ())"
| "book_handle env parse_time (DropPage s p) now = handleDeletePage s p now"
| "book_handle env parse_time (OrgHandle s h) now = handleSetOrgSlug s h"
| "book_handle env parse_time (BookSlot t s g p q) now = tx (handleBook env parse_time t s g p q now) (\<lambda>_. ret ())"
| "book_handle env parse_time (CancelBooking t s b) now = handleCancel env t s b now"
| "book_handle env parse_time (MoveBooking t s b w) now = tx (handleReschedule env parse_time t s b w now) (\<lambda>_. ret ())"
| "book_handle env parse_time (Remind b) now = bsvc (handleBookingReminderJob b now)"
| "book_handle env parse_time PurgePages now = writes (purgeBookingPages now)"

definition book_step ::
  "book_env \<Rightarrow> (string \<Rightarrow> instant option) \<Rightarrow> book_request \<times> instant \<Rightarrow> bdb \<Rightarrow> bdb" where
  "book_step env parse_time r d = commit d (book_handle env parse_time (fst r) (snd r) d)"

definition run_bookings ::
  "book_env \<Rightarrow> (string \<Rightarrow> instant option) \<Rightarrow> (book_request \<times> instant) list \<Rightarrow> bdb \<Rightarrow> bdb" where
  "run_bookings env parse_time rs d = fold (book_step env parse_time) rs d"

lemma bsvc_Inr: "bsvc m d = Inr r \<longleftrightarrow> m d = Inr r"
  by (auto simp: bsvc_def split: sum.splits)

lemma keeps_bsvc [keeps_intros]: "keeps P m \<Longrightarrow> keeps P (bsvc m)"
  by (auto simp: keeps_def bsvc_Inr)

lemma keeps_with_org: "(\<And>s. keeps P (next s)) \<Longrightarrow> keeps P (with_org sess next)"
  unfolding with_org_def by (intro keeps_intros)

lemma keeps_requireOwnerSession [keeps_intros]: "keeps P (requireOwnerSession sess)"
  unfolding requireOwnerSession_def by (intro keeps_intros)

text \<open>The routes an organiser takes without a manage token never look at whether the address was verified, unlike every
  other route of the organiser.\<close>

lemma owner_route_unverified:
  "by_credential token (Some (s\<lparr> se_verified := v \<rparr>)) b call = by_credential token (Some s) b call"
  "\<not> se_verified s \<Longrightarrow> owned_page p (Some s) next = raise (BEnvelope 403 ''email_unverified'')"
  by (auto simp: by_credential_def requireOwnerSession_def owned_page_def with_org_def exec_simps fun_eq_iff)

lemma keeps_owned_page:
  "keeps book_ok (owned_page i sess next)" if "\<And>s. keeps book_ok (next s)"
  unfolding owned_page_def by (intro keeps_with_org keeps_intros that)

lemma keeps_by_credential:
  "keeps book_ok (by_credential token sess b call)" if "\<And>t o'. keeps book_ok (call t o')"
  unfolding by_credential_def by (intro keeps_intros that)

lemma keeps_gates [keeps_intros]:
  "keeps P (captcha_gate t s)" "keeps P (rejectGoogleSync i)" "keeps P (parseQueryTime f r)" "keeps P (parseQueryDate r)"
  unfolding captcha_gate_def rejectGoogleSync_def parseQueryTime_def parseQueryDate_def by (intro keeps_intros)+

lemma keeps_reminder: "keeps book_ok (handleBookingReminderJob b now)"
  using keepsD [OF keeps_aside [OF aside_calls(1)]]
  by (auto simp: keeps_def handleBookingReminderJob_def split: option.splits if_splits)

lemma purge_pages_ok: "book_ok d \<Longrightarrow> book_ok (purgeBookingPages now d)"
  by (auto simp: book_ok_def purgeBookingPages_def Let_def tuniq_def distinct_map_filter tdel_def list_all_iff)

lemma keeps_book_handle: "keeps book_ok (book_handle env parse_time r now)"
proof -
  have services: "keeps book_ok (handleCreatePage tz s i now)" "keeps book_ok (handleUpdatePage tz s p i now)"
    "keeps book_ok (handleDeletePage s p now)" "keeps book_ok (handleSetOrgSlug s h)"
    "keeps book_ok (handleBook env parse_time c s g h q now)" for tz s i p h c g q
    unfolding handleCreatePage_def handleUpdatePage_def handleDeletePage_def handleSetOrgSlug_def handleBook_def
    by (intro keeps_with_org keeps_owned_page keeps_intros Book_ok)+
  have managed: "keeps book_ok (handleCancel env t s b now)" "keeps book_ok (handleReschedule env parse_time t s b w now)"
    for t s b w
    unfolding handleCancel_def handleReschedule_def
    by (intro keeps_by_credential keeps_intros Cancel_ok Reschedule_ok)+
  show ?thesis
    by (cases r; simp only: book_handle.simps;
        intro keeps_tx keeps_ret keeps_bsvc services managed keeps_reminder keeps_writes; (erule purge_pages_ok)?)
qed

interpretation book_runs: step_machine "book_step env parse_time" book_ok for env parse_time
proof
  fix s x assume ok: "book_ok s"
  show "book_ok (book_step env parse_time x s)"
    unfolding book_step_def
    by (rule commit_inv [where P = book_ok, OF ok]) (rule keepsD [OF keeps_book_handle ok])
qed

text \<open>C3: No page is ever double-booked. Start from a database without pages and serve any sequence of requests
  (creating, editing and deleting pages, booking, cancelling and moving bookings, by organisers and by visitors
  with or without a valid token), reminders and purges, at any times and in any zones: two different confirmed
  bookings of one page never overlap.\<close>

theorem no_double_booking:
  assumes "b_pages d = []" and "b_bookings d = []" and "\<And>n. b_fresh d n \<noteq> []"
    and "b \<in> set (b_bookings (run_bookings env parse_time rs d))" "c \<in> set (b_bookings (run_bookings env parse_time rs d))"
    and "bk_id b \<noteq> bk_id c" and "bk_page b = bk_page c" and "bk_status b = ''confirmed''" and "bk_status c = ''confirmed''"
  shows "bk_end_at b \<le> bk_start_at c \<or> bk_end_at c \<le> bk_start_at b"
proof -
  have "book_ok d" using assms(1-3) by (simp add: book_ok_def tuniq_def)
  then have "book_ok (run_bookings env parse_time rs d)" unfolding run_bookings_def by (rule book_runs.run_inv)
  from book_okD(6) [OF this assms(4-6)] assms(7-9) show ?thesis by (auto simp: clash_def overlaps_def)
qed

section \<open>What a booking call does\<close>

definition named_page :: "string \<Rightarrow> string \<Rightarrow> bdb \<Rightarrow> BookingPage option" where
  "named_page orgSlug pageSlug d =
     Option.bind (GetOrganizationBySlug orgSlug d) (\<lambda>g. GetBookingPageByOrgSlug (og_id g) pageSlug d)"

definition taken :: "BookingPage \<Rightarrow> bdb \<Rightarrow> Interval list" where
  "taken p d = map booking_interval (filter (\<lambda>b. bk_page b = bp_id p \<and> bk_status b = ''confirmed'') (b_bookings d))"

text \<open>The one-day window in which a booking call looks for conflicts misses none: slot and buffers together stay
  below half a day.\<close>

lemma slot_free_append: "slot_free rules (xs @ ys) s e \<longleftrightarrow> slot_free rules xs s e \<and> slot_free rules ys s e"
  by (auto simp: slot_free_def)

lemma window_enough:
  assumes "page_ok p" and "\<And>b. b \<in> set (b_bookings d) \<Longrightarrow> bk_id b \<noteq> []"
  shows "slot_free (pageRulesFrom p) (bookedIntervalsForPage (bp_id p) (t - 24 * Hour) (t + 24 * Hour) [] d) t
      (t + slot_dur (pageRulesFrom p)) \<longleftrightarrow>
    slot_free (pageRulesFrom p) (taken p d) t (t + slot_dur (pageRulesFrom p))"
proof -
  have far: "in_span (t - 24 * Hour) (t + 24 * Hour) b"
    if "overlaps (t - ru_bufferBeforeMin (pageRulesFrom p) * Minute)
      (t + slot_dur (pageRulesFrom p) + ru_bufferAfterMin (pageRulesFrom p) * Minute) (bk_start_at b) (bk_end_at b)" for b
    using that assms(1) by (auto simp: in_span_def overlaps_def page_ok_def pageRulesFrom_def duration_nums)
  show ?thesis
    using far assms(2)
    by (fastforce simp: slot_free_def list_ex_iff taken_def bookedIntervalsForPage_def ListConfirmedBookingsInRange_def
        booking_interval_def)
qed

lemma for_each_pair: "for_each f [x, y] = tx (f x) (\<lambda>_. tx (f y) (\<lambda>_. ret ()))"
  by simp

lemma book_exec:
  "tx booking_id k d = k (b_fresh d (b_next d)) (d\<lparr> b_next := b_next d + 1 \<rparr>)"
  "tx (page_changed i) m d = m () (d\<lparr> b_event_seq := b_event_seq d + 1, b_events := b_events d @
     [\<lparr> ev_id = b_event_seq d + 1, ev_room = booking_room i, ev_type = ''page.changed'', ev_data = JNull \<rparr>] \<rparr>)"
  "tx (book_schedule i') n d = n () (d\<lparr> b_next := b_next d + 1, b_jobs := Schedule (b_fresh d (b_next d)) i' (b_jobs d) \<rparr>)"
  by (simp_all add: tx_def page_changed_def booking_id_def book_schedule_def writes_def Let_def)

lemma google_off: "googleBusyForPage g p from to xs = xs"
  by (simp add: googleBusyForPage_def googleSyncActive_def split: option.split)

lemma tx_InsertBooking:
  "tx (InsertBooking b) k d = (case InsertBooking b d of Inl e \<Rightarrow> Inl e | Inr (u, d') \<Rightarrow> k () d')"
  by (simp add: tx_def split: sum.split)

lemma tx_InsertBookingPage:
  "tx (InsertBookingPage p) k d = (case InsertBookingPage p d of Inl e \<Rightarrow> Inl e | Inr (u, d') \<Rightarrow> k () d')"
  by (simp add: tx_def split: sum.split)

text \<open>The state after an accepted booking: the row, the event, the two mails and the reminder.\<close>

definition with_job :: "ScheduleInput \<Rightarrow> bdb \<Rightarrow> bdb" where
  "with_job i d = d\<lparr> b_next := b_next d + 1, b_jobs := Schedule (b_fresh d (b_next d)) i (b_jobs d) \<rparr>"

lemma with_job_frame [simp]:
  "b_bookings (with_job i d) = b_bookings d" "b_pages (with_job i d) = b_pages d" "b_events (with_job i d) = b_events d"
  by (simp_all add: with_job_def)

definition booking_mail :: "string \<Rightarrow> string \<Rightarrow> string \<Rightarrow> instant option \<Rightarrow> instant \<Rightarrow> ScheduleInput" where
  "booking_mail kind bid recipient prev now = \<lparr> si_kind = ''mail:booking'', si_room = None, si_run_at = now,
     si_payload = Some (json_of_booking_mail \<lparr> mb_kind = kind, mb_booking = bid,
       mb_recipient = recipient, mb_previous = prev \<rparr>), si_max_attempts = mailBookingMaxAttempts \<rparr>"

definition booking_reminder :: "string \<Rightarrow> instant \<Rightarrow> ScheduleInput" where
  "booking_reminder bid start = \<lparr> si_kind = ''booking.reminder'', si_room = Some (reminderRoomKey bid),
     si_run_at = start - reminderLead, si_payload = Some (JObj [(''bookingId'', JStr bid)]), si_max_attempts = 0 \<rparr>"

definition with_event :: "string \<Rightarrow> bdb \<Rightarrow> bdb" where
  "with_event i d = d\<lparr> b_event_seq := b_event_seq d + 1, b_events := b_events d @
     [\<lparr> ev_id = b_event_seq d + 1, ev_room = booking_room i, ev_type = ''page.changed'', ev_data = JNull \<rparr>] \<rparr>"

definition with_mails :: "string \<Rightarrow> string \<Rightarrow> instant option \<Rightarrow> instant \<Rightarrow> bdb \<Rightarrow> bdb" where
  "with_mails kind bid prev now d =
     with_job (booking_mail kind bid ''organiser'' prev now) (with_job (booking_mail kind bid ''visitor'' prev now) d)"

lemma with_frame [simp]:
  "b_bookings (with_event i d) = b_bookings d" "b_pages (with_event i d) = b_pages d" "b_jobs (with_event i d) = b_jobs d"
  "b_bookings (with_mails k b p n d) = b_bookings d" "b_pages (with_mails k b p n d) = b_pages d"
  "b_events (with_mails k b p n d) = b_events d"
  by (simp_all add: with_event_def with_mails_def)

lemma step_exec:
  "tx (page_changed i) m d = m () (with_event i d)"
  "tx (enqueueMailBooking kind bid prev now) m d = m () (with_mails kind bid prev now d)"
  "tx (armBookingReminder bid start) m d = m () (with_job (booking_reminder bid start) d)"
  by (simp_all add: enqueueMailBooking_def enqueueMailBookingTo_def exec_simps book_exec with_job_def with_mails_def
      with_event_def booking_mail_def booking_reminder_def armBookingReminder_def)

definition after_booking :: "BookingPage \<Rightarrow> BookInput \<Rightarrow> instant \<Rightarrow> bdb \<Rightarrow> bdb" where
  "after_booking p i now d =
     (let bid = b_fresh d (b_next d);
          d' = with_mails ''confirmed'' bid None now (with_event (bp_id p)
            (d\<lparr> b_next := b_next d + 1, b_bookings := b_bookings d @ [new_booking bid p i now] \<rparr>))
      in if bp_reminders p then with_job (booking_reminder bid (in_start_at i)) d' else d')"

lemma Book_run:
  assumes "named_page orgSlug pageSlug d = Some p" and "be_secret env \<noteq> []"
    and "tget bp_id (bp_id p) (b_pages d) \<noteq> None"
    and "tget bk_id (b_fresh d (b_next d)) (b_bookings d) = None"
  shows "Book env orgSlug pageSlug i now d =
    (case BookInput_Validate (be_tzdb env) (be_parse_address env) i of
       Inl e \<Rightarrow> Inl e
     | Inr _ \<Rightarrow>
         if bp_status p = ''paused'' then Inl BPagePaused
         else if in_start_at i < now then Inl BBookingPast
         else (case IsSlotAvailable (be_tzdb env) (pageRulesFrom p) (in_start_at i) now
                 (in_busy i @ bookedIntervalsForPage (bp_id p) (in_start_at i - 24 * Hour) (in_start_at i + 24 * Hour) [] d) of
            None \<Rightarrow> Inl BNever
          | Some False \<Rightarrow> Inl BSlotTaken
          | Some True \<Rightarrow> Inr (\<lparr> br_booking = b_fresh d (b_next d),
              br_token = manageToken (be_mac env) (be_secret env) (b_fresh d (b_next d)),
              br_previous = None, br_changed = True \<rparr>, after_booking p i now d)))"
proof -
  obtain g where g: "GetOrganizationBySlug orgSlug d = Some g" "GetBookingPageByOrgSlug (og_id g) pageSlug d = Some p"
    using assms(1) by (auto simp: named_page_def bind_eq_Some_conv)
  have ins: "InsertBooking (new_booking (b_fresh d (b_next d)) p i now) (d\<lparr> b_next := Suc (b_next d) \<rparr>) =
      Inr ((), d\<lparr> b_next := Suc (b_next d), b_bookings := b_bookings d @ [new_booking (b_fresh d (b_next d)) p i now] \<rparr>)"
    using assms(3,4) by (simp add: InsertBooking_def new_booking_def tins_def)
  show ?thesis
    using assms(2)
    by (auto simp: Book_def g GetBookingPageByOrgSlugForUpdate_def bookingWindow_def google_off exec_simps
        check_slot_def book_exec(1) tx_InsertBooking ins step_exec googleSyncActive_def after_booking_def Let_def
        split: sum.split option.split bool.split)
qed

lemma Book_offered:
  assumes "book_ok d" and "named_page orgSlug pageSlug d = Some p" and "be_secret env \<noteq> []"
    and "tget bk_id (b_fresh d (b_next d)) (b_bookings d) = None"
    and "be_tzdb env (bp_timezone p) = Some loc" and "sane loc"
    and "calendar_ok loc (in_start_at i - 24 * Hour)" and "calendar_ok loc (in_start_at i + 24 * Hour)"
    and "calendar_ok loc (horizon (pageRulesFrom p) now)"
  shows "Book env orgSlug pageSlug i now d =
    (case BookInput_Validate (be_tzdb env) (be_parse_address env) i of
       Inl e \<Rightarrow> Inl e
     | Inr _ \<Rightarrow>
         if bp_status p = ''paused'' then Inl BPagePaused
         else if in_start_at i < now then Inl BBookingPast
         else if \<not> offered (pageRulesFrom p) loc (in_busy i @ taken p d) now (in_start_at i) then Inl BSlotTaken
         else Inr (\<lparr> br_booking = b_fresh d (b_next d),
              br_token = manageToken (be_mac env) (be_secret env) (b_fresh d (b_next d)),
              br_previous = None, br_changed = True \<rparr>, after_booking p i now d))"
proof -
  have p: "p \<in> set (b_pages d)" using assms(2) by (auto simp: named_page_def bind_eq_Some_conv dest: page_lookups)
  then have page: "page_ok p" "tget bp_id (bp_id p) (b_pages d) \<noteq> None"
    using book_okD(2,3) [OF assms(1)] tget_in_uniq by fastforce+
  let ?window = "bookedIntervalsForPage (bp_id p) (in_start_at i - 24 * Hour) (in_start_at i + 24 * Hour) [] d"
  have "bookable (pageRulesFrom p) (in_busy i @ ?window) now (in_start_at i) \<longleftrightarrow>
      bookable (pageRulesFrom p) (in_busy i @ taken p d) now (in_start_at i)"
    using window_enough [OF page(1) book_okD(5) [OF assms(1)], of d "in_start_at i"]
    by (auto simp: bookable_def slot_free_append)
  then have same: "offered (pageRulesFrom p) loc (in_busy i @ ?window) now (in_start_at i) =
      offered (pageRulesFrom p) loc (in_busy i @ taken p d) now (in_start_at i)"
    by (simp add: offered_def)
  have "be_tzdb env (ru_timezone (pageRulesFrom p)) = Some loc" "rules_ok (pageRulesFrom p)"
    using assms(5) page(1) by (simp_all add: pageRulesFrom_def page_ok_def)
  from slot_check_offered [where tzdb = "be_tzdb env", OF this(1) assms(6) this(2) assms(7-9), of "in_busy i @ ?window"]
  show ?thesis
    unfolding Book_run [OF assms(2,3) page(2) assms(4)] same by (auto split: sum.split)
qed

text \<open>C10: A booking call does exactly this. On a page that can be reached it refuses, in this order, an invalid
  request, a paused page, a start in the past, and a start the page does not offer: one that is not on a day's grid,
  misses the notice or the horizon, or whose buffered span meets any confirmed booking of the page (the one-day
  window it reads is wide enough) or a busy interval of the caller. Otherwise it stores the booking with the page's
  duration, announces it to the page's room, queues one mail each to the visitor and the organiser, and, when the
  page sends reminders, one reminder a day before the start; it returns the manage token of the booking.\<close>

theorem Book_outcome:
  assumes "book_ok d" and "named_page orgSlug pageSlug d = Some p" and "be_secret env \<noteq> []"
    and "tget bk_id (b_fresh d (b_next d)) (b_bookings d) = None"
    and "be_tzdb env (bp_timezone p) = Some loc" and "sane loc"
    and "calendar_ok loc (in_start_at i - 24 * Hour)" and "calendar_ok loc (in_start_at i + 24 * Hour)"
    and "calendar_ok loc (horizon (pageRulesFrom p) now)"
  shows "Book env orgSlug pageSlug i now d =
    (case BookInput_Validate (be_tzdb env) (be_parse_address env) i of
       Inl e \<Rightarrow> Inl e
     | Inr _ \<Rightarrow>
         if bp_status p = ''paused'' then Inl BPagePaused
         else if in_start_at i < now then Inl BBookingPast
         else if \<not> offered (pageRulesFrom p) loc (in_busy i @ taken p d) now (in_start_at i) then Inl BSlotTaken
         else Inr (\<lparr> br_booking = b_fresh d (b_next d),
              br_token = manageToken (be_mac env) (be_secret env) (b_fresh d (b_next d)),
              br_previous = None, br_changed = True \<rparr>, after_booking p i now d))"
  by (rule Book_offered [OF assms])

subsection \<open>A page with two bookings\<close>

definition demo_book_env :: book_env where
  "demo_book_env = \<lparr> be_tzdb = demo_zones, be_parse_address = Some, be_mac = demo_mac, be_secret = ''k'', be_google = None \<rparr>"

definition demo_page_input :: PageInput where
  "demo_page_input = \<lparr> pg_slug = ''abc'', pg_title = ''T'', pg_description = None, pg_location = None, pg_timezone = ''X'',
     pg_slot_duration = 30, pg_buffer_before = 0, pg_buffer_after = 15, pg_min_notice = 0, pg_max_days_ahead = 30,
     pg_availability = Some [(''4'', [\<lparr> tr_start = ''09:00'', tr_end = ''10:00'' \<rparr>])], pg_date_overrides = None,
     pg_google_sync = False, pg_reminders = False, pg_status = [] \<rparr>"

definition demo_bdb :: bdb where
  "demo_bdb = \<lparr> b_pages = [], b_bookings = [], b_users = [sample_user 7], b_orgs = [\<lparr> og_id = 1, og_slug = ''org'', og_name = ''O'' \<rparr>],
     b_members = [], b_jobs = [], b_events = [], b_event_seq = 0, b_fresh = (\<lambda>n. replicate (Suc n) CHR ''a''), b_next = 0 \<rparr>"

definition demo_page :: BookingPage where
  "demo_page = (with_input demo_page_input 0 (blank_page ''a'' 1 7 0))\<lparr> bp_status := ''active'' \<rparr>"

definition demo_request :: "string \<Rightarrow> bookRequest" where
  "demo_request t = \<lparr> rq_start_at = t, rq_name = ''A'', rq_email = ''e'', rq_note = None, rq_locale = None, rq_timezone = ''X'' \<rparr>"

definition demo_times :: "string \<Rightarrow> instant option" where
  "demo_times s = (if s = ''first'' then Some (8 * Hour) else if s = ''second'' then Some (8 * Hour + 30 * Minute) else None)"

definition demo_book_input :: "instant \<Rightarrow> BookInput" where
  "demo_book_input t = \<lparr> in_start_at = t, in_name = ''A'', in_email = ''e'', in_note = None, in_locale = None,
     in_timezone = ''X'', in_busy = [] \<rparr>"

definition demo_organiser :: "Session option" where
  "demo_organiser = Some \<lparr> se_user = ''7'', se_org = ''1'', se_verified = True \<rparr>"

lemma demo_page_rules: "pageRulesFrom demo_page = demo_rules"
  by (simp add: pageRulesFrom_def demo_page_def with_input_def demo_page_input_def demo_rules_def)

lemma demo_page_valid: "PageInput_Validate demo_zones demo_page_input = Inr ()"
proof -
  have "TrimSpace ''T'' = ''T''" by (simp add: TrimSpace_plain printable_def)
  moreover have "handleSlugRegexp ''abc''" "weekdayKeyRegexp ''4''" "hhmmRegexp ''09:00''" "hhmmRegexp ''10:00''" by code_simp+
  moreover have "toMinutes ''09:00'' = 540" "toMinutes ''10:00'' = 600" by (simp_all add: toMinutes_def demo_clock)
  ultimately show ?thesis
    unfolding PageInput_Validate_fields PageInput_fields_Nil
    by (simp add: demo_page_input_def demo_zones_def longer_than_def day_ok_def range_ok_def)
qed

lemma demo_page_created: "book_handle demo_book_env demo_times (NewPage demo_organiser demo_page_input) 0 demo_bdb =
    Inr ((), demo_bdb\<lparr> b_pages := [demo_page], b_next := 1 \<rparr>)"
proof -
  have nums: "ParseInt ''7'' = Some 7" "ParseInt ''1'' = Some 1"
    by (simp_all add: ParseInt_def parse_nat_def digit_val_def in_int64_def)
  have "\<not> pg_google_sync demo_page_input" by (simp add: demo_page_input_def)
  then have "CreatePage demo_zones ''1'' ''7'' demo_page_input 0 demo_bdb =
      Inr (toPageView demo_page, demo_bdb\<lparr> b_pages := [demo_page], b_next := 1 \<rparr>)"
    by (simp add: CreatePage_def exec_simps demo_page_valid nums book_exec(1) tx_InsertBookingPage InsertBookingPage_def Let_def demo_bdb_def
        tget_def slug_taken_def blank_page_def with_input_def known_user_def sample_user_def demo_page_def)
  then show ?thesis
    by (simp add: demo_book_env_def handleCreatePage_def demo_organiser_def with_org_def exec_simps rejectGoogleSync_def
        demo_page_input_def tx_def bsvc_def)
qed

lemma demo_input_valid: "BookInput_Validate demo_zones Some (demo_book_input t) = Inr ()"
proof -
  have "TrimSpace ''A'' = ''A''" by (simp add: TrimSpace_plain printable_def)
  then show ?thesis
    by (simp add: BookInput_Validate_def BookInput_fields_def demo_book_input_def Let_def validateTimezone_def demo_zones_def
        longer_than_def validateEmail_def)
qed

definition demo_open :: bdb where
  "demo_open = demo_bdb\<lparr> b_pages := [demo_page], b_next := 1 \<rparr>"

lemma demo_book_facts:
  "bp_status demo_page = ''active''" "bp_timezone demo_page = ''X''" "bp_id demo_page = ''a''" "\<not> bp_reminders demo_page"
  "in_start_at (demo_book_input t) = t" "in_busy (demo_book_input t) = []"
  "b_fresh demo_open n = replicate (Suc n) CHR ''a''" "b_next demo_open = 1" "b_bookings demo_open = []"
  "be_tzdb demo_book_env = demo_zones" "be_parse_address demo_book_env = Some" "be_secret demo_book_env = ''k''"
  "be_mac demo_book_env = demo_mac" "b_pages demo_open = [demo_page]" "demo_zones ''X'' = Some (fixed_zone 3600)"
  by (simp_all add: demo_page_def with_input_def demo_page_input_def demo_book_input_def demo_open_def demo_bdb_def
      demo_book_env_def demo_zones_def blank_page_def)

lemma demo_book_ok: "book_ok demo_open"
  using Validate_page_ok [OF demo_page_valid, where p = "blank_page ''a'' 1 7 0" and now = 0 and st = "''active''"]
  by (simp add: book_ok_def demo_open_def demo_bdb_def tuniq_def demo_page_def)

lemma demo_named:
  "b_orgs d = b_orgs demo_open \<Longrightarrow> b_pages d = [demo_page] \<Longrightarrow> named_page ''org'' ''abc'' d = Some demo_page"
  by (simp add: named_page_def demo_open_def demo_bdb_def GetOrganizationBySlug_def GetBookingPageByOrgSlug_def demo_page_def
      with_input_def demo_page_input_def blank_page_def live_page_def)

lemma Book_outcome_witness:
  "Book demo_book_env ''org'' ''abc'' (demo_book_input (8 * Hour)) 0 demo_open =
     Inr (\<lparr> br_booking = ''aa'', br_token = manageToken demo_mac ''k'' ''aa'', br_previous = None, br_changed = True \<rparr>,
       after_booking demo_page (demo_book_input (8 * Hour)) 0 demo_open)"
proof -
  have "taken demo_page demo_open = []" by (simp add: taken_def demo_book_facts)
  with Book_outcome [OF demo_book_ok demo_named [OF refl], of demo_book_env "fixed_zone 3600" "demo_book_input (8 * Hour)" 0]
    demo_sane demo_calendar(2-4) demo_offered
  show ?thesis by (simp add: demo_page_rules demo_input_valid demo_book_facts tget_def duration_nums)
qed

lemma demo_booked:
  assumes "Book demo_book_env ''org'' ''abc'' (demo_book_input t) 0 d = Inr (r, d')" and "GetBooking (br_booking r) d' \<noteq> None"
    and "demo_times w = Some t"
  shows "book_handle demo_book_env demo_times (BookSlot None None ''org'' ''abc'' (demo_request w)) 0 d = Inr ((), d')"
  using assms
  by (auto simp: handleBook_def exec_simps captcha_gate_def demo_request_def demo_book_input_def bsvc_def tx_def lookup_or_def
      ret_def split: option.splits)

definition demo_after :: bdb where
  "demo_after = after_booking demo_page (demo_book_input (8 * Hour)) 0 demo_open"

lemma demo_accepts:
  assumes "book_ok d" and "b_orgs d = b_orgs demo_open" and "b_pages d = [demo_page]"
    and "tget bk_id (b_fresh d (b_next d)) (b_bookings d) = None"
    and "calendar_ok (fixed_zone 3600) (t - 24 * Hour)" and "calendar_ok (fixed_zone 3600) (t + 24 * Hour)"
    and "offered demo_rules (fixed_zone 3600) (taken demo_page d) 0 t" and "0 \<le> t"
  shows "\<exists>r. Book demo_book_env ''org'' ''abc'' (demo_book_input t) 0 d =
    Inr (r, after_booking demo_page (demo_book_input t) 0 d) \<and> br_booking r = b_fresh d (b_next d)"
  using Book_offered [OF assms(1) demo_named [OF assms(2,3)], of demo_book_env "fixed_zone 3600" "demo_book_input t" 0]
    assms demo_sane demo_calendar(4)
  by (simp add: demo_page_rules demo_input_valid demo_book_facts)

lemma demo_first: "\<exists>r. Book demo_book_env ''org'' ''abc'' (demo_book_input (8 * Hour)) 0 demo_open = Inr (r, demo_after) \<and>
    br_booking r = ''aa''"
proof -
  have "taken demo_page demo_open = []" by (simp add: taken_def demo_book_facts)
  then show ?thesis
    unfolding demo_after_def
    using demo_accepts [OF demo_book_ok refl, of "8 * Hour"] demo_calendar(2,3) demo_offered
    by (simp add: demo_book_facts tget_def duration_nums)
qed

lemma demo_after_facts:
  "b_bookings demo_after = [new_booking ''aa'' demo_page (demo_book_input (8 * Hour)) 0]" "b_pages demo_after = [demo_page]"
  "b_orgs demo_after = b_orgs demo_open" "b_fresh demo_after n = replicate (Suc n) CHR ''a''" "b_next demo_after = 4"
  by (simp_all add: demo_after_def after_booking_def Let_def demo_book_facts with_mails_def with_job_def with_event_def)

lemma demo_offered_second: "offered demo_rules (fixed_zone 3600) (taken demo_page demo_after) 0 (8 * Hour + 30 * Minute)"
proof -
  have "taken demo_page demo_after = [\<lparr> iv_start = 8 * Hour, iv_end = 8 * Hour + 30 * Minute \<rparr>]"
    by (simp add: taken_def demo_after_facts new_booking_def booking_interval_def demo_book_facts)
      (simp add: demo_page_def with_input_def demo_page_input_def)
  moreover have "on_day demo_rules (fixed_zone 3600) (formatDate 0) (8 * Hour + 30 * Minute)"
    unfolding on_day_def demo_day(2) in_range_def
    by (auto simp: demo_day demo_rules_def duration_nums intro!: exI [of _ 1])
  ultimately show ?thesis
    using demo_day(1) by (auto simp: offered_def bookable_def slot_free_def overlaps_def demo_rules_def duration_nums)
qed

lemma demo_second: "\<exists>r. Book demo_book_env ''org'' ''abc'' (demo_book_input (8 * Hour + 30 * Minute)) 0 demo_after =
    Inr (r, after_booking demo_page (demo_book_input (8 * Hour + 30 * Minute)) 0 demo_after) \<and> br_booking r = ''aaaaa''"
proof -
  obtain r where "Book demo_book_env ''org'' ''abc'' (demo_book_input (8 * Hour)) 0 demo_open = Inr (r, demo_after)"
    using demo_first by blast
  then have "book_ok demo_after" by (rule keepsD [OF Book_ok demo_book_ok])
  moreover have "calendar_ok (fixed_zone 3600) (8 * Hour + 30 * Minute - 24 * Hour)"
    "calendar_ok (fixed_zone 3600) (8 * Hour + 30 * Minute + 24 * Hour)" by code_simp+
  moreover have "(0::int) \<le> 8 * Hour + 30 * Minute" by (simp add: duration_nums)
  moreover have "replicate 5 CHR ''a'' = ''aaaaa''" by (simp add: numeral_eq_Suc)
  ultimately show ?thesis
    using demo_accepts [of demo_after "8 * Hour + 30 * Minute"] demo_offered_second
    by (simp add: demo_after_facts tget_def new_booking_def)
qed

definition demo_book_run :: "(book_request \<times> instant) list" where
  "demo_book_run = [(NewPage demo_organiser demo_page_input, 0),
     (BookSlot None None ''org'' ''abc'' (demo_request ''first''), 0), (BookSlot None None ''org'' ''abc'' (demo_request ''second''), 0)]"

lemma no_double_booking_witness:
  "\<exists>b c. {b, c} \<subseteq> set (b_bookings (run_bookings demo_book_env demo_times demo_book_run demo_bdb)) \<and>
     bk_id b = ''aa'' \<and> bk_id c = ''aaaaa'' \<and> bk_page b = bk_page c \<and>
     (bk_end_at b \<le> bk_start_at c \<or> bk_end_at c \<le> bk_start_at b)"
proof -
  let ?b = "new_booking ''aa'' demo_page (demo_book_input (8 * Hour)) 0"
  let ?c = "new_booking ''aaaaa'' demo_page (demo_book_input (8 * Hour + 30 * Minute)) 0"
  let ?d = "after_booking demo_page (demo_book_input (8 * Hour + 30 * Minute)) 0 demo_after"
  have "replicate 5 CHR ''a'' = ''aaaaa''" by (simp add: numeral_eq_Suc)
  then have d: "b_bookings ?d = [?b, ?c]"
    by (simp add: after_booking_def Let_def demo_book_facts demo_after_facts)
  obtain r s where r: "Book demo_book_env ''org'' ''abc'' (demo_book_input (8 * Hour)) 0 demo_open = Inr (r, demo_after)" "br_booking r = ''aa''"
    and s: "Book demo_book_env ''org'' ''abc'' (demo_book_input (8 * Hour + 30 * Minute)) 0 demo_after = Inr (s, ?d)" "br_booking s = ''aaaaa''"
    using demo_first demo_second by blast
  have got: "GetBooking (br_booking r) demo_after \<noteq> None" "GetBooking (br_booking s) ?d \<noteq> None"
    by (simp_all add: GetBooking_def tget_def r(2) s(2) demo_after_facts d new_booking_def)
  have run: "run_bookings demo_book_env demo_times demo_book_run demo_bdb = ?d"
    using demo_page_created demo_booked [OF r(1) got(1), of "''first''"] demo_booked [OF s(1) got(2), of "''second''"]
    by (simp add: run_bookings_def demo_book_run_def book_step_def demo_open_def demo_times_def)
  have b: "bk_id ?b = ''aa''" "bk_id ?c = ''aaaaa''" "bk_page ?b = bk_page ?c" "bk_status ?b = ''confirmed''" "bk_status ?c = ''confirmed''"
    by (simp_all add: new_booking_def)
  have start: "b_pages demo_bdb = []" "b_bookings demo_bdb = []" "\<And>n. b_fresh demo_bdb n \<noteq> []"
    by (simp_all add: demo_bdb_def)
  have "bk_end_at ?b \<le> bk_start_at ?c \<or> bk_end_at ?c \<le> bk_start_at ?b"
    by (rule no_double_booking [OF start, where env = demo_book_env and parse_time = demo_times and rs = demo_book_run])
      (simp_all add: run d b)
  then show ?thesis unfolding run d using b by (intro exI [of _ ?b] exI [of _ ?c]) simp
qed

end
