(* ===== verification/BookMail.thy ===== *)
theory BookMail
  imports BookRuns Mailer
begin

text \<open>
  The mail half of \<^verbatim>\<open>internal/bookings/emails.go\<close>, the calendar file of \<^verbatim>\<open>internal/bookings/ics.go\<close> and its
  download. \<open>locale_for\<close> is the lookup of a user's language, \<open>appURL\<close> the address of the application.
\<close>

section \<open>The calendar file\<close>

definition BuildBookingICS ::
  "string \<Rightarrow> string \<Rightarrow> string \<Rightarrow> string \<Rightarrow> instant \<Rightarrow> instant \<Rightarrow> string \<Rightarrow> instant \<Rightarrow> string" where
  "BuildBookingICS bookingID title description loc startAt endAt bookingURL now =
     BuildCalendar
       ([''BEGIN:VEVENT'', ''UID:'' @ EscapeText (bookingID @ ''@whenweall''), ''DTSTAMP:'' @ FormatUTCBasic now,
         ''DTSTART:'' @ FormatUTCBasic startAt, ''DTEND:'' @ FormatUTCBasic endAt, ''SUMMARY:'' @ EscapeText title] @
        (if description \<noteq> [] then [''DESCRIPTION:'' @ EscapeText description] else []) @
        (if loc \<noteq> [] then [''LOCATION:'' @ EscapeText loc] else []) @
        [''URL:'' @ EscapeText bookingURL, ''END:VEVENT''])"

definition nullString :: "string option \<Rightarrow> string" where
  "nullString s = (case s of None \<Rightarrow> [] | Some x \<Rightarrow> x)"

definition pageLocationText :: "BookingPage \<Rightarrow> string" where "pageLocationText p = nullString (bp_location p)"
definition pageDescriptionText :: "BookingPage \<Rightarrow> string" where "pageDescriptionText p = nullString (bp_description p)"

definition bookingManageURL :: "book_env \<Rightarrow> string \<Rightarrow> string \<Rightarrow> string" where
  "bookingManageURL env appURL bookingID =
     appURL @ ''/booking/'' @ bookingID @ ''?t='' @ manageToken (be_mac env) (be_secret env) bookingID"

definition bookingDashboardURL :: "string \<Rightarrow> string \<Rightarrow> string" where
  "bookingDashboardURL appURL pageID = appURL @ ''/bookings/'' @ pageID"

definition bookingPublicPageURL :: "string \<Rightarrow> string \<Rightarrow> string \<Rightarrow> string" where
  "bookingPublicPageURL appURL orgSlug pageSlug = appURL @ ''/book/'' @ orgSlug @ ''/'' @ pageSlug"

definition booking_calendar :: "book_env \<Rightarrow> string \<Rightarrow> Booking \<Rightarrow> BookingPage \<Rightarrow> instant \<Rightarrow> string" where
  "booking_calendar env appURL b p now =
     BuildBookingICS (bk_id b) (bp_title p) (pageDescriptionText p) (pageLocationText p) (bk_start_at b) (bk_end_at b)
       (bookingManageURL env appURL (bk_id b)) now"

definition bookingICSAttachment :: "book_env \<Rightarrow> string \<Rightarrow> Booking \<Rightarrow> BookingPage \<Rightarrow> instant \<Rightarrow> Attachment list" where
  "bookingICSAttachment env appURL b p now =
     [\<lparr> at_filename = ''calendar.ics'', at_type = ''text/calendar'', at_content = booking_calendar env appURL b p now \<rparr>]"

definition BookingICS :: "book_env \<Rightarrow> string \<Rightarrow> string \<Rightarrow> bool \<Rightarrow> string \<Rightarrow> instant \<Rightarrow> string book_tx" where
  "BookingICS env bookingID token byOrganiser appURL now =
     tx (lookup_or BNotFound (GetBooking bookingID)) (\<lambda>booking.
     tx (token_guard env bookingID token byOrganiser) (\<lambda>_.
     tx (lookup_or BNotFound (GetBookingPage (bk_page booking))) (\<lambda>page.
     ret (booking_calendar env appURL booking page now))))"

definition handleBookingICS ::
  "book_env \<Rightarrow> string \<Rightarrow> string \<Rightarrow> Session option \<Rightarrow> string \<Rightarrow> instant \<Rightarrow> (string \<times> string) book_handler" where
  "handleBookingICS env appURL token sess bookingID now =
     tx (by_credential token sess bookingID (\<lambda>t o'. BookingICS env bookingID t o' appURL now)) (\<lambda>ics.
     ret (''whenweall-booking-'' @ bookingID @ ''.ics'', ics))"

section \<open>Who and when\<close>

definition resolveOrganiser :: "BookingPage \<Rightarrow> Organization \<Rightarrow> bdb \<Rightarrow> string \<times> User option" where
  "resolveOrganiser p g d =
     (case Option.bind (bp_member_user p) (\<lambda>u. BookUser u d) of
        None \<Rightarrow> (og_name g, None) | Some u \<Rightarrow> (displayName u, Some u))"

definition organiserLocale :: "(string \<Rightarrow> string) option \<Rightarrow> User \<Rightarrow> string" where
  "organiserLocale locale_for owner =
     (case locale_for of None \<Rightarrow> ''en''
      | Some f \<Rightarrow> let l = f (FormatInt (u_id owner)) in if l \<noteq> [] then l else ''en'')"

definition bookingWhenText ::
  "(string \<Rightarrow> location option) \<Rightarrow> string \<Rightarrow> instant \<Rightarrow> instant option \<Rightarrow> string \<Rightarrow> string" where
  "bookingWhenText tzdb locale start end' timezone =
     (let loc = location_or_UTC tzdb timezone
      in case end' of None \<Rightarrow> FormatDateTime locale start loc
         | Some e \<Rightarrow> FormatDate locale start loc @ '', '' @ FormatTimeRange start e loc)"

section \<open>The mails\<close>

definition message :: "string \<Rightarrow> string \<Rightarrow> (string \<times> string) list \<Rightarrow> Attachment list \<Rightarrow> Message" where
  "message recipient template texts attachments = \<lparr> ms_to = recipient, ms_to_name = [], ms_template = template,
     ms_data = map (\<lambda>(k, v). (k, MText v)) texts, ms_attachments = attachments \<rparr>"

record mail_ctx =
  mc_env :: book_env
  mc_locale_for :: "(string \<Rightarrow> string) option"
  mc_app_url :: string

abbreviation booking_when :: "mail_ctx \<Rightarrow> string \<Rightarrow> Booking \<Rightarrow> string \<Rightarrow> string" where
  "booking_when c locale b tz \<equiv> bookingWhenText (be_tzdb (mc_env c)) locale (bk_start_at b) (Some (bk_end_at b)) tz"

definition composeBookingConfirmed ::
  "mail_ctx \<Rightarrow> string \<Rightarrow> Booking \<Rightarrow> BookingPage \<Rightarrow> Organization \<Rightarrow> instant \<Rightarrow> bdb \<Rightarrow> Message option" where
  "composeBookingConfirmed c recipient b p g now d =
     (let (organiserName, owner) = resolveOrganiser p g d;
          attachments = bookingICSAttachment (mc_env c) (mc_app_url c) b p now
      in if recipient = ''visitor'' then
           (let locale = orDefaultLocale (bk_visitor_locale b)
            in Some (message (bk_visitor_email b) ''booking_confirmed''
                 [(''VisitorName'', bk_visitor_name b), (''PageTitle'', bp_title p), (''OrganiserName'', organiserName),
                  (''When'', booking_when c locale b (bk_visitor_timezone b)), (''Location'', pageLocationText p),
                  (''ManageURL'', bookingManageURL (mc_env c) (mc_app_url c) (bk_id b)), (''Locale'', locale)] attachments))
         else map_option (\<lambda>u. let locale = organiserLocale (mc_locale_for c) u
            in message (u_email u) ''booking_organiser_notice''
                 [(''PageTitle'', bp_title p), (''VisitorName'', bk_visitor_name b), (''VisitorEmail'', bk_visitor_email b),
                  (''VisitorNote'', nullString (bk_visitor_note b)), (''When'', booking_when c locale b (bp_timezone p)),
                  (''Location'', pageLocationText p), (''ViewURL'', bookingDashboardURL (mc_app_url c) (bp_id p)),
                  (''Locale'', locale)] attachments) owner)"

definition composeBookingCancelled ::
  "mail_ctx \<Rightarrow> string \<Rightarrow> Booking \<Rightarrow> BookingPage \<Rightarrow> Organization \<Rightarrow> bdb \<Rightarrow> Message option" where
  "composeBookingCancelled c recipient b p g d =
     (let owner = snd (resolveOrganiser p g d);
          cancelledBy = (case bk_cancelled_by b of None \<Rightarrow> ''organiser'' | Some s \<Rightarrow> s)
      in if recipient = ''visitor'' then
           (let locale = orDefaultLocale (bk_visitor_locale b)
            in Some (message (bk_visitor_email b) ''booking_cancelled''
                 [(''RecipientName'', bk_visitor_name b), (''PageTitle'', bp_title p),
                  (''When'', booking_when c locale b (bk_visitor_timezone b)),
                  (''CancelledBy'', if cancelledBy = ''visitor'' then ''you'' else ''organiser''),
                  (''ViewURL'', bookingPublicPageURL (mc_app_url c) (og_slug g) (bp_slug p)), (''Locale'', locale)] []))
         else map_option (\<lambda>u. let locale = organiserLocale (mc_locale_for c) u
            in message (u_email u) ''booking_cancelled''
                 [(''RecipientName'', displayName u), (''PageTitle'', bp_title p), (''When'', booking_when c locale b (bp_timezone p)),
                  (''CancelledBy'', if cancelledBy = ''organiser'' then ''you'' else ''visitor''),
                  (''VisitorName'', bk_visitor_name b), (''ViewURL'', bookingDashboardURL (mc_app_url c) (bp_id p)),
                  (''Locale'', locale)] []) owner)"

definition previous_when :: "mail_ctx \<Rightarrow> string \<Rightarrow> Booking \<Rightarrow> instant option \<Rightarrow> string \<Rightarrow> string" where
  "previous_when c locale b previous tz =
     (case previous of None \<Rightarrow> booking_when c locale b tz
      | Some t \<Rightarrow> bookingWhenText (be_tzdb (mc_env c)) locale t None tz)"

definition composeBookingRescheduled ::
  "mail_ctx \<Rightarrow> string \<Rightarrow> Booking \<Rightarrow> BookingPage \<Rightarrow> Organization \<Rightarrow> instant option \<Rightarrow> instant \<Rightarrow> bdb \<Rightarrow> Message option" where
  "composeBookingRescheduled c recipient b p g previous now d =
     (let (organiserName, owner) = resolveOrganiser p g d;
          attachments = bookingICSAttachment (mc_env c) (mc_app_url c) b p now
      in if recipient = ''visitor'' then
           (let locale = orDefaultLocale (bk_visitor_locale b)
            in Some (message (bk_visitor_email b) ''booking_rescheduled''
                 [(''VisitorName'', bk_visitor_name b), (''PageTitle'', bp_title p), (''OrganiserName'', organiserName),
                  (''PreviousWhen'', previous_when c locale b previous (bk_visitor_timezone b)),
                  (''When'', booking_when c locale b (bk_visitor_timezone b)), (''Location'', pageLocationText p),
                  (''ManageURL'', bookingManageURL (mc_env c) (mc_app_url c) (bk_id b)), (''Locale'', locale)] attachments))
         else map_option (\<lambda>u. let locale = organiserLocale (mc_locale_for c) u
            in message (u_email u) ''booking_rescheduled_organiser''
                 [(''PageTitle'', bp_title p), (''VisitorName'', bk_visitor_name b),
                  (''PreviousWhen'', previous_when c locale b previous (bp_timezone p)),
                  (''When'', booking_when c locale b (bp_timezone p)), (''Location'', pageLocationText p),
                  (''ViewURL'', bookingDashboardURL (mc_app_url c) (bp_id p)), (''Locale'', locale)] attachments) owner)"

definition composeBookingReminder ::
  "mail_ctx \<Rightarrow> string \<Rightarrow> Booking \<Rightarrow> BookingPage \<Rightarrow> Organization \<Rightarrow> bdb \<Rightarrow> Message option" where
  "composeBookingReminder c recipient b p g d =
     (let owner = snd (resolveOrganiser p g d)
      in if recipient = ''visitor'' then
           (let locale = orDefaultLocale (bk_visitor_locale b)
            in Some (message (bk_visitor_email b) ''booking_reminder''
                 [(''RecipientName'', bk_visitor_name b), (''PageTitle'', bp_title p),
                  (''When'', booking_when c locale b (bk_visitor_timezone b)), (''Location'', pageLocationText p),
                  (''ViewURL'', bookingManageURL (mc_env c) (mc_app_url c) (bk_id b)), (''Locale'', locale)] []))
         else map_option (\<lambda>u. let locale = organiserLocale (mc_locale_for c) u
            in message (u_email u) ''booking_reminder''
                 [(''RecipientName'', displayName u), (''PageTitle'', bp_title p), (''When'', booking_when c locale b (bp_timezone p)),
                  (''Location'', pageLocationText p), (''ViewURL'', bookingDashboardURL (mc_app_url c) (bp_id p)),
                  (''Locale'', locale)] []) owner)"

definition composeGoogleSyncFailed :: "BookingPage \<Rightarrow> bdb \<Rightarrow> Message option" where
  "composeGoogleSyncFailed p d =
     map_option (\<lambda>u. message (u_email u) ''booking_sync_failed'' [(''PageTitle'', bp_title p)] [])
       (Option.bind (bp_member_user p) (\<lambda>u. BookUser u d))"

definition composeBookingMail :: "mail_ctx \<Rightarrow> mailBookingPayload \<Rightarrow> instant \<Rightarrow> bdb \<Rightarrow> string + Message option" where
  "composeBookingMail c m now d =
     (let r = mb_recipient m
      in if r \<noteq> ''visitor'' \<and> r \<noteq> ''organiser'' then Inl ''bookings: unknown mail:booking recipient''
         else (case GetBooking (mb_booking m) d of
            None \<Rightarrow> Inr None
          | Some b \<Rightarrow> (case GetBookingPage (bk_page b) d of
              None \<Rightarrow> Inr None
            | Some p \<Rightarrow> (case GetOrganization (bp_org p) d of
                None \<Rightarrow> Inr None
              | Some g \<Rightarrow>
                  if mb_kind m = ''confirmed'' then
                    Inr (if bk_status b = ''cancelled'' then None else composeBookingConfirmed c r b p g now d)
                  else if mb_kind m = ''cancelled'' then Inr (composeBookingCancelled c r b p g d)
                  else if mb_kind m = ''rescheduled'' then
                    Inr (if bk_status b = ''cancelled'' then None
                         else composeBookingRescheduled c r b p g (mb_previous m) now d)
                  else if mb_kind m = ''reminder'' then
                    Inr (if bk_status b \<noteq> ''confirmed'' \<or> \<not> bp_reminders p then None
                         else composeBookingReminder c r b p g d)
                  else if mb_kind m = ''sync_failed'' then
                    Inr (if r \<noteq> ''organiser'' then None else composeGoogleSyncFailed p d)
                  else Inl ''bookings: unknown mail:booking kind''))))"

section \<open>The job\<close>

text \<open>\<open>parse_time\<close> stands for what \<^verbatim>\<open>time.Time\<close> reads out of JSON.\<close>

fun decode_booking_mail :: "(string \<Rightarrow> instant option) \<Rightarrow> json \<Rightarrow> mailBookingPayload option" where
  "decode_booking_mail parse_time (JObj fs) =
     (case (field_str fs ''kind'', field_str fs ''bookingId'', field_str fs ''recipient'', map_of fs ''previousStartAt'') of
        (Some k, Some b, Some r, None) \<Rightarrow> Some \<lparr> mb_kind = k, mb_booking = b, mb_recipient = r, mb_previous = None \<rparr>
      | (Some k, Some b, Some r, Some JNull) \<Rightarrow> Some \<lparr> mb_kind = k, mb_booking = b, mb_recipient = r, mb_previous = None \<rparr>
      | (Some k, Some b, Some r, Some (JStr t)) \<Rightarrow>
          map_option (\<lambda>i. \<lparr> mb_kind = k, mb_booking = b, mb_recipient = r, mb_previous = Some i \<rparr>) (parse_time t)
      | _ \<Rightarrow> None)"
| "decode_booking_mail parse_time JNull = Some \<lparr> mb_kind = [], mb_booking = [], mb_recipient = [], mb_previous = None \<rparr>"
| "decode_booking_mail parse_time _ = None"

text \<open>What a claimed job does: an error to be retried, or what was sent, \<open>None\<close> when there was nothing to send.\<close>

definition handleMailBookingJob ::
  "mail_ctx \<Rightarrow> (string \<Rightarrow> instant option) \<Rightarrow> (Message \<Rightarrow> string + envelope option) \<Rightarrow> json \<Rightarrow> instant \<Rightarrow> bdb \<Rightarrow>
   string + envelope option" where
  "handleMailBookingJob c parse_time send payload now d =
     (case decode_booking_mail parse_time payload of
        None \<Rightarrow> Inl ''bookings: decode mail:booking payload''
      | Some m \<Rightarrow> (case composeBookingMail c m now d of
          Inl e \<Rightarrow> Inl e | Inr None \<Rightarrow> Inr None | Inr (Some msg) \<Rightarrow> send msg))"

section \<open>What a mail says\<close>

lemma BuildBookingICS_event:
  "BuildBookingICS i title description loc startAt endAt url now =
     BuildCalendar (event_lines (i @ ''@whenweall'') (FormatUTCBasic now) (''DTSTART:'' @ FormatUTCBasic startAt)
       (''DTEND:'' @ FormatUTCBasic endAt) title description loc url)"
  by (simp add: BuildBookingICS_def event_lines_def)

text \<open>C24: A booking's calendar file says what it should, whatever its texts contain. A calendar program that splits
  the file at CRLF, joins continuation lines and unescapes reads back the booking's id, the exact title, description
  and location (absent when empty), the link, and the start and end stamps; every physical line has at most 75
  octets and is valid UTF-8 by itself. No text can add a property or an event.\<close>

theorem booking_calendar_reads:
  assumes "valid_utf8 bookingID" and "valid_utf8 title" and "valid_utf8 description" and "valid_utf8 loc" and "valid_utf8 url"
  shows "let file = BuildBookingICS bookingID title description loc startAt endAt url now; ls = content_lines file in
    text_value ''UID'' ls = Some (bookingID @ ''@whenweall'') \<and> text_value ''SUMMARY'' ls = Some title \<and>
    text_value ''DESCRIPTION'' ls = (if description = [] then None else Some description) \<and>
    text_value ''LOCATION'' ls = (if loc = [] then None else Some loc) \<and> text_value ''URL'' ls = Some url \<and>
    text_value ''DTSTART'' ls = Some (FormatUTCBasic startAt) \<and> text_value ''DTEND'' ls = Some (FormatUTCBasic endAt) \<and>
    length (filter (\<lambda>l. l = ''BEGIN:VEVENT'') ls) = 1 \<and>
    list_all (\<lambda>x. length x \<le> LineLimit \<and> valid_utf8 x) (physical_lines [] file)"
proof -
  let ?start = "''DTSTART:'' @ FormatUTCBasic startAt" and ?finish = "''DTEND:'' @ FormatUTCBasic endAt"
  let ?ls = "event_lines (bookingID @ ''@whenweall'') (FormatUTCBasic now) ?start ?finish title description loc url"
  have uid: "valid_utf8 (bookingID @ ''@whenweall'')"
    by (rule valid_utf8_append [OF assms(1) ascii_valid_utf8]) (auto simp: byte_def)
  have stamp: "content_line ?start" "content_line ?finish"
    using content_line_plain [of "''DTSTART:''"] content_line_plain [of "''DTEND:''"] plain_stamps(1)
    by (simp_all add: content_line_ascii byte_def)
  note ok = calendar_read [OF event_lines_ok [OF uid assms(2-5) stamp plain_stamps(1) [of now]]]
  have dt: "take 3 ?start = ''DTS''" "take 3 ?finish = ''DTE''" by simp_all
  have stamps: "text_value ''DTSTART'' (calendar_lines ?ls) = Some (FormatUTCBasic startAt)"
    "text_value ''DTEND'' (calendar_lines ?ls) = Some (FormatUTCBasic endAt)"
    by (simp_all add: calendar_lines_def event_lines_def unescape_plain plain_stamps)
  have "length (filter (\<lambda>l. l = ''BEGIN:VEVENT'') (calendar_lines ?ls)) = 1"
    by (simp add: calendar_lines_def event_lines_def)
  with ok event_values(1) event_values(2-5) [OF dt] stamps show ?thesis
    unfolding BuildBookingICS_event Let_def by simp
qed

lemma booking_calendar_reads_witness:
  "let ls = content_lines (BuildBookingICS ''b1'' (''Tea; biscuits'' @ [LF] @ ''ATTENDEE:x'') [] ''Room 1, left'' 0 1 ''https://x'' 0) in
   text_value ''SUMMARY'' ls = Some (''Tea; biscuits'' @ [LF] @ ''ATTENDEE:x'') \<and> text_value ''LOCATION'' ls = Some ''Room 1, left'' \<and>
   text_value ''DESCRIPTION'' ls = None"
proof -
  have valid: "valid_utf8 ''b1''" "valid_utf8 (''Tea; biscuits'' @ [LF] @ ''ATTENDEE:x'')" "valid_utf8 []" "valid_utf8 ''Room 1, left''"
    "valid_utf8 ''https://x''" by (auto intro!: ascii_valid_utf8 simp: byte_def)
  show ?thesis using booking_calendar_reads [OF valid, of 0 1 0] by (simp add: Let_def)
qed

text \<open>C20: A booking mail describes the booking as it stands when the job runs, not when it was queued. Whatever is
  sent goes to the visitor's stored address or to the account of the page's member; the booking and its live page
  exist; a confirmation or a move is never sent for a booking that has been cancelled since, a reminder only for a
  confirmed booking of a page that still sends them; and the calendar file is attached to confirmations and moves
  alone, built from the current row.\<close>

theorem booking_mail_current:
  assumes "composeBookingMail c m now d = Inr (Some msg)"
  shows "\<exists>b p. GetBooking (mb_booking m) d = Some b \<and> GetBookingPage (bk_page b) d = Some p \<and>
    (mb_kind m = ''confirmed'' \<or> mb_kind m = ''rescheduled'' \<longrightarrow> bk_status b \<noteq> ''cancelled'') \<and>
    (mb_kind m = ''reminder'' \<longrightarrow> bk_status b = ''confirmed'' \<and> bp_reminders p) \<and>
    (if mb_recipient m = ''visitor'' then ms_to msg = bk_visitor_email b
     else \<exists>u. bp_member_user p = Some (u_id u) \<and> BookUser (u_id u) d = Some u \<and> ms_to msg = u_email u) \<and>
    ms_attachments msg = (if mb_kind m = ''confirmed'' \<or> mb_kind m = ''rescheduled''
      then bookingICSAttachment (mc_env c) (mc_app_url c) b p now else [])"
proof -
  obtain b p g where got: "GetBooking (mb_booking m) d = Some b" "GetBookingPage (bk_page b) d = Some p"
      "GetOrganization (bp_org p) d = Some g" and r: "mb_recipient m = ''visitor'' \<or> mb_recipient m = ''organiser''"
    using assms by (auto simp: composeBookingMail_def Let_def split: if_splits option.splits)
  have owner: "bp_member_user p = Some (u_id u) \<and> BookUser (u_id u) d = Some u"
    if "snd (resolveOrganiser p g d) = Some u \<or> Option.bind (bp_member_user p) (\<lambda>u. BookUser u d) = Some u" for u
    using that by (auto simp: resolveOrganiser_def bind_eq_Some_conv BookUser_def dest: tget_Some_in split: option.splits)
  note defs = composeBookingConfirmed_def composeBookingCancelled_def composeBookingRescheduled_def composeBookingReminder_def
    composeGoogleSyncFailed_def message_def Let_def
  show ?thesis
    using assms r
    by (intro exI [of _ b] exI [of _ p], auto simp: got composeBookingMail_def defs split: if_splits prod.splits)
      (metis owner snd_conv)+
qed

lemma booking_mail_current_witness:
  "\<exists>msg. composeBookingMail \<lparr> mc_env = demo_book_env, mc_locale_for = None, mc_app_url = [] \<rparr>
      \<lparr> mb_kind = ''confirmed'', mb_booking = ''aa'', mb_recipient = ''visitor'', mb_previous = None \<rparr> 0 demo_after = Inr (Some msg) \<and>
    ms_to msg = ''e'' \<and> length (ms_attachments msg) = 1"
proof -
  let ?b = "new_booking ''aa'' demo_page (demo_book_input (8 * Hour)) 0"
  let ?c = "\<lparr> mc_env = demo_book_env, mc_locale_for = None, mc_app_url = [] \<rparr>"
  let ?m = "\<lparr> mb_kind = ''confirmed'', mb_booking = ''aa'', mb_recipient = ''visitor'', mb_previous = None \<rparr>"
  have b: "GetBooking ''aa'' demo_after = Some ?b" by (simp add: GetBooking_def tget_def demo_after_facts new_booking_def)
  have p: "GetBookingPage (bk_page ?b) demo_after = Some demo_page"
    by (simp add: GetBookingPage_def demo_after_facts new_booking_def live_page_def)
      (simp add: demo_page_def with_input_def blank_page_def)
  have "bp_org demo_page = 1" by (simp add: demo_page_def with_input_def blank_page_def)
  then have g: "GetOrganization (bp_org demo_page) demo_after = Some \<lparr> og_id = 1, og_slug = ''org'', og_name = ''O'' \<rparr>"
    by (simp add: GetOrganization_def tget_def demo_after_facts demo_open_def demo_bdb_def)
  have st: "bk_status ?b = ''confirmed''" by (simp add: new_booking_def)
  have "\<exists>msg. composeBookingMail ?c ?m 0 demo_after = Inr (Some msg)"
    by (simp add: composeBookingMail_def Let_def b p g st composeBookingConfirmed_def split: prod.split)
  then obtain msg where msg: "composeBookingMail ?c ?m 0 demo_after = Inr (Some msg)" by blast
  have "TrimSpace ''e'' = ''e''" by (simp add: TrimSpace_plain printable_def)
  then have "bk_visitor_email ?b = ''e''" by (simp add: new_booking_def demo_book_input_def)
  with booking_mail_current [OF msg] msg show ?thesis by (auto simp: b p bookingICSAttachment_def intro!: exI [of _ msg])
qed

end
