(* ===== verification/PollMail.thy ===== *)
theory PollMail
  imports Mailer Participants
begin

text \<open>
  The mail half of \<^verbatim>\<open>internal/polls/timers.go\<close> and the calendar files of \<^verbatim>\<open>internal/polls/ics.go\<close>. A job holds ids
  only; the mail is composed from the rows as they are when the job runs.
\<close>

record poll_mail_ctx =
  pc_tzdb :: "string \<Rightarrow> location option"
  pc_source :: "(string \<Rightarrow> string) option"
  pc_app_url :: string

section \<open>Calendar files\<close>

datatype icsStart = IcsDate instant | IcsTimed instant "instant option"

definition icsStartFromOption :: "PollOption \<Rightarrow> icsStart option" where
  "icsStartFromOption o' =
     (if o_kind o' = ''text'' then None
      else if o_kind o' = ''date'' then map_option IcsDate (o_start_at o')
      else map_option (\<lambda>t. IcsTimed t (o_end_at o')) (o_start_at o'))"

record icsEvent =
  ie_uid :: string
  ie_title :: string
  ie_description :: string
  ie_location :: string
  ie_url :: string
  ie_start :: icsStart

definition buildVeventLines :: "icsEvent \<Rightarrow> instant \<Rightarrow> string list" where
  "buildVeventLines e now =
     (let (dtstart, dtend) = (case ie_start e of
            IcsDate t \<Rightarrow> (''DTSTART;VALUE=DATE:'' @ FormatDateBasic t, ''DTEND;VALUE=DATE:'' @ NextDayBasic t)
          | IcsTimed t end' \<Rightarrow>
              (''DTSTART:'' @ FormatUTCBasic t,
               ''DTEND:'' @ FormatUTCBasic (case end' of Some x \<Rightarrow> x | None \<Rightarrow> t + Hour)))
      in [''BEGIN:VEVENT'', ''UID:'' @ EscapeText (ie_uid e), ''DTSTAMP:'' @ FormatUTCBasic now, dtstart, dtend,
          ''SUMMARY:'' @ EscapeText (ie_title e)] @
         (if ie_description e \<noteq> [] then [''DESCRIPTION:'' @ EscapeText (ie_description e)] else []) @
         (if ie_location e \<noteq> [] then [''LOCATION:'' @ EscapeText (ie_location e)] else []) @
         [''URL:'' @ EscapeText (ie_url e), ''END:VEVENT''])"

definition poll_event :: "string \<Rightarrow> Poll \<Rightarrow> string \<Rightarrow> icsStart \<Rightarrow> icsEvent" where
  "poll_event uid poll pollURL start = \<lparr> ie_uid = uid, ie_title = p_title poll,
     ie_description = (case p_description poll of None \<Rightarrow> [] | Some s \<Rightarrow> s),
     ie_location = (case p_location poll of None \<Rightarrow> [] | Some s \<Rightarrow> s), ie_url = pollURL, ie_start = start \<rparr>"

definition finalized_option :: "Poll \<Rightarrow> db \<Rightarrow> PollOption option" where
  "finalized_option poll d =
     (case p_finalized_option poll of
        Some oid \<Rightarrow> if p_status poll \<noteq> ''finalized'' then None else find (\<lambda>x. o_id x = oid) (ListOptionsByPoll (p_id poll) d)
      | None \<Rightarrow> None)"

definition BuildPollICS :: "string \<Rightarrow> string \<Rightarrow> instant \<Rightarrow> db \<Rightarrow> (string \<times> string) option" where
  "BuildPollICS pollID pollURL now d =
     (case GetPoll pollID d of
        None \<Rightarrow> None
      | Some poll \<Rightarrow> (case finalized_option poll d of
          None \<Rightarrow> None
        | Some opt \<Rightarrow> (case icsStartFromOption opt of
            None \<Rightarrow> None
          | Some start \<Rightarrow> Some (''calendar.ics'',
              BuildCalendar (buildVeventLines (poll_event (p_id poll @ ''@whenweall'') poll pollURL start) now)))))"

definition BuildClaimICS :: "Poll \<Rightarrow> PollOption list \<Rightarrow> string \<Rightarrow> instant \<Rightarrow> string option" where
  "BuildClaimICS poll claimed pollURL now =
     (let lines = concat (map (\<lambda>x. case icsStartFromOption x of None \<Rightarrow> []
            | Some start \<Rightarrow> buildVeventLines (poll_event (p_id poll @ ''-'' @ o_id x @ ''@whenweall'') poll pollURL start) now) claimed)
      in if lines = [] then None else Some (BuildCalendar lines))"

definition calendar_attachment :: "string \<Rightarrow> string \<Rightarrow> Attachment" where
  "calendar_attachment name content = \<lparr> at_filename = name, at_type = ''text/calendar'', at_content = content \<rparr>"

section \<open>Labels\<close>

definition optionLabelText :: "(string \<Rightarrow> location option) \<Rightarrow> PollOption \<Rightarrow> string \<Rightarrow> string \<Rightarrow> string" where
  "optionLabelText tzdb x locale timezone =
     (let loc = location_or_UTC tzdb timezone
      in if o_kind x = ''text'' then (case o_label x of None \<Rightarrow> [] | Some s \<Rightarrow> s)
         else if o_kind x = ''date'' then (case o_start_at x of None \<Rightarrow> [] | Some t \<Rightarrow> FormatDate locale t (fixed_zone 0))
         else if o_kind x = ''datetime'' then
           (case o_start_at x of None \<Rightarrow> []
            | Some t \<Rightarrow> (case o_end_at x of
                Some e \<Rightarrow> FormatDate locale t loc @ '', '' @ FormatTimeRange t e loc
              | None \<Rightarrow> FormatDateTime locale t loc))
         else [])"

section \<open>The mails\<close>

definition poll_message :: "string \<Rightarrow> string \<Rightarrow> (string \<times> mail_value) list \<Rightarrow> Attachment list \<Rightarrow> Message" where
  "poll_message recipient template data attachments = \<lparr> ms_to = recipient, ms_to_name = [], ms_template = template,
     ms_data = data, ms_attachments = attachments \<rparr>"

text \<open>The account a payload names; a payload without one, or with an id that is no number, names nobody.\<close>

definition payload_user :: "mailPollPayload \<Rightarrow> db \<Rightarrow> User option" where
  "payload_user m d = (if mp_user m = [] then None else Option.bind (ParseInt (mp_user m)) (\<lambda>u. GetUser u d))"

definition sendFinalizedMail :: "poll_mail_ctx \<Rightarrow> Poll \<Rightarrow> string \<Rightarrow> mailPollPayload \<Rightarrow> instant \<Rightarrow> db \<Rightarrow> Message option" where
  "sendFinalizedMail c poll pollURL m now d =
     (case finalized_option poll d of
        None \<Rightarrow> None
      | Some opt \<Rightarrow>
          (let attachments = (case BuildPollICS (p_id poll) pollURL now d of
                 None \<Rightarrow> [] | Some (name, ics) \<Rightarrow> [calendar_attachment name ics]);
               who = (if mp_participant m \<noteq> [] then
                        (case GetParticipant (mp_participant m) d of
                           None \<Rightarrow> None
                         | Some p \<Rightarrow> (case pa_email p of
                             Some email \<Rightarrow> if pa_poll p \<noteq> p_id poll then None
                                            else Some (pa_name p, email, orDefaultLocale (pa_locale p))
                           | None \<Rightarrow> None))
                      else map_option (\<lambda>u. (displayName u, u_email u, userLocale (pc_source c) (mp_user m))) (payload_user m d))
           in map_option (\<lambda>(name, email, locale). poll_message email ''finalized''
                [(''PollTitle'', MText (p_title poll)), (''PollURL'', MText pollURL),
                 (''OptionLabel'', MText (optionLabelText (pc_tzdb c) opt locale (p_timezone poll))),
                 (''RecipientName'', MText name), (''Locale'', MText locale)] attachments) who))"

definition sendClosedMail :: "poll_mail_ctx \<Rightarrow> Poll \<Rightarrow> string \<Rightarrow> mailPollPayload \<Rightarrow> db \<Rightarrow> Message option" where
  "sendClosedMail c poll pollURL m d =
     (if p_status poll \<noteq> ''closed'' then None
      else map_option (\<lambda>u. poll_message (u_email u) ''closed''
        [(''PollTitle'', MText (p_title poll)), (''PollURL'', MText pollURL),
         (''Locale'', MText (userLocale (pc_source c) (mp_user m)))] []) (payload_user m d))"

definition sendReminderMail :: "poll_mail_ctx \<Rightarrow> Poll \<Rightarrow> string \<Rightarrow> mailPollPayload \<Rightarrow> db \<Rightarrow> Message option" where
  "sendReminderMail c poll pollURL m d =
     map_option (\<lambda>u. poll_message (u_email u) ''notification''
       [(''Event'', MText ''deadline.approaching''), (''Title'', MText (p_title poll)), (''URL'', MText pollURL),
        (''Locale'', MText (userLocale (pc_source c) (mp_user m)))] []) (payload_user m d)"

definition sendDigestMail :: "poll_mail_ctx \<Rightarrow> Poll \<Rightarrow> string \<Rightarrow> mailPollPayload \<Rightarrow> db \<Rightarrow> Message option" where
  "sendDigestMail c poll pollURL m d =
     map_option (\<lambda>u. poll_message (u_email u) ''digest''
       [(''PollTitle'', MText (p_title poll)), (''PollURL'', MText pollURL), (''Lines'', MLines (buildDigestLines (mp_items m))),
        (''Locale'', MText (userLocale (pc_source c) (mp_user m)))] []) (payload_user m d)"

definition claimed_options :: "string \<Rightarrow> string \<Rightarrow> db \<Rightarrow> PollOption list" where
  "claimed_options pollID pid d =
     (let claimed = map v_option (filter (\<lambda>v. v_answer v = ''yes'') (ListVotesByParticipant pid d))
      in filter (\<lambda>x. o_id x \<in> set claimed) (ListOptionsByPoll pollID d))"

definition sendClaimConfirmationMail ::
  "poll_mail_ctx \<Rightarrow> Poll \<Rightarrow> string \<Rightarrow> mailPollPayload \<Rightarrow> instant \<Rightarrow> db \<Rightarrow> Message option" where
  "sendClaimConfirmationMail c poll pollURL m now d =
     (if mp_participant m = [] then None
      else (case GetParticipant (mp_participant m) d of
        None \<Rightarrow> None
      | Some p \<Rightarrow> (case pa_email p of
          None \<Rightarrow> None
        | Some email \<Rightarrow>
            if pa_poll p \<noteq> p_id poll then None
            else if filter (\<lambda>v. v_answer v = ''yes'') (ListVotesByParticipant (pa_id p) d) = [] then None
            else
              let locale = orDefaultLocale (pa_locale p); claimed = claimed_options (p_id poll) (pa_id p) d
              in Some (poll_message email ''claim_confirmation''
                   [(''Name'', MText (pa_name p)), (''PollTitle'', MText (p_title poll)), (''PollURL'', MText pollURL),
                    (''Slots'', MTexts (map (\<lambda>x. optionLabelText (pc_tzdb c) x locale (p_timezone poll)) claimed)),
                    (''Locale'', MText locale)]
                   (case BuildClaimICS poll claimed pollURL now of
                      None \<Rightarrow> [] | Some cal \<Rightarrow> [calendar_attachment ''calendar.ics'' cal])))))"

definition composePollMail :: "poll_mail_ctx \<Rightarrow> mailPollPayload \<Rightarrow> instant \<Rightarrow> db \<Rightarrow> string + Message option" where
  "composePollMail c m now d =
     (case GetPoll (mp_poll m) d of
        None \<Rightarrow> Inr None
      | Some poll \<Rightarrow>
          (let pollURL = pc_app_url c @ ''/p/'' @ p_id poll
           in if mp_event m = ''finalized'' then Inr (sendFinalizedMail c poll pollURL m now d)
              else if mp_event m = ''closed'' then Inr (sendClosedMail c poll pollURL m d)
              else if mp_event m = ''deadline.approaching'' then Inr (sendReminderMail c poll pollURL m d)
              else if mp_event m = ''digest'' then Inr (sendDigestMail c poll pollURL m d)
              else if mp_event m = ''claim_confirmation'' then Inr (sendClaimConfirmationMail c poll pollURL m now d)
              else Inl ''polls: unknown mail:poll event''))"

section \<open>The job\<close>

fun decode_poll_mail :: "json \<Rightarrow> mailPollPayload option" where
  "decode_poll_mail (JObj fs) =
     Option.bind (field_str fs ''pollId'') (\<lambda>i. Option.bind (field_str fs ''event'') (\<lambda>e.
     Option.bind (field_str fs ''participantId'') (\<lambda>p. Option.bind (field_str fs ''userId'') (\<lambda>u.
     Option.bind (decode_items fs) (\<lambda>items.
       Some \<lparr> mp_poll = i, mp_event = e, mp_participant = p, mp_user = u, mp_items = items \<rparr>)))))"
| "decode_poll_mail JNull = Some \<lparr> mp_poll = [], mp_event = [], mp_participant = [], mp_user = [], mp_items = [] \<rparr>"
| "decode_poll_mail _ = None"

definition handleMailPollJob ::
  "poll_mail_ctx \<Rightarrow> (Message \<Rightarrow> string + envelope option) \<Rightarrow> json \<Rightarrow> instant \<Rightarrow> db \<Rightarrow> string + envelope option" where
  "handleMailPollJob c send payload now d =
     (case decode_poll_mail payload of
        None \<Rightarrow> Inl ''polls: decode mail:poll payload''
      | Some m \<Rightarrow> (case composePollMail c m now d of
          Inl e \<Rightarrow> Inl e | Inr None \<Rightarrow> Inr None | Inr (Some msg) \<Rightarrow> send msg))"

section \<open>What a mail says\<close>

lemma decode_json_of_mail: "decode_poll_mail (json_of_mail m) = Some m"
proof (cases m)
  case (fields i e p u items)
  have "those (map (decode_item \<circ> json_of_item) items) = Some items"
    using those_Some [of items decode_item json_of_item] by (simp add: decode_json_of_item)
  then show ?thesis
    by (cases "p = []"; cases "u = []"; cases "items = []")
      (simp_all add: fields json_of_mail_def omitempty_def field_str_def decode_items_def)
qed

text \<open>The lines of a digest count every item once and name everybody once, in the order of first appearance.\<close>

definition first_names :: "string \<Rightarrow> DigestItem list \<Rightarrow> string list" where
  "first_names e items = rev (remdups (rev (filter (\<lambda>n. n \<noteq> []) (map di_name (filter (\<lambda>i. di_event i = e) items)))))"

definition first_events :: "DigestItem list \<Rightarrow> string list" where
  "first_events items = rev (remdups (rev (map di_event items)))"

definition digest_line :: "DigestItem list \<Rightarrow> string \<Rightarrow> DigestLine" where
  "digest_line items e = \<lparr> dl_event = e, dl_names = first_names e items,
     dl_count = length (filter (\<lambda>i. di_event i = e) items) \<rparr>"

lemma add_line_map:
  assumes "distinct es" and "\<And>e. dl_event (L e) = e"
  shows "add_line item (map L es) =
    (if di_event item \<in> set es
     then map (\<lambda>e. if e = di_event item
       then (L e)\<lparr> dl_names := add_name (di_name item) (dl_names (L e)), dl_count := dl_count (L e) + 1 \<rparr> else L e) es
     else map L es @ [\<lparr> dl_event = di_event item, dl_names = add_name (di_name item) [], dl_count = 1 \<rparr>])"
  using assms(1) by (induction es) (auto simp: assms(2))

lemma first_snoc: "rev (remdups (rev (xs @ [x]))) = (if x \<in> set xs then rev (remdups (rev xs)) else rev (remdups (rev xs)) @ [x])"
  by simp

lemma first_names_snoc:
  "first_names e (items @ [i]) = (if di_event i = e then add_name (di_name i) (first_names e items) else first_names e items)"
  by (auto simp: first_names_def add_name_def)

lemma first_names_absent: "e \<notin> di_event ` set items \<Longrightarrow> first_names e items = []"
proof -
  assume "e \<notin> di_event ` set items"
  then have "filter (\<lambda>i. di_event i = e) items = []" by (auto simp: filter_empty_conv)
  then show ?thesis by (simp add: first_names_def)
qed

lemma buildDigestLines_map: "buildDigestLines items = map (digest_line items) (first_events items)"
proof (induction items rule: rev_induct)
  case Nil
  show ?case by (simp add: buildDigestLines_def first_events_def)
next
  case (snoc i items)
  let ?e = "di_event i"
  have step: "digest_line (items @ [i]) e = (if e = ?e
      then (digest_line items e)\<lparr> dl_names := add_name (di_name i) (dl_names (digest_line items e)),
             dl_count := dl_count (digest_line items e) + 1 \<rparr>
      else digest_line items e)" for e
    by (simp add: digest_line_def first_names_snoc)
  have es: "set (first_events items) = di_event ` set items" "distinct (first_events items)" by (simp_all add: first_events_def)
  have "buildDigestLines (items @ [i]) = add_line i (map (digest_line items) (first_events items))"
    using snoc by (simp add: buildDigestLines_def)
  also have "\<dots> = map (digest_line (items @ [i])) (first_events (items @ [i]))"
  proof (cases "?e \<in> set (first_events items)")
    case True
    then have "first_events (items @ [i]) = first_events items" using es(1) by (simp add: first_events_def)
    with True show ?thesis
      by (subst add_line_map [OF es(2)]) (auto simp: step digest_line_def first_names_snoc)
  next
    case False
    then have "first_events (items @ [i]) = first_events items @ [?e]" using es(1) by (simp add: first_events_def)
    moreover have "map (digest_line (items @ [i])) (first_events items) = map (digest_line items) (first_events items)"
      using False by (auto simp: step)
    moreover have "digest_line (items @ [i]) ?e = \<lparr> dl_event = ?e, dl_names = add_name (di_name i) [], dl_count = 1 \<rparr>"
    proof -
      have "?e \<notin> di_event ` set items" using False es(1) by simp
      then have "filter (\<lambda>j. di_event j = ?e) items = []" by (intro filter_False ballI) (metis imageI)
      moreover have "first_names ?e items = []" by (rule first_names_absent) fact
      ultimately show ?thesis by (simp add: digest_line_def first_names_snoc)
    qed
    ultimately show ?thesis using False by (subst add_line_map [OF es(2)]) (simp_all add: digest_line_def)
  qed
  finally show ?case .
qed

text \<open>C25: A digest says everything once. Its lines are the events that occurred, each once and in the order in which
  they first occurred; the count of a line is the number of queued items of its event, so the counts add up to all
  items; and its names are the distinct non-empty names of those items, again in order of first appearance.\<close>

theorem digest_lines_exact:
  "map dl_event (buildDigestLines items) = first_events items \<and>
   list_all (\<lambda>l. dl_count l = length (filter (\<lambda>i. di_event i = dl_event l) items) \<and>
     dl_names l = first_names (dl_event l) items) (buildDigestLines items) \<and>
   sum_list (map dl_count (buildDigestLines items)) = length items"
proof -
  have count: "sum_list (map (\<lambda>e. length (filter (\<lambda>i. di_event i = e) xs)) es) = length (filter (\<lambda>i. di_event i \<in> set es) xs)"
    if "distinct es" for es and xs :: "DigestItem list"
    using that
  proof (induction xs)
    case (Cons x xs)
    have "sum_list (map (\<lambda>e. length (filter (\<lambda>i. di_event i = e) (x # xs))) es) =
        sum_list (map (\<lambda>e. if e = di_event x then 1 else 0) es) + sum_list (map (\<lambda>e. length (filter (\<lambda>i. di_event i = e) xs)) es)"
      by (simp add: sum_list_addf [symmetric] flip: if_distrib) (rule arg_cong [where f = sum_list], auto)
    moreover have "sum_list (map (\<lambda>e. if e = di_event x then 1 else 0) es) = (if di_event x \<in> set es then 1 else (0::nat))"
      using Cons.prems by (induction es) auto
    ultimately show ?case using Cons by simp
  qed (simp add: sum_list_0)
  have "filter (\<lambda>i. di_event i \<in> set (first_events items)) items = items"
    by (intro filter_True) (simp add: first_events_def)
  then show ?thesis
    using count [of "first_events items" items]
    by (simp add: buildDigestLines_map list_all_iff digest_line_def comp_def first_events_def)
qed

lemma in_ListOptions_poll: "x \<in> set (ListOptionsByPoll i d) \<longleftrightarrow> x \<in> set (db_options d) \<and> o_poll x = i"
  by (auto simp: ListOptionsByPoll_def)


definition demo_mail_db :: db where
  "demo_mail_db = sample_db\<lparr> db_participants := [sample_participant\<lparr> pa_email := Some ''a@b.c'' \<rparr>],
     db_votes := [\<lparr> v_participant = ''g1'', v_option = ''o1'', v_answer = ''yes'' \<rparr>] \<rparr>"


end
