(* ===== verification/PublicSlots.thy ===== *)
theory PublicSlots
  imports BookRuns
begin

text \<open>
  The public calendar of a page. Its window is given by two dates, read as midnights in UTC: the slots of the whole
  last day are generated, while the bookings are looked up only until that midnight.
\<close>

lemma after_window:
  assumes "\<And>b. b \<in> set (b_bookings d) \<Longrightarrow> bk_page b = i \<Longrightarrow> bk_status b = ''confirmed'' \<Longrightarrow> to \<le> bk_start_at b"
  shows "bookedIntervalsForPage i from to [] d = []"
  using assms by (auto simp: bookedIntervalsForPage_def ListConfirmedBookingsInRange_def in_span_def filter_empty_conv not_less)

text \<open>C29: The public calendar shows taken slots as free on its last day. Whenever the confirmed bookings of a page all
  start at or after the instant the window's last date names (midnight in UTC at the start of that day), the public
  listing, which goes on to the end of that day in the page's zone, is the one of a page without any booking.\<close>

theorem public_listing_last_day:
  assumes "named_page orgSlug pageSlug d = Some p"
    and "\<And>b. b \<in> set (b_bookings d) \<Longrightarrow> bk_page b = bp_id p \<Longrightarrow> bk_status b = ''confirmed'' \<Longrightarrow> to \<le> bk_start_at b"
    and "be_tzdb env (bp_timezone p) = Some loc" and "sane loc" and "page_ok p"
    and "calendar_ok loc from" and "calendar_ok loc to" and "calendar_ok loc (horizon (pageRulesFrom p) now)"
    and "local_day loc to - local_day loc from \<le> 106751"
  shows "\<exists>ts. PublicAvailability env orgSlug pageSlug from to now d = Inr (Some ts, d) \<and>
    set ts = {t. bookable (pageRulesFrom p) [] now t \<and>
      (\<exists>n. local_day loc from \<le> n \<and> n \<le> local_day loc to \<and> on_day (pageRulesFrom p) loc (formatDate n) t)}"
proof -
  have zone: "be_tzdb env (ru_timezone (pageRulesFrom p)) = Some loc" "rules_ok (pageRulesFrom p)"
    using assms(3,5) by (simp_all add: pageRulesFrom_def page_ok_def)
  note four = assms(6-8) [unfolded calendar_ok_def]
  obtain ts where ts: "Slots (be_tzdb env) (pageRulesFrom p) [] now from to = Some ts"
      "set ts = {t. bookable (pageRulesFrom p) [] now t \<and>
        (\<exists>n. local_day loc from \<le> n \<and> n \<le> local_day loc to \<and> on_day (pageRulesFrom p) loc (formatDate n) t)}"
    using Slots_run [where tzdb = "be_tzdb env", OF zone(1) assms(4) zone(2) four assms(9), of "[]"] by blast
  have "PublicAvailability env orgSlug pageSlug from to now d = Inr (Some ts, d)"
    using assms(1) ts(1) by (simp add: PublicAvailability_def named_page_def google_off after_window [OF assms(2)])
  with ts(2) show ?thesis by blast
qed

text \<open>On the page of the example the slot at 09:00 local time is booked. The listing for that day still offers it, and
  booking it is refused.\<close>

lemma public_listing_last_day_witness:
  "\<exists>ts. PublicAvailability demo_book_env ''org'' ''abc'' 0 0 0 demo_after = Inr (Some ts, demo_after) \<and> 8 * Hour \<in> set ts \<and>
     Book demo_book_env ''org'' ''abc'' (demo_book_input (8 * Hour)) 0 demo_after = Inl BSlotTaken"
proof -
  have named: "named_page ''org'' ''abc'' demo_after = Some demo_page" by (rule demo_named) (simp_all add: demo_after_facts)
  have start: "to \<le> bk_start_at b" if "b \<in> set (b_bookings demo_after)" "to = 0" for b to
    using that by (simp add: demo_after_facts new_booking_def demo_book_facts duration_nums)
  have page: "page_ok demo_page" using book_okD(3) [OF demo_book_ok] by (simp add: demo_book_facts)
  have zone: "be_tzdb demo_book_env (bp_timezone demo_page) = Some (fixed_zone 3600)" by (simp add: demo_book_facts)
  have day: "local_day (fixed_zone 3600) 0 = 0" by code_simp
  have cal: "calendar_ok (fixed_zone 3600) 0" by code_simp
  have listed: "bookable demo_rules [] 0 (8 * Hour) \<and> on_day demo_rules (fixed_zone 3600) (formatDate 0) (8 * Hour)"
    using demo_offered unfolding on_day_def demo_day(2) in_range_def
    by (auto simp: demo_day demo_rules_def duration_nums offered_def intro!: exI [of _ 0])
  obtain r where "Book demo_book_env ''org'' ''abc'' (demo_book_input (8 * Hour)) 0 demo_open = Inr (r, demo_after)"
    using demo_first by blast
  then have ok: "book_ok demo_after" by (rule keepsD [OF Book_ok demo_book_ok])
  have "tget bk_id (b_fresh demo_after (b_next demo_after)) (b_bookings demo_after) = None"
    by (simp add: demo_after_facts tget_def new_booking_def numeral_eq_Suc)
  moreover have "\<not> offered demo_rules (fixed_zone 3600) (taken demo_page demo_after) 0 (8 * Hour)"
    by (simp add: offered_def bookable_def slot_free_def taken_def demo_after_facts new_booking_def booking_interval_def demo_book_facts
        overlaps_def demo_rules_def duration_nums)
      (simp add: demo_page_def with_input_def demo_page_input_def)
  ultimately have "Book demo_book_env ''org'' ''abc'' (demo_book_input (8 * Hour)) 0 demo_after = Inl BSlotTaken"
    using Book_offered [OF ok named, of demo_book_env "fixed_zone 3600" "demo_book_input (8 * Hour)" 0] demo_sane demo_calendar(2-4)
    by (simp add: demo_page_rules demo_input_valid demo_book_facts duration_nums)
  moreover have "\<exists>ts. PublicAvailability demo_book_env ''org'' ''abc'' 0 0 0 demo_after = Inr (Some ts, demo_after) \<and> 8 * Hour \<in> set ts"
    using public_listing_last_day [OF named start zone demo_sane page cal cal, of 0] listed demo_calendar(4) day
    by (auto simp: demo_page_rules)
  ultimately show ?thesis by blast
qed

end
