(* ===== verification/BookReminders.thy ===== *)
theory BookReminders
  imports BookRuns
begin

text \<open>
  Reminders and bookings agree. The reminder of a booking is a row of the job table, kept in step by the booking
  calls; the worker claims, completes and fails rows at any time in between.
\<close>

section \<open>The invariant\<close>

definition known_booking_id :: "bdb \<Rightarrow> string \<Rightarrow> bool" where
  "known_booking_id d i \<longleftrightarrow> (\<exists>k < b_next d. i = b_fresh d k)"

definition is_reminder :: "job \<Rightarrow> string \<Rightarrow> bool" where
  "is_reminder j i \<longleftrightarrow> job_kind j = ''booking.reminder'' \<and> job_room j = Some (reminderRoomKey i)"

definition reminder_fits :: "job \<Rightarrow> Booking \<Rightarrow> bool" where
  "reminder_fits j b \<longleftrightarrow> bk_status b = ''confirmed'' \<and>
     (job_last_error j = None \<longrightarrow> job_run_at j = bk_start_at b - reminderLead)"

text \<open>\<open>rem_but X\<close>: the reminders of all bookings but those of \<open>X\<close> fit; \<open>X\<close> is what a call is about to repair.\<close>

definition rem_but :: "string set \<Rightarrow> bdb \<Rightarrow> bool" where
  "rem_but X d \<longleftrightarrow> inj (b_fresh d) \<and> (\<forall>b \<in> set (b_bookings d). known_booking_id d (bk_id b)) \<and>
     (\<forall>b \<in> set (b_bookings d). bk_status b \<in> {''confirmed'', ''cancelled''}) \<and>
     (\<forall>j \<in> set (b_jobs d). job_kind j = ''booking.reminder'' \<longrightarrow> (\<exists>i. is_reminder j i \<and> known_booking_id d i)) \<and>
     (\<forall>j \<in> set (b_jobs d). \<forall>b \<in> set (b_bookings d). bk_id b \<notin> X \<and> is_reminder j (bk_id b) \<longrightarrow> reminder_fits j b)"

abbreviation rem_ok :: "bdb \<Rightarrow> bool" where "rem_ok \<equiv> rem_but {}"

lemma is_reminder_inj: "is_reminder j i \<Longrightarrow> is_reminder j i' \<Longrightarrow> i = i'"
  by (simp add: is_reminder_def reminderRoomKey_def)

lemma rem_butI:
  assumes "inj (b_fresh d)" and "\<And>b. b \<in> set (b_bookings d) \<Longrightarrow> known_booking_id d (bk_id b)"
    and "\<And>b. b \<in> set (b_bookings d) \<Longrightarrow> bk_status b \<in> {''confirmed'', ''cancelled''}"
    and "\<And>j. j \<in> set (b_jobs d) \<Longrightarrow> job_kind j = ''booking.reminder'' \<Longrightarrow> \<exists>i. is_reminder j i \<and> known_booking_id d i"
    and "\<And>j b. j \<in> set (b_jobs d) \<Longrightarrow> b \<in> set (b_bookings d) \<Longrightarrow> bk_id b \<notin> X \<Longrightarrow> is_reminder j (bk_id b) \<Longrightarrow> reminder_fits j b"
  shows "rem_but X d"
  using assms by (auto simp: rem_but_def)

lemma rem_butD:
  assumes "rem_but X d"
  shows "inj (b_fresh d)" and "b \<in> set (b_bookings d) \<Longrightarrow> known_booking_id d (bk_id b)"
    and "b \<in> set (b_bookings d) \<Longrightarrow> bk_status b \<in> {''confirmed'', ''cancelled''}"
    and "j \<in> set (b_jobs d) \<Longrightarrow> job_kind j = ''booking.reminder'' \<Longrightarrow> \<exists>i. is_reminder j i \<and> known_booking_id d i"
    and "j \<in> set (b_jobs d) \<Longrightarrow> b \<in> set (b_bookings d) \<Longrightarrow> bk_id b \<notin> X \<Longrightarrow> is_reminder j (bk_id b) \<Longrightarrow> reminder_fits j b"
  using assms by (simp_all add: rem_but_def)

lemma rem_mono: "rem_but X d \<Longrightarrow> X \<subseteq> Y \<Longrightarrow> rem_but Y d"
  by (rule rem_butI) (use rem_butD in \<open>blast+\<close>)

text \<open>Later states: the same bookings, or fewer, and no new reminder.\<close>

lemma known_later: "known_booking_id d i \<Longrightarrow> b_fresh d' = b_fresh d \<Longrightarrow> b_next d \<le> b_next d' \<Longrightarrow> known_booking_id d' i"
  by (auto simp: known_booking_id_def intro: less_le_trans)

lemma rem_shrink:
  assumes "rem_but X d" and "b_fresh d' = b_fresh d" and "b_next d \<le> b_next d'"
    and "set (b_bookings d') \<subseteq> set (b_bookings d)"
    and "\<And>j. j \<in> set (b_jobs d') \<Longrightarrow> job_kind j = ''booking.reminder'' \<Longrightarrow>
      \<exists>j0 \<in> set (b_jobs d). job_kind j0 = job_kind j \<and> job_room j0 = job_room j \<and>
        (job_last_error j = None \<longrightarrow> job_last_error j0 = None \<and> job_run_at j = job_run_at j0)"
  shows "rem_but X d'"
proof (rule rem_butI)
  show "inj (b_fresh d')" using rem_butD(1) [OF assms(1)] assms(2) by simp
  show "known_booking_id d' (bk_id b)" if "b \<in> set (b_bookings d')" for b
    using rem_butD(2) [OF assms(1)] that assms(4) known_later [OF _ assms(2,3)] by blast
  show "bk_status b \<in> {''confirmed'', ''cancelled''}" if "b \<in> set (b_bookings d')" for b
    using rem_butD(3) [OF assms(1), of b] that assms(4) by blast
next
  fix j assume j: "j \<in> set (b_jobs d')" "job_kind j = ''booking.reminder''"
  obtain j0 where j0: "j0 \<in> set (b_jobs d)" "job_kind j0 = job_kind j" "job_room j0 = job_room j"
    using assms(5) [OF j] by blast
  obtain i where "is_reminder j0 i" "known_booking_id d i" using rem_butD(4) [OF assms(1) j0(1)] j0(2) j(2) by auto
  then show "\<exists>i. is_reminder j i \<and> known_booking_id d' i"
    using j0(2,3) known_later [OF _ assms(2,3)] by (auto simp: is_reminder_def)
next
  fix j b assume j: "j \<in> set (b_jobs d')" "b \<in> set (b_bookings d')" "bk_id b \<notin> X" "is_reminder j (bk_id b)"
  obtain j0 where j0: "j0 \<in> set (b_jobs d)" "job_kind j0 = job_kind j" "job_room j0 = job_room j"
      "job_last_error j = None \<longrightarrow> job_last_error j0 = None \<and> job_run_at j = job_run_at j0"
    using assms(5) [OF j(1)] j(4) by (auto simp: is_reminder_def)
  have "reminder_fits j0 b" using rem_butD(5) [OF assms(1) j0(1), of b] j assms(4) j0(2,3) by (auto simp: is_reminder_def)
  then show "reminder_fits j b" using j0(4) by (simp add: reminder_fits_def)
qed

lemma rem_with_job:
  assumes "rem_but X d" and "si_kind i \<noteq> ''booking.reminder''" and "si_room i = None"
  shows "rem_but X (with_job i d)"
  by (rule rem_shrink [OF assms(1)]) (use assms(2,3) in \<open>auto simp: with_job_def Schedule_def same_slot_def fresh_job_def\<close>)

lemma rem_mails: "rem_but X d \<Longrightarrow> rem_but X (with_mails k i p n d)"
  by (simp add: with_mails_def rem_with_job booking_mail_def)

lemma rem_event: "rem_but X d \<Longrightarrow> rem_but X (with_event p d)"
  by (erule rem_shrink) (auto simp: with_event_def)

definition starts_at :: "string \<Rightarrow> instant \<Rightarrow> bdb \<Rightarrow> bool" where
  "starts_at i start d \<longleftrightarrow> i \<in> bk_id ` set (b_bookings d) \<and>
     (\<forall>b \<in> set (b_bookings d). bk_id b = i \<longrightarrow> bk_status b = ''confirmed'' \<and> bk_start_at b = start)"

lemma starts_at_same: "same_book d d' \<Longrightarrow> starts_at i start d' \<longleftrightarrow> starts_at i start d"
  by (simp add: starts_at_def same_book_def)

lemma rem_arm:
  assumes "rem_but {i} d" and "starts_at i start d"
  shows "rem_ok (with_job (booking_reminder i start) d)"
proof -
  let ?j = "fresh_job (b_fresh d (b_next d)) (booking_reminder i start)" and ?d = "with_job (booking_reminder i start) d"
  have known: "known_booking_id d k \<Longrightarrow> known_booking_id ?d k" for k
    by (erule known_later) (simp_all add: with_job_def le_Suc_eq)
  have "known_booking_id d i" using assms(2) rem_butD(2) [OF assms(1)] by (auto simp: starts_at_def)
  then have i: "known_booking_id ?d i" by (rule known)
  have new: "is_reminder ?j k \<longleftrightarrow> k = i" for k by (auto simp: is_reminder_def fresh_job_def booking_reminder_def reminderRoomKey_def)
  have fits: "reminder_fits ?j b" if "b \<in> set (b_bookings d)" "bk_id b = i" for b
    using assms(2) that by (simp add: starts_at_def reminder_fits_def fresh_job_def booking_reminder_def)
  have jobs: "j = ?j \<or> j \<in> set (b_jobs d) \<and> \<not> is_reminder j i" if "j \<in> set (b_jobs ?d)" for j
    using that by (auto simp: with_job_def Schedule_def same_slot_def booking_reminder_def is_reminder_def tupd_def split: if_splits)
  show ?thesis
  proof (rule rem_butI)
    show "inj (b_fresh ?d)" using rem_butD(1) [OF assms(1)] by (simp add: with_job_def)
    show "known_booking_id ?d (bk_id b)" "bk_status b \<in> {''confirmed'', ''cancelled''}" if "b \<in> set (b_bookings ?d)" for b
      using rem_butD(2,3) [OF assms(1)] known that by simp_all
    show "\<exists>k. is_reminder j k \<and> known_booking_id ?d k" if "j \<in> set (b_jobs ?d)" "job_kind j = ''booking.reminder''" for j
      using jobs [OF that(1)] rem_butD(4) [OF assms(1) _ that(2)] known i new by blast
    show "reminder_fits j b" if "j \<in> set (b_jobs ?d)" "b \<in> set (b_bookings ?d)" "is_reminder j (bk_id b)" for j b
      using jobs [OF that(1)]
    proof
      assume "j = ?j"
      then show ?thesis using fits that(2,3) new by simp
    next
      assume j: "j \<in> set (b_jobs d) \<and> \<not> is_reminder j i"
      then have "bk_id b \<noteq> i" using that(3) by auto
      then show ?thesis using rem_butD(5) [OF assms(1), of j b] j that(2,3) by simp
    qed
  qed
qed

lemma rem_cancel:
  "rem_but {i} d \<Longrightarrow> rem_ok (d\<lparr> b_jobs := Cancel ''booking.reminder'' (reminderRoomKey i) (b_jobs d) \<rparr>)"
  by (auto simp: rem_but_def Cancel_def tdel_def is_reminder_def known_booking_id_def)

text \<open>A booking that changes is exempt until its reminder is armed again or cancelled.\<close>

lemma rem_touch:
  assumes "rem_ok d" and "\<And>b. bk_id (f b) = bk_id b" and "\<And>b. bk_status (f b) \<in> {bk_status b, ''cancelled''}"
  shows "rem_but {i} (d\<lparr> b_bookings := tupd (\<lambda>b. bk_id b = i) f (b_bookings d) \<rparr>)"
proof -
  have b: "b \<in> set (b_bookings d) \<and> bk_id b \<noteq> i \<or> (\<exists>b0 \<in> set (b_bookings d). b = f b0 \<and> bk_id b0 = i)"
    if "b \<in> set (tupd (\<lambda>b. bk_id b = i) f (b_bookings d))" for b
    using that by (auto simp: tupd_def)
  show ?thesis
  proof (rule rem_butI, goal_cases)
    case 1
    then show ?case using rem_butD(1) [OF assms(1)] by simp
  next
    case (2 b)
    then show ?case using b [of b] rem_butD(2) [OF assms(1)] assms(2) by (auto simp: known_booking_id_def)
  next
    case (3 b)
    then have "b \<in> set (tupd (\<lambda>b. bk_id b = i) f (b_bookings d))" by simp
    from b [OF this] show ?case
    proof (elim disjE bexE conjE)
      fix b0 assume "b0 \<in> set (b_bookings d)" "b = f b0"
      then show ?thesis using rem_butD(3) [OF assms(1), of b0] assms(3) [of b0] by auto
    qed (rule rem_butD(3) [OF assms(1)])
  next
    case (4 j)
    then show ?case using rem_butD(4) [OF assms(1)] by (simp add: known_booking_id_def)
  next
    case (5 j b)
    then show ?case using b [of b] rem_butD(5) [OF assms(1), of j b] assms(2) by auto
  qed
qed

section \<open>The calls\<close>

lemma keeps_rem_asides [keeps_intros]:
  "keeps (rem_but X) (page_changed p)" "keeps (rem_but X) (enqueueMailBooking k i prev now)"
  "keeps (rem_but X) (check_slot env page t now busy)" "keeps (rem_but X) (token_guard env i tok o')"
  "keeps (rem_but X) (enqueueGoogleSync k i now)"
proof -
  have sched: "keeps (rem_but X) (book_schedule i')" if "si_kind i' \<noteq> ''booking.reminder''" "si_room i' = None" for i'
    using rem_with_job [OF _ that] by (auto simp: keeps_def book_schedule_def result_simps booking_id_def with_job_def)
  show "keeps (rem_but X) (page_changed p)"
    using rem_event [of X _ p] by (auto simp: keeps_def page_changed_def result_simps with_event_def Let_def)
  show "keeps (rem_but X) (enqueueMailBooking k i prev now)"
    unfolding enqueueMailBooking_def enqueueMailBookingTo_def by (intro keeps_for_each sched) simp_all
  show "keeps (rem_but X) (enqueueGoogleSync k i now)" unfolding enqueueGoogleSync_def by (rule sched) simp_all
  show "keeps (rem_but X) (check_slot env page t now busy)" by (auto simp: keeps_def check_slot_Inr)
  show "keeps (rem_but X) (token_guard env i tok o')" unfolding token_guard_def by (intro keeps_intros)
qed

lemma arm_run: "armBookingReminder i start d = Inr (u, d') \<longleftrightarrow> d' = with_job (booking_reminder i start) d"
  by (auto simp: armBookingReminder_def book_schedule_def result_simps booking_id_def with_job_def booking_reminder_def)

lemma cancel_run: "cancelBookingReminder i d = Inr (u, d') \<longleftrightarrow>
    d' = d\<lparr> b_jobs := Cancel ''booking.reminder'' (reminderRoomKey i) (b_jobs d) \<rparr>"
  by (auto simp: cancelBookingReminder_def book_cancel_job_def result_simps)

lemma Cancel_rem: "keeps rem_ok (BookingCancel env i tok o' now)"
proof -
  have change: "keeps rem_ok (tx (UpdateBookingStatus i ''cancelled'' who now) (\<lambda>_. tx (page_changed p) (\<lambda>_.
      tx (enqueueMailBooking ''cancelled'' i None now) (\<lambda>_. tx (cancelBookingReminder i) (\<lambda>_. m)))))"
    if m: "keeps rem_ok m" for who p m
  proof (rule keepsI, elim tx_InrE, goal_cases)
    case (1 d r d' u0 d0 u1 d1 u2 d2 u3 d3)
    have "rem_but {i} d0" using 1(2) rem_touch [OF 1(1)] by (simp add: UpdateBookingStatus_def result_simps)
    then have "rem_but {i} d1" by (rule keepsD [OF keeps_rem_asides(1) _ 1(3)])
    then have "rem_but {i} d2" by (rule keepsD [OF keeps_rem_asides(2) _ 1(4)])
    then have "rem_ok d3" using 1(5) rem_cancel by (simp add: cancel_run)
    then show ?case by (rule keepsD [OF m _ 1(6)])
  qed
  show ?thesis unfolding BookingCancel_def by (intro keeps_intros change)
qed

text \<open>Arming or cancelling the reminder of the booking repairs what a change of it left open.\<close>

lemma rem_rearm:
  assumes "rem_but {i} d" and "starts_at i start d"
    and "(if b then armBookingReminder i start else cancelBookingReminder i) d = Inr (u, d')"
  shows "rem_ok d'"
  using rem_arm [OF assms(1,2)] rem_cancel [OF assms(1)] assms(3) by (auto simp: arm_run cancel_run split: if_splits)

lemma Reschedule_rem:
  "keeps (\<lambda>d. book_ok d \<and> rem_ok d) (Reschedule env i tok start o' now)"
proof (rule keepsI, rule conjI)
  fix d r d' assume ok: "book_ok d \<and> rem_ok d" and run: "Reschedule env i tok start o' now d = Inr (r, d')"
  show "book_ok d'" using keepsD [OF Reschedule_ok _ run] ok by blast
  show "rem_ok d'"
    using run unfolding Reschedule_def bookingWindow_def Let_def prod.case
  proof (elim tx_InrE, goal_cases)
    case (1 pre d0 u1 d1 prePage d2 page d3 u4 d4 bk d5 u6 d6 u7 d7 u8 d8 existing d9 u10 d10 u11 d11 u12 d12 u13 d13 u14 d14 u15 d15)
    let ?f = "\<lambda>b. b\<lparr> bk_start_at := start, bk_end_at := start + bp_slot_duration page * Minute, bk_updated_at := now \<rparr>"
    have bk: "GetBooking i d = Some bk" "bk_status bk \<noteq> ''cancelled''"
      using 1(1-8) by (auto simp: result_simps token_guard_def GetBookingForUpdate_def)
    have d11: "d11 = d\<lparr> b_bookings := tupd (\<lambda>b. bk_id b = i) ?f (b_bookings d) \<rparr>"
      using 1(1-12) by (auto simp: UpdateBookingSchedule_def result_simps token_guard_def check_slot_Inr)
    have bk': "bk \<in> set (b_bookings d)" "bk_id bk = i" "bk_status bk = ''confirmed''"
      using bk rem_butD(3) [of "{}" d bk] ok by (auto simp: GetBooking_def dest: tget_Some_in)
    have "bk_status b = ''confirmed''" if "b \<in> set (b_bookings d)" "bk_id b = i" for b
      using tget_in_uniq [OF book_okD(1) that(1)] ok that(2) bk(1) bk'(3) by (simp add: GetBooking_def)
    moreover have "map bk_id (tupd (\<lambda>b. bk_id b = i) ?f (b_bookings d)) = map bk_id (b_bookings d)"
      by (rule map_key_tupd) simp
    from arg_cong [OF this, of set]
    have "bk_id ` set (tupd (\<lambda>b. bk_id b = i) ?f (b_bookings d)) = bk_id ` set (b_bookings d)" by (simp only: set_map)
    ultimately have start: "starts_at i start d11"
      using imageI [OF bk'(1), of bk_id] bk'(2) unfolding starts_at_def d11 by (auto simp: tupd_def)
    have "rem_but {i} d11" unfolding d11 by (rule rem_touch) (use ok in auto)
    then have d12: "rem_but {i} d12" by (rule keepsD [OF keeps_rem_asides(1) _ 1(13)])
    then have d13: "rem_but {i} d13" by (rule keepsD [OF keeps_rem_asides(2) _ 1(14)])
    have "starts_at i start d13"
      using start asideD [OF aside_jobs(3) 1(13)] asideD [OF aside_calls(1) 1(14)] starts_at_same by blast
    then have d14: "rem_ok d14" by (rule rem_rearm [OF d13 _ 1(15)])
    have "keeps rem_ok (if googleSyncActive \<and> (bk_google_event bk \<noteq> None \<or> bp_google_sync page)
         then enqueueGoogleSync ''reschedule'' i now else ret ())" by (intro keeps_intros)
    from keepsD [OF this d14 1(16)] have "rem_ok d15" .
    then show ?case using 1(17) by (simp add: result_simps)
  qed
qed

text \<open>A new booking has a fresh id, so no reminder names it.\<close>

lemma rem_insert:
  assumes "rem_ok d" and "InsertBooking b (d\<lparr> b_next := b_next d + 1 \<rparr>) = Inr (u, d')"
    and "bk_id b = b_fresh d (b_next d)" and "bk_status b = ''confirmed''"
  shows "rem_ok d' \<and> starts_at (bk_id b) (bk_start_at b) d'"
proof -
  have d': "d' = d\<lparr> b_next := b_next d + 1, b_bookings := b_bookings d @ [b] \<rparr>"
    using assms(2) by (auto simp: InsertBooking_def tins_def split: if_splits)
  have fresh: "\<not> known_booking_id d (bk_id b)"
    using rem_butD(1) [OF assms(1)] by (auto simp: known_booking_id_def assms(3) dest: injD)
  have old: "c \<in> set (b_bookings d) \<Longrightarrow> bk_id c \<noteq> bk_id b" for c using rem_butD(2) [OF assms(1)] fresh by metis
  have none: "\<not> is_reminder j (bk_id b)" if j: "j \<in> set (b_jobs d)" for j
  proof
    assume r: "is_reminder j (bk_id b)"
    then obtain k where "is_reminder j k" "known_booking_id d k"
      using rem_butD(4) [OF assms(1) j] by (auto simp: is_reminder_def)
    then show False using fresh is_reminder_inj [OF r] by metis
  qed
  have known: "known_booking_id d k \<Longrightarrow> known_booking_id d' k" for k
    by (erule known_later) (simp_all add: d' le_Suc_eq)
  have new: "known_booking_id d' (bk_id b)" by (auto simp: known_booking_id_def d' assms(3))
  have "rem_ok d'"
  proof (rule rem_butI, goal_cases)
    case (4 j)
    then show ?case using rem_butD(4) [OF assms(1), of j] known by (auto simp: d')
  next
    case (5 j c)
    then show ?case using none [of j] rem_butD(5) [OF assms(1), of j c] by (auto simp: d')
  qed (use rem_butD(1-3) [OF assms(1)] known new assms(4) in \<open>auto simp: d'\<close>)
  moreover have "starts_at (bk_id b) (bk_start_at b) d'" using old assms(4) by (auto simp: starts_at_def d')
  ultimately show ?thesis by blast
qed

lemma Book_rem: "keeps rem_ok (Book env orgSlug pageSlug i now)"
proof (rule keepsI)
  fix d r d' assume ok: "rem_ok d" and run: "Book env orgSlug pageSlug i now d = Inr (r, d')"
  show "rem_ok d'"
    using run unfolding Book_def bookingWindow_def Let_def prod.case
  proof (elim tx_InrE, goal_cases)
    case (1 u0 d0 u1 d1 org d2 pre d3 page d4 u5 d5 u6 d6 existing d7 u8 d8 bid d9 u10 d10 u11 d11 u12 d12 u13 d13 u14 d14)
    have d8: "d8 = d" using 1(1-9) by (auto simp: result_simps check_slot_Inr)
    have bid: "bid = b_fresh d (b_next d)" "d9 = d\<lparr> b_next := b_next d + 1 \<rparr>" using 1(10) d8 by (simp_all add: booking_id_def)
    have d10: "rem_ok d10 \<and> starts_at bid (in_start_at i) d10"
      using rem_insert [OF ok 1(11) [unfolded bid(2)]] bid(1) by (simp add: new_booking_def)
    then have "rem_ok d11" using keepsD [OF keeps_rem_asides(1) _ 1(12)] by blast
    then have d12: "rem_ok d12" by (rule keepsD [OF keeps_rem_asides(2) _ 1(13)])
    have "starts_at bid (in_start_at i) d12"
      using d10 asideD [OF aside_jobs(3) 1(12)] asideD [OF aside_calls(1) 1(13)] starts_at_same by blast
    from rem_arm [OF rem_mono [OF d12] this] d12 have d13: "rem_ok d13"
      using 1(14) by (auto simp: arm_run result_simps split: if_splits)
    have "keeps rem_ok (if googleSyncActive \<and> bp_google_sync page then enqueueGoogleSync ''insert'' bid now else ret ())"
      by (intro keeps_intros)
    from keepsD [OF this d13 1(15)] have "rem_ok d14" .
    then show ?case using 1(16) by (simp add: result_simps)
  qed
qed

text \<open>Page operations leave bookings and jobs alone.\<close>

definition beside :: "bdb \<Rightarrow> bdb \<Rightarrow> bool" where
  "beside d d' \<longleftrightarrow> b_bookings d' = b_bookings d \<and> b_jobs d' = b_jobs d \<and> b_fresh d' = b_fresh d \<and> b_next d \<le> b_next d'"

lemma rem_beside: "beside d d' \<Longrightarrow> rem_but X d \<Longrightarrow> rem_but X d'"
  by (erule rem_shrink) (auto simp: beside_def)

lemma keeps_rem_beside: "(\<And>d x d'. m d = Inr (x, d') \<Longrightarrow> beside d d') \<Longrightarrow> keeps (rem_but X) m"
  using rem_beside by (fastforce simp: keeps_def)

lemma keeps_rem_pages [keeps_intros]:
  "keeps (rem_but X) booking_id" "keeps (rem_but X) (InsertBookingPage p)" "keeps (rem_but X) (UpdateBookingPage i p)"
  "keeps (rem_but X) (SoftDeleteBookingPage i now)" "keeps (rem_but X) (UpdateOrganizationSlug g s)"
  by (rule keeps_rem_beside; auto simp: beside_def booking_id_def InsertBookingPage_def UpdateBookingPage_def SoftDeleteBookingPage_def
      UpdateOrganizationSlug_def result_simps split: if_splits option.splits)+

lemma keeps_rem_page_ops [keeps_intros]:
  "keeps (rem_but X) (RequireManageablePage i g u)" "keeps (rem_but X) (RequireManageableBooking j g u)"
  "keeps (rem_but X) (RequireOwnerRole g u)" "keeps (rem_but X) (CreatePage tzdb g u inp now)"
  "keeps (rem_but X) (UpdatePage tzdb i g inp now)" "keeps (rem_but X) (DeletePage i g now)" "keeps (rem_but X) (SetOrgSlug g s)"
  unfolding RequireManageableBooking_def RequireManageablePage_def RequireOwnerRole_def CreatePage_def UpdatePage_def
    DeletePage_def SetOrgSlug_def requireOrgPage_def by (intro keeps_intros)+

lemma keeps_both: "keeps P m \<Longrightarrow> keeps Q m \<Longrightarrow> keeps (\<lambda>d. P d \<and> Q d) m"
  by (auto simp: keeps_def)

lemma keeps_reminder_rem: "keeps (rem_but X) (handleBookingReminderJob b now)"
  using keepsD [OF keeps_rem_asides(2)]
  by (auto simp: keeps_def handleBookingReminderJob_def split: option.splits if_splits)

lemma purge_rem: "rem_but X d \<Longrightarrow> rem_but X (purgeBookingPages now d)"
  by (erule rem_shrink) (auto simp: purgeBookingPages_def Let_def tdel_def)

abbreviation both_ok :: "bdb \<Rightarrow> bool" where "both_ok \<equiv> \<lambda>d. book_ok d \<and> rem_ok d"

lemma keeps_handle_both: "keeps both_ok (book_handle env parse_time r now)"
proof -
  have ops: "keeps both_ok (RequireManageablePage i g u)" "keeps both_ok (RequireManageableBooking i g u)"
    "keeps both_ok (RequireOwnerRole g u)" "keeps both_ok (CreatePage tzdb g u inp now)"
    "keeps both_ok (UpdatePage tzdb i g inp now)" "keeps both_ok (DeletePage i g now)" "keeps both_ok (SetOrgSlug g s)"
    for i g u tzdb inp s by (intro keeps_both keeps_page_ops keeps_rem_page_ops)+
  have calls: "keeps both_ok (Book env g p q now)" "keeps both_ok (BookingCancel env b t o' now)" for g p q b t o'
    by (intro keeps_both Book_ok Book_rem Cancel_ok Cancel_rem)+
  have services: "keeps both_ok (handleCreatePage tz s i now)" "keeps both_ok (handleUpdatePage tz s p i now)"
    "keeps both_ok (handleDeletePage s p now)" "keeps both_ok (handleSetOrgSlug s h)"
    "keeps both_ok (handleBook env parse_time c s g h q now)" for tz s i p h c g q
    unfolding handleCreatePage_def handleUpdatePage_def handleDeletePage_def handleSetOrgSlug_def handleBook_def owned_page_def
    by (intro keeps_with_org keeps_intros ops calls)+
  have managed: "keeps both_ok (handleCancel env t s b now)" "keeps both_ok (handleReschedule env parse_time t s b w now)"
    for t s b w
    unfolding handleCancel_def handleReschedule_def by_credential_def
    by (intro keeps_with_org keeps_intros ops calls Reschedule_rem)+
  have rest: "keeps both_ok (handleBookingReminderJob b now)" "keeps both_ok (writes (purgeBookingPages now))" for b
    by (intro keeps_both keeps_reminder keeps_reminder_rem keeps_writes purge_pages_ok purge_rem; simp)+
  show ?thesis
    by (cases r; simp only: book_handle.simps; intro keeps_tx keeps_ret keeps_bsvc services managed rest)
qed

section \<open>The worker in between\<close>

text \<open>What the job worker may do to the table at any time: hand due rows out, remove a row it finished, record a
  failure, and sweep dead letters. Retrying a dead row by hand is left out: it makes the row due at once.\<close>

datatype worker_op =
    WorkerClaims "string list" string nat
  | WorkerCompletes string
  | WorkerFails string string
  | WorkerSweeps

fun worker_jobs :: "worker_op \<Rightarrow> instant \<Rightarrow> job list \<Rightarrow> job list" where
  "worker_jobs (WorkerClaims busy replica limit) now js = snd (ClaimDue busy now replica limit js)"
| "worker_jobs (WorkerCompletes i) now js = Complete i js"
| "worker_jobs (WorkerFails i msg) now js = (case fail now i msg js of Inl e \<Rightarrow> js | Inr (r, js') \<Rightarrow> js')"
| "worker_jobs WorkerSweeps now js = sweepDeadLetters now js"

definition worker_step :: "worker_op \<times> instant \<Rightarrow> bdb \<Rightarrow> bdb" where
  "worker_step w d = d\<lparr> b_jobs := worker_jobs (fst w) (snd w) (b_jobs d) \<rparr>"

lemma worker_origin:
  assumes "j \<in> set (worker_jobs w now js)"
  shows "\<exists>j0 \<in> set js. job_kind j0 = job_kind j \<and> job_room j0 = job_room j \<and>
    (job_last_error j = None \<longrightarrow> job_last_error j0 = None \<and> job_run_at j = job_run_at j0)"
proof (cases w)
  case (WorkerClaims busy replica limit)
  then obtain ids where "j \<in> set (tupd (\<lambda>j. job_id j \<in> ids) (claim_row now replica) js)"
    using assms by (auto simp: ClaimDue_def Let_def)
  then show ?thesis by (auto simp: tupd_def claim_row_def split: if_splits)
next
  case (WorkerCompletes i)
  then show ?thesis using assms by (auto simp: Complete_def)
next
  case (WorkerFails i msg)
  show ?thesis
  proof (cases "fail now i msg js")
    case (Inl e)
    then show ?thesis using assms WorkerFails by auto
  next
    case (Inr r)
    then have "fail now i msg js = Inr (fst r, snd r)" by simp
    from fail_cases [OF this] consider "snd r = js" | t where "snd r = tupd (\<lambda>j. job_id j = i)
        (\<lambda>j. j\<lparr> job_locked_by := None, job_locked_at := None, job_last_error := Some (truncateLastError msg), job_run_at := t \<rparr>) js"
      by blast
    moreover have "j \<in> set (snd r)" using assms WorkerFails Inr by (cases r) simp
    ultimately show ?thesis by cases (auto simp: tupd_def)
  qed
next
  case WorkerSweeps
  then show ?thesis using assms by (auto simp: sweepDeadLetters_def tupd_def split: if_splits)
qed

lemma worker_both: "both_ok d \<Longrightarrow> both_ok (worker_step w d)"
proof (elim conjE, intro conjI)
  assume "book_ok d"
  then show "book_ok (worker_step w d)" by (rule book_ok_same [rotated]) (simp add: same_book_def worker_step_def)
next
  assume "rem_ok d"
  then show "rem_ok (worker_step w d)"
  proof (rule rem_shrink, goal_cases)
    case (4 j)
    then have "j \<in> set (worker_jobs (fst w) (snd w) (b_jobs d))" by (simp add: worker_step_def)
    from worker_origin [OF this] show ?case .
  qed (simp_all add: worker_step_def)
qed

definition booking_day ::
  "book_env \<Rightarrow> (string \<Rightarrow> instant option) \<Rightarrow> (book_request \<times> instant) + (worker_op \<times> instant) \<Rightarrow> bdb \<Rightarrow> bdb" where
  "booking_day env parse_time x = (case x of Inl r \<Rightarrow> book_step env parse_time r | Inr w \<Rightarrow> worker_step w)"

interpretation book_days: step_machine "booking_day env parse_time" both_ok for env parse_time
proof
  fix s x assume ok: "both_ok s"
  show "both_ok (booking_day env parse_time x s)"
  proof (cases x)
    case (Inl r)
    have "both_ok (book_step env parse_time r s)"
      unfolding book_step_def
      by (rule commit_inv [where P = both_ok, OF ok]) (rule keepsD [OF keeps_handle_both ok])
    then show ?thesis by (simp add: booking_day_def Inl)
  next
    case (Inr w)
    then show ?thesis using worker_both [OF ok] by (simp add: booking_day_def)
  qed
qed

text \<open>C11: Reminders follow their bookings. Start with any pages and no bookings, serve any requests at any times and let
  the job worker claim, finish, fail and sweep rows in between: a reminder row of a booking exists only while the
  booking is confirmed (cancelling removes it), and unless its delivery has failed before it is due exactly a day
  before the start the booking has now, however often it was moved.\<close>

theorem reminders_match:
  assumes "book_ok d" and "b_bookings d = []" and "b_jobs d = []" and "inj (b_fresh d)"
    and "j \<in> set (b_jobs (fold (booking_day env parse_time) xs d))" and "b \<in> set (b_bookings (fold (booking_day env parse_time) xs d))"
    and "job_kind j = ''booking.reminder''" and "job_room j = Some (reminderRoomKey (bk_id b))"
  shows "bk_status b = ''confirmed'' \<and> (job_last_error j = None \<longrightarrow> job_run_at j = bk_start_at b - 24 * Hour)"
proof -
  have "rem_ok d" using assms(2-4) by (simp add: rem_but_def)
  with assms(1) have "both_ok (fold (booking_day env parse_time) xs d)" by (intro book_days.run_inv) simp
  then have "reminder_fits j b" using rem_butD(5) [where X = "{}", OF _ assms(5,6)] assms(7,8) by (simp add: is_reminder_def)
  then show ?thesis by (simp add: reminder_fits_def reminderLead_def)
qed

definition demo_reminding :: bdb where
  "demo_reminding = demo_open\<lparr> b_pages := [demo_page\<lparr> bp_reminders := True \<rparr>] \<rparr>"

lemma reminders_match_witness:
  "\<exists>j b. j \<in> set (b_jobs (fold (booking_day demo_book_env demo_times)
       [Inl (BookSlot None None ''org'' ''abc'' (demo_request ''first''), 0)] demo_reminding)) \<and>
     b \<in> set (b_bookings (fold (booking_day demo_book_env demo_times)
       [Inl (BookSlot None None ''org'' ''abc'' (demo_request ''first''), 0)] demo_reminding)) \<and>
     job_kind j = ''booking.reminder'' \<and> job_room j = Some (reminderRoomKey (bk_id b)) \<and> bk_start_at b = 8 * Hour \<and>
     job_run_at j = bk_start_at b - 24 * Hour"
proof -
  let ?p = "demo_page\<lparr> bp_reminders := True \<rparr>" and ?i = "demo_book_input (8 * Hour)"
  let ?d = "after_booking ?p ?i 0 demo_reminding" and ?b = "new_booking ''aa'' (demo_page\<lparr> bp_reminders := True \<rparr>) (demo_book_input (8 * Hour)) 0"
  let ?j = "fresh_job ''aaaaa'' (booking_reminder ''aa'' (8 * Hour))"
  have facts: "b_fresh demo_reminding n = replicate (Suc n) CHR ''a''" "b_next demo_reminding = 1" "b_bookings demo_reminding = []"
    "b_jobs demo_reminding = []" "b_pages demo_reminding = [?p]" for n
    by (simp_all add: demo_reminding_def demo_book_facts) (simp add: demo_open_def demo_bdb_def)
  have ok: "book_ok demo_reminding"
    using demo_book_ok by (simp add: book_ok_def demo_reminding_def demo_book_facts page_ok_def pageRulesFrom_def tuniq_def)
  have named: "named_page ''org'' ''abc'' demo_reminding = Some ?p"
    by (simp add: named_page_def demo_reminding_def demo_open_def demo_bdb_def GetOrganizationBySlug_def GetBookingPageByOrgSlug_def
        demo_page_def with_input_def demo_page_input_def blank_page_def live_page_def)
  have rules: "pageRulesFrom ?p = demo_rules" using demo_page_rules by (simp add: pageRulesFrom_def)
  have "taken ?p demo_reminding = []" by (simp add: taken_def facts)
  then obtain r where r: "Book demo_book_env ''org'' ''abc'' ?i 0 demo_reminding = Inr (r, ?d)" "br_booking r = ''aa''"
    using Book_offered [OF ok named, of demo_book_env "fixed_zone 3600" ?i 0] demo_sane demo_calendar(2-4) demo_offered
    by (simp add: rules demo_input_valid demo_book_facts facts tget_def duration_nums)
  have five: "replicate 4 CHR ''a'' = ''aaaa''" "replicate 5 CHR ''a'' = ''aaaaa''" by (simp_all add: numeral_eq_Suc)
  have d: "b_bookings ?d = [?b]" "?j \<in> set (b_jobs ?d)"
    by (simp_all add: after_booking_def Let_def facts demo_book_facts with_job_def with_mails_def with_event_def Schedule_def
        booking_mail_def booking_reminder_def same_slot_def five fresh_job_def)
  have "GetBooking ''aa'' ?d \<noteq> None" by (simp add: GetBooking_def tget_def d new_booking_def)
  then have run: "fold (booking_day demo_book_env demo_times)
       [Inl (BookSlot None None ''org'' ''abc'' (demo_request ''first''), 0)] demo_reminding = ?d"
    using demo_booked [OF r(1), of "''first''"] r(2) by (simp add: booking_day_def book_step_def demo_times_def)
  have inj: "inj (b_fresh demo_reminding)" by (rule injI) (simp add: facts)
  have j: "job_kind ?j = ''booking.reminder''" "job_room ?j = Some (reminderRoomKey (bk_id ?b))" "job_last_error ?j = None"
    "bk_start_at ?b = 8 * Hour"
    by (simp_all add: fresh_job_def booking_reminder_def new_booking_def demo_book_facts)
  have mem: "?j \<in> set (b_jobs (fold (booking_day demo_book_env demo_times)
       [Inl (BookSlot None None ''org'' ''abc'' (demo_request ''first''), 0)] demo_reminding))"
    "?b \<in> set (b_bookings (fold (booking_day demo_book_env demo_times)
       [Inl (BookSlot None None ''org'' ''abc'' (demo_request ''first''), 0)] demo_reminding))"
    unfolding run using d by simp_all
  have "job_run_at ?j = bk_start_at ?b - 24 * Hour"
    using reminders_match [OF ok facts(3,4) inj mem j(1,2)] j(3) by blast
  with mem j(1,2,4) show ?thesis by blast
qed

end
