(* ===== verification/Consent.thy ===== *)
theory Consent
  imports Mailer
begin

text \<open>
  What unsubscribing promises: after any clicks on unsubscribe and resubscribe links, a notification is withheld
  exactly from those whose last accepted click withdrew consent, and every notification that is sent carries a
  link that withdraws it.
\<close>

datatype click = Unsubscribe string string | ClickResubscribe string

fun click_step ::
  "(string \<Rightarrow> string \<Rightarrow> string) \<Rightarrow> (string \<Rightarrow> string) \<Rightarrow> string \<Rightarrow> click \<times> instant \<Rightarrow> suppression list \<Rightarrow> suppression list" where
  "click_step mac lower secret (Unsubscribe token via, now) t = snd (handleUnsubscribe mac lower secret token via now t)"
| "click_step mac lower secret (ClickResubscribe token, now) t = snd (handleResubscribe mac lower secret token t)"

definition run_clicks ::
  "(string \<Rightarrow> string \<Rightarrow> string) \<Rightarrow> (string \<Rightarrow> string) \<Rightarrow> string \<Rightarrow> (click \<times> instant) list \<Rightarrow> suppression list \<Rightarrow> suppression list" where
  "run_clicks mac lower secret cs t = fold (click_step mac lower secret) cs t"

text \<open>The last accepted click of an address: \<open>True\<close> when it withdrew consent.\<close>

fun withdrawn ::
  "(string \<Rightarrow> string \<Rightarrow> string) \<Rightarrow> (string \<Rightarrow> string) \<Rightarrow> string \<Rightarrow> string \<Rightarrow> (click \<times> instant) list \<Rightarrow> bool \<Rightarrow> bool" where
  "withdrawn mac lower secret a [] w = w"
| "withdrawn mac lower secret a ((Unsubscribe token via, now) # cs) w =
     withdrawn mac lower secret a cs (w \<or> ParseUnsubscribeToken mac lower secret token = Some a)"
| "withdrawn mac lower secret a ((ClickResubscribe token, now) # cs) w =
     withdrawn mac lower secret a cs (w \<and> ParseUnsubscribeToken mac lower secret token \<noteq> Some a)"

lemma Parse_normal: "ParseUnsubscribeToken mac lower secret token = Some a \<Longrightarrow> NormalizeEmail lower a = a"
  by (auto simp: ParseUnsubscribeToken_def split: option.splits if_splits prod.splits)

abbreviation listed :: "string \<Rightarrow> suppression list \<Rightarrow> bool" where
  "listed a t \<equiv> a \<in> su_email ` set t"

lemma IsSuppressed_listed: "IsSuppressed lower e t \<longleftrightarrow> listed (NormalizeEmail lower e) t"
  by (force simp: IsSuppressed_def tget_None_iff)

lemma listed_map: "listed a t \<longleftrightarrow> a \<in> set (map su_email t)"
  by simp

lemma Suppress_listed:
  "NormalizeEmail lower e = e \<Longrightarrow> listed a (Suppress lower e source now t) \<longleftrightarrow> a = e \<or> listed a t"
proof (cases "tget su_email e t")
  case (Some r)
  then have "listed e t" using tget_Some_in by fastforce
  with Some show "NormalizeEmail lower e = e \<Longrightarrow> listed a (Suppress lower e source now t) \<longleftrightarrow> a = e \<or> listed a t"
    by (auto simp: Suppress_def Let_def listed_map map_key_tupd simp del: set_map)
qed (auto simp: Suppress_def Let_def)

lemma Resubscribe_listed:
  "NormalizeEmail lower e = e \<Longrightarrow> listed a (Resubscribe lower e t) \<longleftrightarrow> a \<noteq> e \<and> listed a t"
  by (auto simp: Resubscribe_def tdel_def)

lemma run_clicks_listed:
  assumes "a \<noteq> []"
  shows "listed a (run_clicks mac lower secret cs t) \<longleftrightarrow> withdrawn mac lower secret a cs (listed a t)"
proof (induction cs arbitrary: t)
  case (Cons c cs)
  obtain k now where c: "c = (k, now)" by (cases c)
  show ?case
  proof (cases k)
    case (Unsubscribe token via)
    have "listed a (click_step mac lower secret c t) \<longleftrightarrow>
        listed a t \<or> ParseUnsubscribeToken mac lower secret token = Some a"
      using assms Parse_normal [of mac lower secret token]
      by (auto simp: c Unsubscribe handleUnsubscribe_def unsubscribeAddress_def Let_def Suppress_listed split: option.splits)
    with Cons [of "click_step mac lower secret c t"] show ?thesis by (simp add: run_clicks_def c Unsubscribe)
  next
    case (ClickResubscribe token)
    have "listed a (click_step mac lower secret c t) \<longleftrightarrow>
        listed a t \<and> ParseUnsubscribeToken mac lower secret token \<noteq> Some a"
      using assms Parse_normal [of mac lower secret token]
      by (auto simp: c ClickResubscribe handleResubscribe_def unsubscribeAddress_def Let_def Resubscribe_listed split: option.splits)
    with Cons [of "click_step mac lower secret c t"] show ?thesis by (simp add: run_clicks_def c ClickResubscribe)
  qed
qed (simp add: run_clicks_def)

lemma Send_withheld:
  "Send mac lower tr m t msg = Inr None \<longleftrightarrow>
     IsNotificationTemplate (ms_template msg) \<and> ml_store m \<and> IsSuppressed lower (ms_to msg) t"
  by (auto simp: Send_def Let_def split: option.splits if_splits)

lemma Send_link:
  assumes "Send mac lower tr m t msg = Inr (Some e)" and "IsNotificationTemplate (ms_template msg)"
  shows "ev_unsubscribe e = ml_app_url m @ ''/api/v1/unsubscribe?token='' @ UnsubscribeToken mac lower (ml_secret m) (ms_to msg)"
  using assms by (auto simp: Send_def Let_def split: option.splits if_splits)

text \<open>C12: Consent is respected on the way out. Start from an empty suppression list and let anybody click any
  unsubscribe and resubscribe links, genuine or forged, in any order. A message is then withheld if and only if it
  is a notification and the last accepted click for its recipient's normalised address withdrew consent; and a
  notification that is delivered names, in its headers, a link which, once clicked, makes every later notification
  to that recipient be withheld.\<close>

theorem consent_respected:
  assumes "ml_store m" and "mail_address mac lower (ml_secret m) (NormalizeEmail lower (ms_to msg))"
  shows "let t = run_clicks mac lower (ml_secret m) cs [] in
    (Send mac lower tr m t msg = Inr None \<longleftrightarrow> IsNotificationTemplate (ms_template msg) \<and>
       withdrawn mac lower (ml_secret m) (NormalizeEmail lower (ms_to msg)) cs False) \<and>
    (\<forall>e. IsNotificationTemplate (ms_template msg) \<and> Send mac lower tr m t msg = Inr (Some e) \<longrightarrow>
       (\<exists>token. ev_unsubscribe e = ml_app_url m @ ''/api/v1/unsubscribe?token='' @ token \<and>
          Send mac lower tr m (click_step mac lower (ml_secret m) (Unsubscribe token via, now) t) msg = Inr None))"
proof -
  let ?a = "NormalizeEmail lower (ms_to msg)" and ?t = "run_clicks mac lower (ml_secret m) cs []"
  have a: "?a \<noteq> []" using assms(2) by (simp add: mail_address_def)
  let ?token = "UnsubscribeToken mac lower (ml_secret m) (ms_to msg)"
  have "UnsubscribeToken mac lower (ml_secret m) (ms_to msg) = UnsubscribeToken mac lower (ml_secret m) ?a"
    using assms(2) by (simp add: UnsubscribeToken_def mail_address_def)
  then have "ParseUnsubscribeToken mac lower (ml_secret m) ?token = Some ?a"
    using unsubscribe_link.verify_mint [OF assms(2)] by simp
  then have "listed ?a (run_clicks mac lower (ml_secret m) [(Unsubscribe ?token via, now)] ?t)"
    using run_clicks_listed [OF a, of mac lower "ml_secret m" "[(Unsubscribe ?token via, now)]" ?t] by simp
  then have "Send mac lower tr m (click_step mac lower (ml_secret m) (Unsubscribe ?token via, now) ?t) msg = Inr None"
    if "IsNotificationTemplate (ms_template msg)"
    using that assms(1) by (simp add: Send_withheld IsSuppressed_listed run_clicks_def)
  moreover have "IsSuppressed lower (ms_to msg) ?t \<longleftrightarrow> withdrawn mac lower (ml_secret m) ?a cs False"
    using run_clicks_listed [OF a, of mac lower "ml_secret m" cs "[]"] by (simp add: IsSuppressed_listed)
  ultimately show ?thesis using Send_link [of mac lower tr m ?t msg] assms(1) by (auto simp: Let_def Send_withheld)
qed

definition demo_mailer :: mailer where
  "demo_mailer = \<lparr> ml_from_name = ''W'', ml_from_email = ''w@x.y'', ml_app_url = ''https://x'', ml_secret = ''k'', ml_store = True \<rparr>"

definition demo_transport :: transport where
  "demo_transport = \<lparr> tr_render = (\<lambda>_ _. Some \<lparr> rd_subject = ''S'', rd_html = ''H'', rd_text = ''T'' \<rparr>),
     tr_address = (\<lambda>_ _. True), tr_one_click = (\<lambda>_. True), tr_deliver = (\<lambda>_. None), tr_catalog = (\<lambda>_ _. None) \<rparr>"

definition demo_digest :: Message where
  "demo_digest = \<lparr> ms_to = ''a@b.c'', ms_to_name = [], ms_template = ''digest'', ms_data = [], ms_attachments = [] \<rparr>"

lemma consent_respected_witness:
  "Send demo_mac id demo_transport demo_mailer
     (run_clicks demo_mac id ''k'' [(Unsubscribe (UnsubscribeToken demo_mac id ''k'' ''a@b.c'') [], 0)] []) demo_digest = Inr None \<and>
   Send demo_mac id demo_transport demo_mailer
     (run_clicks demo_mac id ''k'' [(Unsubscribe (UnsubscribeToken demo_mac id ''k'' ''a@b.c'') [], 0),
        (ClickResubscribe (UnsubscribeToken demo_mac id ''k'' ''a@b.c''), 1)] []) demo_digest \<noteq> Inr None"
proof -
  have norm: "NormalizeEmail id ''a@b.c'' = ''a@b.c''" by (simp add: NormalizeEmail_def TrimSpace_plain printable_def)
  then have addr: "mail_address demo_mac id ''k'' ''a@b.c''" by (simp add: mail_address_def demo_mac_def)
  have parse: "ParseUnsubscribeToken demo_mac id ''k'' (UnsubscribeToken demo_mac id ''k'' ''a@b.c'') = Some ''a@b.c''"
    by (rule unsubscribe_link.verify_mint [OF addr])
  have m: "ml_store demo_mailer" "ml_secret demo_mailer = ''k''" "ms_to demo_digest = ''a@b.c''"
    "IsNotificationTemplate (ms_template demo_digest)"
    by (simp_all add: demo_mailer_def demo_digest_def IsNotificationTemplate_def notificationTemplates_def)
  have "mail_address demo_mac id (ml_secret demo_mailer) (NormalizeEmail id (ms_to demo_digest))" by (simp add: m norm addr)
  note consent = consent_respected [where tr = demo_transport, OF m(1) this]
  show ?thesis
    using consent [of "[(Unsubscribe (UnsubscribeToken demo_mac id ''k'' ''a@b.c'') [], 0)]"]
      consent [of "[(Unsubscribe (UnsubscribeToken demo_mac id ''k'' ''a@b.c'') [], 0),
        (ClickResubscribe (UnsubscribeToken demo_mac id ''k'' ''a@b.c''), 1)]"] m(4)
    by (simp add: m(2,3) norm parse Let_def)
qed

section \<open>Links and placeholders\<close>

text \<open>The three credentials are keyed hashes under one secret, and only the manage token marks its purpose in what
  it hashes. An unsubscribe link for an address of the form \<open>booking-manage:i\<close> would hold the manage token of
  booking \<open>i\<close>, and every guest token is, re-encoded, an unsubscribe link for the participant's id.\<close>

lemma credentials_share_hash:
  "mac secret i \<noteq> [] \<Longrightarrow> i \<noteq> [] \<Longrightarrow> NormalizeEmail lower i = i \<Longrightarrow>
     ParseUnsubscribeToken mac lower secret (EncodeToString i @ ''.'' @ EncodeToString (mac secret i)) = Some i"
  using unsubscribe_link.verify_mint [of mac lower secret i] by (simp add: UnsubscribeToken_def mail_address_def Let_def)

text \<open>Placeholders are filled one after the other in the whole text, so a value that spells a later placeholder is
  itself filled: a visitor called \<open>{when}\<close> gets the time in place of a name.\<close>

lemma translate_refills:
  "translate (\<lambda>_ _. Some ''Hi {name}, {when}'') ''en'' k [(''name'', ''{when}''), (''when'', ''noon'')] = ''Hi noon, noon''"
  by (simp add: translate_def replacePlaceholder_def ReplaceAll.simps)

end
