(* ===== verification/Config.thy ===== *)
theory Config
  imports Digest
begin

text \<open>
  Reading the configuration from the environment (\<^verbatim>\<open>internal/config/config.go\<close>). An absent variable reads as the empty
  text. \<^verbatim>\<open>url.Parse\<close> (scheme and host), SHA-256 and lower-casing are parameters; errors and warnings are named by the
  variables they are about.
\<close>

record Capabilities =
  cap_turnstile :: bool
  cap_google :: bool
  cap_oidc :: bool

record Config =
  cf_app_env :: string
  cf_app_url :: string
  cf_port :: int
  cf_database_url :: string
  cf_pool_size :: int
  cf_auth_secret :: string
  cf_limen_secret :: string
  cf_smtp_host :: string
  cf_smtp_port :: int
  cf_smtp_user :: string
  cf_smtp_password :: string
  cf_smtp_secure :: bool
  cf_email_from :: string
  cf_turnstile_site :: string
  cf_turnstile_secret :: string
  cf_google_id :: string
  cf_google_secret :: string
  cf_oidc_issuer :: string
  cf_oidc_id :: string
  cf_oidc_secret :: string
  cf_oidc_name :: string
  cf_test_routes :: bool
  cf_trust_proxy :: bool
  cf_migrate :: bool
  cf_log_format :: string
  cf_capabilities :: Capabilities
  cf_production :: bool

definition get_env :: "(string \<Rightarrow> string) \<Rightarrow> string \<Rightarrow> string" where
  "get_env env k = TrimSpace (env k)"

definition ascii_lower :: "char \<Rightarrow> char" where
  "ascii_lower c = (if 65 \<le> byte c \<and> byte c \<le> 90 then char_of (byte c + 32) else c)"

text \<open>No other letter folds to one of \<open>true\<close>.\<close>

definition boolEnv :: "(string \<Rightarrow> string) \<Rightarrow> string \<Rightarrow> bool \<Rightarrow> bool" where
  "boolEnv env k def = (let v = get_env env k in if v = [] then def else map ascii_lower v = ''true'' \<or> v = ''1'')"

definition intEnv :: "(string \<Rightarrow> string) \<Rightarrow> string \<Rightarrow> int \<Rightarrow> int \<times> string list" where
  "intEnv env k def = (let v = get_env env k
     in if v = [] then (def, [])
        else (case ParseInt v of None \<Rightarrow> (def, [k]) | Some n \<Rightarrow> if n \<le> 0 then (def, [k]) else (n, [])))"

definition poolEnv :: "(string \<Rightarrow> string) \<Rightarrow> int \<times> string list" where
  "poolEnv env = (let v = get_env env ''DATABASE_POOL_SIZE''
     in if v = [] then (10, [])
        else (case ParseInt v of None \<Rightarrow> (10, [''DATABASE_POOL_SIZE''])
           | Some n \<Rightarrow> if n \<le> 0 \<or> 100 < n then (10, [''DATABASE_POOL_SIZE'']) else (n, [])))"

definition or_default :: "string \<Rightarrow> string \<Rightarrow> string" where
  "or_default def v = (if v = [] then def else v)"

definition drop_slash :: "string \<Rightarrow> string" where
  "drop_slash s = (if s \<noteq> [] \<and> last s = CHR ''/'' then butlast s else s)"

definition urlEnv :: "(string \<Rightarrow> (string \<times> string) option) \<Rightarrow> string \<Rightarrow> string \<times> string list" where
  "urlEnv parse_url raw =
     (if raw = [] then ([], [''APP_URL''])
      else (case parse_url raw of
              Some (scheme, host) \<Rightarrow>
                if (scheme = ''http'' \<or> scheme = ''https'') \<and> host \<noteq> [] then (drop_slash raw, []) else ([], [''APP_URL''])
            | None \<Rightarrow> ([], [''APP_URL''])))"

text \<open>A pair of values: whether both are there, and a warning when one is.\<close>

definition pair_capability :: "string \<Rightarrow> string \<Rightarrow> string \<Rightarrow> bool \<times> string list" where
  "pair_capability name a b =
     (if a \<noteq> [] \<and> b \<noteq> [] then (True, []) else (False, if a \<noteq> [] \<or> b \<noteq> [] then [name] else []))"

definition one_of :: "string \<Rightarrow> string list \<Rightarrow> string \<Rightarrow> string list" where
  "one_of k allowed v = (if v \<in> set allowed then [] else [k])"

text \<open>Errors are collected, in this order, before anything is refused; warnings likewise.\<close>

definition load_errors :: "(string \<Rightarrow> string) \<Rightarrow> (string \<Rightarrow> (string \<times> string) option) \<Rightarrow> (string \<Rightarrow> string) \<Rightarrow> string list" where
  "load_errors lower parse_url env =
     (let get = get_env env; app_env = or_default ''development'' (get ''APP_ENV'')
      in snd (intEnv env ''PORT'' 3000) @ snd (intEnv env ''SMTP_PORT'' 587) @
         one_of ''LOG_FORMAT'' [''text'', ''json''] (or_default ''text'' (lower (get ''LOG_FORMAT''))) @
         one_of ''APP_ENV'' [''development'', ''test'', ''production''] app_env @ snd (poolEnv env) @
         snd (urlEnv parse_url (get ''APP_URL'')) @
         (if get ''DATABASE_URL'' = [] then [''DATABASE_URL''] else []) @
         (if length (get ''AUTH_SECRET'') < 32 then [''AUTH_SECRET''] else []) @
         (if get ''SMTP_HOST'' = [] then [''SMTP_HOST''] else []) @
         (if boolEnv env ''ENABLE_TEST_ROUTES'' False \<and> app_env = ''production'' then [''ENABLE_TEST_ROUTES''] else []))"

definition turnstile_pair :: "(string \<Rightarrow> string) \<Rightarrow> bool \<times> string list" where
  "turnstile_pair env = pair_capability ''Turnstile'' (get_env env ''TURNSTILE_SITE_KEY'') (get_env env ''TURNSTILE_SECRET_KEY'')"

definition google_pair :: "(string \<Rightarrow> string) \<Rightarrow> bool \<times> string list" where
  "google_pair env = pair_capability ''Google sign-in'' (get_env env ''GOOGLE_CLIENT_ID'') (get_env env ''GOOGLE_CLIENT_SECRET'')"

definition oidc_triple :: "(string \<Rightarrow> string) \<Rightarrow> bool \<times> string list" where
  "oidc_triple env =
     (let parts = [get_env env ''OIDC_ISSUER'', get_env env ''OIDC_CLIENT_ID'', get_env env ''OIDC_CLIENT_SECRET''];
          n = length (filter (\<lambda>p. p \<noteq> []) parts); on = (n = length parts)
      in (on, if 0 < n \<and> \<not> on then [''OIDC''] else []))"

definition load_warnings :: "(string \<Rightarrow> string) \<Rightarrow> string list" where
  "load_warnings env =
     (if (get_env env ''SMTP_USER'' \<noteq> []) \<noteq> (get_env env ''SMTP_PASSWORD'' \<noteq> []) then [''SMTP auth''] else []) @
     (if boolEnv env ''SMTP_SECURE'' False \<and> fst (intEnv env ''SMTP_PORT'' 587) = 587 then [''SMTP_SECURE''] else []) @
     snd (turnstile_pair env) @ snd (google_pair env) @ snd (oidc_triple env) @
     (if \<not> fst (turnstile_pair env) \<and> or_default ''development'' (get_env env ''APP_ENV'') = ''production'' then [''captcha''] else [])"

definition loaded ::
  "(string \<Rightarrow> string) \<Rightarrow> (string \<Rightarrow> (string \<times> string) option) \<Rightarrow> (string \<Rightarrow> string) \<Rightarrow> (string \<Rightarrow> string) \<Rightarrow> Config" where
  "loaded lower parse_url sha256 env =
     (let get = get_env env; app_env = or_default ''development'' (get ''APP_ENV'')
      in \<lparr> cf_app_env = app_env, cf_app_url = fst (urlEnv parse_url (get ''APP_URL'')), cf_port = fst (intEnv env ''PORT'' 3000),
            cf_database_url = get ''DATABASE_URL'', cf_pool_size = fst (poolEnv env), cf_auth_secret = get ''AUTH_SECRET'',
            cf_limen_secret = sha256 (get ''AUTH_SECRET''), cf_smtp_host = get ''SMTP_HOST'',
            cf_smtp_port = fst (intEnv env ''SMTP_PORT'' 587), cf_smtp_user = get ''SMTP_USER'',
            cf_smtp_password = get ''SMTP_PASSWORD'', cf_smtp_secure = boolEnv env ''SMTP_SECURE'' False,
            cf_email_from = or_default ''whenweall <no-reply@localhost>'' (get ''EMAIL_FROM''),
            cf_turnstile_site = get ''TURNSTILE_SITE_KEY'', cf_turnstile_secret = get ''TURNSTILE_SECRET_KEY'',
            cf_google_id = get ''GOOGLE_CLIENT_ID'', cf_google_secret = get ''GOOGLE_CLIENT_SECRET'',
            cf_oidc_issuer = get ''OIDC_ISSUER'', cf_oidc_id = get ''OIDC_CLIENT_ID'', cf_oidc_secret = get ''OIDC_CLIENT_SECRET'',
            cf_oidc_name = or_default ''sso'' (get ''OIDC_NAME''), cf_test_routes = boolEnv env ''ENABLE_TEST_ROUTES'' False,
            cf_trust_proxy = boolEnv env ''TRUST_PROXY'' False, cf_migrate = boolEnv env ''MIGRATE_ON_BOOT'' True,
            cf_log_format = or_default ''text'' (lower (get ''LOG_FORMAT'')),
            cf_capabilities = \<lparr> cap_turnstile = fst (turnstile_pair env), cap_google = fst (google_pair env),
              cap_oidc = fst (oidc_triple env) \<rparr>,
            cf_production = (app_env = ''production'') \<rparr>)"

definition Load ::
  "(string \<Rightarrow> string) \<Rightarrow> (string \<Rightarrow> (string \<times> string) option) \<Rightarrow> (string \<Rightarrow> string) \<Rightarrow> (string \<Rightarrow> string) \<Rightarrow>
   string list + Config \<times> string list" where
  "Load lower parse_url sha256 env =
     (let errs = load_errors lower parse_url env
      in if errs \<noteq> [] then Inl errs else Inr (loaded lower parse_url sha256 env, load_warnings env))"

text \<open>\<open>FromOS\<close>: the later of two entries for one name counts; entries without an equals sign are passed over.\<close>

definition FromOS ::
  "(string \<Rightarrow> string) \<Rightarrow> (string \<Rightarrow> (string \<times> string) option) \<Rightarrow> (string \<Rightarrow> string) \<Rightarrow> string list \<Rightarrow>
   string list + Config \<times> string list" where
  "FromOS lower parse_url sha256 environ =
     Load lower parse_url sha256 (fold (\<lambda>kv env. case Cut (CHR ''='') kv of None \<Rightarrow> env | Some (k, v) \<Rightarrow> env(k := v)) environ (\<lambda>_. []))"

section \<open>What a configuration that loads promises\<close>

definition config_ok :: "(string \<Rightarrow> string) \<Rightarrow> Config \<Rightarrow> bool" where
  "config_ok sha256 c \<longleftrightarrow>
     0 < cf_port c \<and> 0 < cf_smtp_port c \<and> 0 < cf_pool_size c \<and> cf_pool_size c \<le> 100 \<and>
     cf_app_env c \<in> set [''development'', ''test'', ''production''] \<and> cf_log_format c \<in> set [''text'', ''json''] \<and>
     cf_database_url c \<noteq> [] \<and> cf_smtp_host c \<noteq> [] \<and> 32 \<le> length (cf_auth_secret c) \<and>
     cf_limen_secret c = sha256 (cf_auth_secret c) \<and> cf_email_from c \<noteq> [] \<and> cf_oidc_name c \<noteq> [] \<and>
     (cf_production c \<longleftrightarrow> cf_app_env c = ''production'') \<and> \<not> (cf_production c \<and> cf_test_routes c) \<and>
     (cap_turnstile (cf_capabilities c) \<longleftrightarrow> cf_turnstile_site c \<noteq> [] \<and> cf_turnstile_secret c \<noteq> []) \<and>
     (cap_google (cf_capabilities c) \<longleftrightarrow> cf_google_id c \<noteq> [] \<and> cf_google_secret c \<noteq> []) \<and>
     (cap_oidc (cf_capabilities c) \<longleftrightarrow> cf_oidc_issuer c \<noteq> [] \<and> cf_oidc_id c \<noteq> [] \<and> cf_oidc_secret c \<noteq> [])"

lemma intEnv_ok: "0 < def \<Longrightarrow> 0 < fst (intEnv env k def)"
  by (auto simp: intEnv_def Let_def split: if_splits option.splits)

lemma poolEnv_ok: "0 < fst (poolEnv env) \<and> fst (poolEnv env) \<le> 100"
  by (auto simp: poolEnv_def Let_def split: if_splits option.splits)

lemma one_of_ok: "one_of k allowed v = [] \<longleftrightarrow> v \<in> set allowed"
  by (simp add: one_of_def)

lemma pair_ok: "fst (pair_capability name a b) \<longleftrightarrow> a \<noteq> [] \<and> b \<noteq> []"
  by (auto simp: pair_capability_def split: if_splits)

lemma oidc_triple_ok:
  "fst (oidc_triple env) \<longleftrightarrow>
   get_env env ''OIDC_ISSUER'' \<noteq> [] \<and> get_env env ''OIDC_CLIENT_ID'' \<noteq> [] \<and> get_env env ''OIDC_CLIENT_SECRET'' \<noteq> []"
  by (simp add: oidc_triple_def Let_def)

fun absolute_url :: "(string \<times> string) option \<Rightarrow> bool" where
  "absolute_url None = False"
| "absolute_url (Some (scheme, host)) = ((scheme = ''http'' \<or> scheme = ''https'') \<and> host \<noteq> [])"

lemma url_read: "raw \<noteq> [] \<Longrightarrow> absolute_url (parse_url raw) \<Longrightarrow> fst (urlEnv parse_url raw) = drop_slash raw"
  by (auto simp: urlEnv_def split: option.split)

text \<open>When a variable is at fault, in words of its own.\<close>

definition bad_number :: "(string \<Rightarrow> string) \<Rightarrow> (int \<Rightarrow> bool) \<Rightarrow> string \<Rightarrow> bool" where
  "bad_number env ok k \<longleftrightarrow> get_env env k \<noteq> [] \<and> (case ParseInt (get_env env k) of None \<Rightarrow> True | Some n \<Rightarrow> \<not> ok n)"

definition at_fault :: "(string \<Rightarrow> string) \<Rightarrow> (string \<Rightarrow> (string \<times> string) option) \<Rightarrow> (string \<Rightarrow> string) \<Rightarrow> string \<Rightarrow> bool" where
  "at_fault lower parse_url env k \<longleftrightarrow>
     k = ''PORT'' \<and> bad_number env (\<lambda>n. 0 < n) ''PORT'' \<or>
     k = ''SMTP_PORT'' \<and> bad_number env (\<lambda>n. 0 < n) ''SMTP_PORT'' \<or>
     k = ''LOG_FORMAT'' \<and> lower (get_env env ''LOG_FORMAT'') \<notin> {[], ''text'', ''json''} \<or>
     k = ''APP_ENV'' \<and> get_env env ''APP_ENV'' \<notin> {[], ''development'', ''test'', ''production''} \<or>
     k = ''DATABASE_POOL_SIZE'' \<and> bad_number env (\<lambda>n. 0 < n \<and> n \<le> 100) ''DATABASE_POOL_SIZE'' \<or>
     k = ''APP_URL'' \<and> (get_env env ''APP_URL'' = [] \<or> \<not> absolute_url (parse_url (get_env env ''APP_URL''))) \<or>
     k = ''DATABASE_URL'' \<and> get_env env ''DATABASE_URL'' = [] \<or>
     k = ''AUTH_SECRET'' \<and> length (get_env env ''AUTH_SECRET'') < 32 \<or>
     k = ''SMTP_HOST'' \<and> get_env env ''SMTP_HOST'' = [] \<or>
     k = ''ENABLE_TEST_ROUTES'' \<and> boolEnv env ''ENABLE_TEST_ROUTES'' False \<and> get_env env ''APP_ENV'' = ''production''"

lemma set_intEnv: "set (snd (intEnv env k def)) = (if bad_number env (\<lambda>n. 0 < n) k then {k} else {})"
  by (auto simp: intEnv_def bad_number_def Let_def split: option.splits)

lemma set_poolEnv: "set (snd (poolEnv env)) = (if bad_number env (\<lambda>n. 0 < n \<and> n \<le> 100) ''DATABASE_POOL_SIZE'' then {''DATABASE_POOL_SIZE''} else {})"
  by (auto simp: poolEnv_def bad_number_def Let_def split: option.splits)

lemma set_urlEnv: "set (snd (urlEnv parse_url raw)) = (if raw = [] \<or> \<not> absolute_url (parse_url raw) then {''APP_URL''} else {})"
  by (auto simp: urlEnv_def split: option.splits)

lemma app_env_production: "or_default ''development'' v = ''production'' \<longleftrightarrow> v = ''production''"
  by (simp add: or_default_def)

lemma set_log_format:
  "set (one_of ''LOG_FORMAT'' [''text'', ''json''] (or_default ''text'' v)) = (if v \<notin> {[], ''text'', ''json''} then {''LOG_FORMAT''} else {})"
  by (simp add: one_of_def or_default_def)

lemma set_app_env:
  "set (one_of ''APP_ENV'' [''development'', ''test'', ''production''] (or_default ''development'' v)) =
   (if v \<notin> {[], ''development'', ''test'', ''production''} then {''APP_ENV''} else {})"
  by (simp add: one_of_def or_default_def)

lemma mem_if_single: "x \<in> (if c then {a} else {}) \<longleftrightarrow> x = a \<and> c"
  by simp

lemma set_if_single: "set (if c then [a] else []) = (if c then {a} else {})"
  by simp

lemma load_errors_exact: "k \<in> set (load_errors lower parse_url env) \<longleftrightarrow> at_fault lower parse_url env k"
  unfolding load_errors_def Let_def set_append set_intEnv set_poolEnv set_urlEnv set_log_format set_app_env set_if_single
    app_env_production at_fault_def Un_iff mem_if_single
  by (rule refl)

lemma no_errors_ok:
  assumes "load_errors lower parse_url env = []"
  shows "config_ok sha256 (loaded lower parse_url sha256 env) \<and>
    cf_app_url (loaded lower parse_url sha256 env) = drop_slash (get_env env ''APP_URL'')"
proof -
  have fault: "\<not> at_fault lower parse_url env k" for k
    using load_errors_exact [of k lower parse_url env] assms by simp
  show ?thesis
    using fault [of "''LOG_FORMAT''"] fault [of "''APP_ENV''"] fault [of "''APP_URL''"] fault [of "''DATABASE_URL''"]
      fault [of "''AUTH_SECRET''"] fault [of "''SMTP_HOST''"] fault [of "''ENABLE_TEST_ROUTES''"]
    by (simp add: at_fault_def config_ok_def loaded_def Let_def intEnv_ok poolEnv_ok pair_ok oidc_triple_ok turnstile_pair_def
        google_pair_def app_env_production url_read) (auto simp: or_default_def)
qed

text \<open>C23: reading the configuration either fails, naming exactly the variables that are absent or malformed, or yields a
  configuration in which every number is positive and within its bound, everything required is there, the library's secret is
  the digest of the configured one, test routes are off in production, each integration is on exactly when all its parts are
  there, and the base address is the configured one less one trailing slash.\<close>

theorem config_load_exact:
  "case Load lower parse_url sha256 env of
     Inl es \<Rightarrow> es \<noteq> [] \<and> set es = {k. at_fault lower parse_url env k}
   | Inr (c, ws) \<Rightarrow> {k. at_fault lower parse_url env k} = {} \<and> config_ok sha256 c \<and>
       cf_app_url c = drop_slash (get_env env ''APP_URL'')"
proof (cases "load_errors lower parse_url env = []")
  case True
  then have "\<not> at_fault lower parse_url env k" for k
    using load_errors_exact [of k lower parse_url env] by simp
  then show ?thesis using no_errors_ok [OF True] True by (simp add: Load_def Let_def)
next
  case False
  then show ?thesis using load_errors_exact [of _ lower parse_url env] by (auto simp: Load_def Let_def)
qed

end
