(* ===== verification/AuthMail.thy ===== *)
theory AuthMail
  imports Sessions Mailer
begin

text \<open>
  Around the authentication library (\<^verbatim>\<open>internal/auth/{signup_hook,oidc_guard,auth}.go\<close>): what a sign-up leaves behind, the account mails, the guard on identity providers and the user data
  in session answers. Lower-casing, the library's address normalization and the reading of decimal fractions are parameters;
  a fraction that is not a number is read as none.
\<close>

section \<open>The language of a request\<close>

record web_request =
  wr_cookie :: "string option"
  wr_languages :: string

lemma matchLocale_supported: "matchLocale lower t = Some l \<Longrightarrow> l \<in> set SupportedMailLocales"
  unfolding matchLocale_def Let_def by (auto split: if_splits dest!: find_Some_iff [THEN iffD1] intro: nth_mem)

lemma RequestLocale_supported: "RequestLocale lower parse_float cookie header \<in> set SupportedMailLocales"
proof -
  have chosen: "l \<in> set SupportedMailLocales" if "List.map_filter (matchLocale lower) tags = l # ls" for tags l ls
  proof -
    have "l \<in> set (List.map_filter (matchLocale lower) tags)" by (simp add: that)
    then show ?thesis by (auto simp: List.map_filter_def dest: matchLocale_supported)
  qed
  have "hd SupportedMailLocales \<in> set SupportedMailLocales" by (simp add: SupportedMailLocales_def)
  then show ?thesis
    using chosen by (auto simp: RequestLocale_def bind_eq_Some_conv dest: matchLocale_supported split: option.split list.split)
qed

section \<open>Signing up\<close>

text \<open>The body's values where they are text.\<close>

record signup_request =
  sg_email :: "string option"
  sg_name :: "string option"
  sg_locale :: "string option"
  sg_web :: web_request

type_synonym pendingSignupProfile = "string option \<times> string"

definition requestLocale :: "(string \<Rightarrow> string) \<Rightarrow> (string \<Rightarrow> real option) \<Rightarrow> web_request \<Rightarrow> string option \<Rightarrow> string" where
  "requestLocale lower parse_float r bodyLocale =
     (case bodyLocale of
        Some l \<Rightarrow> if IsSupportedLocale l then l else RequestLocale lower parse_float (wr_cookie r) (wr_languages r)
      | None \<Rightarrow> RequestLocale lower parse_float (wr_cookie r) (wr_languages r))"

definition signupProfileFromRequest ::
  "(string \<Rightarrow> string) \<Rightarrow> (string \<Rightarrow> real option) \<Rightarrow> signup_request \<Rightarrow> pendingSignupProfile" where
  "signupProfileFromRequest lower parse_float r =
     ((case sg_name r of
         None \<Rightarrow> None
       | Some raw \<Rightarrow> if raw = [] then None else (case normalizeProfileName raw of (trimmed, ok) \<Rightarrow> if ok then Some trimmed else None)),
      requestLocale lower parse_float (sg_web r) (sg_locale r))"

definition beforeSignup ::
  "(string \<Rightarrow> string) \<Rightarrow> (string \<Rightarrow> real option) \<Rightarrow> (string \<Rightarrow> string) \<Rightarrow> signup_request \<Rightarrow>
   (string \<rightharpoonup> pendingSignupProfile) \<Rightarrow> (string \<rightharpoonup> pendingSignupProfile)" where
  "beforeSignup lower parse_float normal r waiting =
     (case sg_email r of
        None \<Rightarrow> waiting
      | Some email \<Rightarrow> if email = [] then waiting else waiting(normal email \<mapsto> signupProfileFromRequest lower parse_float r))"

text \<open>\<open>created\<close> is the id of the account the library made, if it made one.\<close>

definition afterSignup ::
  "(string \<Rightarrow> string) \<Rightarrow> (string \<Rightarrow> real option) \<Rightarrow> (string \<Rightarrow> string) \<Rightarrow> signup_request \<Rightarrow> int option \<Rightarrow>
   (string \<rightharpoonup> pendingSignupProfile) \<times> adb \<Rightarrow> (string \<rightharpoonup> pendingSignupProfile) \<times> adb" where
  "afterSignup lower parse_float normal r created = (\<lambda>(waiting, d).
     (waiting(normal (or_empty (sg_email r)) := None),
      (case created of
         None \<Rightarrow> d
       | Some uid \<Rightarrow>
           (let (name, locale) = signupProfileFromRequest lower parse_float r
            in case SetProfile (FormatInt uid) name (Some locale) d of Inl _ \<Rightarrow> d | Inr (_, d') \<Rightarrow> d'))))"

text \<open>Two sign-ups for one address cannot mix their profiles: what is stored does not depend on what else is pending.\<close>

lemma afterSignup_own:
  "snd (afterSignup lower parse_float normal r created (waiting, d)) =
   snd (afterSignup lower parse_float normal r created (other, d))"
  by (simp add: afterSignup_def)

lemma signup_name_fits:
  "signupProfileFromRequest lower parse_float r = (Some n, l) \<Longrightarrow> n \<noteq> [] \<and> length (runes n) \<le> maxProfileNameRunes"
  by (auto simp: signupProfileFromRequest_def normalizeProfileName_def Let_def split: option.splits if_splits prod.splits)

lemma signup_locale_supported: "IsSupportedLocale (snd (signupProfileFromRequest lower parse_float r))"
  using RequestLocale_supported [of lower parse_float "wr_cookie (sg_web r)" "wr_languages (sg_web r)"]
  by (auto simp: signupProfileFromRequest_def requestLocale_def IsSupportedLocale_def list_ex_iff split: option.split)

section \<open>Account mails\<close>

definition enqueueTokenMail ::
  "(string \<Rightarrow> string) \<Rightarrow> string \<Rightarrow> (string \<rightharpoonup> pendingSignupProfile) \<Rightarrow> string \<Rightarrow> string \<Rightarrow> string \<Rightarrow> string \<Rightarrow> adb \<Rightarrow> Message" where
  "enqueueTokenMail normal appURL waiting email template path token d =
     (let (name, locale) = (case waiting (normal email) of
            Some (n, l) \<Rightarrow> ((case n of Some x \<Rightarrow> x | None \<Rightarrow> nameFromEmail email), l)
          | None \<Rightarrow> (case profileByEmail normal email d of
                Inr (p, _) \<Rightarrow> (pf_name p, pf_locale p)
              | Inl _ \<Rightarrow> (nameFromEmail email, ''en'')))
      in \<lparr> ms_to = email, ms_to_name = [], ms_template = template,
           ms_data = [(''URL'', MText (appURL @ path @ ''?token='' @ token)), (''Name'', MText name), (''Locale'', MText locale)],
           ms_attachments = [] \<rparr>)"

record invitation_mail =
  im_email :: string
  im_token :: string
  im_org :: string
  im_inviter :: "(int \<times> string) option"

definition enqueueInviteMail :: "(string \<Rightarrow> string) \<Rightarrow> string \<Rightarrow> invitation_mail \<Rightarrow> adb \<Rightarrow> Message" where
  "enqueueInviteMail normal appURL i d =
     (let (inviterName, locale) = (case im_inviter i of
            None \<Rightarrow> ([], ''en'')
          | Some (uid, email) \<Rightarrow> (case GetProfile (FormatInt uid) d of
                Inr (p, _) \<Rightarrow> (pf_name p, pf_locale p)
              | Inl _ \<Rightarrow> (nameFromEmail email, ''en'')));
          locale' = (case profileByEmail normal (im_email i) d of Inr (p, _) \<Rightarrow> pf_locale p | Inl _ \<Rightarrow> locale)
      in \<lparr> ms_to = im_email i, ms_to_name = [], ms_template = ''org_invite'',
           ms_data = [(''URL'', MText (appURL @ ''/accept-invitation/'' @ im_token i)), (''InviterName'', MText inviterName),
             (''OrgName'', MText (im_org i)), (''Locale'', MText locale')], ms_attachments = [] \<rparr>)"

section \<open>Identity providers\<close>

record ProviderUserInfo =
  pu_email :: string
  pu_verified :: bool

datatype oidc_error = UnknownProvider | ProviderFailed | EmailUnverified

text \<open>\<open>providers\<close>: by name, what the provider says of the token's user; \<open>None\<close> is an error, \<open>Some None\<close> no profile.\<close>

definition verifiedEmailUserInfo ::
  "(string \<times> (string \<Rightarrow> ProviderUserInfo option option)) list \<Rightarrow> string \<Rightarrow> string \<Rightarrow> string \<Rightarrow> oidc_error + ProviderUserInfo option" where
  "verifiedEmailUserInfo providers guarded name token =
     (case map_of (rev providers) name of
        None \<Rightarrow> Inl UnknownProvider
      | Some p \<Rightarrow>
          (case p token of
             None \<Rightarrow> Inl ProviderFailed
           | Some info \<Rightarrow>
               if name = guarded \<and> (case info of None \<Rightarrow> True | Some i \<Rightarrow> \<not> pu_verified i) then Inl EmailUnverified else Inr info))"

lemma guarded_verified:
  "verifiedEmailUserInfo providers guarded guarded token = Inr info \<Longrightarrow> \<exists>i. info = Some i \<and> pu_verified i"
  by (auto simp: verifiedEmailUserInfo_def split: option.splits if_splits)

section \<open>Session answers\<close>

definition lookupSessionExtras :: "bool \<Rightarrow> int \<Rightarrow> adb \<Rightarrow> bool \<times> string" where
  "lookupSessionExtras db_ok uid d =
     (if db_ok then (uid \<in> set (a_staff d), normalizeLocale (case map_of (a_locales d) uid of None \<Rightarrow> ''en'' | Some l \<Rightarrow> l))
      else (False, ''en''))"

datatype raw_value = RNull | RText string | RInt int | RBool bool | RTime instant

definition raw_text :: "raw_value option \<Rightarrow> string" where
  "raw_text v = (case v of Some (RText s) \<Rightarrow> s | _ \<Rightarrow> [])"

definition present :: "raw_value option \<Rightarrow> bool" where
  "present v \<longleftrightarrow> v \<noteq> None \<and> v \<noteq> Some RNull"

text \<open>The row of the user, by column, whose id is a bigint.\<close>

definition sessionTransformer :: "bool \<Rightarrow> int \<Rightarrow> (string \<rightharpoonup> raw_value) \<Rightarrow> adb \<Rightarrow> (string \<rightharpoonup> raw_value)" where
  "sessionTransformer db_ok uid user d =
     (let (staff, locale) = lookupSessionExtras db_ok uid d
      in (user(''hasPassword'' \<mapsto> RBool (present (user ''password'')), ''password'' := None))
           (''id'' \<mapsto> RText (FormatInt uid), ''isStaff'' \<mapsto> RBool staff, ''locale'' \<mapsto> RText locale,
            ''name'' \<mapsto> RText (DisplayName (raw_text (user ''first_name'')) (raw_text (user ''last_name'')) (raw_text (user ''email''))),
            ''emailVerified'' \<mapsto> RBool (present (user ''email_verified_at''))))"

text \<open>The hash never leaves, and nothing in the answer depends on it but whether there is one.\<close>

lemma session_answer_private:
  assumes "present p \<longleftrightarrow> present (user ''password'')"
  shows "sessionTransformer db_ok uid user d ''password'' = None \<and>
    sessionTransformer db_ok uid (user(''password'' := p)) d = sessionTransformer db_ok uid user d"
  using assms by (auto simp: sessionTransformer_def fun_eq_iff split: prod.split)

end
