(* ===== verification/Spec2Isabelle.thy ===== *)
theory Spec2Isabelle
  imports RateLimit DataExport GoogleSync Listener WsConn Stats WsRoutes Containment PollRuns Decisions ClaimRules DigestRuns FinalizeMail Presence BookMail PollMail PublicSlots BookReminders Consent Config AuthMail
begin

text \<open>
  A development beside the poll and booking server (\<^verbatim>\<open>cmd\<close>, \<^verbatim>\<open>internal\<close>).
\<close>

end
